(* ===== verification/Ports_Prelude.thy ===== *)
theory Ports_Prelude
  imports Main "HOL-Library.Word" "HOL-Library.Multiset"
begin

text \<open>
  Shared vocabulary of the development: machine integers at the widths the C++ code uses, the
  faults that end an execution abnormally, the part of \<open>std::unordered_map\<close> the code uses (as an
  association list, so that the iteration order is explicit), runs of consecutive sequence
  numbers, and the generic lemmas that the component theories share.
\<close>

section \<open>Machine integers\<close>

type_synonym uint8_t = "8 word"
type_synonym uint16_t = "16 word"
type_synonym uint32_t = "32 word"
type_synonym uint64_t = "64 word"
type_synonym size_t = "64 word"

text \<open>Handles of the operating system are opaque numbers.\<close>

type_synonym PlatformHandle = nat

section \<open>Faults\<close>

text \<open>
  An operation either returns or ends in a fault: a failed \<open>CHECK\<close> (which aborts the process),
  a null pointer that is dereferenced, an access beyond an array, a division by zero, or a lock that
  is acquired while it is held by the same thread or released while it is not held.  \<open>DCHECK\<close>s are compiled out of release builds; the
  model follows the release build and the development proves the conditions separately.
\<close>

datatype fault = CheckFailure | NullPointer | OutOfBounds | DivideByZero | LockMisuse

text \<open>Facts that unfold the model's operations, for \<open>simp add:\<close>.\<close>

named_theorems mojo_defs "definitions of the model's operations"
named_theorems mojo_inv "preservation of the components' invariants"

lemma exI2: "P a b \<Longrightarrow> \<exists>x y. P x y"
  by blast

section \<open>The unordered map as an association list\<close>

definition um_insert :: "'k \<Rightarrow> 'v \<Rightarrow> ('k \<times> 'v) list \<Rightarrow> ('k \<times> 'v) list" where
  "um_insert k v m = (case map_of m k of None \<Rightarrow> m @ [(k, v)] | Some _ \<Rightarrow> m)"

definition um_erase :: "'k \<Rightarrow> ('k \<times> 'v) list \<Rightarrow> ('k \<times> 'v) list" where
  "um_erase k m = filter (\<lambda>e. fst e \<noteq> k) m"

lemma map_of_um_insert [simp]:
  "map_of (um_insert k v m) j = (if j = k \<and> map_of m k = None then Some v else map_of m j)"
  by (auto simp: um_insert_def map_add_def split: option.splits)

lemma map_of_um_erase [simp]: "map_of (um_erase k m) j = (if j = k then None else map_of m j)"
  by (induction m) (auto simp: um_erase_def)

lemma fst_set_um_erase [simp]: "fst ` set (um_erase k m) = fst ` set m - {k}"
  by (auto simp: um_erase_def)

lemma fst_set_um_insert [simp]: "fst ` set (um_insert k v m) = insert k (fst ` set m)"
  by (auto simp: um_insert_def map_of_eq_None_iff split: option.splits dest: map_of_SomeD
      intro: rev_image_eqI)

lemma set_um_insert_new: "map_of m k = None \<Longrightarrow> set (um_insert k v m) = insert (k, v) (set m)"
  by (simp add: um_insert_def)

lemma distinct_um_erase [simp]:
  "distinct (map fst m) \<Longrightarrow> distinct (map fst (um_erase k m))"
  by (induction m) (auto simp: um_erase_def)

lemma distinct_um_insert [simp]:
  "distinct (map fst m) \<Longrightarrow> distinct (map fst (um_insert k v m))"
  by (auto simp: um_insert_def map_of_eq_None_iff split: option.splits)

lemma set_um_erase: "set (um_erase k m) = {e \<in> set m. fst e \<noteq> k}"
  by (simp add: um_erase_def)

lemma length_um_erase_less: "map_of m k \<noteq> None \<Longrightarrow> length (um_erase k m) < length m"
  by (induction m) (auto simp: um_erase_def less_Suc_eq_le split: if_splits)

lemma length_um_erase_le: "length (um_erase k m) \<le> length m"
  by (simp add: um_erase_def)

section \<open>Runs of consecutive sequence numbers\<close>

fun seq_from :: "'a::len word \<Rightarrow> nat \<Rightarrow> 'a word list" where
  "seq_from s 0 = []"
| "seq_from s (Suc n) = s # seq_from (s + 1) n"

lemma length_seq_from [simp]: "length (seq_from s n) = n"
  by (induction n arbitrary: s) auto

lemma seq_from_append: "seq_from s (m + n) = seq_from s m @ seq_from (s + of_nat m) n"
  by (induction m arbitrary: s) (auto simp: algebra_simps)

lemma seq_from_nth: "i < n \<Longrightarrow> seq_from s n ! i = s + of_nat i"
proof (induction n arbitrary: s i)
  case 0
  then show ?case by simp
next
  case (Suc n)
  then show ?case by (cases i) (auto simp: algebra_simps)
qed

lemma unat_add_of_nat:
  fixes s :: "'a::len word"
  assumes "unat s + k < 2 ^ LENGTH('a)"
  shows "unat (s + of_nat k) = unat s + k"
  using assms by (simp add: unat_word_ariths unat_of_nat)

lemma unat_Suc_word:
  fixes s :: "'a::len word"
  assumes "unat s + 1 < 2 ^ LENGTH('a)"
  shows "unat (s + 1) = Suc (unat s)"
  using unat_add_of_nat [of s 1] assms by simp

end
