(* ===== verification/Ports_Name.thy ===== *)
theory Ports_Name
  imports Ports_Prelude
begin

unbundle bit_operations_syntax

text \<open>
  Port and node names (\<open>ports/name.h\<close>, \<open>ports/name.cc\<close>) and the hash functions that key the
  node's tables (\<open>ports/hash_functions.h\<close>).  \<open>std::hash<uint64_t>\<close> is an implementation-defined
  function of the library, hence a parameter of the hash definitions.
\<close>

section \<open>Names\<close>

datatype Name = Name (v1: uint64_t) (v2: uint64_t)

type_synonym PortName = Name
type_synonym NodeName = Name

definition Name_eq :: "Name \<Rightarrow> Name \<Rightarrow> bool" where
  "Name_eq a b \<longleftrightarrow> v1 a = v1 b \<and> v2 a = v2 b"

definition Name_ne :: "Name \<Rightarrow> Name \<Rightarrow> bool" where
  "Name_ne a b \<longleftrightarrow> \<not> Name_eq a b"

definition kInvalidPortName :: PortName where
  "kInvalidPortName = Name 0 0"

definition kInvalidNodeName :: NodeName where
  "kInvalidNodeName = Name 0 0"

lemma Name_eq_iff [simp]: "Name_eq a b \<longleftrightarrow> a = b"
  by (cases a; cases b) (simp add: Name_eq_def)

lemma Name_ne_iff [simp]: "Name_ne a b \<longleftrightarrow> a \<noteq> b"
  by (simp add: Name_ne_def)

section \<open>Hashing\<close>

definition hash_PortName :: "(uint64_t \<Rightarrow> size_t) \<Rightarrow> PortName \<Rightarrow> size_t" where
  "hash_PortName hash_u64 name =
     (let h1 = hash_u64 (v1 name); h2 = hash_u64 (v2 name) in h1 XOR push_bit 1 h2)"

definition hash_NodeName :: "(uint64_t \<Rightarrow> size_t) \<Rightarrow> NodeName \<Rightarrow> size_t" where
  "hash_NodeName hash_u64 name =
     (let h1 = hash_u64 (v1 name); h2 = hash_u64 (v2 name) in h1 XOR push_bit 1 h2)"

section \<open>Printing\<close>

text \<open>\<open>std::hex << std::uppercase\<close> of an unsigned integer.\<close>

definition hex_digit :: "nat \<Rightarrow> char" where
  "hex_digit d = ''0123456789ABCDEF'' ! d"

fun hex_string :: "nat \<Rightarrow> string" where
  "hex_string n = (if n < 16 then [hex_digit n] else hex_string (n div 16) @ [hex_digit (n mod 16)])"

declare hex_string.simps [simp del]

definition show_Name :: "Name \<Rightarrow> string" where
  "show_Name name =
     hex_string (unat (v1 name)) @ (if v2 name \<noteq> 0 then ''.'' @ hex_string (unat (v2 name)) else [])"

section \<open>The printed form identifies the name\<close>

definition hex_value :: "char \<Rightarrow> nat" where
  "hex_value c = (if of_char c < (58::nat) then of_char c - 48 else of_char c - 55)"

lemma hex_digit_cases: "d < 16 \<Longrightarrow> d \<in> {0,1,2,3,4,5,6,7,8,9,10,11,12,13,14,15}" for d :: nat
  by (simp, arith)

lemma hex_value_digit: "d < 16 \<Longrightarrow> hex_value (hex_digit d) = d"
  by (drule hex_digit_cases) (auto simp: hex_value_def hex_digit_def)

lemma hex_digit_not_dot: "d < 16 \<Longrightarrow> hex_digit d \<noteq> CHR ''.''"
  by (drule hex_digit_cases) (auto simp: hex_digit_def)

fun hex_parse :: "nat \<Rightarrow> string \<Rightarrow> nat" where
  "hex_parse acc [] = acc"
| "hex_parse acc (c # cs) = hex_parse (acc * 16 + hex_value c) cs"

lemma hex_parse_append: "hex_parse acc (xs @ ys) = hex_parse (hex_parse acc xs) ys"
  by (induction xs arbitrary: acc) auto

lemma hex_parse_string: "hex_parse 0 (hex_string n) = n"
proof (induction n rule: hex_string.induct)
  case (1 n)
  show ?case
  proof (cases "n < 16")
    case True
    then show ?thesis by (subst hex_string.simps) (simp add: hex_value_digit)
  next
    case False
    with 1 have "hex_parse 0 (hex_string (n div 16)) = n div 16" by simp
    with False show ?thesis
      by (subst hex_string.simps) (simp add: hex_parse_append hex_value_digit)
  qed
qed

lemma hex_string_no_dot: "CHR ''.'' \<notin> set (hex_string n)"
proof (induction n rule: hex_string.induct)
  case (1 n)
  then show ?case
    using hex_digit_not_dot [of n] hex_digit_not_dot [of "n mod 16"]
    by (subst hex_string.simps) auto
qed

lemma takeWhile_show_Name: "takeWhile (\<lambda>c. c \<noteq> CHR ''.'') (show_Name a) = hex_string (unat (v1 a))"
proof -
  have "\<forall>c \<in> set (hex_string (unat (v1 a))). c \<noteq> CHR ''.''"
    using hex_string_no_dot by blast
  then show ?thesis
    by (simp add: show_Name_def takeWhile_append2)
qed

lemma dropWhile_show_Name:
  "dropWhile (\<lambda>c. c \<noteq> CHR ''.'') (show_Name a) =
     (if v2 a \<noteq> 0 then ''.'' @ hex_string (unat (v2 a)) else [])"
proof -
  have "\<forall>c \<in> set (hex_string (unat (v1 a))). c \<noteq> CHR ''.''"
    using hex_string_no_dot by blast
  then show ?thesis
    by (simp add: show_Name_def dropWhile_append2)
qed

definition parse_Name :: "string \<Rightarrow> Name" where
  "parse_Name s =
     Name (of_nat (hex_parse 0 (takeWhile (\<lambda>c. c \<noteq> CHR ''.'') s)))
       (of_nat (hex_parse 0 (drop 1 (dropWhile (\<lambda>c. c \<noteq> CHR ''.'') s))))"

text \<open>
  Names print without loss.  The printed form of a name (upper-case hexadecimal \<open>v1\<close>,
  followed by a dot and \<open>v2\<close> only when \<open>v2\<close> is not zero) can be read back to the name, so two
  names that log alike are the same name.
\<close>

theorem show_Name_roundtrip: "parse_Name (show_Name a) = a"
  by (cases a)
    (simp add: parse_Name_def takeWhile_show_Name dropWhile_show_Name hex_parse_string)

end
