(* ===== verification/Ports_Message.thy ===== *)
theory Ports_Message
  imports Ports_Name
begin

text \<open>
  Events and messages of the ports library (\<open>ports/event.h\<close>, \<open>ports/message.h\<close>).  A message is a
  header (destination port and event), the names of the ports it carries and a payload; the byte
  layout of the same data is in theory \<open>Ports_Wire\<close>.
\<close>

section \<open>Events\<close>

record PortDescriptor =
  pd_peer_node_name :: NodeName
  pd_peer_port_name :: PortName
  pd_referring_node_name :: NodeName
  pd_referring_port_name :: PortName
  pd_next_sequence_num_to_send :: uint64_t
  pd_next_sequence_num_to_receive :: uint64_t
  pd_last_sequence_num_to_receive :: uint64_t
  pd_peer_closed :: bool

datatype EventType = kUser | kPortAccepted | kObserveProxy | kObserveProxyAck | kObserveClosure

record ObserveProxyEventData =
  proxy_node_name :: NodeName
  proxy_port_name :: PortName
  proxy_to_node_name :: NodeName
  proxy_to_port_name :: PortName

text \<open>
  The data that follows the event header, by type: for a user event the sequence number and one
  descriptor per port, for the acknowledgement and closure events the last sequence number.
\<close>

datatype EventData =
    UserEvent (ev_sequence_num: uint64_t) (ev_descriptors: "PortDescriptor list")
  | PortAccepted
  | ObserveProxy ObserveProxyEventData
  | ObserveProxyAck uint64_t
  | ObserveClosure uint64_t

fun event_type :: "EventData \<Rightarrow> EventType" where
  "event_type (UserEvent _ _) = kUser"
| "event_type PortAccepted = kPortAccepted"
| "event_type (ObserveProxy _) = kObserveProxy"
| "event_type (ObserveProxyAck _) = kObserveProxyAck"
| "event_type (ObserveClosure _) = kObserveClosure"

section \<open>Messages\<close>

text \<open>
  The messages of the system layer (\<open>PortsMessage\<close>) also carry platform handles, which a node passes on
  untouched and which travel next to the bytes of a message.
\<close>

record Message =
  header_port_name :: PortName
  event_data :: EventData
  msg_ports :: "PortName list"
  msg_payload :: "uint8_t list"
  msg_handles :: "PlatformHandle list"

definition num_ports :: "Message \<Rightarrow> nat" where
  "num_ports m = length (msg_ports m)"

definition GetSequenceNum :: "Message \<Rightarrow> uint64_t" where
  "GetSequenceNum m =
     (case event_data m of
        UserEvent n _ \<Rightarrow> n
      | PortAccepted \<Rightarrow> 0
      | ObserveProxy _ \<Rightarrow> 0
      | ObserveProxyAck n \<Rightarrow> n
      | ObserveClosure n \<Rightarrow> n)"

definition set_sequence_num :: "uint64_t \<Rightarrow> Message \<Rightarrow> Message" where
  "set_sequence_num n m =
     m\<lparr>event_data := (case event_data m of UserEvent _ ds \<Rightarrow> UserEvent n ds | e \<Rightarrow> e)\<rparr>"

definition is_user :: "Message \<Rightarrow> bool" where
  "is_user m \<longleftrightarrow> event_type (event_data m) = kUser"

lemma is_user_iff: "is_user m \<longleftrightarrow> (\<exists>n ds. event_data m = UserEvent n ds)"
  by (cases "event_data m") (auto simp: is_user_def)

lemma GetSequenceNum_set [simp]: "is_user m \<Longrightarrow> GetSequenceNum (set_sequence_num n m) = n"
  by (auto simp: is_user_iff GetSequenceNum_def set_sequence_num_def)

lemma is_user_set_sequence_num [simp]: "is_user (set_sequence_num n m) = is_user m"
  by (cases "event_data m") (auto simp: is_user_def set_sequence_num_def)

lemma set_sequence_num_frame [simp]:
  "msg_ports (set_sequence_num n m) = msg_ports m"
  "msg_payload (set_sequence_num n m) = msg_payload m" "msg_handles (set_sequence_num n m) = msg_handles m"
  "header_port_name (set_sequence_num n m) = header_port_name m"
  by (simp_all add: set_sequence_num_def)

text \<open>
  A user message the embedder has not sent yet: sequence number 0 and zeroed descriptors, as
  \<open>Message::InitializeUserMessageHeader\<close> leaves the header.
\<close>

definition zero_PortDescriptor :: PortDescriptor where
  "zero_PortDescriptor =
     \<lparr>pd_peer_node_name = Name 0 0, pd_peer_port_name = Name 0 0,
      pd_referring_node_name = Name 0 0, pd_referring_port_name = Name 0 0,
      pd_next_sequence_num_to_send = 0, pd_next_sequence_num_to_receive = 0,
      pd_last_sequence_num_to_receive = 0, pd_peer_closed = False\<rparr>"

definition NewUserMessage :: "PortName list \<Rightarrow> uint8_t list \<Rightarrow> Message" where
  "NewUserMessage ps bytes =
     \<lparr>header_port_name = Name 0 0,
      event_data = UserEvent 0 (replicate (length ps) zero_PortDescriptor),
      msg_ports = ps, msg_payload = bytes, msg_handles = []\<rparr>"

text \<open>\<open>Node::NewInternalMessage\<close>: a header for a port, with no ports and no payload.\<close>

definition NewInternalMessage :: "PortName \<Rightarrow> EventData \<Rightarrow> Message" where
  "NewInternalMessage port_name e =
     \<lparr>header_port_name = port_name, event_data = e, msg_ports = [], msg_payload = [], msg_handles = []\<rparr>"

lemma NewUserMessage_simps [simp]:
  "is_user (NewUserMessage ps bytes)" "GetSequenceNum (NewUserMessage ps bytes) = 0"
  "msg_ports (NewUserMessage ps bytes) = ps" "msg_payload (NewUserMessage ps bytes) = bytes"
  "msg_handles (NewUserMessage ps bytes) = []"
  by (simp_all add: NewUserMessage_def is_user_def GetSequenceNum_def)

lemma NewInternalMessage_simps [simp]:
  "header_port_name (NewInternalMessage p e) = p" "event_data (NewInternalMessage p e) = e"
  "msg_ports (NewInternalMessage p e) = []" "msg_payload (NewInternalMessage p e) = []"
  "msg_handles (NewInternalMessage p e) = []"
  by (simp_all add: NewInternalMessage_def)

end
