(* ===== verification/Byte_Layout.thy ===== *)
theory Byte_Layout
  imports Ports_Message
begin

text \<open>
  Fixed-size data in memory.  The C++ code writes and reads structures in place, through pointers into
  a byte buffer; on the little-endian machines it runs on, an integer is its bytes with the lowest
  first.  The locale \<open>codec\<close> is what a reader relies on: a layout of a fixed size from which the value
  is read back whatever bytes follow it.
\<close>

section \<open>Integers\<close>

fun le_bytes :: "nat \<Rightarrow> 'a::len word \<Rightarrow> uint8_t list" where
  "le_bytes 0 w = []"
| "le_bytes (Suc n) w = ucast w # le_bytes n (drop_bit 8 w)"

fun le_word :: "uint8_t list \<Rightarrow> 'a::len word" where
  "le_word [] = 0"
| "le_word (b # bs) = (ucast b OR push_bit 8 (le_word bs))"

lemma length_le_bytes [simp]: "length (le_bytes n w) = n"
  by (induction n arbitrary: w) auto

lemma le_word_le_bytes: "le_word (le_bytes n w) = take_bit (8 * n) w"
proof (induction n arbitrary: w)
  case 0
  then show ?case by simp
next
  case (Suc n)
  show ?case
    by (rule bit_eqI)
      (auto simp: Suc bit_or_iff bit_push_bit_iff bit_take_bit_iff bit_drop_bit_eq bit_ucast_iff)
qed

section \<open>Layouts\<close>

text \<open>Field \<open>n\<close> bytes long at an offset.\<close>

definition field :: "nat \<Rightarrow> nat \<Rightarrow> uint8_t list \<Rightarrow> uint8_t list" where
  "field off n bs = take n (drop off bs)"

text \<open>An array of \<open>k\<close> elements, each \<open>sz\<close> bytes long.\<close>

definition read_array :: "(uint8_t list \<Rightarrow> 'a) \<Rightarrow> nat \<Rightarrow> nat \<Rightarrow> uint8_t list \<Rightarrow> 'a list" where
  "read_array dec sz k bs = map (\<lambda>i. dec (drop (i * sz) bs)) [0..<k]"

definition write_array :: "('a \<Rightarrow> uint8_t list) \<Rightarrow> 'a list \<Rightarrow> uint8_t list" where
  "write_array enc xs = concat (map enc xs)"

locale codec =
  fixes enc :: "'a \<Rightarrow> uint8_t list" and dec :: "uint8_t list \<Rightarrow> 'a" and sz :: nat
  assumes enc_length: "length (enc x) = sz"
    and dec_enc: "dec (enc x @ bs) = x"
begin

lemma array_length: "length (write_array enc xs) = length xs * sz"
  by (induction xs) (auto simp: write_array_def enc_length)

lemma array_roundtrip: "read_array dec sz (length xs) (write_array enc xs @ bs) = xs"
proof (rule nth_equalityI)
  fix i
  assume "i < length (read_array dec sz (length xs) (write_array enc xs @ bs))"
  then have i: "i < length xs" by (simp add: read_array_def)
  let ?pre = "write_array enc (take i xs)"
  have xs: "take i xs @ xs ! i # drop (Suc i) xs = xs" using id_take_nth_drop [OF i] by simp
  have "write_array enc (take i xs @ xs ! i # drop (Suc i) xs) =
      ?pre @ enc (xs ! i) @ write_array enc (drop (Suc i) xs)"
    by (simp add: write_array_def)
  then have "write_array enc xs @ bs = ?pre @ enc (xs ! i) @ write_array enc (drop (Suc i) xs) @ bs"
    unfolding xs by simp
  moreover have "length ?pre = i * sz" using i by (simp add: array_length)
  ultimately show "read_array dec sz (length xs) (write_array enc xs @ bs) ! i = xs ! i"
    using i by (simp add: read_array_def dec_enc)
qed (simp add: read_array_def)

lemma dec_skip: "length pre = n \<Longrightarrow> dec (drop n (pre @ enc x @ bs)) = x"
  by (simp add: dec_enc)

end

definition read_u32 :: "uint8_t list \<Rightarrow> uint32_t" where "read_u32 bs = le_word (field 0 4 bs)"
definition read_u64 :: "uint8_t list \<Rightarrow> uint64_t" where "read_u64 bs = le_word (field 0 8 bs)"
definition write_u32 :: "uint32_t \<Rightarrow> uint8_t list" where "write_u32 = le_bytes 4"
definition write_u64 :: "uint64_t \<Rightarrow> uint8_t list" where "write_u64 = le_bytes 8"

lemma take_bit_full [simp]:
  "take_bit 32 (w :: uint32_t) = w" "take_bit 64 (v :: uint64_t) = v"
  by (auto intro!: bit_eqI simp: bit_take_bit_iff dest: bit_imp_le_length)

interpretation u32: codec write_u32 read_u32 4
  by unfold_locales (simp_all add: write_u32_def read_u32_def field_def le_word_le_bytes del: le_bytes.simps)

interpretation u64: codec write_u64 read_u64 8
  by unfold_locales (simp_all add: write_u64_def read_u64_def field_def le_word_le_bytes del: le_bytes.simps)

definition write_Name :: "Name \<Rightarrow> uint8_t list" where
  "write_Name nm = write_u64 (v1 nm) @ write_u64 (v2 nm)"

definition read_Name :: "uint8_t list \<Rightarrow> Name" where
  "read_Name bs = Name (read_u64 bs) (read_u64 (drop 8 bs))"

interpretation name: codec write_Name read_Name 16
proof
  fix x bs
  have "drop 8 ((write_u64 (v1 x) @ write_u64 (v2 x)) @ bs) = write_u64 (v2 x) @ bs"
    by (simp add: u64.enc_length)
  then show "read_Name (write_Name x @ bs) = x"
    by (simp add: read_Name_def write_Name_def u64.dec_enc u64.enc_length)
qed (simp add: write_Name_def u64.enc_length)

lemmas layout_simps = u32.enc_length u64.enc_length name.enc_length u32.dec_enc u64.dec_enc name.dec_enc

end
