(* ===== verification/Channel.thy ===== *)
theory Channel
  imports Byte_Layout "HOL-Library.Sublist"
begin

text \<open>
  The channel (\<open>channel.h\<close>, \<open>channel.cc\<close>): delimited messages over a byte stream.  A message is a header
  (its size, the number of attached handles), a payload and a vector of platform handles.  The read
  side collects the bytes that arrive in a \<open>ReadBuffer\<close> and hands complete messages to the delegate.

  Platform handles are opaque values \<open>'h\<close>.  The delegate is a parameter: its state \<open>'d\<close> and a step
  \<open>on_message\<close> that returns \<open>None\<close> when the delegate shuts the channel down.  Handles that arrived with
  the bytes wait in \<open>incoming\<close> (on POSIX, \<open>incoming_platform_handles_\<close>).
\<close>

section \<open>Messages\<close>

definition kChannelMessageAlignment :: nat where "kChannelMessageAlignment = 8"
definition kReadBufferSize :: nat where "kReadBufferSize = 4096"
definition kMaxUnusedReadBufferCapacity :: nat where "kMaxUnusedReadBufferCapacity = 256 * 1024"
definition kMaxChannelMessageSize :: nat where "kMaxChannelMessageSize = 256 * 1024 * 1024"
definition sizeof_Header :: nat where "sizeof_Header = 8"

definition write_u16 :: "uint16_t \<Rightarrow> uint8_t list" where "write_u16 = le_bytes 2"
definition read_u16 :: "uint8_t list \<Rightarrow> uint16_t" where "read_u16 bs = le_word (field 0 2 bs)"

lemma take_bit_full_16 [simp]: "take_bit 16 (w :: uint16_t) = w"
  by (auto intro!: bit_eqI simp: bit_take_bit_iff dest: bit_imp_le_length)

interpretation u16: codec write_u16 read_u16 2
  by unfold_locales (simp_all add: write_u16_def read_u16_def field_def le_word_le_bytes del: le_bytes.simps)

record Header =
  num_bytes :: uint32_t
  num_handles :: uint16_t

definition write_Header :: "Header \<Rightarrow> uint8_t list" where
  "write_Header h = write_u32 (num_bytes h) @ write_u16 (num_handles h) @ write_u16 0"

definition read_Header :: "uint8_t list \<Rightarrow> Header" where
  "read_Header bs = \<lparr>num_bytes = read_u32 bs, num_handles = read_u16 (drop 4 bs)\<rparr>"

interpretation header: codec write_Header read_Header 8
  by unfold_locales (simp_all add: write_Header_def read_Header_def layout_simps u16.enc_length u16.dec_enc)

record 'h ChannelMessage =
  cm_header :: Header
  cm_payload :: "uint8_t list"
  handle_vector :: "'h list option"

text \<open>The constructor, with the payload the caller then writes; sizes are truncated to the header's fields.\<close>

definition ChannelMessage_new :: "uint8_t list \<Rightarrow> nat \<Rightarrow> 'h ChannelMessage" where
  "ChannelMessage_new payload n =
     \<lparr>cm_header = \<lparr>num_bytes = of_nat (length payload + sizeof_Header), num_handles = of_nat n\<rparr>,
      cm_payload = payload, handle_vector = None\<rparr>"

definition message_data :: "'h ChannelMessage \<Rightarrow> uint8_t list" where
  "message_data m = write_Header (cm_header m) @ cm_payload m"

definition payload_size :: "'h ChannelMessage \<Rightarrow> size_t" where
  "payload_size m = ucast (num_bytes (cm_header m)) - of_nat sizeof_Header"

definition SetHandles :: "'h list option \<Rightarrow> 'h ChannelMessage \<Rightarrow> fault + 'h ChannelMessage" where
  "SetHandles new_handles m =
     (if num_handles (cm_header m) = 0
      then if new_handles = None \<or> new_handles = Some [] then Inr m else Inl CheckFailure
      else (case new_handles of
              None \<Rightarrow> Inl CheckFailure
            | Some hs \<Rightarrow> if length hs \<noteq> unat (num_handles (cm_header m)) then Inl CheckFailure
                         else Inr (m\<lparr>handle_vector := Some hs\<rparr>)))"

definition TakeHandles :: "'h ChannelMessage \<Rightarrow> 'h list option \<times> 'h ChannelMessage" where
  "TakeHandles m = (handle_vector m, m\<lparr>handle_vector := None\<rparr>)"

section \<open>The read buffer\<close>

text \<open>
  The occupied part of the buffer, discarded bytes included; what lies beyond it has no defined
  contents.  \<open>rb_size\<close> is the allocated size.
\<close>

record ReadBuffer =
  rb_bytes :: "uint8_t list"
  rb_size :: nat
  rb_discarded :: nat

definition ReadBuffer_init :: ReadBuffer where
  "ReadBuffer_init = \<lparr>rb_bytes = [], rb_size = kReadBufferSize, rb_discarded = 0\<rparr>"

definition occupied_bytes :: "ReadBuffer \<Rightarrow> uint8_t list" where
  "occupied_bytes b = drop (rb_discarded b) (rb_bytes b)"

definition num_occupied_bytes :: "ReadBuffer \<Rightarrow> nat" where
  "num_occupied_bytes b = length (rb_bytes b) - rb_discarded b"

definition Reserve :: "nat \<Rightarrow> ReadBuffer \<Rightarrow> ReadBuffer" where
  "Reserve n b =
     (if length (rb_bytes b) + n > rb_size b
      then b\<lparr>rb_size := max (rb_size b * 2) (length (rb_bytes b) + n)\<rparr> else b)"

text \<open>Bytes written by the caller into the reserved space become occupied.\<close>

definition Claim :: "uint8_t list \<Rightarrow> ReadBuffer \<Rightarrow> ReadBuffer" where
  "Claim bytes b = b\<lparr>rb_bytes := rb_bytes b @ bytes\<rparr>"

definition Discard :: "nat \<Rightarrow> ReadBuffer \<Rightarrow> ReadBuffer" where
  "Discard n b =
     (let b1 = b\<lparr>rb_discarded := rb_discarded b + n\<rparr>;
          b2 = (if rb_discarded b1 = length (rb_bytes b1) then b1\<lparr>rb_discarded := 0, rb_bytes := []\<rparr> else b1)
      in if rb_discarded b2 > kMaxUnusedReadBufferCapacity
         then let num_preserved_bytes = length (rb_bytes b2) - rb_discarded b2
              in \<lparr>rb_bytes = drop (rb_discarded b2) (rb_bytes b2),
                  rb_size = max num_preserved_bytes kReadBufferSize, rb_discarded = 0\<rparr>
         else b2)"

definition rb_inv :: "ReadBuffer \<Rightarrow> bool" where
  "rb_inv b \<longleftrightarrow> rb_discarded b \<le> length (rb_bytes b) \<and> length (rb_bytes b) \<le> rb_size b"

text \<open>
  The buffer is a queue of bytes: the occupied bytes are what was claimed and not yet discarded, and
  the bookkeeping (reuse from the start, moving to a smaller buffer) never changes them.
\<close>

lemma read_buffer_ops:
  assumes "rb_inv b"
  shows "rb_inv (Reserve n b)" "occupied_bytes (Reserve n b) = occupied_bytes b"
    "length bs \<le> n \<Longrightarrow> rb_inv (Claim bs (Reserve n b))"
    "occupied_bytes (Claim bs b) = occupied_bytes b @ bs"
    "n \<le> num_occupied_bytes b \<Longrightarrow> rb_inv (Discard n b)"
    "n \<le> num_occupied_bytes b \<Longrightarrow> occupied_bytes (Discard n b) = drop n (occupied_bytes b)"
    "num_occupied_bytes b = length (occupied_bytes b)"
  using assms
  by (auto simp: rb_inv_def Reserve_def occupied_bytes_def Claim_def Discard_def num_occupied_bytes_def Let_def
      add.commute max_def)

section \<open>Reading\<close>

record ('h, 'd) Channel =
  ch_delegate :: "'d option"
  read_buffer :: ReadBuffer
  incoming :: "'h list"

definition Channel_init :: "'d \<Rightarrow> ('h, 'd) Channel" where
  "Channel_init d = \<lparr>ch_delegate = Some d, read_buffer = ReadBuffer_init, incoming = []\<rparr>"

definition GetReadBuffer :: "nat \<Rightarrow> ('h, 'd) Channel \<Rightarrow> nat \<times> ('h, 'd) Channel" where
  "GetReadBuffer capacity c =
     (let required_capacity = (if capacity = 0 then kReadBufferSize else capacity)
      in (required_capacity, c\<lparr>read_buffer := Reserve required_capacity (read_buffer c)\<rparr>))"

definition GetReadPlatformHandles :: "nat \<Rightarrow> 'h list \<Rightarrow> ('h list \<times> 'h list) option" where
  "GetReadPlatformHandles n incoming_handles =
     (if length incoming_handles < n then None else Some (take n incoming_handles, drop n incoming_handles))"

text \<open>
  The loop of \<open>Channel::OnReadComplete\<close>: \<open>None\<close> for an invalid size, otherwise the hint for the next
  read and the channel.
\<close>

function read_loop ::
  "('d \<Rightarrow> uint8_t list \<Rightarrow> 'h list \<Rightarrow> 'd option) \<Rightarrow> bool \<Rightarrow> ('h, 'd) Channel \<Rightarrow> bool \<times> nat \<times> ('h, 'd) Channel" where
  "read_loop on_message did_dispatch c =
     (let occ = occupied_bytes (read_buffer c)
      in if length occ < sizeof_Header then (True, if did_dispatch then 0 else kReadBufferSize, c)
         else let h = read_Header occ; size = unat (num_bytes h)
              in if size < sizeof_Header \<or> size > kMaxChannelMessageSize then (False, 0, c)
                 else if length occ < size then (True, size - length occ, c)
                 else let payload = take (size - sizeof_Header) (drop sizeof_Header occ)
                      in (case (if num_handles h > 0 then GetReadPlatformHandles (unat (num_handles h)) (incoming c)
                                else Some ([], incoming c)) of
                            None \<Rightarrow> (True, if did_dispatch then 0 else kReadBufferSize, c)
                          | Some (handles, rest) \<Rightarrow>
                              read_loop on_message (did_dispatch \<or> ch_delegate c \<noteq> None)
                                (c\<lparr>incoming := rest,
                                   ch_delegate := (case ch_delegate c of None \<Rightarrow> None
                                     | Some d \<Rightarrow> on_message d payload handles),
                                   read_buffer := Discard size (read_buffer c)\<rparr>)))"
  by pat_completeness auto

lemma Discard_shorter:
  assumes "sizeof_Header \<le> length (occupied_bytes b)" "sizeof_Header \<le> n" "n \<le> length (occupied_bytes b)"
  shows "length (occupied_bytes (Discard n b)) < length (occupied_bytes b)"
proof -
  have "rb_discarded b \<le> length (rb_bytes b)" using assms by (simp add: occupied_bytes_def sizeof_Header_def)
  then show ?thesis
    using assms by (auto simp: occupied_bytes_def Discard_def Let_def sizeof_Header_def)
qed

termination read_loop
  by (relation "measure (\<lambda>(f, did, c). length (occupied_bytes (read_buffer c)))") (auto intro!: Discard_shorter)

declare read_loop.simps [simp del]

definition OnReadComplete ::
  "('d \<Rightarrow> uint8_t list \<Rightarrow> 'h list \<Rightarrow> 'd option) \<Rightarrow> uint8_t list \<Rightarrow> ('h, 'd) Channel \<Rightarrow> bool \<times> nat \<times> ('h, 'd) Channel" where
  "OnReadComplete on_message bytes c =
     read_loop on_message False (c\<lparr>read_buffer := Claim bytes (read_buffer c)\<rparr>)"

definition ShutDown :: "('h, 'd) Channel \<Rightarrow> ('h, 'd) Channel" where
  "ShutDown c = c\<lparr>ch_delegate := None\<rparr>"

section \<open>Framing\<close>

text \<open>What a sender puts on the wire for a payload with handles, and which messages it may send.\<close>

type_synonym 'h packet = "uint8_t list \<times> 'h list"

definition frame :: "'h packet \<Rightarrow> uint8_t list" where
  "frame m = message_data (ChannelMessage_new (fst m) (length (snd m)) :: 'h ChannelMessage)"

definition packet_ok :: "'h packet \<Rightarrow> bool" where
  "packet_ok m \<longleftrightarrow> length (fst m) + sizeof_Header \<le> kMaxChannelMessageSize \<and> length (snd m) < 2 ^ 16"

text \<open>A delegate that keeps every message it is given.\<close>

definition record_message :: "'h packet list \<Rightarrow> uint8_t list \<Rightarrow> 'h list \<Rightarrow> 'h packet list option" where
  "record_message ms payload handles = Some (ms @ [(payload, handles)])"

lemma frame_facts:
  assumes "packet_ok m"
  shows "length (frame m) = length (fst m) + 8" "read_Header (frame m @ bs) = \<lparr>num_bytes = of_nat (length (fst m) + 8), num_handles = of_nat (length (snd m))\<rparr>"
    "unat (of_nat (length (fst m) + 8) :: uint32_t) = length (fst m) + 8"
    "unat (of_nat (length (snd m)) :: uint16_t) = length (snd m)"
    "take (length (fst m)) (drop 8 (frame m @ bs)) = fst m"
    "drop (length (fst m) + 8) (frame m @ bs) = bs"
  using assms
  by (simp_all add: frame_def message_data_def ChannelMessage_new_def header.enc_length header.dec_enc sizeof_Header_def
      packet_ok_def kMaxChannelMessageSize_def unat_of_nat del: of_nat_add)

text \<open>A prefix of a frame that has a complete header announces the frame's size.\<close>

lemma partial_header:
  assumes "packet_ok m" "strict_prefix occ (frame m)" "8 \<le> length occ"
  shows "unat (num_bytes (read_Header occ)) = length (fst m) + 8"
proof -
  let ?h = "\<lparr>num_bytes = of_nat (length (fst m) + 8), num_handles = of_nat (length (snd m))\<rparr>"
  obtain t where t: "frame m = occ @ t" using assms(2) by (auto simp: strict_prefix_def prefix_def)
  have "take 8 occ = take 8 (frame m)" using t assms(3) by simp
  also have "\<dots> = write_Header ?h"
    by (simp add: frame_def message_data_def ChannelMessage_new_def header.enc_length sizeof_Header_def)
  finally have "occ = write_Header ?h @ drop 8 occ" by (metis append_take_drop_id)
  then have "read_Header occ = ?h" by (metis header.dec_enc)
  then show ?thesis using frame_facts(3) [OF assms(1)] by simp
qed

lemma prefix_frame_cases:
  assumes "prefix occ (frame m @ rest)"
  obtains "strict_prefix occ (frame m)" | occ' where "occ = frame m @ occ'" "prefix occ' rest"
proof -
  consider "prefix occ (frame m)" | us where "occ = frame m @ us" "prefix us rest"
    using assms by (auto simp: prefix_append)
  then show thesis
  proof cases
    case 1
    then show ?thesis using that(1) that(2) [of "[]"] by (cases "occ = frame m") (auto simp: strict_prefix_def)
  qed (rule that(2))
qed

definition stops_at :: "'h packet list \<Rightarrow> nat \<Rightarrow> uint8_t list \<Rightarrow> bool" where
  "stops_at ms k occ \<longleftrightarrow> k = length ms \<and> occ = [] \<or> k < length ms \<and> strict_prefix occ (frame (ms ! k))"

lemma read_loop_stops:
  assumes "packet_ok m" "strict_prefix (occupied_bytes (read_buffer c)) (frame m)"
  shows "\<exists>hint. read_loop f did c = (True, hint, c)"
proof (cases "length (occupied_bytes (read_buffer c)) < 8")
  case True
  then show ?thesis by (simp add: read_loop.simps sizeof_Header_def)
next
  case False
  have "length (occupied_bytes (read_buffer c)) < length (fst m) + 8"
    using prefix_length_less [OF assms(2)] frame_facts(1) [OF assms(1)] by simp
  moreover have "length (fst m) + 8 \<le> kMaxChannelMessageSize" using assms(1) by (simp add: packet_ok_def sizeof_Header_def)
  ultimately show ?thesis using partial_header [OF assms] False
    by (simp add: read_loop.simps sizeof_Header_def Let_def)
qed

lemma read_loop_stream:
  fixes c :: "('h, 'h packet list) Channel"
  assumes "prefix (occupied_bytes (read_buffer c)) (concat (map frame ms))" "\<forall>m \<in> set ms. packet_ok m"
    and "incoming c = concat (map snd ms)" "ch_delegate c = Some d" "rb_inv (read_buffer c)"
  shows "\<exists>k hint c'. read_loop record_message did c = (True, hint, c') \<and> ch_delegate c' = Some (d @ take k ms) \<and>
    occupied_bytes (read_buffer c) = concat (map frame (take k ms)) @ occupied_bytes (read_buffer c') \<and>
    incoming c' = concat (map snd (drop k ms)) \<and> rb_inv (read_buffer c') \<and> stops_at ms k (occupied_bytes (read_buffer c'))"
  using assms
proof (induction ms arbitrary: c d did)
  case Nil
  then show ?case by (simp add: read_loop.simps sizeof_Header_def stops_at_def)
next
  case (Cons m ms)
  let ?occ = "occupied_bytes (read_buffer c)"
  have ok: "packet_ok m" using Cons.prems(2) by simp
  have pre: "prefix ?occ (frame m @ concat (map frame ms))" using Cons.prems(1) by simp
  then show ?case
  proof (cases rule: prefix_frame_cases)
    case 1
    then obtain hint where "read_loop record_message did c = (True, hint, c)"
      using read_loop_stops [OF ok] by blast
    then show ?thesis using 1 Cons.prems by (intro exI [of _ 0] exI [of _ hint] exI [of _ c]) (simp add: stops_at_def)
  next
    case (2 occ')
    let ?size = "length (fst m) + 8"
    have n: "?size \<le> num_occupied_bytes (read_buffer c)"
      using read_buffer_ops(7) [OF Cons.prems(5)] 2(1) frame_facts(1) [OF ok] by simp
    let ?c = "c\<lparr>incoming := concat (map snd ms), ch_delegate := Some (d @ [m]),
      read_buffer := Discard ?size (read_buffer c)\<rparr>"
    have occ: "occupied_bytes (read_buffer ?c) = occ'" "rb_inv (read_buffer ?c)"
      using read_buffer_ops(5,6) [OF Cons.prems(5), of ?size] n frame_facts(6) [OF ok] 2(1) by auto
    have max: "?size \<le> kMaxChannelMessageSize" using ok by (simp add: packet_ok_def sizeof_Header_def)
    have hs: "(if num_handles (read_Header ?occ) > 0 then GetReadPlatformHandles (unat (num_handles (read_Header ?occ))) (incoming c)
        else Some ([], incoming c)) = Some (snd m, concat (map snd ms))"
      using frame_facts(2,4) [OF ok] Cons.prems(3) unfolding 2(1)
      by (auto simp: GetReadPlatformHandles_def word_gt_0 simp flip: unat_eq_0)
    have h: "unat (num_bytes (read_Header ?occ)) = ?size" "length ?occ \<ge> ?size"
      "take (?size - 8) (drop 8 ?occ) = fst m"
      using frame_facts [OF ok] unfolding 2(1) by (simp_all del: of_nat_add)
    have "read_loop record_message did c = read_loop record_message True ?c"
      using max h Cons.prems(4)
      by (simp add: read_loop.simps [of _ did c] Let_def sizeof_Header_def hs record_message_def)
    moreover obtain k hint c' where "read_loop record_message True ?c = (True, hint, c')"
      "ch_delegate c' = Some ((d @ [m]) @ take k ms)"
      "occ' = concat (map frame (take k ms)) @ occupied_bytes (read_buffer c')"
      "incoming c' = concat (map snd (drop k ms))" "rb_inv (read_buffer c')" "stops_at ms k (occupied_bytes (read_buffer c'))"
      using Cons.IH [of ?c "d @ [m]" True] occ 2(2) Cons.prems(2) by auto
    ultimately show ?thesis using 2(1)
      by (intro exI [of _ "Suc k"] exI [of _ hint] exI [of _ c']) (simp add: stops_at_def)
  qed
qed

text \<open>
  The reading side of a channel on a stream of bytes: every read asks for a buffer of the size the last
  read suggested and gets at most that many bytes, and at most as many as happen to be there.
\<close>

fun feed ::
  "('d \<Rightarrow> uint8_t list \<Rightarrow> 'h list \<Rightarrow> 'd option) \<Rightarrow> nat list \<Rightarrow> uint8_t list \<Rightarrow> nat \<Rightarrow> ('h, 'd) Channel \<Rightarrow>
     bool \<times> uint8_t list \<times> ('h, 'd) Channel" where
  "feed f [] s hint c = (True, s, c)"
| "feed f (k # ks) s hint c =
     (let (capacity, c1) = GetReadBuffer hint c; n = min capacity k
      in case OnReadComplete f (take n s) c1 of
           (ok, hint', c2) \<Rightarrow> if ok then feed f ks (drop n s) hint' c2 else (False, drop n s, c2))"

lemma feed_stream:
  fixes c :: "('h, 'h packet list) Channel"
  assumes "occupied_bytes (read_buffer c) @ s = concat (map frame ms)" "\<forall>m \<in> set ms. packet_ok m"
    and "incoming c = concat (map snd ms)" "ch_delegate c = Some d" "rb_inv (read_buffer c)"
    and "stops_at ms 0 (occupied_bytes (read_buffer c))" "feed record_message ks s hint c = (ok, s', c')"
  shows "ok \<and> rb_inv (read_buffer c') \<and> (\<exists>k. ch_delegate c' = Some (d @ take k ms) \<and> (s' = [] \<longrightarrow> k = length ms))"
  using assms
proof (induction ks arbitrary: c d s ms hint)
  case Nil
  then show ?case
    by (cases ms) (auto simp: stops_at_def intro!: exI [of _ 0] dest: prefix_length_less)
next
  case (Cons k ks)
  let ?cap = "if hint = 0 then kReadBufferSize else hint"
  let ?n = "min ?cap k"
  let ?c1 = "c\<lparr>read_buffer := Claim (take ?n s) (Reserve ?cap (read_buffer c))\<rparr>"
  have rb: "rb_inv (read_buffer ?c1)" "occupied_bytes (read_buffer ?c1) = occupied_bytes (read_buffer c) @ take ?n s"
    using read_buffer_ops(1,2,3) [OF Cons.prems(5)] read_buffer_ops(4) [OF read_buffer_ops(1) [OF Cons.prems(5)]] by auto
  have all: "occupied_bytes (read_buffer ?c1) @ drop ?n s = concat (map frame ms)"
    unfolding rb(2) using Cons.prems(1) by simp
  then have "prefix (occupied_bytes (read_buffer ?c1)) (concat (map frame ms))" by (metis prefixI)
  then obtain j hint' c2 where r: "read_loop record_message False ?c1 = (True, hint', c2)"
    "ch_delegate c2 = Some (d @ take j ms)"
    "occupied_bytes (read_buffer ?c1) = concat (map frame (take j ms)) @ occupied_bytes (read_buffer c2)"
    "incoming c2 = concat (map snd (drop j ms))" "rb_inv (read_buffer c2)" "stops_at ms j (occupied_bytes (read_buffer c2))"
    using read_loop_stream [of ?c1 ms d False] Cons.prems(2-4) rb(1) by auto
  have "concat (map frame (take j ms)) @ occupied_bytes (read_buffer c2) @ drop ?n s =
      concat (map frame (take j ms)) @ concat (map frame (drop j ms))"
    using all unfolding r(3) by (metis append_assoc append_take_drop_id concat_append map_append)
  then have rest: "occupied_bytes (read_buffer c2) @ drop ?n s = concat (map frame (drop j ms))" by simp
  have stop: "stops_at (drop j ms) 0 (occupied_bytes (read_buffer c2))"
    using r(6) by (auto simp: stops_at_def)
  have step: "feed record_message ks (drop ?n s) hint' c2 = (ok, s', c')"
    using Cons.prems(7) r(1) by (simp add: GetReadBuffer_def OnReadComplete_def Let_def)
  have ih: "ok \<and> rb_inv (read_buffer c') \<and> (\<exists>k. ch_delegate c' = Some ((d @ take j ms) @ take k (drop j ms)) \<and>
      (s' = [] \<longrightarrow> k = length (drop j ms)))"
    by (rule Cons.IH [OF rest _ r(4) r(2) r(5) stop step]) (use Cons.prems(2) in_set_dropD in fast)
  then obtain i where "ok" "rb_inv (read_buffer c')" "ch_delegate c' = Some (d @ take j ms @ take i (drop j ms))"
    "s' = [] \<longrightarrow> i = length (drop j ms)" by auto
  moreover have "take j ms @ take i (drop j ms) = take (j + i) ms" by (simp add: take_add)
  moreover have "take (length ms) ms = take (j + i) ms" if "s' = []"
    using that calculation(4) by simp
  ultimately show ?case by (metis)
qed

text \<open>
  C19: Messages survive the byte stream however it is cut into reads: for every sequence of messages
  (each within the size limit), and whatever number of bytes each read returns, the channel never
  reports an error, its buffer never overflows, and the delegate is given a prefix of the sequence,
  payloads and handles included, in order; once all bytes have been read it has been given all.
\<close>

theorem channel_framing:
  fixes ms :: "'h packet list"
  assumes "\<forall>m \<in> set ms. packet_ok m"
    and "feed record_message ks (concat (map frame ms)) 0 ((Channel_init [])\<lparr>incoming := concat (map snd ms)\<rparr>) = (ok, s', c')"
  shows "ok \<and> rb_inv (read_buffer c') \<and> (\<exists>k. ch_delegate c' = Some (take k ms)) \<and> (s' = [] \<longrightarrow> ch_delegate c' = Some ms)"
proof -
  have "stops_at ms 0 []"
    using assms(1) frame_facts(1) [of "ms ! 0"] by (cases ms) (auto simp: stops_at_def strict_prefix_def)
  then have "ok \<and> rb_inv (read_buffer c') \<and> (\<exists>k. ch_delegate c' = Some ([] @ take k ms) \<and> (s' = [] \<longrightarrow> k = length ms))"
    using assms
    by (intro feed_stream [where d = "[]" and s = "concat (map frame ms)" and ks = ks])
      (auto simp: Channel_init_def ReadBuffer_init_def occupied_bytes_def rb_inv_def)
  then show ?thesis by auto
qed

theorem channel_framing_witness:
  "let ms = [([1, 2, 3], []), ([], [True])] :: bool packet list
   in case feed record_message [100] (concat (map frame ms)) 0 ((Channel_init [])\<lparr>incoming := concat (map snd ms)\<rparr>)
      of (ok, s', c') \<Rightarrow> s' = [] \<and> ok \<and> ch_delegate c' = Some ms"
proof -
  let ?ms = "[([1, 2, 3], []), ([], [True])] :: bool packet list"
  obtain ok s' c' where f: "feed record_message [100] (concat (map frame ?ms)) 0
      ((Channel_init [])\<lparr>incoming := concat (map snd ?ms)\<rparr>) = (ok, s', c')" by (metis prod_cases3)
  have ok: "\<forall>m \<in> set ?ms. packet_ok m" by (simp add: packet_ok_def sizeof_Header_def kMaxChannelMessageSize_def)
  have "length (concat (map frame ?ms)) = 19" using ok by (simp add: frame_facts(1))
  then have "s' = []"
    using f by (auto simp: GetReadBuffer_def kReadBufferSize_def Let_def split: prod.splits if_splits)
  then show ?thesis using channel_framing [OF ok f] f unfolding Let_def by simp
qed

text \<open>
  A header that announces a size below the header's own or above the limit makes the channel report
  an error and dispatch nothing, whatever the handles and the rest of the buffer are.
\<close>

theorem channel_rejects_bad_size:
  assumes "occupied_bytes (read_buffer c) @ bytes = write_Header h @ rest" "rb_inv (read_buffer c)"
    and "unat (num_bytes h) < sizeof_Header \<or> unat (num_bytes h) > kMaxChannelMessageSize"
  shows "fst (OnReadComplete f bytes c) = False \<and> ch_delegate (snd (snd (OnReadComplete f bytes c))) = ch_delegate c"
proof -
  have occ: "occupied_bytes (Claim bytes (read_buffer c)) = write_Header h @ rest"
    using read_buffer_ops(4) [OF assms(2)] assms(1) by simp
  show ?thesis using assms(3)
    by (simp add: OnReadComplete_def read_loop.simps occ header.dec_enc header.enc_length sizeof_Header_def Let_def)
qed

theorem channel_rejects_bad_size_witness:
  "fst (OnReadComplete record_message (write_Header \<lparr>num_bytes = 7, num_handles = 0\<rparr>) (Channel_init ([] :: bool packet list))) = False"
  using channel_rejects_bad_size [of "Channel_init ([] :: bool packet list)" "write_Header \<lparr>num_bytes = 7, num_handles = 0\<rparr>"
      "\<lparr>num_bytes = 7, num_handles = 0\<rparr>" "[]" record_message]
  by (simp add: Channel_init_def ReadBuffer_init_def occupied_bytes_def rb_inv_def sizeof_Header_def)

end
