(* ===== verification/Channel_Posix.thy ===== *)
theory Channel_Posix
  imports Channel
begin

text \<open>
  The POSIX channel (\<open>channel_posix.cc\<close>): writing messages to a socket that may accept only part of a
  message or none of it, and reading from it.  What the socket does with each call is a script of
  outcomes, consumed one per system call; a call beyond the end of the script would block.
\<close>

section \<open>The write side\<close>

datatype write_result = Wrote nat | WouldBlock | WriteFailed

text \<open>A \<open>MessageView\<close>: the bytes of the message from the first unsent one on, and its handles.\<close>

record 'h MessageView =
  mv_data :: "uint8_t list"
  mv_offset :: nat
  mv_handles :: "'h list option"

definition MessageView_new :: "'h ChannelMessage \<Rightarrow> nat \<Rightarrow> 'h MessageView" where
  "MessageView_new message offset =
     \<lparr>mv_data = message_data message, mv_offset = offset, mv_handles = fst (TakeHandles message)\<rparr>"

definition unsent :: "'h MessageView \<Rightarrow> uint8_t list" where
  "unsent v = drop (mv_offset v) (mv_data v)"

definition advance_data_offset :: "nat \<Rightarrow> 'h MessageView \<Rightarrow> 'h MessageView" where
  "advance_data_offset n v = v\<lparr>mv_offset := mv_offset v + n\<rparr>"

text \<open>The socket: what it has accepted, what it will do next, and the tasks the channel posted.\<close>

record 'h ChannelPosix =
  outgoing_messages :: "'h MessageView list"
  pending_write :: bool
  reject_writes :: bool
  watching :: bool
  sent_bytes :: "uint8_t list"
  sent_handles :: "'h list"
  reported_errors :: nat
  script :: "write_result list"

definition ChannelPosix_init :: "write_result list \<Rightarrow> 'h ChannelPosix" where
  "ChannelPosix_init ws =
     \<lparr>outgoing_messages = [], pending_write = False, reject_writes = False, watching = True,
      sent_bytes = [], sent_handles = [], reported_errors = 0, script = ws\<rparr>"

text \<open>\<open>PlatformChannelWrite\<close> or \<open>PlatformChannelSendmsgWithHandles\<close> with these bytes and handles.\<close>

definition sys_write :: "uint8_t list \<Rightarrow> 'h list \<Rightarrow> 'h ChannelPosix \<Rightarrow> write_result \<times> 'h ChannelPosix" where
  "sys_write bytes hs c =
     (case script c of
        [] \<Rightarrow> (WouldBlock, c)
      | Wrote n # ws \<Rightarrow> (let k = min n (length bytes)
          in (Wrote k, c\<lparr>script := ws, sent_bytes := sent_bytes c @ take k bytes, sent_handles := sent_handles c @ hs\<rparr>))
      | w # ws \<Rightarrow> (w, c\<lparr>script := ws\<rparr>))"

definition WaitForWriteOnIOThreadNoLock :: "'h ChannelPosix \<Rightarrow> 'h ChannelPosix" where
  "WaitForWriteOnIOThreadNoLock c =
     (if pending_write c then c else if \<not> watching c then c else c\<lparr>pending_write := True\<rparr>)"

text \<open>
  The handles leave the view with the first call and are cleared whatever its outcome, so a call that
  would block loses them.
\<close>

function WriteNoLock :: "'h MessageView \<Rightarrow> nat \<Rightarrow> 'h ChannelPosix \<Rightarrow> bool \<times> 'h ChannelPosix" where
  "WriteNoLock message_view bytes_written c =
     (let v = advance_data_offset bytes_written message_view;
          hs = (case mv_handles v of Some hs \<Rightarrow> hs | None \<Rightarrow> []);
          v1 = v\<lparr>mv_handles := None\<rparr>
      in case sys_write (unsent v1) hs c of
           (WriteFailed, c1) \<Rightarrow> (False, c1)
         | (WouldBlock, c1) \<Rightarrow>
             (True, WaitForWriteOnIOThreadNoLock (c1\<lparr>outgoing_messages := outgoing_messages c1 @ [v1]\<rparr>))
         | (Wrote n, c1) \<Rightarrow> if n < length (unsent v1) then WriteNoLock v1 n c1 else (True, c1))"
  by pat_completeness auto

termination
  by (relation "measure (\<lambda>(v, n, c). length (script c))")
    (auto simp: sys_write_def Let_def split: list.splits write_result.splits)

declare WriteNoLock.simps [simp del]

definition Write :: "'h ChannelMessage \<Rightarrow> 'h ChannelPosix \<Rightarrow> 'h ChannelPosix" where
  "Write message c =
     (if reject_writes c then c
      else if outgoing_messages c = []
      then (case WriteNoLock (MessageView_new message 0) 0 c of
              (True, c1) \<Rightarrow> c1
            | (False, c1) \<Rightarrow> c1\<lparr>reject_writes := True, reported_errors := Suc (reported_errors c1)\<rparr>)
      else c\<lparr>outgoing_messages := outgoing_messages c @ [MessageView_new message 0]\<rparr>)"

text \<open>The queue is swapped out first; what \<open>WriteNoLock\<close> puts back goes in front of the rest.\<close>

fun flush_loop :: "'h MessageView list \<Rightarrow> 'h ChannelPosix \<Rightarrow> bool \<times> 'h ChannelPosix" where
  "flush_loop [] c = (True, c)"
| "flush_loop (v # vs) c =
     (case WriteNoLock v 0 c of
        (False, c1) \<Rightarrow> (False, c1)
      | (True, c1) \<Rightarrow>
          (case outgoing_messages c1 of
             [] \<Rightarrow> flush_loop vs c1
           | w # _ \<Rightarrow> (True, c1\<lparr>outgoing_messages := w # vs\<rparr>)))"

definition FlushOutgoingMessagesNoLock :: "'h ChannelPosix \<Rightarrow> bool \<times> 'h ChannelPosix" where
  "FlushOutgoingMessagesNoLock c = flush_loop (outgoing_messages c) (c\<lparr>outgoing_messages := []\<rparr>)"

definition OnFileCanWriteWithoutBlocking :: "'h ChannelPosix \<Rightarrow> 'h ChannelPosix" where
  "OnFileCanWriteWithoutBlocking c =
     (case FlushOutgoingMessagesNoLock (c\<lparr>pending_write := False\<rparr>) of
        (True, c1) \<Rightarrow> c1
      | (False, c1) \<Rightarrow> c1\<lparr>reject_writes := True, reported_errors := Suc (reported_errors c1)\<rparr>)"

definition ShutDownOnIOThread :: "'h ChannelPosix \<Rightarrow> 'h ChannelPosix" where
  "ShutDownOnIOThread c = c\<lparr>watching := False\<rparr>"

section \<open>Nothing is lost or reordered\<close>

definition on_wire :: "'h ChannelPosix \<Rightarrow> uint8_t list" where
  "on_wire c = sent_bytes c @ concat (map unsent (outgoing_messages c))"

lemma WriteNoLock_outcome:
  "WriteNoLock v k c = (ok, c') \<Longrightarrow> outgoing_messages c = [] \<Longrightarrow> mv_offset v + k \<le> length (mv_data v) \<Longrightarrow>
     reject_writes c' = reject_writes c \<and> reported_errors c' = reported_errors c \<and> watching c' = watching c \<and>
     (\<exists>bs t. drop (mv_offset v + k) (mv_data v) = bs @ t \<and> sent_bytes c' = sent_bytes c @ bs \<and>
        (if ok then outgoing_messages c' = [] \<and> t = [] \<or>
           (\<exists>w. outgoing_messages c' = [w] \<and> unsent w = t \<and> mv_offset w \<le> length (mv_data w) \<and> mv_handles w = None \<and>
              (watching c \<longrightarrow> pending_write c'))
         else outgoing_messages c' = []))"
proof (induction v k c rule: WriteNoLock.induct)
  case (1 v k c)
  let ?v = "(advance_data_offset k v)\<lparr>mv_handles := None\<rparr>"
  let ?hs = "case mv_handles (advance_data_offset k v) of Some hs \<Rightarrow> hs | None \<Rightarrow> []"
  have u: "unsent ?v = drop (mv_offset v + k) (mv_data v)" "mv_offset ?v = mv_offset v + k" "mv_data ?v = mv_data v"
    by (simp_all add: unsent_def advance_data_offset_def)
  obtain r c1 where w: "sys_write (unsent ?v) ?hs c = (r, c1)" by fastforce
  note eq = WriteNoLock.simps [of v k c, unfolded Let_def w prod.case]
  have frame: "outgoing_messages c1 = []" "reject_writes c1 = reject_writes c" "reported_errors c1 = reported_errors c"
    "watching c1 = watching c"
    using w "1.prems"(2) by (auto simp: sys_write_def Let_def split: list.splits write_result.splits)
  show ?case
  proof (cases r)
    case WriteFailed
    then have "sent_bytes c1 = sent_bytes c" "ok = False" "c' = c1"
      using w "1.prems"(1) eq by (auto simp: sys_write_def Let_def split: list.splits write_result.splits)
    then show ?thesis using frame by (intro conjI exI2 [of _ "[]" "drop (mv_offset v + k) (mv_data v)"]) auto
  next
    case WouldBlock
    then have s: "sent_bytes c1 = sent_bytes c"
      using w by (auto simp: sys_write_def Let_def split: list.splits write_result.splits)
    have "ok" "c' = WaitForWriteOnIOThreadNoLock (c1\<lparr>outgoing_messages := [?v]\<rparr>)"
      using "1.prems"(1) eq WouldBlock frame(1) by auto
    then show ?thesis using frame s u "1.prems"(3)
      by (intro conjI exI2 [of _ "[]" "unsent ?v"]) (auto simp: WaitForWriteOnIOThreadNoLock_def)
  next
    case (Wrote n)
    have s: "sent_bytes c1 = sent_bytes c @ take n (unsent ?v)" "n \<le> length (unsent ?v)"
      using w Wrote by (auto simp: sys_write_def Let_def min_def split: list.splits write_result.splits)
    show ?thesis
    proof (cases "n < length (unsent ?v)")
      case False
      then have "ok" "c' = c1" using "1.prems"(1) eq Wrote by auto
      then show ?thesis using frame s u False by (intro conjI exI2 [of _ "unsent ?v" "[]"]) auto
    next
      case True
      then have r: "WriteNoLock ?v n c1 = (ok, c')" using "1.prems"(1) eq Wrote by simp
      have "mv_offset ?v + n \<le> length (mv_data ?v)" using True u by simp
      then obtain bs t where ih: "drop (mv_offset ?v + n) (mv_data ?v) = bs @ t" "sent_bytes c' = sent_bytes c1 @ bs"
        "reject_writes c' = reject_writes c1" "reported_errors c' = reported_errors c1" "watching c' = watching c1"
        "if ok then outgoing_messages c' = [] \<and> t = [] \<or>
           (\<exists>w. outgoing_messages c' = [w] \<and> unsent w = t \<and> mv_offset w \<le> length (mv_data w) \<and> mv_handles w = None \<and>
              (watching c1 \<longrightarrow> pending_write c'))
         else outgoing_messages c' = []"
        using "1.IH" [OF refl refl refl w [symmetric] Wrote True r frame(1)] by blast
      have "drop (mv_offset v + k) (mv_data v) = (take n (unsent ?v) @ bs) @ t"
        using ih(1) unfolding u by (metis append.assoc append_take_drop_id drop_drop add.commute)
      then show ?thesis using ih(2-6) frame s by (intro conjI exI2 [of _ "take n (unsent ?v) @ bs" t]) auto
    qed
  qed
qed

text \<open>The state of the write side with respect to the stream it was asked to send.\<close>

definition writing :: "uint8_t list \<Rightarrow> 'h ChannelPosix \<Rightarrow> bool" where
  "writing stream c \<longleftrightarrow> prefix (sent_bytes c) stream \<and> (reported_errors c > 0) = reject_writes c \<and>
     (\<forall>v \<in> set (outgoing_messages c). mv_offset v \<le> length (mv_data v)) \<and>
     (if reject_writes c then outgoing_messages c = []
      else on_wire c = stream \<and> (watching c \<and> outgoing_messages c \<noteq> [] \<longrightarrow> pending_write c))"

lemma Write_writing:
  assumes "writing stream c"
  shows "writing (stream @ message_data m) (Write m c)"
proof -
  consider "reject_writes c" | "\<not> reject_writes c" "outgoing_messages c \<noteq> []"
    | "\<not> reject_writes c" "outgoing_messages c = []" by blast
  then show ?thesis
  proof cases
    case 1
    then show ?thesis using assms by (auto simp: writing_def Write_def intro: prefix_prefix)
  next
    case 2
    then show ?thesis using assms
      by (auto simp: writing_def Write_def on_wire_def MessageView_new_def unsent_def intro: prefix_prefix)
  next
    case 3
    obtain ok c1 where w: "WriteNoLock (MessageView_new m 0) 0 c = (ok, c1)" by fastforce
    have s: "sent_bytes c = stream" "reported_errors c = 0" using assms 3 by (simp_all add: writing_def on_wire_def)
    obtain bs t where o: "message_data m = bs @ t" "sent_bytes c1 = sent_bytes c @ bs" "reject_writes c1 = reject_writes c"
      "reported_errors c1 = reported_errors c" "watching c1 = watching c"
      "if ok then outgoing_messages c1 = [] \<and> t = [] \<or>
         (\<exists>w. outgoing_messages c1 = [w] \<and> unsent w = t \<and> mv_offset w \<le> length (mv_data w) \<and> mv_handles w = None \<and>
            (watching c \<longrightarrow> pending_write c1))
       else outgoing_messages c1 = []"
      using WriteNoLock_outcome [OF w 3(2)] by (auto simp: MessageView_new_def)
    show ?thesis
    proof (cases ok)
      case True
      then have "Write m c = c1" using 3 w by (simp add: Write_def)
      then show ?thesis using o s 3 True by (auto simp: writing_def on_wire_def)
    next
      case False
      then have "Write m c = c1\<lparr>reject_writes := True, reported_errors := Suc (reported_errors c1)\<rparr>"
        using 3 w by (simp add: Write_def)
      then show ?thesis using o s 3 False by (auto simp: writing_def on_wire_def)
    qed
  qed
qed

lemma flush_loop_outcome:
  assumes "flush_loop vs c = (ok, c')" "outgoing_messages c = []" "\<forall>v \<in> set vs. mv_offset v \<le> length (mv_data v)"
  shows "reject_writes c' = reject_writes c \<and> reported_errors c' = reported_errors c \<and> watching c' = watching c \<and>
    (\<exists>bs t. concat (map unsent vs) = bs @ t \<and> sent_bytes c' = sent_bytes c @ bs \<and>
       (if ok then concat (map unsent (outgoing_messages c')) = t \<and>
          (\<forall>v \<in> set (outgoing_messages c'). mv_offset v \<le> length (mv_data v)) \<and>
          (watching c \<and> outgoing_messages c' \<noteq> [] \<longrightarrow> pending_write c')
        else outgoing_messages c' = []))"
  using assms
proof (induction vs c rule: flush_loop.induct)
  case (1 c)
  then show ?case by auto
next
  case (2 v vs c)
  obtain ok1 c1 where w: "WriteNoLock v 0 c = (ok1, c1)" by fastforce
  have off: "mv_offset v + 0 \<le> length (mv_data v)" using "2.prems"(3) by simp
  obtain bs t where o: "unsent v = bs @ t" "sent_bytes c1 = sent_bytes c @ bs" "reject_writes c1 = reject_writes c"
    "reported_errors c1 = reported_errors c" "watching c1 = watching c"
    "if ok1 then outgoing_messages c1 = [] \<and> t = [] \<or>
       (\<exists>w. outgoing_messages c1 = [w] \<and> unsent w = t \<and> mv_offset w \<le> length (mv_data w) \<and> mv_handles w = None \<and>
          (watching c \<longrightarrow> pending_write c1))
     else outgoing_messages c1 = []"
    using WriteNoLock_outcome [OF w "2.prems"(2) off] by (auto simp: unsent_def)
  consider (failed) "\<not> ok1" | (requeued) x where "ok1" "outgoing_messages c1 = [x]" "unsent x = t"
      "mv_offset x \<le> length (mv_data x)" "watching c \<longrightarrow> pending_write c1"
    | (sent) "ok1" "outgoing_messages c1 = []" "t = []"
    using o(6) by (auto split: if_splits)
  then show ?case
  proof cases
    case failed
    then show ?thesis using "2.prems"(1) w o
      by (auto intro!: exI2 [of _ bs "t @ concat (map unsent vs)"])
  next
    case requeued
    then show ?thesis using "2.prems"(1,3) w o(1-5)
      by (auto intro!: exI2 [of _ bs "t @ concat (map unsent vs)"])
  next
    case sent
    then have f: "flush_loop vs c1 = (ok, c')" using "2.prems"(1) w by simp
    obtain bs' t' where ih: "concat (map unsent vs) = bs' @ t'" "sent_bytes c' = sent_bytes c1 @ bs'"
      "reject_writes c' = reject_writes c1" "reported_errors c' = reported_errors c1" "watching c' = watching c1"
      "if ok then concat (map unsent (outgoing_messages c')) = t' \<and>
          (\<forall>v \<in> set (outgoing_messages c'). mv_offset v \<le> length (mv_data v)) \<and>
          (watching c1 \<and> outgoing_messages c' \<noteq> [] \<longrightarrow> pending_write c')
        else outgoing_messages c' = []"
      using "2.IH" [OF w [symmetric] _ sent(2) f sent(2)] sent(1) "2.prems"(3) by auto
    then show ?thesis using o sent by (intro conjI exI2 [of _ "bs @ bs'" t']) auto
  qed
qed

lemma OnFileCanWrite_writing:
  assumes "writing stream c"
  shows "writing stream (OnFileCanWriteWithoutBlocking c)"
proof -
  let ?c = "c\<lparr>pending_write := False, outgoing_messages := []\<rparr>"
  obtain ok c1 where f: "flush_loop (outgoing_messages c) ?c = (ok, c1)" by fastforce
  have f': "FlushOutgoingMessagesNoLock (c\<lparr>pending_write := False\<rparr>) = (ok, c1)"
    using f by (simp add: FlushOutgoingMessagesNoLock_def)
  obtain bs t where o: "concat (map unsent (outgoing_messages c)) = bs @ t" "sent_bytes c1 = sent_bytes c @ bs"
    "reject_writes c1 = reject_writes c" "reported_errors c1 = reported_errors c" "watching c1 = watching c"
    "if ok then concat (map unsent (outgoing_messages c1)) = t \<and>
       (\<forall>v \<in> set (outgoing_messages c1). mv_offset v \<le> length (mv_data v)) \<and>
       (watching c \<and> outgoing_messages c1 \<noteq> [] \<longrightarrow> pending_write c1)
     else outgoing_messages c1 = []"
    using flush_loop_outcome [OF f] assms by (auto simp: writing_def)
  show ?thesis
  proof (cases "reject_writes c")
    case True
    then have "outgoing_messages c = []" using assms by (simp add: writing_def)
    then show ?thesis using f f' True assms by (auto simp: OnFileCanWriteWithoutBlocking_def writing_def)
  next
    case False
    then show ?thesis using o f' assms
      by (cases ok) (auto simp: OnFileCanWriteWithoutBlocking_def writing_def on_wire_def)
  qed
qed

datatype 'h write_op = WriteOp "'h ChannelMessage" | CanWrite

fun write_run :: "'h write_op list \<Rightarrow> 'h ChannelPosix \<Rightarrow> 'h ChannelPosix" where
  "write_run [] c = c"
| "write_run (WriteOp m # ops) c = write_run ops (Write m c)"
| "write_run (CanWrite # ops) c = write_run ops (OnFileCanWriteWithoutBlocking c)"

fun written :: "'h write_op list \<Rightarrow> uint8_t list" where
  "written [] = []"
| "written (WriteOp m # ops) = message_data m @ written ops"
| "written (CanWrite # ops) = written ops"

lemma write_run_writing: "writing stream c \<Longrightarrow> writing (stream @ written ops) (write_run ops c)"
  by (induction ops c arbitrary: stream rule: write_run.induct)
    (auto simp: OnFileCanWrite_writing dest: Write_writing simp flip: append_assoc)



text \<open>
  Handles attached to a message are lost when the socket would block on its first write: the message
  is queued without them, so its bytes will be sent but its handles never.
\<close>

theorem would_block_drops_handles:
  assumes "\<not> reject_writes c" "outgoing_messages c = []" "script c = WouldBlock # ws" "handle_vector m = Some hs"
  shows "\<exists>v. outgoing_messages (Write m c) = [v] \<and> unsent v = message_data m \<and> mv_handles v = None \<and>
    sent_handles (Write m c) = sent_handles c"
  using assms
  by (auto simp: Write_def WriteNoLock.simps sys_write_def MessageView_new_def advance_data_offset_def TakeHandles_def
      WaitForWriteOnIOThreadNoLock_def unsent_def Let_def)

theorem would_block_drops_handles_witness:
  "\<exists>v. outgoing_messages (Write ((ChannelMessage_new [1] 1)\<lparr>handle_vector := Some [True]\<rparr>)
     (ChannelPosix_init [WouldBlock])) = [v] \<and> mv_handles v = None"
  using would_block_drops_handles [of "ChannelPosix_init [WouldBlock] :: bool ChannelPosix" "[]"
      "(ChannelMessage_new [1] 1)\<lparr>handle_vector := Some [True]\<rparr>" "[True]"]
  by (auto simp: ChannelPosix_init_def)

section \<open>The read side\<close>

datatype 'h read_result = Got "uint8_t list" "'h list" | ReadWouldBlock | ReadFailed

definition kMaxBatchReadCapacity :: nat where "kMaxBatchReadCapacity = 256 * 1024"

text \<open>
  The loop of \<open>OnFileCanReadWithoutBlocking\<close> on a script of the outcomes of \<open>recvmsg\<close>; \<open>None\<close> while it has
  not returned at the end of the script.  The result says whether the channel reports an error.  After a
  read that would block, \<open>bytes_read\<close> still has the value of the read before.
\<close>

primrec OnFileCanRead_loop ::
  "('d \<Rightarrow> uint8_t list \<Rightarrow> 'h list \<Rightarrow> 'd option) \<Rightarrow> 'h read_result list \<Rightarrow> nat \<Rightarrow> nat \<Rightarrow> nat \<Rightarrow> ('h, 'd) Channel \<Rightarrow>
     (bool \<times> ('h, 'd) Channel) option" where
  "OnFileCanRead_loop f [] next_read_size bytes_read total_read c = None"
| "OnFileCanRead_loop f (r # rs) next_read_size bytes_read total_read c =
     (let buffer_capacity = fst (GetReadBuffer next_read_size c); c1 = snd (GetReadBuffer next_read_size c)
      in case r of
           Got bs hs \<Rightarrow>
             (let x = take buffer_capacity bs;
                  c2 = c1\<lparr>incoming := incoming c1 @ hs\<rparr>
              in case OnReadComplete f x c2 of
                   (ok, next', c3) \<Rightarrow>
                     if \<not> ok then Some (True, c3)
                     else if length x = buffer_capacity \<and> total_read + length x < kMaxBatchReadCapacity \<and> next' > 0
                     then OnFileCanRead_loop f rs next' (length x) (total_read + length x) c3
                     else Some (False, c3))
         | ReadWouldBlock \<Rightarrow>
             if bytes_read = buffer_capacity \<and> total_read < kMaxBatchReadCapacity \<and> next_read_size > 0
             then OnFileCanRead_loop f rs next_read_size bytes_read total_read c1
             else Some (False, c1)
         | ReadFailed \<Rightarrow> Some (True, c1))"

definition OnFileCanReadWithoutBlocking ::
  "('d \<Rightarrow> uint8_t list \<Rightarrow> 'h list \<Rightarrow> 'd option) \<Rightarrow> 'h read_result list \<Rightarrow> ('h, 'd) Channel \<Rightarrow> (bool \<times> ('h, 'd) Channel) option" where
  "OnFileCanReadWithoutBlocking f rs c = OnFileCanRead_loop f rs 0 0 0 c"

lemma would_block_spins:
  "0 < k \<Longrightarrow> total_read < kMaxBatchReadCapacity \<Longrightarrow>
     OnFileCanRead_loop f (replicate n ReadWouldBlock) k k total_read c = None"
  by (induction n arbitrary: c) (simp_all add: GetReadBuffer_def Let_def)

text \<open>
  C32: The reader can spin: when the first read of a message of 8192 bytes returns exactly the 4096 bytes
  that were asked for and the rest has not arrived, the size of the next read equals the stale byte
  count, and the loop calls \<open>recvmsg\<close> again and again, however often it would block.
\<close>

theorem reader_spins:
  fixes p :: "uint8_t list" and f :: "'d \<Rightarrow> uint8_t list \<Rightarrow> 'h list \<Rightarrow> 'd option"
  assumes "length p = 8184"
  shows "OnFileCanReadWithoutBlocking f
    (Got (take 4096 (frame (p, [] :: 'h list))) [] # replicate n ReadWouldBlock) (Channel_init d) = None"
proof -
  let ?m = "(p, []) :: 'h packet"
  have ok: "packet_ok ?m" using assms by (simp add: packet_ok_def sizeof_Header_def kMaxChannelMessageSize_def)
  have len: "length (frame ?m) = 8192" using frame_facts(1) [OF ok] assms by simp
  let ?x = "take 4096 (frame ?m)"
  have "?x \<noteq> frame ?m"
  proof
    assume "?x = frame ?m"
    then have "length ?x = length (frame ?m)" by simp
    then show False using len by simp
  qed
  then have "strict_prefix ?x (frame ?m)" by (simp add: strict_prefix_def take_is_prefix)
  then have size: "unat (num_bytes (read_Header ?x)) = 8192"
    using partial_header [OF ok, of ?x] len assms by simp
  let ?c = "(Channel_init d)\<lparr>read_buffer := Claim ?x (Reserve kReadBufferSize ReadBuffer_init)\<rparr> :: ('h, 'd) Channel"
  have occ: "occupied_bytes (read_buffer ?c) = ?x"
    by (simp add: occupied_bytes_def Claim_def Reserve_def ReadBuffer_init_def)
  have "read_loop f False ?c = (True, 4096, ?c)"
    unfolding read_loop.simps [of f False ?c] Let_def occ using size len
    by (simp add: sizeof_Header_def kMaxChannelMessageSize_def)
  then have "OnReadComplete f ?x (Channel_init d\<lparr>read_buffer := Reserve kReadBufferSize ReadBuffer_init\<rparr>) = (True, 4096, ?c)"
    by (simp add: OnReadComplete_def)
  then show ?thesis
    using would_block_spins [of 4096 4096 f n ?c] len
    by (simp add: OnFileCanReadWithoutBlocking_def GetReadBuffer_def kReadBufferSize_def kMaxBatchReadCapacity_def
        Channel_init_def Let_def)
qed

theorem reader_spins_witness:
  "OnFileCanReadWithoutBlocking record_message
     (Got (take 4096 (frame (replicate 8184 0, [] :: bool list))) [] # replicate 1000 ReadWouldBlock) (Channel_init ([] :: bool packet list)) = None"
  by (rule reader_spins) simp

end
