(* ===== verification/Platform_Channel.thy ===== *)
theory Platform_Channel
  imports Channel_Posix
begin

text \<open>
  What the POSIX channel asks of the operating system (\<open>platform_channel_utils_posix.cc\<close>): messages on a socket with
  descriptors in control messages; and how a parent hands the end of a socket to a child that it starts
  (\<open>platform_channel_pair_posix.cc\<close>).  Results of system calls, the library for command lines and numbers, and the
  constants of headers that are not in the repository are arguments.
\<close>

section \<open>Control messages\<close>

text \<open>What a call reports; \<open>HANDLE_EINTR\<close> repeats it while it was interrupted.\<close>

datatype sys_result = SysOk nat | SysEAGAIN | SysEINTR | SysFailed

fun HANDLE_EINTR :: "sys_result list \<Rightarrow> sys_result \<times> sys_result list" where
  "HANDLE_EINTR [] = (SysEAGAIN, [])"
| "HANDLE_EINTR (r # rs) = (if r = SysEINTR then HANDLE_EINTR rs else (r, rs))"

text \<open>A control message: its header, and the integers of its data.\<close>

datatype cmsg_kind = ScmRights | OtherControl

record 'h cmsghdr =
  cmsg_len :: nat
  cmsg_kind :: cmsg_kind
  CMSG_DATA :: "'h list"

text \<open>The socket: what was sent on it, and the results of the next calls.\<close>

record 'h socket =
  sock_sent :: "(uint8_t list \<times> 'h cmsghdr list) list"
  sock_results :: "sys_result list"

definition sock_accept :: "uint8_t list \<Rightarrow> 'h cmsghdr list \<Rightarrow> sys_result \<times> sys_result list \<Rightarrow> 'h socket \<Rightarrow> sys_result \<times> 'h socket" where
  "sock_accept bytes control result s =
     (case result of
        (SysOk n, rs) \<Rightarrow> (let k = min n (length bytes)
          in (SysOk k, s\<lparr>sock_results := rs, sock_sent := sock_sent s @ [(take k bytes, control)]\<rparr>))
      | (r, rs) \<Rightarrow> (r, s\<lparr>sock_results := rs\<rparr>))"

definition PlatformChannelWrite :: "uint8_t list \<Rightarrow> 'h socket \<Rightarrow> sys_result \<times> 'h socket" where
  "PlatformChannelWrite bytes s =
     sock_accept bytes [] (case sock_results s of [] \<Rightarrow> (SysEAGAIN, []) | r # rs \<Rightarrow> (r, rs)) s"

definition PlatformChannelWritev :: "uint8_t list list \<Rightarrow> 'h socket \<Rightarrow> sys_result \<times> 'h socket" where
  "PlatformChannelWritev iov s = sock_accept (concat iov) [] (HANDLE_EINTR (sock_results s)) s"

text \<open>
  \<open>CMSG_LEN\<close> is the macro, and \<open>max_handles\<close> stands for \<open>kPlatformChannelMaxNumHandles\<close>: the buffer on the stack has room for so
  many descriptors, and only a debug build checks their number.
\<close>

definition fill_control :: "(nat \<Rightarrow> nat) \<Rightarrow> nat \<Rightarrow> 'h list \<Rightarrow> fault + 'h cmsghdr" where
  "fill_control CMSG_LEN max_handles hs =
     (if length hs > max_handles then Inl OutOfBounds
      else Inr \<lparr>cmsg_len = CMSG_LEN (length hs * 4), cmsg_kind = ScmRights, CMSG_DATA = hs\<rparr>)"

definition PlatformChannelSendmsgWithHandles ::
  "(nat \<Rightarrow> nat) \<Rightarrow> nat \<Rightarrow> uint8_t list list \<Rightarrow> 'h list \<Rightarrow> 'h socket \<Rightarrow> fault + sys_result \<times> 'h socket" where
  "PlatformChannelSendmsgWithHandles CMSG_LEN max_handles iov platform_handles s =
     (case fill_control CMSG_LEN max_handles platform_handles of
        Inl f \<Rightarrow> Inl f
      | Inr cmsg \<Rightarrow> Inr (sock_accept (concat iov) [cmsg] (HANDLE_EINTR (sock_results s)) s))"

text \<open>Returns whether the handles were sent, and the handles that were closed here because they were.\<close>

definition PlatformChannelSendHandles ::
  "(nat \<Rightarrow> nat) \<Rightarrow> nat \<Rightarrow> 'h list \<Rightarrow> 'h socket \<Rightarrow> fault + bool \<times> 'h list \<times> 'h socket" where
  "PlatformChannelSendHandles CMSG_LEN max_handles hs s =
     (case fill_control CMSG_LEN max_handles hs of
        Inl f \<Rightarrow> Inl f
      | Inr cmsg \<Rightarrow>
          (case sock_accept [0] [cmsg] (HANDLE_EINTR (sock_results s)) s of
             (SysOk k, s') \<Rightarrow> Inr (if k < 1 then (False, [], s') else (True, hs, s'))
           | (_, s') \<Rightarrow> Inr (False, [], s')))"

text \<open>The loop over the control messages; reading more integers than a message has is out of bounds.\<close>

fun receive_rights :: "(nat \<Rightarrow> nat) \<Rightarrow> 'h cmsghdr list \<Rightarrow> 'h list \<Rightarrow> fault + 'h list" where
  "receive_rights CMSG_LEN [] platform_handles = Inr platform_handles"
| "receive_rights CMSG_LEN (cmsg # cs) platform_handles =
     (if cmsg_kind cmsg = ScmRights
      then let num_fds = (cmsg_len cmsg - CMSG_LEN 0) div 4
           in if num_fds > length (CMSG_DATA cmsg) then Inl OutOfBounds
              else receive_rights CMSG_LEN cs (platform_handles @ take num_fds (CMSG_DATA cmsg))
      else receive_rights CMSG_LEN cs platform_handles)"

text \<open>What \<open>recvmsg\<close> delivers: an error, or at most \<open>num_bytes\<close> bytes with control messages.\<close>

datatype 'h recv_result = RecvFailed sys_result | Received "uint8_t list" "'h cmsghdr list"

definition PlatformChannelRecvmsg ::
  "(nat \<Rightarrow> nat) \<Rightarrow> nat \<Rightarrow> 'h list \<Rightarrow> 'h recv_result \<Rightarrow> fault + (sys_result + uint8_t list) \<times> 'h list" where
  "PlatformChannelRecvmsg CMSG_LEN n platform_handles received =
     (case received of
        RecvFailed r \<Rightarrow> Inr (Inl r, platform_handles)
      | Received bytes control \<Rightarrow>
          (case receive_rights CMSG_LEN control platform_handles of
             Inl f \<Rightarrow> Inl f
           | Inr hs \<Rightarrow> Inr (Inr (take n bytes), hs)))"

lemma receive_rights_other:
  "list_all (\<lambda>c. cmsg_kind c = OtherControl) cs \<Longrightarrow> receive_rights L (cs @ ds) hs = receive_rights L ds hs"
  by (induction cs) simp_all

lemma receive_rights_filled:
  assumes "\<And>n. L n = L 0 + n" "fill_control L m hs = Inr cmsg"
  shows "receive_rights L (cmsg # cs) q = receive_rights L cs (q @ hs)"
  using assms(2) assms(1) [of "length hs * 4"] by (auto simp: fill_control_def Let_def split: if_splits)

text \<open>
  C39: Descriptors survive the socket: when handles, at most as many as the buffer holds, are sent with a message and the call
  reports that bytes were accepted, whatever interruptions came first, then the message carries one control
  message, and receiving it, with any other control messages around it, gives the bytes that were accepted and
  appends exactly those handles, in order, to the ones received before.
\<close>

theorem handles_through_socket:
  assumes "\<And>n. L n = L 0 + n" "length hs \<le> m"
    "list_all (\<lambda>c. cmsg_kind c = OtherControl) before" "list_all (\<lambda>c. cmsg_kind c = OtherControl) after"
    "sock_results s = replicate i SysEINTR @ SysOk n # rs" "n \<le> length (concat iov)"
  shows "\<exists>s' control. PlatformChannelSendmsgWithHandles L m iov hs s = Inr (SysOk n, s') \<and>
    sock_sent s' = sock_sent s @ [(take n (concat iov), control)] \<and> sock_results s' = rs \<and>
    PlatformChannelRecvmsg L n q (Received (take n (concat iov)) (before @ control @ after)) = Inr (Inr (take n (concat iov)), q @ hs)"
proof -
  obtain cmsg where c: "fill_control L m hs = Inr cmsg" using assms(2) by (simp add: fill_control_def)
  have "HANDLE_EINTR (replicate i SysEINTR @ SysOk n # rs) = (SysOk n, rs)" by (induction i) simp_all
  then have "PlatformChannelSendmsgWithHandles L m iov hs s =
      Inr (SysOk n, s\<lparr>sock_results := rs, sock_sent := sock_sent s @ [(take n (concat iov), [cmsg])]\<rparr>)"
    using assms(5,6) c by (simp add: PlatformChannelSendmsgWithHandles_def sock_accept_def min_def Let_def)
  moreover have "receive_rights L (before @ [cmsg] @ after) q = Inr (q @ hs)"
    using receive_rights_other [OF assms(3)] receive_rights_filled [OF assms(1) c] receive_rights_other [OF assms(4), of L "[]"]
    by simp
  ultimately show ?thesis by (simp add: PlatformChannelRecvmsg_def)
qed

theorem handles_through_socket_witness:
  "\<exists>s' control. PlatformChannelSendmsgWithHandles (\<lambda>n. 16 + n) 128 [[1, 2], [3]] [7 :: int, 8]
      \<lparr>sock_sent = [], sock_results = [SysEINTR, SysOk 2, SysFailed]\<rparr> = Inr (SysOk 2, s') \<and>
    sock_sent s' = [([1, 2], control)] \<and> sock_results s' = [SysFailed] \<and>
    PlatformChannelRecvmsg (\<lambda>n. 16 + n) 2 [5]
      (Received [1, 2] ([\<lparr>cmsg_len = 28, cmsg_kind = OtherControl, CMSG_DATA = [1, 2, 3]\<rparr>] @ control @ [])) = Inr (Inr [1, 2], [5, 7, 8])"
  using handles_through_socket [of "\<lambda>n. 16 + n" "[7 :: int, 8]" 128 "[\<lparr>cmsg_len = 28, cmsg_kind = OtherControl, CMSG_DATA = [1, 2, 3]\<rparr>]" "[]"
      "\<lparr>sock_sent = [], sock_results = [SysEINTR, SysOk 2, SysFailed]\<rparr>" 1 2 "[SysFailed]" "[[1, 2], [3]]" "[5]"]
  by simp

section \<open>Handing a socket to a child\<close>

text \<open>The pairs of a descriptor here and its number in the child.\<close>

type_synonym FileHandleMappingVector = "(int \<times> int) list"

fun IsTargetDescriptorUsed :: "FileHandleMappingVector \<Rightarrow> int \<Rightarrow> bool" where
  "IsTargetDescriptorUsed [] target_fd = False"
| "IsTargetDescriptorUsed (p # ps) target_fd = (if snd p = target_fd then True else IsTargetDescriptorUsed ps target_fd)"

lemma IsTargetDescriptorUsed_iff [simp]: "IsTargetDescriptorUsed m t \<longleftrightarrow> t \<in> snd ` set m"
  by (induction m) auto

record PlatformChannelPair =
  server_handle :: "int option"
  client_handle :: "int option"

definition PlatformChannelPair_new :: "bool \<Rightarrow> (int \<times> int) option \<Rightarrow> (int \<Rightarrow> bool) \<Rightarrow> fault + PlatformChannelPair" where
  "PlatformChannelPair_new client_is_blocking socketpair set_nonblocking =
     (case socketpair of
        None \<Rightarrow> Inl CheckFailure
      | Some (fd0, fd1) \<Rightarrow>
          if \<not> set_nonblocking fd0 then Inl CheckFailure
          else if \<not> client_is_blocking \<and> \<not> set_nonblocking fd1 then Inl CheckFailure
          else Inr \<lparr>server_handle = Some fd0, client_handle = Some fd1\<rparr>)"

function find_target :: "FileHandleMappingVector \<Rightarrow> int \<Rightarrow> int" where
  "find_target m target_fd = (if IsTargetDescriptorUsed m target_fd then find_target m (target_fd + 1) else target_fd)"
  by pat_completeness auto

lemma fewer_above:
  assumes "t \<in> snd ` set m"
  shows "length (filter (\<lambda>p. t + 1 \<le> snd p) m) < length (filter (\<lambda>p. t \<le> snd p) (m :: FileHandleMappingVector))"
proof -
  have "filter (\<lambda>p. t + 1 \<le> snd p) m = filter (\<lambda>p. snd p \<noteq> t) (filter (\<lambda>p. t \<le> snd p) m)"
    by (simp add: filter_filter) (rule filter_cong, auto)
  moreover from assms obtain p where "p \<in> set (filter (\<lambda>p. t \<le> snd p) m)" "\<not> snd p \<noteq> t" by auto
  then have "length (filter (\<lambda>p. snd p \<noteq> t) (filter (\<lambda>p. t \<le> snd p) m)) < length (filter (\<lambda>p. t \<le> snd p) m)"
    by (rule length_filter_less)
  ultimately show ?thesis by (rule ssubst [where P = "\<lambda>xs. length xs < n" for n])
qed

termination find_target
proof (relation "measure (\<lambda>(m, t). length (filter (\<lambda>p. t \<le> snd p) m))")
  fix m :: FileHandleMappingVector and t
  assume "IsTargetDescriptorUsed m t"
  then show "((m, t + 1), (m, t)) \<in> measure (\<lambda>(m, t). length (filter (\<lambda>p. t \<le> snd p) m))"
    unfolding IsTargetDescriptorUsed_iff in_measure prod.case by (rule fewer_above)
qed simp

declare find_target.simps [simp del]

text \<open>
  What is used of the base library, on a type of command lines: \<open>kBaseDescriptor\<close> is the first number that a child may be
  given.
\<close>

record 'l base_library =
  kBaseDescriptor :: int
  kMojoPlatformChannelHandleSwitch :: string
  IntToString :: "int \<Rightarrow> string"
  StringToInt :: "string \<Rightarrow> int option"
  AppendSwitchASCII :: "string \<Rightarrow> string \<Rightarrow> 'l \<Rightarrow> 'l"
  GetSwitchValueASCII :: "string \<Rightarrow> 'l \<Rightarrow> string"

definition PrepareToPassClientHandleToChildProcessAsString ::
  "'l base_library \<Rightarrow> PlatformChannelPair \<Rightarrow> FileHandleMappingVector \<Rightarrow> fault + string \<times> FileHandleMappingVector" where
  "PrepareToPassClientHandleToChildProcessAsString lib pair handle_passing_info =
     (if length handle_passing_info \<ge> 1000 then Inl CheckFailure
      else (case client_handle pair of
              None \<Rightarrow> Inl CheckFailure
            | Some fd \<Rightarrow>
                let target_fd = find_target handle_passing_info (kBaseDescriptor lib)
                in Inr (IntToString lib target_fd, handle_passing_info @ [(fd, target_fd)])))"

definition PrepareToPassClientHandleToChildProcess ::
  "'l base_library \<Rightarrow> PlatformChannelPair \<Rightarrow> 'l \<Rightarrow> FileHandleMappingVector \<Rightarrow> fault + 'l \<times> FileHandleMappingVector" where
  "PrepareToPassClientHandleToChildProcess lib pair command_line info =
     (case PrepareToPassClientHandleToChildProcessAsString lib pair info of
        Inl f \<Rightarrow> Inl f
      | Inr (value, info') \<Rightarrow> Inr (AppendSwitchASCII lib (kMojoPlatformChannelHandleSwitch lib) value command_line, info'))"

definition PassClientHandleFromParentProcessFromString :: "'l base_library \<Rightarrow> string \<Rightarrow> int option" where
  "PassClientHandleFromParentProcessFromString lib value =
     (if value = [] then None
      else (case StringToInt lib value of
              None \<Rightarrow> None
            | Some client_fd \<Rightarrow> if client_fd < kBaseDescriptor lib then None else Some client_fd))"

definition PassClientHandleFromParentProcess :: "'l base_library \<Rightarrow> 'l \<Rightarrow> int option" where
  "PassClientHandleFromParentProcess lib command_line =
     PassClientHandleFromParentProcessFromString lib (GetSwitchValueASCII lib (kMojoPlatformChannelHandleSwitch lib) command_line)"

text \<open>What the code relies on: numbers are read back, and the switch that was appended last counts.\<close>

definition library_laws :: "'l base_library \<Rightarrow> bool" where
  "library_laws lib \<longleftrightarrow> 0 \<le> kBaseDescriptor lib \<and> kBaseDescriptor lib + 1000 < 2 ^ 31 \<and>
     (\<forall>k. StringToInt lib (IntToString lib k) = Some k \<and> IntToString lib k \<noteq> []) \<and>
     (\<forall>s v l. GetSwitchValueASCII lib s (AppendSwitchASCII lib s v l) = v)"

lemma find_target_spec:
  "find_target m t \<notin> snd ` set m \<and> t \<le> find_target m t \<and> {t..<find_target m t} \<subseteq> snd ` set m"
proof (induction m t rule: find_target.induct)
  case (1 m t)
  show ?case
  proof (cases "t \<in> snd ` set m")
    case True
    then have "find_target m t = find_target m (t + 1)" by (simp add: find_target.simps [of m t])
    moreover have "{t..<find_target m (t + 1)} \<subseteq> insert t {t + 1..<find_target m (t + 1)}" by auto
    ultimately show ?thesis using 1 True by auto
  next
    case False
    then show ?thesis by (simp add: find_target.simps [of m t])
  qed
qed

text \<open>No more numbers are skipped than there are pairs.\<close>

lemma find_target_bound: "find_target m t \<le> t + int (length m)"
proof -
  have "card {t..<find_target m t} \<le> card (snd ` set m)"
    using find_target_spec [of m t] by (intro card_mono) simp_all
  also have "\<dots> \<le> length m" by (meson card_image_le card_length finite_set le_trans)
  finally show ?thesis by simp
qed

text \<open>
  C38: A child finds the socket that its parent passes: the parent picks the smallest number from the base descriptor on that no
  other descriptor has been given, at most as far from it as there are such descriptors, so that it never exceeds
  the range of an \<open>int\<close>; the numbers stay distinct; and the child reads this number from its command line, even
  when the line had the switch before.
\<close>

theorem child_finds_socket:
  assumes "library_laws lib" "client_handle pair = Some fd" "length info < 1000" "distinct (map snd info)"
  shows "\<exists>line' target. PrepareToPassClientHandleToChildProcess lib pair line info = Inr (line', info @ [(fd, target)]) \<and>
    PassClientHandleFromParentProcess lib line' = Some target \<and> distinct (map snd (info @ [(fd, target)])) \<and>
    kBaseDescriptor lib \<le> target \<and> target < 2 ^ 31 \<and> (\<forall>k \<in> {kBaseDescriptor lib..<target}. \<exists>p \<in> set info. snd p = k)"
proof -
  let ?t = "find_target info (kBaseDescriptor lib)"
  let ?line = "AppendSwitchASCII lib (kMojoPlatformChannelHandleSwitch lib) (IntToString lib ?t) line"
  have t: "?t \<notin> snd ` set info" "kBaseDescriptor lib \<le> ?t" "{kBaseDescriptor lib..<?t} \<subseteq> snd ` set info" "?t < 2 ^ 31"
    using find_target_spec [of info "kBaseDescriptor lib"] find_target_bound [of info "kBaseDescriptor lib"] assms(1,3)
    by (auto simp: library_laws_def)
  have "PrepareToPassClientHandleToChildProcess lib pair line info = Inr (?line, info @ [(fd, ?t)])"
    using assms(2,3) by (simp add: PrepareToPassClientHandleToChildProcess_def PrepareToPassClientHandleToChildProcessAsString_def Let_def)
  moreover have "PassClientHandleFromParentProcess lib ?line = Some ?t"
    using assms(1) t(2)
    by (simp add: PassClientHandleFromParentProcess_def PassClientHandleFromParentProcessFromString_def library_laws_def)
  ultimately show ?thesis using t assms(4) by (intro exI [of _ ?line] exI [of _ ?t]) (auto simp: image_iff)
qed

text \<open>A library for a concrete input: numbers in unary with a sign, command lines as lists.\<close>

definition example_library :: "(string \<times> string) list base_library" where
  "example_library =
     \<lparr>kBaseDescriptor = 3, kMojoPlatformChannelHandleSwitch = ''mojo-platform-channel-handle'',
      IntToString = (\<lambda>k. if k < 0 then CHR ''-'' # replicate (nat (- k)) CHR ''1'' else CHR ''+'' # replicate (nat k) CHR ''1''),
      StringToInt = (\<lambda>s. case s of [] \<Rightarrow> None | c # cs \<Rightarrow> Some (if c = CHR ''-'' then - int (length cs) else int (length cs))),
      AppendSwitchASCII = (\<lambda>s v l. l @ [(s, v)]),
      GetSwitchValueASCII = (\<lambda>s l. case map_of (rev l) s of None \<Rightarrow> [] | Some v \<Rightarrow> v)\<rparr>"

theorem child_finds_socket_witness:
  "library_laws example_library \<and>
   (\<exists>line' target. PrepareToPassClientHandleToChildProcess example_library \<lparr>server_handle = Some 8, client_handle = Some 9\<rparr>
      [(''mojo-platform-channel-handle'', ''+1111'')] [(6, 3), (7, 5)] = Inr (line', [(6, 3), (7, 5)] @ [(9, target)]) \<and>
    PassClientHandleFromParentProcess example_library line' = Some target \<and> distinct [3, 5, target])"
proof -
  have l: "library_laws example_library" by (simp add: library_laws_def example_library_def)
  have h: "client_handle \<lparr>server_handle = Some 8, client_handle = Some 9\<rparr> = Some 9" "length [(6, 3), (7, 5)] < (1000 :: nat)"
    "distinct (map snd [(6, 3), (7, 5 :: int)])" by simp_all
  show ?thesis
    using l child_finds_socket [OF l h, of "[(''mojo-platform-channel-handle'', ''+1111'')]"] unfolding list.map append.simps snd_conv
    by blast
qed

end
