(* ===== verification/Channel_Win.thy ===== *)
theory Channel_Win
  imports Channel
begin

text \<open>
  The Windows channel (\<open>channel_win.cc\<close>): messages are queued and written one at a time with overlapped
  operations, whose completions the message loop reports.  What the operating system answers to the start of an
  operation is taken from a list; operations that are under way, the bytes that went out and the calls of
  \<open>OnError\<close> are part of the state.  Posted tasks are calls.
\<close>

section \<open>State\<close>

text \<open>The view of a message that is sent in parts: the message and the index of its first unsent byte.\<close>

record 'h WinMessageView =
  wv_message :: "'h ChannelMessage"
  wv_offset :: nat

definition wv_unsent :: "'h WinMessageView \<Rightarrow> uint8_t list" where
  "wv_unsent v = drop (wv_offset v) (message_data (wv_message v))"

definition wv_advance :: "nat \<Rightarrow> 'h WinMessageView \<Rightarrow> 'h WinMessageView" where
  "wv_advance n v = v\<lparr>wv_offset := wv_offset v + n\<rparr>"

text \<open>
  \<open>cw_released\<close> holds the handles of the messages that are wholly sent: they belong to the receiver and are not
  closed here.
\<close>

record 'h ChannelWin =
  delay_writes :: bool
  cw_reject_writes :: bool
  cw_outgoing_messages :: "'h WinMessageView list"
  cw_started :: "bool list"
  cw_pending_writes :: "uint8_t list list"
  cw_pending_reads :: "nat list"
  cw_wire :: "uint8_t list"
  cw_released :: "'h list"
  cw_errors :: nat
  cw_handle_open :: bool

definition ChannelWin_init :: "bool list \<Rightarrow> 'h ChannelWin" where
  "ChannelWin_init answers =
     \<lparr>delay_writes = True, cw_reject_writes = False, cw_outgoing_messages = [], cw_started = answers, cw_pending_writes = [],
      cw_pending_reads = [], cw_wire = [], cw_released = [], cw_errors = 0, cw_handle_open = True\<rparr>"

text \<open>Whether the next operation can be started; a list that is used up stands for a handle that no longer works.\<close>

definition sys_start :: "'h ChannelWin \<Rightarrow> bool \<times> 'h ChannelWin" where
  "sys_start c = (case cw_started c of [] \<Rightarrow> (False, c) | ok # rest \<Rightarrow> (ok, c\<lparr>cw_started := rest\<rparr>))"

definition CW_OnError :: "'h ChannelWin \<Rightarrow> 'h ChannelWin" where
  "CW_OnError c = c\<lparr>cw_errors := Suc (cw_errors c)\<rparr>"

section \<open>Writing\<close>

definition CW_WriteNoLock :: "'h WinMessageView \<Rightarrow> 'h ChannelWin \<Rightarrow> bool \<times> 'h ChannelWin" where
  "CW_WriteNoLock message_view c =
     (case sys_start c of
        (ok, c1) \<Rightarrow> if ok then (True, c1\<lparr>cw_pending_writes := cw_pending_writes c1 @ [wv_unsent message_view]\<rparr>) else (False, c1))"

definition WriteNextNoLock :: "'h ChannelWin \<Rightarrow> bool \<times> 'h ChannelWin" where
  "WriteNextNoLock c = (case cw_outgoing_messages c of [] \<Rightarrow> (True, c) | v # _ \<Rightarrow> CW_WriteNoLock v c)"

definition CW_Write :: "'h ChannelMessage \<Rightarrow> 'h ChannelWin \<Rightarrow> 'h ChannelWin" where
  "CW_Write message c =
     (if cw_reject_writes c then c
      else let write_now = (\<not> delay_writes c \<and> cw_outgoing_messages c = []);
               c1 = c\<lparr>cw_outgoing_messages := cw_outgoing_messages c @ [\<lparr>wv_message = message, wv_offset = 0\<rparr>]\<rparr>
           in if write_now
              then (case CW_WriteNoLock (hd (cw_outgoing_messages c1)) c1 of
                      (ok, c2) \<Rightarrow> if ok then c2 else CW_OnError (c2\<lparr>cw_reject_writes := True\<rparr>))
              else c1)"

definition message_handles :: "'h ChannelMessage \<Rightarrow> 'h list" where
  "message_handles m = (case fst (TakeHandles m) of None \<Rightarrow> [] | Some hs \<Rightarrow> hs)"

definition OnWriteDone :: "nat \<Rightarrow> 'h ChannelWin \<Rightarrow> fault + 'h ChannelWin" where
  "OnWriteDone bytes_written c =
     (if bytes_written = 0 then Inr c
      else (case cw_outgoing_messages c of
              [] \<Rightarrow> Inl OutOfBounds
            | v # vs \<Rightarrow>
                let v' = wv_advance bytes_written v;
                    c1 = (if wv_unsent v' = []
                          then c\<lparr>cw_outgoing_messages := vs, cw_released := cw_released c @ message_handles (wv_message v')\<rparr>
                          else c\<lparr>cw_outgoing_messages := v' # vs\<rparr>)
                in (case WriteNextNoLock c1 of
                      (ok, c2) \<Rightarrow> Inr (if ok then c2 else CW_OnError (c2\<lparr>cw_reject_writes := True\<rparr>)))))"

section \<open>Reading\<close>

text \<open>
  The base class supplies the buffer; \<open>OnReadComplete\<close> of the base class, with the handles taken by
  \<open>GetReadPlatformHandles\<close> below, works on its own state \<open>'b\<close> and is an argument.
\<close>

definition ReadMore :: "nat \<Rightarrow> 'h ChannelWin \<Rightarrow> 'h ChannelWin" where
  "ReadMore next_read_size_hint c =
     (let buffer_capacity = (if next_read_size_hint = 0 then kReadBufferSize else next_read_size_hint)
      in (case sys_start c of
            (ok, c1) \<Rightarrow> if ok then c1\<lparr>cw_pending_reads := cw_pending_reads c1 @ [buffer_capacity]\<rparr> else CW_OnError c1))"

definition OnReadDone ::
  "(uint8_t list \<Rightarrow> 'b \<Rightarrow> bool \<times> nat \<times> 'b) \<Rightarrow> uint8_t list \<Rightarrow> 'b \<Rightarrow> 'h ChannelWin \<Rightarrow> 'b \<times> 'h ChannelWin" where
  "OnReadDone on_read_complete bytes b c =
     (if bytes \<noteq> []
      then (case on_read_complete bytes b of
              (ok, next_read_size, b') \<Rightarrow> (b', if ok then ReadMore next_read_size c else CW_OnError c))
      else (b, CW_OnError c))"

text \<open>The handles are the last bytes of the payload; \<open>read_handle\<close> is the layout of a platform handle, of \<open>sz\<close> bytes.\<close>

definition Win_GetReadPlatformHandles ::
  "(uint8_t list \<Rightarrow> 'h) \<Rightarrow> nat \<Rightarrow> nat \<Rightarrow> uint8_t list \<Rightarrow> ('h list \<times> uint8_t list) option" where
  "Win_GetReadPlatformHandles read_handle sz n payload =
     (if sz * n > length payload then None
      else let payload_size = length payload - sz * n
           in Some (read_array read_handle sz n (drop payload_size payload), take payload_size payload))"

section \<open>The message loop\<close>

definition StartOnIOThread :: "'h ChannelWin \<Rightarrow> 'h ChannelWin" where
  "StartOnIOThread c =
     ReadMore 0 (if delay_writes c then snd (WriteNextNoLock (c\<lparr>delay_writes := False\<rparr>)) else c)"

definition CW_ShutDownOnIOThread :: "'h ChannelWin \<Rightarrow> 'h ChannelWin" where
  "CW_ShutDownOnIOThread c = c\<lparr>cw_pending_writes := [], cw_pending_reads := [], cw_handle_open := False\<rparr>"

text \<open>
  The completion of the oldest write: the bytes that were transferred have gone out, and none when the operation
  failed.
\<close>

definition OnIOCompleted_write :: "bool \<Rightarrow> nat \<Rightarrow> 'h ChannelWin \<Rightarrow> fault + 'h ChannelWin" where
  "OnIOCompleted_write error bytes_transfered c =
     (case cw_pending_writes c of
        [] \<Rightarrow> Inr c
      | op # rest \<Rightarrow>
          let c1 = c\<lparr>cw_pending_writes := rest, cw_wire := cw_wire c @ (if error then [] else take bytes_transfered op)\<rparr>
          in if error then Inr (CW_OnError c1) else OnWriteDone (min bytes_transfered (length op)) c1)"

definition OnIOCompleted_read ::
  "(uint8_t list \<Rightarrow> 'b \<Rightarrow> bool \<times> nat \<times> 'b) \<Rightarrow> bool \<Rightarrow> uint8_t list \<Rightarrow> 'b \<Rightarrow> 'h ChannelWin \<Rightarrow> 'b \<times> 'h ChannelWin" where
  "OnIOCompleted_read on_read_complete error bytes b c =
     (case cw_pending_reads c of
        [] \<Rightarrow> (b, c)
      | cap # rest \<Rightarrow>
          let c1 = c\<lparr>cw_pending_reads := rest\<rparr>
          in if error then (b, CW_OnError c1) else OnReadDone on_read_complete (take cap bytes) b c1)"

section \<open>Messages leave in order\<close>

text \<open>
  What can happen to a channel that is not shut down: a message is written, the channel starts, or an operation
  completes with an error or with any number of bytes.
\<close>

datatype 'h win_op = WriteMsg "'h ChannelMessage" | StartIO | WriteCompleted bool nat | ReadCompleted bool "uint8_t list"

fun win_step ::
  "(uint8_t list \<Rightarrow> 'b \<Rightarrow> bool \<times> nat \<times> 'b) \<Rightarrow> 'h win_op \<Rightarrow> 'b \<times> 'h ChannelWin \<Rightarrow> fault + 'b \<times> 'h ChannelWin" where
  "win_step rc (WriteMsg m) (b, c) = Inr (b, CW_Write m c)"
| "win_step rc StartIO (b, c) = Inr (b, StartOnIOThread c)"
| "win_step rc (WriteCompleted error n) (b, c) = (case OnIOCompleted_write error n c of Inl f \<Rightarrow> Inl f | Inr c' \<Rightarrow> Inr (b, c'))"
| "win_step rc (ReadCompleted error bytes) (b, c) = Inr (OnIOCompleted_read rc error bytes b c)"

fun win_run ::
  "(uint8_t list \<Rightarrow> 'b \<Rightarrow> bool \<times> nat \<times> 'b) \<Rightarrow> 'h win_op list \<Rightarrow> 'b \<times> 'h ChannelWin \<Rightarrow> fault + 'b \<times> 'h ChannelWin" where
  "win_run rc [] s = Inr s"
| "win_run rc (x # xs) s = (case win_step rc x s of Inl f \<Rightarrow> Inl f | Inr s' \<Rightarrow> win_run rc xs s')"

fun win_sent :: "'h win_op list \<Rightarrow> 'h ChannelMessage list" where
  "win_sent [] = []"
| "win_sent (WriteMsg m # xs) = m # win_sent xs"
| "win_sent (_ # xs) = win_sent xs"

text \<open>The bytes of the first message of the queue that went out already.\<close>

definition partial_bytes :: "'h WinMessageView list \<Rightarrow> uint8_t list" where
  "partial_bytes vs = (case vs of [] \<Rightarrow> [] | v # _ \<Rightarrow> take (wv_offset v) (message_data (wv_message v)))"

text \<open>
  The messages that were given to \<open>Write\<close> are the finished ones, the queue, and the ones that were rejected; a
  write that is under way sends the rest of the first message of the queue.
\<close>

definition win_inv :: "'h ChannelMessage list \<Rightarrow> 'h ChannelMessage list \<Rightarrow> 'h ChannelMessage list \<Rightarrow> 'h ChannelWin \<Rightarrow> bool" where
  "win_inv finished dropped sent c \<longleftrightarrow>
     sent = finished @ map wv_message (cw_outgoing_messages c) @ dropped \<and>
     (cw_reject_writes c \<or> dropped = []) \<and>
     cw_wire c = concat (map message_data finished) @ partial_bytes (cw_outgoing_messages c) \<and>
     cw_released c = concat (map message_handles finished) \<and>
     (\<forall>v \<in> set (cw_outgoing_messages c). wv_unsent v \<noteq> []) \<and>
     (\<forall>v \<in> set (tl (cw_outgoing_messages c)). wv_offset v = 0) \<and>
     (cw_pending_writes c = [] \<or>
      cw_outgoing_messages c \<noteq> [] \<and> cw_pending_writes c = [wv_unsent (hd (cw_outgoing_messages c))] \<and> \<not> delay_writes c)"

lemma message_data_not_Nil [simp]: "message_data m \<noteq> []"
  using header.enc_length [of "cm_header m"] by (auto simp: message_data_def)

lemma win_inv_frame:
  assumes "win_inv fin dropped sent c" "cw_reject_writes c' = cw_reject_writes c" "cw_wire c' = cw_wire c"
    "delay_writes c' = delay_writes c" "cw_outgoing_messages c' = cw_outgoing_messages c"
    "cw_pending_writes c' = cw_pending_writes c" "cw_released c' = cw_released c"
  shows "win_inv fin dropped sent c'"
  using assms by (simp add: win_inv_def)

lemma WriteNext_inv:
  assumes "win_inv fin dropped sent c" "cw_pending_writes c = []" "\<not> delay_writes c" "WriteNextNoLock c = (ok, c')"
  shows "win_inv fin dropped sent c'"
  using assms
  by (auto simp: WriteNextNoLock_def CW_WriteNoLock_def sys_start_def win_inv_def split: list.splits if_splits)

lemma win_inv_reject: "win_inv fin dropped sent c \<Longrightarrow> win_inv fin dropped sent (CW_OnError (c\<lparr>cw_reject_writes := True\<rparr>))"
  by (simp add: win_inv_def CW_OnError_def)

lemma Write_inv:
  assumes "win_inv fin dropped sent c"
  shows "\<exists>dropped'. win_inv fin dropped' (sent @ [m]) (CW_Write m c)"
proof (cases "cw_reject_writes c")
  case True
  then have "win_inv fin (dropped @ [m]) (sent @ [m]) (CW_Write m c)" using assms by (simp add: win_inv_def CW_Write_def)
  then show ?thesis ..
next
  case False
  let ?c1 = "c\<lparr>cw_outgoing_messages := cw_outgoing_messages c @ [\<lparr>wv_message = m, wv_offset = 0\<rparr>]\<rparr>"
  have c1: "win_inv fin [] (sent @ [m]) ?c1"
    using assms False by (cases "cw_outgoing_messages c") (auto simp: win_inv_def wv_unsent_def partial_bytes_def)
  show ?thesis
  proof (cases "\<not> delay_writes c \<and> cw_outgoing_messages c = []")
    case True
    then have p: "cw_pending_writes ?c1 = []" using assms by (auto simp: win_inv_def)
    obtain ok c2 where w: "WriteNextNoLock ?c1 = (ok, c2)" by fastforce
    have "CW_WriteNoLock (hd (cw_outgoing_messages ?c1)) ?c1 = (ok, c2)" using w True by (simp add: WriteNextNoLock_def)
    then have "CW_Write m c = (if ok then c2 else CW_OnError (c2\<lparr>cw_reject_writes := True\<rparr>))"
      using True False by (simp add: CW_Write_def Let_def)
    moreover have "win_inv fin [] (sent @ [m]) c2" using WriteNext_inv [OF c1 p _ w] True by simp
    ultimately have "win_inv fin [] (sent @ [m]) (CW_Write m c)" by (simp add: win_inv_reject)
    then show ?thesis ..
  next
    case delayed: False
    then have "CW_Write m c = ?c1" using False by (auto simp: CW_Write_def Let_def)
    then show ?thesis using c1 by metis
  qed
qed

lemma ReadMore_inv: "win_inv fin dropped sent c \<Longrightarrow> win_inv fin dropped sent (ReadMore k c)"
  by (erule win_inv_frame) (auto simp: ReadMore_def sys_start_def CW_OnError_def Let_def split: list.splits)

lemma Start_inv:
  assumes "win_inv fin dropped sent c"
  shows "win_inv fin dropped sent (StartOnIOThread c)"
proof (cases "delay_writes c")
  case True
  then have p: "cw_pending_writes (c\<lparr>delay_writes := False\<rparr>) = []" "win_inv fin dropped sent (c\<lparr>delay_writes := False\<rparr>)"
    using assms by (auto simp: win_inv_def)
  obtain ok c1 where w: "WriteNextNoLock (c\<lparr>delay_writes := False\<rparr>) = (ok, c1)" by fastforce
  show ?thesis using ReadMore_inv [OF WriteNext_inv [OF p(2,1) _ w]] True w by (simp add: StartOnIOThread_def)
next
  case False
  then show ?thesis using assms ReadMore_inv by (simp add: StartOnIOThread_def)
qed

text \<open>A completion that transferred something advances the first message and finishes it when nothing is left.\<close>

definition after_transfer :: "nat \<Rightarrow> 'h WinMessageView \<Rightarrow> 'h WinMessageView list \<Rightarrow> 'h ChannelWin \<Rightarrow> 'h ChannelWin" where
  "after_transfer k v vs c =
     (let c1 = c\<lparr>cw_pending_writes := [], cw_wire := cw_wire c @ take k (wv_unsent v)\<rparr>; v' = wv_advance k v
      in if wv_unsent v' = [] then c1\<lparr>cw_outgoing_messages := vs, cw_released := cw_released c @ message_handles (wv_message v)\<rparr>
         else c1\<lparr>cw_outgoing_messages := v' # vs\<rparr>)"

lemma after_transfer_inv:
  assumes "win_inv fin dropped sent c" "cw_outgoing_messages c = v # vs" "k \<le> length (wv_unsent v)"
  shows "\<exists>fin'. win_inv fin' dropped sent (after_transfer k v vs c)"
proof -
  let ?d = "message_data (wv_message v)"
  have bytes: "take (wv_offset v) ?d @ take k (wv_unsent v) = take (wv_offset v + k) ?d" by (simp add: wv_unsent_def take_add)
  have rest: "partial_bytes vs = []" using assms(1,2) by (cases vs) (auto simp: win_inv_def partial_bytes_def)
  show ?thesis
  proof (cases "wv_unsent (wv_advance k v) = []")
    case True
    have "set (tl vs) \<subseteq> set vs" by (cases vs) auto
    moreover have "take (wv_offset v + k) ?d = ?d" using True by (simp add: wv_unsent_def wv_advance_def)
    ultimately have "win_inv (fin @ [wv_message v]) dropped sent (after_transfer k v vs c)"
      using assms bytes rest True
      by (auto simp: win_inv_def after_transfer_def partial_bytes_def Let_def)
    then show ?thesis ..
  next
    case False
    then have "win_inv fin dropped sent (after_transfer k v vs c)"
      using assms bytes by (auto simp: win_inv_def after_transfer_def partial_bytes_def wv_advance_def Let_def)
    then show ?thesis ..
  qed
qed

lemma OnWriteDone_transfer:
  assumes "cw_outgoing_messages c = v # vs" "k \<noteq> 0"
  shows "OnWriteDone k (c\<lparr>cw_pending_writes := [], cw_wire := cw_wire c @ take k (wv_unsent v)\<rparr>) =
    (case WriteNextNoLock (after_transfer k v vs c) of
       (ok, c2) \<Rightarrow> Inr (if ok then c2 else CW_OnError (c2\<lparr>cw_reject_writes := True\<rparr>)))"
  using assms by (simp add: OnWriteDone_def after_transfer_def wv_advance_def Let_def)

lemma WriteCompleted_inv:
  assumes "win_inv fin dropped sent c"
  shows "\<exists>c' fin'. OnIOCompleted_write error n c = Inr c' \<and> win_inv fin' dropped sent c'"
proof (cases "cw_pending_writes c")
  case Nil
  then show ?thesis using assms by (auto simp: OnIOCompleted_write_def)
next
  case (Cons op rest)
  then obtain v vs where v: "cw_outgoing_messages c = v # vs" "op = wv_unsent v" "op \<noteq> []" "rest = []" "\<not> delay_writes c"
    using assms by (cases "cw_outgoing_messages c") (auto simp: win_inv_def)
  show ?thesis
  proof (cases "error \<or> n = 0")
    case True
    then have "win_inv fin dropped sent (c\<lparr>cw_pending_writes := []\<rparr>)" using assms by (simp add: win_inv_def)
    then have "win_inv fin dropped sent (c\<lparr>cw_pending_writes := []\<rparr>)"
      "win_inv fin dropped sent (CW_OnError (c\<lparr>cw_pending_writes := []\<rparr>))" by (simp_all add: win_inv_def CW_OnError_def)
    then show ?thesis using True Cons v by (cases error) (auto simp: OnIOCompleted_write_def OnWriteDone_def Let_def)
  next
    case False
    define k where "k = min n (length op)"
    have k: "k \<noteq> 0" "k \<le> length op" "take k op = take n op" using False v(3) by (auto simp: k_def min_def)
    obtain fin' where i: "win_inv fin' dropped sent (after_transfer k v vs c)"
      using after_transfer_inv [OF assms v(1), of k] v(2) k(2) by auto
    obtain ok c2 where w: "WriteNextNoLock (after_transfer k v vs c) = (ok, c2)" by fastforce
    have idle: "cw_pending_writes (after_transfer k v vs c) = []" "\<not> delay_writes (after_transfer k v vs c)"
      using v(5) by (simp_all add: after_transfer_def Let_def)
    have "OnIOCompleted_write error n c = Inr (if ok then c2 else CW_OnError (c2\<lparr>cw_reject_writes := True\<rparr>))"
      using Cons v(4) False k(3) w OnWriteDone_transfer [OF v(1) k(1)]
      by (simp add: OnIOCompleted_write_def Let_def v(2) [symmetric] flip: k_def)
    then show ?thesis using WriteNext_inv [OF i idle w] by (auto intro: win_inv_reject)
  qed
qed

lemma ReadCompleted_inv:
  assumes "win_inv fin dropped sent c"
  shows "win_inv fin dropped sent (snd (OnIOCompleted_read rc error bytes b c))"
proof -
  have "win_inv fin dropped sent (CW_OnError (c\<lparr>cw_pending_reads := r\<rparr>))" "win_inv fin dropped sent (c\<lparr>cw_pending_reads := r\<rparr>)" for r
    using assms by (simp_all add: win_inv_def CW_OnError_def)
  then show ?thesis
    using assms
    by (auto simp: OnIOCompleted_read_def OnReadDone_def Let_def intro!: ReadMore_inv split: list.splits if_splits prod.splits)
qed

lemma win_step_inv:
  assumes "win_inv fin dropped sent c"
  shows "\<exists>b' c' fin' dropped'. win_step rc x (b, c) = Inr (b', c') \<and> win_inv fin' dropped' (sent @ win_sent [x]) c'"
proof (cases x)
  case (WriteMsg m)
  then show ?thesis using Write_inv [OF assms, of m] by auto
next
  case StartIO
  then show ?thesis using Start_inv [OF assms] by auto
next
  case (WriteCompleted error n)
  then show ?thesis using WriteCompleted_inv [OF assms, of error n] by force
next
  case (ReadCompleted error bytes)
  obtain b' c' where r: "OnIOCompleted_read rc error bytes b c = (b', c')" by fastforce
  then show ?thesis using ReadCompleted_inv [OF assms, of rc error bytes b] ReadCompleted by auto
qed

lemma win_run_inv:
  assumes "win_inv fin dropped sent c"
  shows "\<exists>b' c' fin' dropped'. win_run rc ops (b, c) = Inr (b', c') \<and> win_inv fin' dropped' (sent @ win_sent ops) c'"
  using assms
proof (induction ops arbitrary: fin dropped sent b c)
  case (Cons x xs)
  obtain b1 c1 fin1 dropped1 where s: "win_step rc x (b, c) = Inr (b1, c1)" "win_inv fin1 dropped1 (sent @ win_sent [x]) c1"
    using win_step_inv [OF Cons.prems, of rc x b] by blast
  have "(sent @ win_sent [x]) @ win_sent xs = sent @ win_sent (x # xs)" by (cases x) simp_all
  then show ?case using Cons.IH [OF s(2), of b1] s(1) by simp
qed auto

text \<open>
  C40: On Windows messages leave in the order in which they were given to \<open>Write\<close>, whole, once and not interleaved. Under
  every interleaving of writes, the start of the channel, and completions with any number of bytes or an error, the
  bytes that went out are those of the first messages and a part of the next one; handles are let go of for the
  finished messages only; at most one write is under way, and no completion finds the queue empty.
\<close>

theorem win_writes_in_order:
  "\<exists>b' c' finished others k.
     win_run rc ops (b, ChannelWin_init answers) = Inr (b', c') \<and> win_sent ops = finished @ others \<and>
     cw_wire c' = concat (map message_data finished) @ take k (concat (map message_data (take 1 others))) \<and>
     cw_released c' = concat (map message_handles finished) \<and> length (cw_pending_writes c') \<le> 1"
proof -
  have "win_inv [] [] [] (ChannelWin_init answers)" by (simp add: win_inv_def ChannelWin_init_def partial_bytes_def)
  from win_run_inv [OF this, of rc ops b]
  obtain b' c' fin dropped where r: "win_run rc ops (b, ChannelWin_init answers) = Inr (b', c')" "win_inv fin dropped (win_sent ops) c'"
    by auto
  let ?others = "map wv_message (cw_outgoing_messages c') @ dropped"
  let ?k = "case cw_outgoing_messages c' of [] \<Rightarrow> 0 | v # _ \<Rightarrow> wv_offset v"
  have "cw_wire c' = concat (map message_data fin) @ take ?k (concat (map message_data (take 1 ?others)))"
    using r(2) by (auto simp: win_inv_def partial_bytes_def split: list.splits)
  moreover have "length (cw_pending_writes c') \<le> 1" using r(2) by (auto simp: win_inv_def)
  ultimately show ?thesis using r by (intro exI [of _ b'] exI [of _ c'] exI [of _ fin] exI [of _ ?others] exI [of _ ?k]) (simp add: win_inv_def)
qed

section \<open>A queue that stops moving\<close>

text \<open>
  Only a completion starts the next write of a queue that is not empty: with a message queued and no write under way
  the channel never writes again.
\<close>

definition stalled :: "'h ChannelWin \<Rightarrow> bool" where
  "stalled c \<longleftrightarrow> \<not> delay_writes c \<and> cw_outgoing_messages c \<noteq> [] \<and> cw_pending_writes c = []"

lemma stalled_ReadMore: "stalled (ReadMore k c) = stalled c \<and> cw_wire (ReadMore k c) = cw_wire c"
  by (simp add: stalled_def ReadMore_def sys_start_def CW_OnError_def Let_def split: list.split)

lemma stalled_step:
  assumes "stalled c" "win_step rc x (b, c) = Inr (b', c')"
  shows "stalled c' \<and> cw_wire c' = cw_wire c"
proof (cases x)
  case (ReadCompleted error bytes)
  have "stalled (c\<lparr>cw_pending_reads := r\<rparr>)" "stalled (CW_OnError (c\<lparr>cw_pending_reads := r\<rparr>))" for r
    using assms(1) by (simp_all add: stalled_def CW_OnError_def)
  then show ?thesis
    using assms ReadCompleted
    by (auto simp: stalled_ReadMore OnIOCompleted_read_def OnReadDone_def CW_OnError_def Let_def split: list.splits if_splits prod.splits)
next
  case StartIO
  then show ?thesis using assms stalled_ReadMore [of 0 c] by (auto simp: stalled_def StartOnIOThread_def)
qed (use assms in \<open>auto simp: stalled_def CW_Write_def OnIOCompleted_write_def Let_def split: if_splits\<close>)

lemma stalled_run:
  assumes "stalled c" "win_run rc ops (b, c) = Inr (b', c')"
  shows "cw_wire c' = cw_wire c"
  using assms
proof (induction ops arbitrary: b c)
  case (Cons x xs)
  then obtain b1 c1 where s: "win_step rc x (b, c) = Inr (b1, c1)" "win_run rc xs (b1, c1) = Inr (b', c')"
    by (auto split: sum.splits)
  then show ?case using stalled_step [OF Cons.prems(1) s(1)] Cons.IH by metis
qed simp

text \<open>
  When the first write cannot be started the result is ignored: no error is reported, writes are still accepted, and
  whatever happens later nothing more is written.
\<close>

theorem win_start_failure_stalls:
  assumes "delay_writes c" "cw_outgoing_messages c \<noteq> []" "cw_pending_writes c = []" "cw_started c = False # True # rest"
    "win_run rc ops (b, StartOnIOThread c) = Inr (b', c')"
  shows "cw_errors (StartOnIOThread c) = cw_errors c" "cw_reject_writes (StartOnIOThread c) = cw_reject_writes c"
    "cw_wire c' = cw_wire c"
proof -
  have "stalled (StartOnIOThread c) \<and> cw_wire (StartOnIOThread c) = cw_wire c \<and> cw_errors (StartOnIOThread c) = cw_errors c \<and>
      cw_reject_writes (StartOnIOThread c) = cw_reject_writes c"
    using assms(1-4)
    by (auto simp: stalled_def StartOnIOThread_def ReadMore_def WriteNextNoLock_def CW_WriteNoLock_def sys_start_def Let_def
        split: list.split)
  then show "cw_errors (StartOnIOThread c) = cw_errors c" "cw_reject_writes (StartOnIOThread c) = cw_reject_writes c"
    "cw_wire c' = cw_wire c" using stalled_run [OF _ assms(5)] by auto
qed

end
