(* ===== verification/Std_Heap.thy ===== *)
theory Std_Heap
  imports Ports_Prelude
begin

text \<open>
  \<open>std::push_heap\<close> and \<open>std::pop_heap\<close> as \<open>ports/message_queue.cc\<close> uses them: a binary heap
  stored in a vector, ordered by a key, smallest key first (the comparison operator of the code
  inverts the order of the sequence numbers, so the library's max-heap is a min-heap of them).
  The locale \<open>std_heap\<close> states what the C++ standard promises of the two functions; what the
  message queue needs is proved once from these laws, and the laws are discharged for the array
  algorithms below.
\<close>

section \<open>The contract of the standard library\<close>

locale std_heap =
  fixes key :: "'a \<Rightarrow> 'k::linorder"
    and heap :: "'a list \<Rightarrow> bool"
    and push :: "'a list \<Rightarrow> 'a list"
    and pop :: "'a list \<Rightarrow> 'a list"
  assumes heap_Nil: "heap []"
    and heap_top: "heap xs \<Longrightarrow> x \<in> set xs \<Longrightarrow> key (hd xs) \<le> key x"
    and mset_push: "mset (push (xs @ [x])) = mset (xs @ [x])"
    and heap_push: "heap xs \<Longrightarrow> heap (push (xs @ [x]))"
    and mset_pop: "xs \<noteq> [] \<Longrightarrow> mset (pop xs) = mset xs"
    and last_pop: "heap xs \<Longrightarrow> xs \<noteq> [] \<Longrightarrow> last (pop xs) = hd xs"
    and heap_pop: "heap xs \<Longrightarrow> xs \<noteq> [] \<Longrightarrow> heap (butlast (pop xs))"
begin

lemma push_not_Nil: "push (xs @ [x]) \<noteq> []"
  using mset_push [of xs x] by auto

lemma pop_not_Nil: "xs \<noteq> [] \<Longrightarrow> pop xs \<noteq> []"
  using mset_pop [of xs] by auto

lemma set_push: "set (push (xs @ [x])) = insert x (set xs)"
  using mset_push [of xs x] by (metis mset_eq_setD list.set(1) list.simps(15) set_append sup_commute insert_is_Un)

lemma mset_butlast_pop:
  assumes "heap xs" "xs \<noteq> []"
  shows "mset (butlast (pop xs)) = mset xs - {#hd xs#}"
proof -
  have "pop xs = butlast (pop xs) @ [last (pop xs)]"
    using pop_not_Nil [OF assms(2)] by simp
  then have "mset (pop xs) = mset (butlast (pop xs)) + {#last (pop xs)#}"
    by (metis mset_append mset.simps(1) mset.simps(2) add.right_neutral add_mset_add_single)
  then show ?thesis
    using mset_pop [OF assms(2)] last_pop [OF assms] by simp
qed

text \<open>The first element of a heap carries the least key of everything stored.\<close>

lemma key_hd_Min:
  assumes "heap xs" "xs \<noteq> []"
  shows "key (hd xs) = Min (key ` set xs)"
proof (rule sym, rule Min_eqI)
  show "finite (key ` set xs)" by simp
  show "key (hd xs) \<in> key ` set xs" using assms(2) by simp
  show "\<And>y. y \<in> key ` set xs \<Longrightarrow> key (hd xs) \<le> y" using heap_top [OF assms(1)] by auto
qed

end

section \<open>The array algorithms\<close>

definition par :: "nat \<Rightarrow> nat" where
  "par i = (i - 1) div 2"

definition swap :: "'a list \<Rightarrow> nat \<Rightarrow> nat \<Rightarrow> 'a list" where
  "swap xs i j = xs[i := xs ! j, j := xs ! i]"

fun sift_up :: "('a \<Rightarrow> 'k::linorder) \<Rightarrow> 'a list \<Rightarrow> nat \<Rightarrow> 'a list" where
  "sift_up key xs i =
     (if i = 0 then xs
      else if key (xs ! i) < key (xs ! ((i - 1) div 2))
      then sift_up key (swap xs i ((i - 1) div 2)) ((i - 1) div 2)
      else xs)"

declare sift_up.simps [simp del]

definition push_heap :: "('a \<Rightarrow> 'k::linorder) \<Rightarrow> 'a list \<Rightarrow> 'a list" where
  "push_heap key xs = sift_up key xs (length xs - 1)"

function sift_down :: "('a \<Rightarrow> 'k::linorder) \<Rightarrow> nat \<Rightarrow> 'a list \<Rightarrow> nat \<Rightarrow> 'a list" where
  "sift_down key n xs i =
     (if n \<le> 2 * i + 1 then xs
      else let c = (if 2 * i + 2 < n \<and> key (xs ! (2 * i + 2)) < key (xs ! (2 * i + 1))
                    then 2 * i + 2 else 2 * i + 1)
           in if key (xs ! c) < key (xs ! i) then sift_down key n (swap xs i c) c else xs)"
  by pat_completeness auto
termination
  by (relation "measure (\<lambda>(key, n, xs, i). n - i)") (auto split: if_splits)

declare sift_down.simps [simp del]

definition pop_heap :: "('a \<Rightarrow> 'k::linorder) \<Rightarrow> 'a list \<Rightarrow> 'a list" where
  "pop_heap key xs =
     (if length xs \<le> 1 then xs
      else sift_down key (length xs - 1) (swap xs 0 (length xs - 1)) 0)"

definition is_heap_upto :: "('a \<Rightarrow> 'k::linorder) \<Rightarrow> nat \<Rightarrow> 'a list \<Rightarrow> bool" where
  "is_heap_upto key n xs \<longleftrightarrow> (\<forall>i<n. 0 < i \<longrightarrow> key (xs ! par i) \<le> key (xs ! i))"

definition is_heap :: "('a \<Rightarrow> 'k::linorder) \<Rightarrow> 'a list \<Rightarrow> bool" where
  "is_heap key xs \<longleftrightarrow> is_heap_upto key (length xs) xs"

subsection \<open>Swapping\<close>

lemma par_less: "0 < i \<Longrightarrow> par i < i"
  by (auto simp: par_def)

lemma length_swap [simp]: "length (swap xs i j) = length xs"
  by (simp add: swap_def)

lemma mset_swap_list [simp]: "i < length xs \<Longrightarrow> j < length xs \<Longrightarrow> mset (swap xs i j) = mset xs"
  by (simp add: swap_def mset_swap)

lemma nth_swap:
  "i < length xs \<Longrightarrow> j < length xs \<Longrightarrow> k < length xs \<Longrightarrow>
   swap xs i j ! k = (if k = j then xs ! i else if k = i then xs ! j else xs ! k)"
  by (simp add: swap_def nth_list_update)

lemma nth_swap_other: "k \<noteq> i \<Longrightarrow> k \<noteq> j \<Longrightarrow> swap xs i j ! k = xs ! k"
  by (simp add: swap_def)

subsection \<open>Sifting up\<close>

definition up_hole :: "('a \<Rightarrow> 'k::linorder) \<Rightarrow> nat \<Rightarrow> 'a list \<Rightarrow> nat \<Rightarrow> bool" where
  "up_hole key n xs i \<longleftrightarrow>
     (\<forall>j<n. 0 < j \<and> j \<noteq> i \<longrightarrow> key (xs ! par j) \<le> key (xs ! j)) \<and>
     (\<forall>j<n. 0 < j \<and> par j = i \<and> 0 < i \<longrightarrow> key (xs ! par i) \<le> key (xs ! j))"

lemma up_hole_swap:
  assumes h: "up_hole key n xs i" and i: "0 < i" "i < n" "n \<le> length xs"
    and less: "key (xs ! i) < key (xs ! par i)"
  shows "up_hole key n (swap xs i (par i)) (par i)"
  unfolding up_hole_def
proof (intro conjI allI impI)
  have p: "par i < i" using i(1) by (rule par_less)
  fix j assume j: "j < n"
  have hj: "0 < j \<Longrightarrow> j \<noteq> i \<Longrightarrow> key (xs ! par j) \<le> key (xs ! j)"
    using h j by (simp add: up_hole_def)
  have hc: "0 < j \<Longrightarrow> par j = i \<Longrightarrow> key (xs ! par i) \<le> key (xs ! j)"
    using h j i by (simp add: up_hole_def)
  {
    assume a: "0 < j \<and> j \<noteq> par i"
    then have pj: "par j < j" by (simp add: par_less)
    show "key (swap xs i (par i) ! par j) \<le> key (swap xs i (par i) ! j)"
      using a i p j pj hj hc less by (auto simp: nth_swap)
  next
    assume a: "0 < j \<and> par j = par i \<and> 0 < par i"
    then have pp: "par (par i) < par i" by (simp add: par_less)
    have hp: "key (xs ! par (par i)) \<le> key (xs ! par i)"
      using h a p i by (simp add: up_hole_def)
    show "key (swap xs i (par i) ! par (par i)) \<le> key (swap xs i (par i) ! j)"
      using a i p pp j hp hj by (auto simp: nth_swap intro: order_trans)
  }
qed

lemma up_hole_done:
  assumes "up_hole key n xs i" "i = 0 \<or> key (xs ! par i) \<le> key (xs ! i)"
  shows "is_heap_upto key n xs"
  using assms by (auto simp: up_hole_def is_heap_upto_def)

lemma sift_up_heap:
  "up_hole key n xs i \<Longrightarrow> i < n \<Longrightarrow> n \<le> length xs \<Longrightarrow> is_heap_upto key n (sift_up key xs i)"
proof (induction key xs i rule: sift_up.induct)
  case (1 key xs i)
  show ?case
  proof (cases "i \<noteq> 0 \<and> key (xs ! i) < key (xs ! par i)")
    case True
    then have "up_hole key n (swap xs i (par i)) (par i)"
      using 1 by (intro up_hole_swap) auto
    moreover have "par i < n" using 1 True by (auto simp: par_def)
    ultimately have "is_heap_upto key n (sift_up key (swap xs i (par i)) (par i))"
      using 1 True by (simp add: par_def)
    then show ?thesis using True by (subst sift_up.simps) (simp add: par_def)
  next
    case False
    then have "sift_up key xs i = xs" by (subst sift_up.simps) (auto simp: par_def)
    with False 1 show ?thesis by (metis up_hole_done not_less)
  qed
qed

lemma mset_sift_up: "i < length xs \<Longrightarrow> mset (sift_up key xs i) = mset xs"
proof (induction key xs i rule: sift_up.induct)
  case (1 key xs i)
  then show ?case by (subst sift_up.simps) (auto simp: par_def)
qed

subsection \<open>Sifting down\<close>

definition down_hole :: "('a \<Rightarrow> 'k::linorder) \<Rightarrow> nat \<Rightarrow> 'a list \<Rightarrow> nat \<Rightarrow> bool" where
  "down_hole key n xs i \<longleftrightarrow>
     (\<forall>j<n. 0 < j \<and> par j \<noteq> i \<longrightarrow> key (xs ! par j) \<le> key (xs ! j)) \<and>
     (\<forall>j<n. 0 < j \<and> par j = i \<and> 0 < i \<longrightarrow> key (xs ! par i) \<le> key (xs ! j))"

lemma par_eq_iff: "0 < j \<Longrightarrow> par j = i \<longleftrightarrow> j = 2 * i + 1 \<or> j = 2 * i + 2"
  by (auto simp: par_def)

lemma down_hole_swap:
  assumes h: "down_hole key n xs i" and n: "n \<le> length xs"
    and c: "c < n" "par c = i" "0 < c"
    and least: "\<And>j. j < n \<Longrightarrow> 0 < j \<Longrightarrow> par j = i \<Longrightarrow> key (xs ! c) \<le> key (xs ! j)"
    and less: "key (xs ! c) < key (xs ! i)"
  shows "down_hole key n (swap xs i c) c"
  unfolding down_hole_def
proof (intro conjI allI impI)
  have i: "i < c" using c par_less by blast
  fix j assume j: "j < n"
  have hj: "0 < j \<Longrightarrow> par j \<noteq> i \<Longrightarrow> key (xs ! par j) \<le> key (xs ! j)"
    using h j by (simp add: down_hole_def)
  have hc: "0 < i \<Longrightarrow> 0 < j \<Longrightarrow> par j = i \<Longrightarrow> key (xs ! par i) \<le> key (xs ! j)"
    using h j by (simp add: down_hole_def)
  {
    assume a: "0 < j \<and> par j \<noteq> c"
    then have pj: "par j < j" by (simp add: par_less)
    have hi: "0 < i \<Longrightarrow> key (xs ! par i) \<le> key (xs ! c)"
      using h c by (simp add: down_hole_def)
    show "key (swap xs i c ! par j) \<le> key (swap xs i c ! j)"
      using a i c n j pj hj hi least [of j] less by (auto simp: nth_swap)
  next
    assume a: "0 < j \<and> par j = c \<and> 0 < c"
    then have "c < j" using par_less by blast
    then show "key (swap xs i c ! par c) \<le> key (swap xs i c ! j)"
      using a i c n j hj by (auto simp: nth_swap)
  }
qed

lemma down_hole_done:
  assumes "down_hole key n xs i"
    and "\<And>j. j < n \<Longrightarrow> 0 < j \<Longrightarrow> par j = i \<Longrightarrow> key (xs ! i) \<le> key (xs ! j)"
  shows "is_heap_upto key n xs"
  using assms by (auto simp: down_hole_def is_heap_upto_def)

definition min_child :: "('a \<Rightarrow> 'k::linorder) \<Rightarrow> nat \<Rightarrow> 'a list \<Rightarrow> nat \<Rightarrow> nat" where
  "min_child key n xs i =
     (if 2 * i + 2 < n \<and> key (xs ! (2 * i + 2)) < key (xs ! (2 * i + 1)) then 2 * i + 2 else 2 * i + 1)"

lemma min_child_props:
  assumes "2 * i + 1 < n"
  shows "min_child key n xs i < n" "par (min_child key n xs i) = i" "0 < min_child key n xs i"
    and "j < n \<Longrightarrow> 0 < j \<Longrightarrow> par j = i \<Longrightarrow> key (xs ! min_child key n xs i) \<le> key (xs ! j)"
  using assms by (auto simp: min_child_def par_eq_iff)

lemma sift_down_unfold:
  "sift_down key n xs i =
     (if n \<le> 2 * i + 1 then xs
      else if key (xs ! min_child key n xs i) < key (xs ! i)
      then sift_down key n (swap xs i (min_child key n xs i)) (min_child key n xs i) else xs)"
  by (subst sift_down.simps) (simp add: min_child_def Let_def)

lemma sift_down_heap:
  "down_hole key n xs i \<Longrightarrow> n \<le> length xs \<Longrightarrow> is_heap_upto key n (sift_down key n xs i)"
proof (induction key n xs i rule: sift_down.induct)
  case (1 key n xs i)
  let ?c = "min_child key n xs i"
  show ?case
  proof (cases "2 * i + 1 < n \<and> key (xs ! ?c) < key (xs ! i)")
    case True
    note props = min_child_props(1-3) [of i n key xs] min_child_props(4) [of i n _ key xs]
    have "down_hole key n (swap xs i ?c) ?c"
      using 1 True props by (intro down_hole_swap) auto
    then have "is_heap_upto key n (sift_down key n (swap xs i ?c) ?c)"
      using "1.IH" [OF _ refl] "1.prems" True by (simp add: min_child_def)
    then show ?thesis using True by (subst sift_down_unfold) simp
  next
    case False
    then have "sift_down key n xs i = xs" by (subst sift_down_unfold) auto
    moreover have "key (xs ! i) \<le> key (xs ! j)" if "j < n" "0 < j" "par j = i" for j
    proof -
      from that have "2 * i + 1 < n" by (auto simp: par_eq_iff)
      then show ?thesis
        using False min_child_props(4) [of i n j key xs] that by (meson not_less order_trans)
    qed
    ultimately show ?thesis using 1 by (metis down_hole_done)
  qed
qed

lemma mset_sift_down: "n \<le> length xs \<Longrightarrow> mset (sift_down key n xs i) = mset xs"
proof (induction key n xs i rule: sift_down.induct)
  case (1 key n xs i)
  let ?c = "min_child key n xs i"
  show ?case
  proof (cases "2 * i + 1 < n \<and> key (xs ! ?c) < key (xs ! i)")
    case True
    then have "mset (sift_down key n (swap xs i ?c) ?c) = mset (swap xs i ?c)"
      using "1.IH" [OF _ refl] "1.prems" by (simp add: min_child_def)
    moreover have "mset (swap xs i ?c) = mset xs"
      using True min_child_props(1) [of i n key xs] "1.prems" by simp
    ultimately show ?thesis using True by (subst sift_down_unfold) simp
  next
    case False
    then show ?thesis by (subst sift_down_unfold) auto
  qed
qed

lemma sift_down_beyond: "n \<le> k \<Longrightarrow> sift_down key n xs i ! k = xs ! k"
proof (induction key n xs i rule: sift_down.induct)
  case (1 key n xs i)
  let ?c = "min_child key n xs i"
  show ?case
  proof (cases "2 * i + 1 < n \<and> key (xs ! ?c) < key (xs ! i)")
    case True
    then have "sift_down key n (swap xs i ?c) ?c ! k = swap xs i ?c ! k"
      using "1.IH" [OF _ refl] "1.prems" by (simp add: min_child_def)
    moreover have "swap xs i ?c ! k = xs ! k"
      using True min_child_props(1) [of i n key xs] "1.prems" by (intro nth_swap_other) auto
    ultimately show ?thesis using True by (subst sift_down_unfold) simp
  next
    case False
    then show ?thesis by (subst sift_down_unfold) auto
  qed
qed

lemma length_sift_down [simp]: "length (sift_down key n xs i) = length xs"
proof (induction key n xs i rule: sift_down.induct)
  case (1 key n xs i)
  then show ?case by (subst sift_down.simps) (simp add: Let_def)
qed

section \<open>The algorithms satisfy the contract\<close>

lemma is_heap_hd:
  assumes "is_heap key xs" "i < length xs"
  shows "key (xs ! 0) \<le> key (xs ! i)"
  using assms(2)
proof (induction i rule: less_induct)
  case (less i)
  show ?case
  proof (cases "i = 0")
    case False
    then have "par i < i" by (simp add: par_less)
    then have "key (xs ! 0) \<le> key (xs ! par i)" using less by auto
    also have "\<dots> \<le> key (xs ! i)"
      using assms(1) less.prems False by (auto simp: is_heap_def is_heap_upto_def)
    finally show ?thesis .
  qed simp
qed

lemma is_heap_push:
  assumes "is_heap key xs"
  shows "is_heap key (push_heap key (xs @ [x]))"
proof -
  have "up_hole key (Suc (length xs)) (xs @ [x]) (length xs)"
    using assms
    by (auto simp: up_hole_def is_heap_def is_heap_upto_def nth_append par_def less_Suc_eq)
  then have "is_heap_upto key (Suc (length xs)) (push_heap key (xs @ [x]))"
    by (simp add: push_heap_def sift_up_heap)
  moreover have "length (push_heap key (xs @ [x])) = Suc (length xs)"
    using mset_sift_up [of "length xs" "xs @ [x]" key] by (metis push_heap_def size_mset
        length_append_singleton diff_Suc_1 lessI)
  ultimately show ?thesis by (simp add: is_heap_def)
qed

lemma down_hole_pop:
  assumes "is_heap key xs" "1 < length xs"
  shows "down_hole key (length xs - 1) (swap xs 0 (length xs - 1)) 0"
proof -
  have "key (swap xs 0 (length xs - 1) ! par j) \<le> key (swap xs 0 (length xs - 1) ! j)"
    if "j < length xs - 1" "0 < j" "par j \<noteq> 0" for j
  proof -
    have "par j < j" using that by (simp add: par_less)
    then show ?thesis
      using assms that by (auto simp: nth_swap_other is_heap_def is_heap_upto_def)
  qed
  then show ?thesis by (auto simp: down_hole_def)
qed

lemma nth_butlast_heap: "is_heap key (butlast ys) \<longleftrightarrow> is_heap_upto key (length ys - 1) ys"
proof -
  have "butlast ys ! par i = ys ! par i \<and> butlast ys ! i = ys ! i" if "i < length ys - 1" "0 < i" for i
  proof -
    have "par i < i" using that by (simp add: par_less)
    then show ?thesis using that by (simp add: nth_butlast)
  qed
  then show ?thesis by (auto simp: is_heap_def is_heap_upto_def)
qed

lemma last_pop_heap:
  assumes "is_heap key xs" "xs \<noteq> []"
  shows "last (pop_heap key xs) = hd xs"
proof (cases "length xs \<le> 1")
  case True
  with assms show ?thesis by (cases xs) (auto simp: pop_heap_def)
next
  case False
  let ?n = "length xs - 1" and ?ys = "sift_down key (length xs - 1) (swap xs 0 (length xs - 1)) 0"
  have "?ys \<noteq> []" using False by (metis length_sift_down length_swap list.size(3) zero_le)
  then have "last ?ys = ?ys ! ?n" by (simp add: last_conv_nth)
  also have "\<dots> = swap xs 0 ?n ! ?n" by (simp add: sift_down_beyond)
  also have "\<dots> = xs ! 0" using assms(2) by (subst nth_swap) (auto simp: neq_Nil_conv)
  finally show ?thesis using False assms by (simp add: pop_heap_def hd_conv_nth)
qed

interpretation array_heap: std_heap key "is_heap key" "push_heap key" "pop_heap key"
  for key :: "'a \<Rightarrow> 'k::linorder"
proof
  show "is_heap key []" by (simp add: is_heap_def is_heap_upto_def)
  show "key (hd xs) \<le> key x" if "is_heap key xs" "x \<in> set xs" for xs x
    using that is_heap_hd [of key xs]
    by (metis in_set_conv_nth hd_conv_nth length_pos_if_in_set length_greater_0_conv)
  show "mset (push_heap key (xs @ [x])) = mset (xs @ [x])" for xs x
    by (simp add: push_heap_def mset_sift_up)
  show "is_heap key (push_heap key (xs @ [x]))" if "is_heap key xs" for xs x
    using that by (rule is_heap_push)
  show "mset (pop_heap key xs) = mset xs" if "xs \<noteq> []" for xs
    using that by (auto simp: pop_heap_def mset_sift_down)
  show "last (pop_heap key xs) = hd xs" if "is_heap key xs" "xs \<noteq> []" for xs
    using that by (rule last_pop_heap)
  show "is_heap key (butlast (pop_heap key xs))" if "is_heap key xs" "xs \<noteq> []" for xs
  proof (cases "length xs \<le> 1")
    case True
    with that show ?thesis
      by (auto simp: pop_heap_def nth_butlast_heap is_heap_upto_def le_Suc_eq)
  next
    case False
    with that have "down_hole key (length xs - 1) (swap xs 0 (length xs - 1)) 0"
      by (intro down_hole_pop) auto
    with False show ?thesis
      by (simp add: pop_heap_def nth_butlast_heap sift_down_heap)
  qed
qed

end
