(* ===== verification/Message_Queue.thy ===== *)
theory Message_Queue
  imports Ports_Message Std_Heap
begin

text \<open>
  The incoming message queue of a port (\<open>ports/message_queue.h\<close>, \<open>ports/message_queue.cc\<close>): a heap
  of messages ordered by sequence number, the next sequence number to hand out, and the flag that
  says whether an arrival may be signalled.  The queue enforces the order for the consumer without
  relying on it from the producer.
\<close>

section \<open>The queue and its operations\<close>

definition kInitialSequenceNum :: uint64_t where
  "kInitialSequenceNum = 1"

definition kInvalidSequenceNum :: uint64_t where
  "kInvalidSequenceNum = 0xFFFFFFFF"

record MessageQueue =
  mq_heap :: "Message list"
  mq_next_sequence_num :: uint64_t
  mq_signalable :: bool

definition MessageQueue_init :: "uint64_t \<Rightarrow> MessageQueue" where
  "MessageQueue_init next_sequence_num =
     \<lparr>mq_heap = [], mq_next_sequence_num = next_sequence_num, mq_signalable = True\<rparr>"

definition MessageQueue_default :: MessageQueue where
  "MessageQueue_default = MessageQueue_init kInitialSequenceNum"

definition set_signalable :: "bool \<Rightarrow> MessageQueue \<Rightarrow> MessageQueue" where
  "set_signalable value q = q\<lparr>mq_signalable := value\<rparr>"

definition next_sequence_num :: "MessageQueue \<Rightarrow> uint64_t" where
  "next_sequence_num q = mq_next_sequence_num q"

definition HasNextMessage :: "MessageQueue \<Rightarrow> bool" where
  "HasNextMessage q \<longleftrightarrow>
     mq_heap q \<noteq> [] \<and> GetSequenceNum (mq_heap q ! 0) = mq_next_sequence_num q"

text \<open>The selector is a \<open>std::function\<close>, which may be null.\<close>

definition GetNextMessageIf ::
  "(Message \<Rightarrow> bool) option \<Rightarrow> MessageQueue \<Rightarrow> Message option \<times> MessageQueue" where
  "GetNextMessageIf selector q =
     (if \<not> HasNextMessage q \<or> (case selector of None \<Rightarrow> False | Some f \<Rightarrow> \<not> f (mq_heap q ! 0))
      then (None, q)
      else let h = pop_heap GetSequenceNum (mq_heap q)
           in (Some (last h),
               q\<lparr>mq_heap := butlast h, mq_next_sequence_num := mq_next_sequence_num q + 1\<rparr>))"

definition AcceptMessage_queue :: "Message \<Rightarrow> MessageQueue \<Rightarrow> bool \<times> MessageQueue" where
  "AcceptMessage_queue message q =
     (let q' = q\<lparr>mq_heap := push_heap GetSequenceNum (mq_heap q @ [message])\<rparr>
      in (if \<not> mq_signalable q' then False
          else GetSequenceNum (mq_heap q' ! 0) = mq_next_sequence_num q', q'))"

definition GetReferencedPorts :: "MessageQueue \<Rightarrow> PortName list" where
  "GetReferencedPorts q = concat (map msg_ports (mq_heap q))"

text \<open>What the destructor counts: the ports carried by messages that were never read.\<close>

definition num_leaked_ports :: "MessageQueue \<Rightarrow> nat" where
  "num_leaked_ports q = sum_list (map num_ports (mq_heap q))"

lemmas queue_defs [mojo_defs] =
  MessageQueue_init_def MessageQueue_default_def set_signalable_def next_sequence_num_def

section \<open>Invariant and behaviour of the operations\<close>

definition mq_inv :: "MessageQueue \<Rightarrow> bool" where
  "mq_inv q \<longleftrightarrow> is_heap GetSequenceNum (mq_heap q)"

abbreviation pending :: "MessageQueue \<Rightarrow> Message multiset" where
  "pending q \<equiv> mset (mq_heap q)"

lemma mq_inv_init [simp, mojo_inv]: "mq_inv (MessageQueue_init n)"
  by (simp add: mq_inv_def MessageQueue_init_def array_heap.heap_Nil)

lemma mq_inv_set_signalable [simp, mojo_inv]: "mq_inv (set_signalable b q) = mq_inv q"
  by (simp add: mq_inv_def set_signalable_def)

lemma pending_set_signalable [simp]: "mq_heap (set_signalable b q) = mq_heap q"
  "mq_next_sequence_num (set_signalable b q) = mq_next_sequence_num q"
  "mq_signalable (set_signalable b q) = b"
  by (simp_all add: set_signalable_def)

lemma HasNextMessage_hd:
  "HasNextMessage q \<longleftrightarrow> mq_heap q \<noteq> [] \<and> GetSequenceNum (hd (mq_heap q)) = mq_next_sequence_num q"
  by (auto simp: HasNextMessage_def hd_conv_nth)

lemma HasNextMessage_iff:
  assumes "mq_inv q"
  shows "HasNextMessage q \<longleftrightarrow>
    (\<exists>m \<in> set (mq_heap q). GetSequenceNum m = mq_next_sequence_num q) \<and>
    (\<forall>m \<in> set (mq_heap q). mq_next_sequence_num q \<le> GetSequenceNum m)"
proof -
  have top: "\<And>m. m \<in> set (mq_heap q) \<Longrightarrow> GetSequenceNum (hd (mq_heap q)) \<le> GetSequenceNum m"
    using assms array_heap.heap_top [of GetSequenceNum "mq_heap q"] by (simp add: mq_inv_def)
  show ?thesis
  proof (cases "mq_heap q = []")
    case False
    then have "hd (mq_heap q) \<in> set (mq_heap q)" by simp
    then show ?thesis using top False unfolding HasNextMessage_hd by (metis order_antisym)
  qed (simp add: HasNextMessage_def)
qed

lemma AcceptMessage_queue_inv [mojo_inv]:
  "mq_inv q \<Longrightarrow> AcceptMessage_queue m q = (b, q') \<Longrightarrow> mq_inv q'"
  by (auto simp: AcceptMessage_queue_def mq_inv_def Let_def array_heap.heap_push)

lemma AcceptMessage_queue_frame:
  assumes "AcceptMessage_queue m q = (b, q')"
  shows "pending q' = pending q + {#m#}" "set (mq_heap q') = insert m (set (mq_heap q))"
    "mq_next_sequence_num q' = mq_next_sequence_num q" "mq_signalable q' = mq_signalable q"
  using assms by (auto simp: AcceptMessage_queue_def Let_def array_heap.mset_push array_heap.set_push)

text \<open>The signal reported by \<open>AcceptMessage\<close> is exactly "a message can be read and may be signalled".\<close>

lemma AcceptMessage_queue_signal:
  "AcceptMessage_queue m q = (b, q') \<Longrightarrow> b \<longleftrightarrow> mq_signalable q \<and> HasNextMessage q'"
  by (auto simp: AcceptMessage_queue_def Let_def HasNextMessage_def array_heap.push_not_Nil
      split: if_splits)

lemma GetNextMessageIf_None:
  "GetNextMessageIf sel q = (None, q') \<longleftrightarrow>
     q' = q \<and> (\<not> HasNextMessage q \<or> (\<exists>f. sel = Some f \<and> \<not> f (hd (mq_heap q))))"
  by (auto simp: GetNextMessageIf_def Let_def HasNextMessage_def hd_conv_nth split: option.splits)

lemma GetNextMessageIf_Some:
  assumes "mq_inv q" "GetNextMessageIf sel q = (Some m, q')"
  shows "HasNextMessage q" "m = hd (mq_heap q)" "m \<in> set (mq_heap q)"
    "GetSequenceNum m = mq_next_sequence_num q" "\<And>f. sel = Some f \<Longrightarrow> f m"
    "mq_next_sequence_num q' = mq_next_sequence_num q + 1" "mq_signalable q' = mq_signalable q"
    "pending q' = pending q - {#m#}" "mq_inv q'" "length (mq_heap q') < length (mq_heap q)"
proof -
  let ?h = "pop_heap GetSequenceNum (mq_heap q)"
  from assms(2) have has: "HasNextMessage q" and sel: "\<And>f. sel = Some f \<Longrightarrow> f (mq_heap q ! 0)"
    and m: "m = last ?h"
    and q': "q' = q\<lparr>mq_heap := butlast ?h, mq_next_sequence_num := mq_next_sequence_num q + 1\<rparr>"
    by (auto simp: GetNextMessageIf_def Let_def split: if_splits)
  from has have ne: "mq_heap q \<noteq> []" by (simp add: HasNextMessage_def)
  have h: "is_heap GetSequenceNum (mq_heap q)" using assms(1) by (simp add: mq_inv_def)
  show "m = hd (mq_heap q)" using m array_heap.last_pop [OF h ne] by simp
  then show "m \<in> set (mq_heap q)" "GetSequenceNum m = mq_next_sequence_num q"
    "\<And>f. sel = Some f \<Longrightarrow> f m"
    using has sel ne by (auto simp: HasNextMessage_hd hd_conv_nth)
  show p: "pending q' = pending q - {#m#}"
    using array_heap.mset_butlast_pop [OF h ne] m array_heap.last_pop [OF h ne] q' by simp
  show "mq_inv q'" using array_heap.heap_pop [OF h ne] q' by (simp add: mq_inv_def)
  have "size (pending q') < size (pending q)"
    unfolding p using \<open>m \<in> set (mq_heap q)\<close> by (intro size_Diff1_less) simp
  then show "length (mq_heap q') < length (mq_heap q)" by simp
  show "HasNextMessage q" "mq_next_sequence_num q' = mq_next_sequence_num q + 1"
    "mq_signalable q' = mq_signalable q"
    using has q' by simp_all
qed

lemma GetNextMessageIf_length:
  assumes "GetNextMessageIf sel q = (Some m, q')"
  shows "length (mq_heap q') < length (mq_heap q)"
proof -
  from assms have ne: "mq_heap q \<noteq> []"
    and q': "mq_heap q' = butlast (pop_heap GetSequenceNum (mq_heap q))"
    by (auto simp: GetNextMessageIf_def HasNextMessage_def Let_def split: if_splits)
  have "length (pop_heap GetSequenceNum (mq_heap q)) = length (mq_heap q)"
    using array_heap.mset_pop [OF ne] by (metis size_mset)
  with ne q' show ?thesis by (simp add: length_greater_0_conv)
qed

lemma set_GetReferencedPorts: "set (GetReferencedPorts q) = (\<Union>m \<in> set (mq_heap q). set (msg_ports m))"
  by (simp add: GetReferencedPorts_def)

lemma length_GetReferencedPorts: "length (GetReferencedPorts q) = num_leaked_ports q"
  by (simp add: GetReferencedPorts_def num_leaked_ports_def length_concat comp_def
      num_ports_def [abs_def])

end
