(* ===== verification/Queue_Order.thy ===== *)
theory Queue_Order
  imports Message_Queue
begin

text \<open>
  Ordering guarantees of the message queue.  The locale \<open>sequenced_queue\<close> is the interface a port
  relies on, independent of the heap: arrivals are stored, and a read either leaves the queue alone
  or removes the message that carries the next number and advances it.  The lemmas on whole runs are
  proved from that interface and the queue of \<open>Message_Queue\<close> is shown to implement it.
\<close>

section \<open>Runs of a queue\<close>

datatype 'm queue_op = Arrive 'm | Read

fun queue_run ::
  "('m \<Rightarrow> 'q \<Rightarrow> 'q) \<Rightarrow> ('q \<Rightarrow> 'm option \<times> 'q) \<Rightarrow> 'm queue_op list \<Rightarrow> 'q \<Rightarrow> 'm list \<times> 'q" where
  "queue_run accept get [] q = ([], q)"
| "queue_run accept get (Arrive m # ops) q = queue_run accept get ops (accept m q)"
| "queue_run accept get (Read # ops) q =
     (case get q of
        (None, q') \<Rightarrow> queue_run accept get ops q'
      | (Some m, q') \<Rightarrow> (let (ms, q'') = queue_run accept get ops q' in (m # ms, q'')))"

fun arrivals :: "'m queue_op list \<Rightarrow> 'm multiset" where
  "arrivals [] = {#}"
| "arrivals (Arrive m # ops) = add_mset m (arrivals ops)"
| "arrivals (Read # ops) = arrivals ops"

section \<open>The interface\<close>

locale sequenced_queue =
  fixes accept :: "'m \<Rightarrow> 'q \<Rightarrow> 'q"
    and get :: "'q \<Rightarrow> 'm option \<times> 'q"
    and next_num :: "'q \<Rightarrow> 'n::len word"
    and stored :: "'q \<Rightarrow> 'm multiset"
    and num :: "'m \<Rightarrow> 'n word"
    and inv :: "'q \<Rightarrow> bool"
  assumes inv_accept: "inv q \<Longrightarrow> inv (accept m q)"
    and stored_accept: "stored (accept m q) = add_mset m (stored q)"
    and next_accept: "next_num (accept m q) = next_num q"
    and get_None: "get q = (None, q') \<Longrightarrow> q' = q"
    and inv_get: "inv q \<Longrightarrow> get q = (Some m, q') \<Longrightarrow> inv q'"
    and stored_get: "inv q \<Longrightarrow> get q = (Some m, q') \<Longrightarrow> stored q = add_mset m (stored q')"
    and num_get: "inv q \<Longrightarrow> get q = (Some m, q') \<Longrightarrow> num m = next_num q"
    and next_get: "inv q \<Longrightarrow> get q = (Some m, q') \<Longrightarrow> next_num q' = next_num q + 1"
    and get_ready: "inv q \<Longrightarrow> \<exists>m. m \<in># stored q \<and> num m = next_num q \<Longrightarrow>
      \<forall>m. m \<in># stored q \<longrightarrow> next_num q \<le> num m \<Longrightarrow> \<exists>m q'. get q = (Some m, q')"
    and get_blocked: "inv q \<Longrightarrow> m \<in># stored q \<Longrightarrow> num m < next_num q \<Longrightarrow> get q = (None, q)"
begin

lemma run_in_order:
  assumes "inv q" "queue_run accept get ops q = (ms, q')"
  shows "inv q' \<and> map num ms = seq_from (next_num q) (length ms) \<and>
    next_num q' = next_num q + of_nat (length ms) \<and>
    mset ms + stored q' = stored q + arrivals ops"
  using assms
proof (induction ops arbitrary: q ms)
  case Nil
  then show ?case by simp
next
  case (Cons op ops)
  show ?case
  proof (cases op)
    case (Arrive m)
    then show ?thesis
      using Cons.IH [of "accept m q" ms] Cons.prems
      by (simp add: inv_accept stored_accept next_accept)
  next
    case Read
    obtain r q1 where g: "get q = (r, q1)" by fastforce
    show ?thesis
    proof (cases r)
      case None
      with g have "q1 = q" using get_None by blast
      then show ?thesis using Cons.IH [of q ms] Cons.prems Read g None by simp
    next
      case (Some m)
      with Cons.prems Read g obtain ms' where ms: "ms = m # ms'"
        and r: "queue_run accept get ops q1 = (ms', q')" by (auto split: prod.splits)
      note facts = inv_get [OF Cons.prems(1) g [unfolded Some]]
        stored_get [OF Cons.prems(1) g [unfolded Some]]
        num_get [OF Cons.prems(1) g [unfolded Some]] next_get [OF Cons.prems(1) g [unfolded Some]]
      then show ?thesis using Cons.IH [OF _ r] ms Read by (simp add: algebra_simps)
    qed
  qed
qed

text \<open>A stored message with a number below the next one blocks the queue for ever.\<close>

lemma run_blocked:
  assumes "inv q" "m \<in># stored q" "num m < next_num q"
  shows "fst (queue_run accept get ops q) = []"
  using assms
proof (induction ops arbitrary: q)
  case (Cons op ops)
  then show ?case
    by (cases op)
      (auto simp: get_blocked [OF Cons.prems] inv_accept stored_accept next_accept)
qed simp

text \<open>
  All of a run of consecutive numbers is read back in order, whatever the order of arrival, as long
  as the numbers do not wrap around.
\<close>

lemma get_head:
  assumes "inv q" "stored q = mset (m # ms)" "map num (m # ms) = seq_from (next_num q) (length (m # ms))"
    and "unat (next_num q) + length (m # ms) < 2 ^ LENGTH('n)"
  shows "\<exists>q'. get q = (Some m, q') \<and> inv q' \<and> stored q' = mset ms \<and> next_num q' = next_num q + 1"
proof -
  have nums: "map num ms = seq_from (next_num q + 1) (length ms)" "num m = next_num q"
    using assms(3) by auto
  have later: "unat (next_num q) < unat (num x)" if "x \<in> set ms" for x
  proof -
    from that obtain i where i: "i < length ms" "num x = map num ms ! i"
      by (metis in_set_conv_nth length_map nth_map)
    then have "num x = next_num q + of_nat (Suc i)"
      unfolding nums(1) by (simp add: seq_from_nth algebra_simps)
    moreover have "unat (next_num q + of_nat (Suc i)) = unat (next_num q) + Suc i"
      using i(1) assms(4) by (intro unat_add_of_nat) simp
    ultimately show ?thesis by simp
  qed
  have "next_num q \<le> num x" if "x \<in># stored q" for x
    using that later nums(2) assms(2) by (auto simp: word_le_nat_alt dest: less_imp_le)
  moreover have "\<exists>x. x \<in># stored q \<and> num x = next_num q"
    using nums(2) assms(2) by auto
  ultimately obtain x q1 where g: "get q = (Some x, q1)"
    using get_ready [OF assms(1)] by blast
  have "x \<in># stored q" using stored_get [OF assms(1) g] by simp
  then have x: "x = m"
    using later [of x] num_get [OF assms(1) g] assms(2) by auto
  show ?thesis
    using g inv_get [OF assms(1) g] stored_get [OF assms(1) g] next_get [OF assms(1) g] assms(2) x by simp
qed

lemma read_all:
  assumes "inv q" "stored q = mset ms" "map num ms = seq_from (next_num q) (length ms)"
    and "unat (next_num q) + length ms < 2 ^ LENGTH('n)"
  shows "\<exists>q'. queue_run accept get (replicate (length ms) Read) q = (ms, q') \<and> stored q' = {#}"
  using assms
proof (induction ms arbitrary: q)
  case Nil
  then show ?case by simp
next
  case (Cons m ms)
  obtain q1 where g: "get q = (Some m, q1)" and q1: "inv q1" "stored q1 = mset ms" "next_num q1 = next_num q + 1"
    using get_head [OF Cons.prems] by blast
  have "unat (next_num q + 1) = Suc (unat (next_num q))"
    using Cons.prems(4) by (intro unat_Suc_word) simp
  then obtain q' where "queue_run accept get (replicate (length ms) Read) q1 = (ms, q')"
    "stored q' = {#}"
    using Cons.IH [of q1] q1 Cons.prems(3,4) by auto
  then show ?case using g by simp
qed

lemma accept_all:
  "inv q \<Longrightarrow> \<exists>q'. queue_run accept get (map Arrive arr @ ops) q = queue_run accept get ops q' \<and>
     inv q' \<and> stored q' = stored q + mset arr \<and> next_num q' = next_num q"
proof (induction arr arbitrary: q)
  case (Cons m arr)
  then show ?case
    using Cons.IH [of "accept m q"] by (simp add: inv_accept stored_accept next_accept)
qed auto

lemma any_arrival_order:
  assumes "inv q" "stored q = {#}" "mset arr = mset ms"
    and "map num ms = seq_from (next_num q) (length ms)"
    and "unat (next_num q) + length ms < 2 ^ LENGTH('n)"
  shows "fst (queue_run accept get (map Arrive arr @ replicate (length ms) Read) q) = ms"
proof -
  obtain q1 where q1: "inv q1" "stored q1 = mset ms" "next_num q1 = next_num q"
    and run: "queue_run accept get (map Arrive arr @ replicate (length ms) Read) q =
      queue_run accept get (replicate (length ms) Read) q1"
    using accept_all [OF assms(1), of arr "replicate (length ms) Read"] assms(2,3) by auto
  show ?thesis using read_all [of q1 ms] q1 assms(4,5) unfolding run by auto
qed

end

section \<open>The message queue implements the interface\<close>

definition accept_message :: "Message \<Rightarrow> MessageQueue \<Rightarrow> MessageQueue" where
  "accept_message m q = snd (AcceptMessage_queue m q)"

lemma accept_message_frame [simp]:
  "mq_inv q \<Longrightarrow> mq_inv (accept_message m q)"
  "mset (mq_heap (accept_message m q)) = add_mset m (mset (mq_heap q))"
  "mq_next_sequence_num (accept_message m q) = mq_next_sequence_num q"
  using AcceptMessage_queue_inv [OF _ prod.collapse [symmetric], of q m]
    AcceptMessage_queue_frame [OF prod.collapse [symmetric], of m q]
  by (simp_all add: accept_message_def)

interpretation mq: sequenced_queue accept_message "GetNextMessageIf None" mq_next_sequence_num
  "\<lambda>q. mset (mq_heap q)" GetSequenceNum mq_inv
proof
  fix q q' m
  show "GetNextMessageIf None q = (None, q') \<Longrightarrow> q' = q" by (simp add: GetNextMessageIf_None)
  assume inv: "mq_inv q"
  show "m \<in># mset (mq_heap q) \<Longrightarrow> GetSequenceNum m < mq_next_sequence_num q \<Longrightarrow>
    GetNextMessageIf None q = (None, q)"
    using HasNextMessage_iff [OF inv] by (auto simp: GetNextMessageIf_None not_le)
  show "\<exists>m. m \<in># mset (mq_heap q) \<and> GetSequenceNum m = mq_next_sequence_num q \<Longrightarrow>
    \<forall>m. m \<in># mset (mq_heap q) \<longrightarrow> mq_next_sequence_num q \<le> GetSequenceNum m \<Longrightarrow>
    \<exists>m q'. GetNextMessageIf None q = (Some m, q')"
    using HasNextMessage_iff [OF inv] by (auto simp: GetNextMessageIf_def Let_def)
  assume g: "GetNextMessageIf None q = (Some m, q')"
  show "mq_inv q'" "GetSequenceNum m = mq_next_sequence_num q"
    "mq_next_sequence_num q' = mq_next_sequence_num q + 1"
    using GetNextMessageIf_Some [OF inv g] by simp_all
  show "mset (mq_heap q) = add_mset m (mset (mq_heap q'))"
    using GetNextMessageIf_Some(3,8) [OF inv g] by simp
qed simp_all

abbreviation mq_run :: "Message queue_op list \<Rightarrow> MessageQueue \<Rightarrow> Message list \<times> MessageQueue" where
  "mq_run \<equiv> queue_run accept_message (GetNextMessageIf None)"

section \<open>Ordering\<close>

text \<open>
  C10: For every interleaving of arrivals and reads, the messages read from a port's queue carry
  consecutive sequence numbers, starting at the queue's next number, whatever order they arrived in;
  none is duplicated, invented or lost: those read and those still stored are exactly those that were
  stored before or arrived.
\<close>

theorem queue_reads_in_order:
  assumes "mq_inv q" "mq_run ops q = (ms, q')"
  shows "mq_inv q' \<and> map GetSequenceNum ms = seq_from (next_sequence_num q) (length ms) \<and>
    next_sequence_num q' = next_sequence_num q + of_nat (length ms) \<and>
    mset ms + pending q' = pending q + arrivals ops"
  using mq.run_in_order [OF assms] by (simp add: next_sequence_num_def)

definition numbered :: "uint64_t \<Rightarrow> Message" where
  "numbered s = set_sequence_num s (NewUserMessage [] [])"

theorem queue_reads_in_order_witness:
  "map GetSequenceNum (fst (mq_run [Arrive (numbered 2), Read, Arrive (numbered 1), Read, Read] MessageQueue_default)) = [1, 2]"
proof -
  let ?ops = "[Arrive (numbered 2), Read, Arrive (numbered 1), Read, Read]"
  obtain ms q' where r: "mq_run ?ops MessageQueue_default = (ms, q')" by fastforce
  have "mq_inv MessageQueue_default" by (simp add: MessageQueue_default_def)
  note t = queue_reads_in_order [OF this r]
  have "length (fst (mq_run ?ops MessageQueue_default)) = 2" by code_simp
  then have "length ms = 2" using r by simp
  then show ?thesis using t r by (simp add: MessageQueue_default_def MessageQueue_init_def next_sequence_num_def
        kInitialSequenceNum_def numeral_2_eq_2)
qed

text \<open>
  C11: A run of consecutive messages that reaches an empty queue in any order is read back completely
  and in order, as long as the numbers do not wrap around.
\<close>

theorem queue_any_arrival_order:
  assumes "mq_inv q" "mq_heap q = []" "mset arr = mset ms"
    and "map GetSequenceNum ms = seq_from (next_sequence_num q) (length ms)"
    and "unat (next_sequence_num q) + length ms < 2 ^ 64"
  shows "fst (mq_run (map Arrive arr @ replicate (length ms) Read) q) = ms"
  using assms by (intro mq.any_arrival_order) (simp_all add: next_sequence_num_def)

theorem queue_any_arrival_order_witness:
  "fst (mq_run (map Arrive [numbered 3, numbered 1, numbered 2] @ replicate 3 Read) MessageQueue_default) =
     [numbered 1, numbered 2, numbered 3]"
  using queue_any_arrival_order [of MessageQueue_default "[numbered 3, numbered 1, numbered 2]"
      "[numbered 1, numbered 2, numbered 3]"]
  by (simp add: MessageQueue_default_def MessageQueue_init_def next_sequence_num_def kInitialSequenceNum_def numbered_def
      mq_inv_def array_heap.heap_Nil numeral_3_eq_3 add_mset_commute)

text \<open>
  A message whose number lies before the next one (a repeated send, or a number that wrapped
  around) is never discarded: it stays at the top of the heap and no message is ever read again,
  whatever arrives afterwards.
\<close>

theorem queue_blocked_by_stale_number:
  assumes "mq_inv q" "m \<in># pending q" "GetSequenceNum m < next_sequence_num q"
  shows "fst (mq_run ops q) = []"
  using assms by (intro mq.run_blocked) (simp_all add: next_sequence_num_def)

theorem queue_blocked_by_stale_number_witness:
  "fst (mq_run [Read, Arrive (numbered 2), Read] (accept_message (numbered 1) (MessageQueue_init 2))) = []"
  by (rule queue_blocked_by_stale_number [of _ "numbered 1"])
    (simp_all add: next_sequence_num_def, simp_all add: MessageQueue_init_def numbered_def)

end
