(* ===== verification/Ports_Node.thy ===== *)
theory Ports_Node
  imports Queue_Order
begin

text \<open>
  The node (\<open>ports/port.h\<close>, \<open>ports/port_ref.h\<close>, \<open>ports/node.h\<close>, \<open>ports/node.cc\<close>): the table of
  ports, the embedder's operations, and the handlers of the five events.

  Ports are reference-counted objects that the table, the embedder's \<open>PortRef\<close>s and running
  operations share, so they live in an explicit store \<open>port_at\<close> addressed by \<open>port_ptr\<close>; the table
  maps names to addresses, and an erased port can still be reached through a reference.  The calls a
  node makes on its delegate are recorded in order in \<open>delegate_calls\<close>; \<open>GenerateRandomPortName\<close>
  draws from \<open>random_names\<close>.  Each operation runs under the node's locks, so it is one step here.
\<close>

section \<open>Ports\<close>

datatype PortState = kUninitialized | kReceiving | kBuffering | kProxying | kClosed

record Port =
  state :: PortState
  peer_node_name :: NodeName
  peer_port_name :: PortName
  next_sequence_num_to_send :: uint64_t
  last_sequence_num_to_receive :: uint64_t
  message_queue :: MessageQueue
  send_on_proxy_removal :: "(NodeName \<times> Message) option"
  user_data :: "nat option"
  remove_proxy_on_last_message :: bool
  peer_closed :: bool

definition Port_init :: "uint64_t \<Rightarrow> uint64_t \<Rightarrow> Port" where
  "Port_init to_send to_receive =
     \<lparr>state = kUninitialized, peer_node_name = Name 0 0, peer_port_name = Name 0 0,
      next_sequence_num_to_send = to_send, last_sequence_num_to_receive = 0,
      message_queue = MessageQueue_init to_receive, send_on_proxy_removal = None,
      user_data = None, remove_proxy_on_last_message = False, peer_closed = False\<rparr>"

type_synonym port_ptr = nat

record PortRef =
  ref_name :: PortName
  ref_port :: port_ptr

section \<open>Results and statuses\<close>

datatype node_rv = OK | ERROR_PORT_UNKNOWN | ERROR_PORT_EXISTS | ERROR_PORT_STATE_UNEXPECTED
  | ERROR_PORT_CANNOT_SEND_SELF | ERROR_PORT_PEER_CLOSED | ERROR_PORT_CANNOT_SEND_PEER
  | ERROR_NOT_IMPLEMENTED

record PortStatus =
  has_messages :: bool
  receiving_messages :: bool
  status_peer_closed :: bool

section \<open>Nodes and their delegate\<close>

datatype delegate_call = ForwardMessage NodeName Message | PortStatusChanged PortRef

record Node =
  node_name :: NodeName
  ports :: "(PortName \<times> port_ptr) list"
  port_at :: "port_ptr \<Rightarrow> Port"
  port_count :: port_ptr
  random_names :: "nat \<Rightarrow> PortName"
  random_used :: nat
  delegate_calls :: "delegate_call list"

definition Node_init :: "NodeName \<Rightarrow> (nat \<Rightarrow> PortName) \<Rightarrow> Node" where
  "Node_init name rand =
     \<lparr>node_name = name, ports = [], port_at = (\<lambda>_. Port_init 0 0), port_count = 0,
      random_names = rand, random_used = 0, delegate_calls = []\<rparr>"

definition forward :: "NodeName \<Rightarrow> Message \<Rightarrow> Node \<Rightarrow> Node" where
  "forward to m n = n\<lparr>delegate_calls := delegate_calls n @ [ForwardMessage to m]\<rparr>"

definition status_changed :: "PortRef \<Rightarrow> Node \<Rightarrow> Node" where
  "status_changed r n = n\<lparr>delegate_calls := delegate_calls n @ [PortStatusChanged r]\<rparr>"

definition GenerateRandomPortName :: "Node \<Rightarrow> PortName \<times> Node" where
  "GenerateRandomPortName n =
     (random_names n (random_used n), n\<lparr>random_used := Suc (random_used n)\<rparr>)"

definition modify_port :: "port_ptr \<Rightarrow> (Port \<Rightarrow> Port) \<Rightarrow> Node \<Rightarrow> Node" where
  "modify_port a f n = n\<lparr>port_at := (port_at n)(a := f (port_at n a))\<rparr>"

text \<open>\<open>make_scoped_refptr(new Port(...))\<close>\<close>

definition new_port :: "Port \<Rightarrow> Node \<Rightarrow> port_ptr \<times> Node" where
  "new_port p n =
     (port_count n, n\<lparr>port_at := (port_at n)(port_count n := p), port_count := Suc (port_count n)\<rparr>)"

section \<open>Helpers\<close>

definition CanAcceptMoreMessages :: "Port \<Rightarrow> bool" where
  "CanAcceptMoreMessages port =
     (let next_sequence_num = next_sequence_num (message_queue port)
      in if peer_closed port \<or> remove_proxy_on_last_message port
         then if last_sequence_num_to_receive port = next_sequence_num - 1 then False else True
         else True)"

definition GetPort_Locked :: "PortName \<Rightarrow> Node \<Rightarrow> port_ptr option" where
  "GetPort_Locked port_name n = map_of (ports n) port_name"

definition ErasePort_Locked :: "PortName \<Rightarrow> Node \<Rightarrow> Node" where
  "ErasePort_Locked port_name n = n\<lparr>ports := um_erase port_name (ports n)\<rparr>"

text \<open>An existing name trips \<open>OOPS(ERROR_PORT_EXISTS)\<close>, a failed \<open>CHECK\<close>.\<close>

definition AddPortWithName :: "PortName \<Rightarrow> port_ptr \<Rightarrow> Node \<Rightarrow> fault + Node" where
  "AddPortWithName port_name a n =
     (if map_of (ports n) port_name \<noteq> None then Inl CheckFailure
      else Inr (n\<lparr>ports := um_insert port_name a (ports n)\<rparr>))"

section \<open>Operations of the embedder\<close>

definition CanShutdownCleanly :: "bool \<Rightarrow> Node \<Rightarrow> bool" where
  "CanShutdownCleanly allow_local_ports n =
     (if \<not> allow_local_ports then ports n = []
      else \<not> list_ex (\<lambda>e. peer_node_name (port_at n (snd e)) \<noteq> node_name n
             \<and> state (port_at n (snd e)) \<noteq> kReceiving) (ports n))"

definition GetPort :: "PortName \<Rightarrow> Node \<Rightarrow> node_rv \<times> PortRef option" where
  "GetPort port_name n =
     (case GetPort_Locked port_name n of
        None \<Rightarrow> (ERROR_PORT_UNKNOWN, None)
      | Some a \<Rightarrow> (OK, Some \<lparr>ref_name = port_name, ref_port = a\<rparr>))"

definition CreateUninitializedPort :: "Node \<Rightarrow> fault + PortRef \<times> Node" where
  "CreateUninitializedPort n =
     (let (port_name, n1) = GenerateRandomPortName n;
          (a, n2) = new_port (Port_init kInitialSequenceNum kInitialSequenceNum) n1
      in case AddPortWithName port_name a n2 of
           Inl f \<Rightarrow> Inl f
         | Inr n3 \<Rightarrow> Inr (\<lparr>ref_name = port_name, ref_port = a\<rparr>, n3))"

definition InitializePort :: "PortRef \<Rightarrow> NodeName \<Rightarrow> PortName \<Rightarrow> Node \<Rightarrow> node_rv \<times> Node" where
  "InitializePort port_ref peer_node peer_port n =
     (if state (port_at n (ref_port port_ref)) \<noteq> kUninitialized
      then (ERROR_PORT_STATE_UNEXPECTED, n)
      else (OK, status_changed port_ref
             (modify_port (ref_port port_ref)
                (\<lambda>p. p\<lparr>state := kReceiving, peer_node_name := peer_node,
                       peer_port_name := peer_port\<rparr>) n)))"

definition CreatePortPair :: "Node \<Rightarrow> fault + node_rv \<times> PortRef \<times> PortRef \<times> Node" where
  "CreatePortPair n =
     (case CreateUninitializedPort n of
        Inl f \<Rightarrow> Inl f
      | Inr (port0_ref, n1) \<Rightarrow>
          (case CreateUninitializedPort n1 of
             Inl f \<Rightarrow> Inl f
           | Inr (port1_ref, n2) \<Rightarrow>
               (case InitializePort port0_ref (node_name n2) (ref_name port1_ref) n2 of
                  (rv, n3) \<Rightarrow>
                    if rv \<noteq> OK then Inr (rv, port0_ref, port1_ref, n3)
                    else (case InitializePort port1_ref (node_name n3) (ref_name port0_ref) n3 of
                            (rv', n4) \<Rightarrow> Inr (rv', port0_ref, port1_ref, n4)))))"

definition SetUserData :: "PortRef \<Rightarrow> nat option \<Rightarrow> Node \<Rightarrow> node_rv \<times> Node" where
  "SetUserData port_ref data n =
     (if state (port_at n (ref_port port_ref)) = kClosed then (ERROR_PORT_STATE_UNEXPECTED, n)
      else (OK, modify_port (ref_port port_ref) (\<lambda>p. p\<lparr>user_data := data\<rparr>) n))"

definition GetUserData :: "PortRef \<Rightarrow> Node \<Rightarrow> node_rv \<times> nat option" where
  "GetUserData port_ref n =
     (if state (port_at n (ref_port port_ref)) = kClosed
      then (ERROR_PORT_STATE_UNEXPECTED, None)
      else (OK, user_data (port_at n (ref_port port_ref))))"

subsection \<open>Closing\<close>

text \<open>
  \<open>Node::ClosePort\<close> up to its final loop: the result, the node, and the names of the ports carried by
  the unread messages, which the loop closes in turn.
\<close>

definition ClosePort_step :: "PortRef \<Rightarrow> Node \<Rightarrow> node_rv \<times> Node \<times> PortName list" where
  "ClosePort_step port_ref n =
     (let port = port_at n (ref_port port_ref)
      in if state port = kUninitialized then (OK, ErasePort_Locked (ref_name port_ref) n, [])
         else if state port \<noteq> kReceiving then (ERROR_PORT_STATE_UNEXPECTED, n, [])
         else let n1 = modify_port (ref_port port_ref) (\<lambda>p. p\<lparr>state := kClosed\<rparr>) n;
                  last_sequence_num = next_sequence_num_to_send port - 1;
                  n2 = ErasePort_Locked (ref_name port_ref) n1;
                  n3 = forward (peer_node_name port)
                         (NewInternalMessage (peer_port_name port)
                            (ObserveClosure last_sequence_num)) n2
              in (OK, n3, GetReferencedPorts (message_queue port)))"

lemma ClosePort_step_length:
  assumes "ClosePort_step \<lparr>ref_name = nm, ref_port = a\<rparr> n = (rv, n', nms)"
    "map_of (ports n) nm \<noteq> None"
  shows "length (ports n') \<le> length (ports n)" "nms \<noteq> [] \<Longrightarrow> length (ports n') < length (ports n)"
  using assms length_um_erase_less [of "ports n" nm]
  by (auto simp: ClosePort_step_def Let_def ErasePort_Locked_def forward_def modify_port_def
      length_um_erase_le split: if_splits)

lemma ClosePort_step_measure:
  assumes "map_of (ports n) nm = Some a"
    "(rv, n', nms) = ClosePort_step \<lparr>ref_name = nm, ref_port = a\<rparr> n"
    "\<not> length (ports n') < length (ports n)"
  shows "length (ports n') = length (ports n) \<and> nms = []"
  using ClosePort_step_length [OF assms(2) [symmetric]] assms(1,3) by force

text \<open>
  The loop and the recursion: every name is looked up when its turn comes and closed together with
  the ports its own unread messages carry, before the next name.  The pending names of all the
  nested calls form one list; a call only adds names after it has erased a port from the table.
\<close>

function ClosePorts :: "PortName list \<Rightarrow> Node \<Rightarrow> Node" where
  "ClosePorts [] n = n"
| "ClosePorts (nm # nms) n =
     (case GetPort_Locked nm n of
        None \<Rightarrow> ClosePorts nms n
      | Some a \<Rightarrow>
          (case ClosePort_step \<lparr>ref_name = nm, ref_port = a\<rparr> n of
             (rv, n', nms') \<Rightarrow> ClosePorts (nms' @ nms) n'))"
  by pat_completeness auto
termination
  by (relation "measures [\<lambda>(nms, n). length (ports n), \<lambda>(nms, n). length nms]")
    (auto simp: GetPort_Locked_def dest: ClosePort_step_measure)

definition ClosePort :: "PortRef \<Rightarrow> Node \<Rightarrow> node_rv \<times> Node" where
  "ClosePort port_ref n =
     (case ClosePort_step port_ref n of (rv, n', nms) \<Rightarrow> (rv, ClosePorts nms n'))"

subsection \<open>Receiving\<close>

definition GetStatus :: "PortRef \<Rightarrow> Node \<Rightarrow> node_rv \<times> PortStatus option" where
  "GetStatus port_ref n =
     (let port = port_at n (ref_port port_ref)
      in if state port \<noteq> kReceiving then (ERROR_PORT_STATE_UNEXPECTED, None)
         else (OK, Some \<lparr>has_messages = HasNextMessage (message_queue port),
                         receiving_messages = CanAcceptMoreMessages port,
                         status_peer_closed = peer_closed port\<rparr>))"

text \<open>Allow the ports a delivered message refers to to trigger status changes.\<close>

fun make_signalable :: "PortName list \<Rightarrow> Node \<Rightarrow> fault + Node" where
  "make_signalable [] n = Inr n"
| "make_signalable (nm # nms) n =
     (case GetPort_Locked nm n of
        None \<Rightarrow> Inl NullPointer
      | Some a \<Rightarrow> make_signalable nms
          (modify_port a (\<lambda>p. p\<lparr>message_queue := set_signalable True (message_queue p)\<rparr>) n))"

definition GetMessageIf ::
  "PortRef \<Rightarrow> (Message \<Rightarrow> bool) option \<Rightarrow> Node \<Rightarrow> fault + node_rv \<times> Message option \<times> Node" where
  "GetMessageIf port_ref selector n =
     (let a = ref_port port_ref; port = port_at n a
      in if state port \<noteq> kReceiving then Inr (ERROR_PORT_STATE_UNEXPECTED, None, n)
         else if \<not> CanAcceptMoreMessages port then Inr (ERROR_PORT_PEER_CLOSED, None, n)
         else (case GetNextMessageIf selector (message_queue port) of
                 (message, q) \<Rightarrow>
                   let n1 = modify_port a (\<lambda>p. p\<lparr>message_queue := q\<rparr>) n
                   in (case message of
                         None \<Rightarrow> Inr (OK, None, n1)
                       | Some m \<Rightarrow>
                           (case make_signalable (msg_ports m) n1 of
                              Inl f \<Rightarrow> Inl f
                            | Inr n2 \<Rightarrow> Inr (OK, Some m, n2)))))"

definition GetMessage :: "PortRef \<Rightarrow> Node \<Rightarrow> fault + node_rv \<times> Message option \<times> Node" where
  "GetMessage port_ref n = GetMessageIf port_ref None n"

section \<open>Sending\<close>

text \<open>
  \<open>Node::WillSendPort_Locked\<close>: the port becomes a buffering proxy that points at a new name, and the
  descriptor carries the endpoint's state to the receiver.
\<close>

definition WillSendPort_Locked ::
  "port_ptr \<Rightarrow> NodeName \<Rightarrow> PortName \<Rightarrow> Node \<Rightarrow> (PortName \<times> PortDescriptor) \<times> Node" where
  "WillSendPort_Locked a to_node_name local_port_name n =
     (let (new_port_name, n1) = GenerateRandomPortName n;
          port = port_at n1 a;
          d = \<lparr>pd_peer_node_name = peer_node_name port, pd_peer_port_name = peer_port_name port,
               pd_referring_node_name = node_name n1, pd_referring_port_name = local_port_name,
               pd_next_sequence_num_to_send = next_sequence_num_to_send port,
               pd_next_sequence_num_to_receive = next_sequence_num (message_queue port),
               pd_last_sequence_num_to_receive = last_sequence_num_to_receive port,
               pd_peer_closed = peer_closed port\<rparr>
      in ((new_port_name, d),
          modify_port a
            (\<lambda>p. p\<lparr>state := kBuffering,
                   remove_proxy_on_last_message := (if peer_closed p then True
                                                     else remove_proxy_on_last_message p),
                   peer_node_name := to_node_name, peer_port_name := new_port_name\<rparr>) n1))"

text \<open>
  The first loop of \<open>WillSendMessage_Locked\<close>: look each port up, take its lock, and check that it can
  be sent.  A null port is dereferenced; a lock that is already held deadlocks.  On an error the code
  releases \<open>ports[i]\<close>, the offending port, \<open>i + 1\<close> times instead of each of \<open>ports[0..i]\<close> once, so
  unless the first port is the offending one it releases a lock that is not held.
\<close>

fun lock_ports_to_send ::
  "Port \<Rightarrow> Node \<Rightarrow> port_ptr list \<Rightarrow> port_ptr list \<Rightarrow> PortName list \<Rightarrow> fault + node_rv \<times> port_ptr list" where
  "lock_ports_to_send port n held locked [] = Inr (OK, locked)"
| "lock_ports_to_send port n held locked (nm # nms) =
     (case GetPort_Locked nm n of
        None \<Rightarrow> Inl NullPointer
      | Some b \<Rightarrow>
          if b \<in> set held \<or> b \<in> set locked then Inl LockMisuse
          else let error = (if state (port_at n b) \<noteq> kReceiving then ERROR_PORT_STATE_UNEXPECTED
                            else if nm = peer_port_name port then ERROR_PORT_CANNOT_SEND_PEER
                            else OK)
               in if error \<noteq> OK then (if locked \<noteq> [] then Inl LockMisuse else Inr (error, []))
                  else lock_ports_to_send port n held (locked @ [b]) nms)"

text \<open>The second loop: transfer the ports one by one.\<close>

fun send_ports ::
  "NodeName \<Rightarrow> (PortName \<times> port_ptr) list \<Rightarrow> Node \<Rightarrow> (PortName \<times> PortDescriptor) list \<times> Node" where
  "send_ports to_node_name [] n = ([], n)"
| "send_ports to_node_name ((nm, b) # rest) n =
     (let (nd, n1) = WillSendPort_Locked b to_node_name nm n;
          (nds, n2) = send_ports to_node_name rest n1
      in (nd # nds, n2))"

definition set_header_port_name :: "PortName \<Rightarrow> Message \<Rightarrow> Message" where
  "set_header_port_name p m = m\<lparr>header_port_name := p\<rparr>"

definition set_ports :: "(PortName \<times> PortDescriptor) list \<Rightarrow> Message \<Rightarrow> Message" where
  "set_ports nds m =
     m\<lparr>msg_ports := map fst nds, event_data := UserEvent (GetSequenceNum m) (map snd nds)\<rparr>"

text \<open>The message is passed by pointer: the result carries it as the call leaves it.\<close>

definition WillSendMessage_Locked ::
  "port_ptr \<Rightarrow> Message \<Rightarrow> Node \<Rightarrow> fault + node_rv \<times> Message \<times> Node" where
  "WillSendMessage_Locked a message n =
     (let port = port_at n a;
          (m1, n1) = (if GetSequenceNum message = 0
                      then (set_sequence_num (next_sequence_num_to_send port) message,
                            modify_port a (\<lambda>p. p\<lparr>next_sequence_num_to_send :=
                                                  next_sequence_num_to_send p + 1\<rparr>) n)
                      else (message, n))
      in if num_ports m1 > 0
         then (case lock_ports_to_send port n1 [a] [] (msg_ports m1) of
                 Inl f \<Rightarrow> Inl f
               | Inr (error, locked) \<Rightarrow>
                   if error \<noteq> OK
                   then Inr (error, m1,
                          modify_port a (\<lambda>p. p\<lparr>next_sequence_num_to_send :=
                                                next_sequence_num_to_send p - 1\<rparr>) n1)
                   else (case send_ports (peer_node_name port) (zip (msg_ports m1) locked) n1 of
                           (nds, n2) \<Rightarrow>
                             Inr (OK, set_header_port_name (peer_port_name port) (set_ports nds m1), n2)))
         else Inr (OK, set_header_port_name (peer_port_name port) m1, n1))"

end
