(* ===== verification/Node_Events.thy ===== *)
theory Node_Events
  imports Ports_Node
begin

text \<open>
  The second half of \<open>ports/node.cc\<close>: forwarding by proxies, the removal of proxies, the handlers of
  the five events, \<open>AcceptMessage\<close>, \<open>SendMessage\<close> and \<open>LostConnectionToNode\<close>.
\<close>

section \<open>Frame facts of the sending helpers\<close>

lemma node_update_simps [simp]:
  "port_at (forward to m n) = port_at n" "ports (forward to m n) = ports n"
  "node_name (forward to m n) = node_name n" "port_count (forward to m n) = port_count n"
  "delegate_calls (forward to m n) = delegate_calls n @ [ForwardMessage to m]"
  "port_at (status_changed r n) = port_at n" "ports (status_changed r n) = ports n"
  "node_name (status_changed r n) = node_name n" "port_count (status_changed r n) = port_count n"
  "delegate_calls (status_changed r n) = delegate_calls n @ [PortStatusChanged r]"
  "port_at (modify_port a f n) = (port_at n)(a := f (port_at n a))"
  "ports (modify_port a f n) = ports n" "node_name (modify_port a f n) = node_name n"
  "port_count (modify_port a f n) = port_count n"
  "delegate_calls (modify_port a f n) = delegate_calls n"
  "port_at (ErasePort_Locked nm n) = port_at n"
  "ports (ErasePort_Locked nm n) = um_erase nm (ports n)"
  "node_name (ErasePort_Locked nm n) = node_name n"
  "port_count (ErasePort_Locked nm n) = port_count n"
  "delegate_calls (ErasePort_Locked nm n) = delegate_calls n"
  by (simp_all add: forward_def status_changed_def modify_port_def ErasePort_Locked_def)

lemma random_update_simps [simp]:
  "random_names (forward to m n) = random_names n" "random_used (forward to m n) = random_used n"
  "random_names (status_changed r n) = random_names n"
  "random_used (status_changed r n) = random_used n"
  "random_names (modify_port a f n) = random_names n" "random_used (modify_port a f n) = random_used n"
  "random_names (ErasePort_Locked nm n) = random_names n"
  "random_used (ErasePort_Locked nm n) = random_used n"
  by (simp_all add: forward_def status_changed_def modify_port_def ErasePort_Locked_def)

lemma GenerateRandomPortName_frame [simp]:
  "fst (GenerateRandomPortName n) = random_names n (random_used n)"
  "port_at (snd (GenerateRandomPortName n)) = port_at n"
  "ports (snd (GenerateRandomPortName n)) = ports n"
  "node_name (snd (GenerateRandomPortName n)) = node_name n"
  "port_count (snd (GenerateRandomPortName n)) = port_count n"
  "delegate_calls (snd (GenerateRandomPortName n)) = delegate_calls n"
  "random_names (snd (GenerateRandomPortName n)) = random_names n"
  "random_used (snd (GenerateRandomPortName n)) = Suc (random_used n)"
  by (simp_all add: GenerateRandomPortName_def)

lemma WillSendPort_frame:
  assumes "WillSendPort_Locked a to nm n = (nd, n')"
  shows "ports n' = ports n" "node_name n' = node_name n" "port_count n' = port_count n"
    "delegate_calls n' = delegate_calls n" "random_names n' = random_names n"
    "\<And>b. message_queue (port_at n' b) = message_queue (port_at n b)"
    "\<And>b. b \<noteq> a \<Longrightarrow> port_at n' b = port_at n b"
    "\<And>b. next_sequence_num_to_send (port_at n' b) = next_sequence_num_to_send (port_at n b)"
    "\<And>b. state (port_at n' b) = (if b = a then kBuffering else state (port_at n b))"
  using assms
  by (auto simp: WillSendPort_Locked_def Let_def case_prod_beta split: if_splits)

lemma send_ports_frame:
  "send_ports to nps n = (nds, n') \<Longrightarrow>
     ports n' = ports n \<and> node_name n' = node_name n \<and> port_count n' = port_count n \<and>
     delegate_calls n' = delegate_calls n \<and> random_names n' = random_names n \<and>
     (\<forall>b. message_queue (port_at n' b) = message_queue (port_at n b)) \<and>
     (\<forall>b. b \<notin> snd ` set nps \<longrightarrow> port_at n' b = port_at n b) \<and>
     (\<forall>b. next_sequence_num_to_send (port_at n' b) = next_sequence_num_to_send (port_at n b)) \<and>
     (\<forall>b. state (port_at n' b) = (if b \<in> snd ` set nps then kBuffering else state (port_at n b))) \<and>
     length nds = length nps"
proof (induction to nps n arbitrary: nds n' rule: send_ports.induct)
  case (2 to nm b rest n)
  obtain nd n1 where w: "WillSendPort_Locked b to nm n = (nd, n1)" by fastforce
  obtain nds1 n2 where s: "send_ports to rest n1 = (nds1, n2)" by fastforce
  have e: "nds = nd # nds1" "n' = n2" using "2.prems" w s by simp_all
  show ?case
    using "2.IH" [OF w [symmetric] refl s] WillSendPort_frame [OF w] e by auto
qed simp

lemma lock_ports_props:
  "lock_ports_to_send port n held locked nms = Inr (OK, bs) \<Longrightarrow> distinct locked \<Longrightarrow>
     set held \<inter> set locked = {} \<Longrightarrow> (\<forall>b \<in> set locked. state (port_at n b) = kReceiving) \<Longrightarrow>
     distinct bs \<and> set held \<inter> set bs = {} \<and> (\<forall>b \<in> set bs. state (port_at n b) = kReceiving) \<and>
     bs = locked @ map (\<lambda>nm. the (map_of (ports n) nm)) nms \<and>
     (\<forall>nm \<in> set nms. map_of (ports n) nm \<noteq> None \<and> nm \<noteq> peer_port_name port)"
proof (induction port n held locked nms rule: lock_ports_to_send.induct)
  case (2 port n held locked nm nms)
  from "2.prems"(1) obtain b where b: "map_of (ports n) nm = Some b" "b \<notin> set held" "b \<notin> set locked"
    "state (port_at n b) = kReceiving" "nm \<noteq> peer_port_name port"
    "lock_ports_to_send port n held (locked @ [b]) nms = Inr (OK, bs)"
    by (auto simp: GetPort_Locked_def Let_def split: option.splits if_splits)
  have "distinct (locked @ [b])" "set held \<inter> set (locked @ [b]) = {}"
    "\<forall>c \<in> set (locked @ [b]). state (port_at n c) = kReceiving"
    using "2.prems"(2-4) b(2-4) by auto
  then have ih: "distinct bs \<and> set held \<inter> set bs = {} \<and> (\<forall>c \<in> set bs. state (port_at n c) = kReceiving) \<and>
     bs = (locked @ [b]) @ map (\<lambda>nm. the (map_of (ports n) nm)) nms \<and>
     (\<forall>nm \<in> set nms. map_of (ports n) nm \<noteq> None \<and> nm \<noteq> peer_port_name port)"
    using b by (intro "2.IH" [OF _ _ refl]) (auto simp: GetPort_Locked_def)
  have bs: "bs = locked @ map (\<lambda>nm. the (map_of (ports n) nm)) (nm # nms)" using ih b(1) by simp
  have "\<forall>x \<in> set (nm # nms). map_of (ports n) x \<noteq> None \<and> x \<noteq> peer_port_name port"
    using ih b(1,5) by simp
  with ih bs show ?case by blast
qed simp

lemma WillSendMessage_frame:
  assumes "WillSendMessage_Locked a m n = Inr (rv, m', n')"
  shows "ports n' = ports n" "node_name n' = node_name n" "port_count n' = port_count n"
    "delegate_calls n' = delegate_calls n" "random_names n' = random_names n"
    "\<And>b. message_queue (port_at n' b) = message_queue (port_at n b)"
    "msg_payload m' = msg_payload m"
  using assms
  by (auto simp: WillSendMessage_Locked_def Let_def set_header_port_name_def set_ports_def
      split: if_splits sum.splits prod.splits dest!: send_ports_frame)

section \<open>Proxies\<close>

text \<open>
  \<open>Node::ForwardMessages_Locked\<close>: forward the messages that are next in sequence until none is left.
\<close>

function ForwardMessages_Locked :: "port_ptr \<Rightarrow> Node \<Rightarrow> fault + node_rv \<times> Node" where
  "ForwardMessages_Locked a n =
     (case GetNextMessageIf None (message_queue (port_at n a)) of
        (None, q) \<Rightarrow> Inr (OK, n)
      | (Some m, q) \<Rightarrow>
          (case WillSendMessage_Locked a m (modify_port a (\<lambda>p. p\<lparr>message_queue := q\<rparr>) n) of
             Inl f \<Rightarrow> Inl f
           | Inr (rv, m', n') \<Rightarrow>
               if rv \<noteq> OK then Inr (rv, n')
               else ForwardMessages_Locked a (forward (peer_node_name (port_at n' a)) m' n')))"
  by pat_completeness auto

lemma ForwardMessages_measure:
  assumes "GetNextMessageIf None (message_queue (port_at n a)) = (Some m, q)"
    "WillSendMessage_Locked a m (modify_port a (\<lambda>p. p\<lparr>message_queue := q\<rparr>) n) = Inr (rv, m', n')"
  shows "length (mq_heap (message_queue (port_at n' a))) < length (mq_heap (message_queue (port_at n a)))"
  using GetNextMessageIf_length [OF assms(1)] WillSendMessage_frame(6) [OF assms(2), of a] by simp

termination ForwardMessages_Locked
  by (relation "measure (\<lambda>(a, n). length (mq_heap (message_queue (port_at n a))))")
    (auto dest: ForwardMessages_measure [OF sym])

declare ForwardMessages_Locked.simps [simp del]

definition InitiateProxyRemoval_Locked :: "port_ptr \<Rightarrow> PortName \<Rightarrow> Node \<Rightarrow> Node" where
  "InitiateProxyRemoval_Locked a port_name n =
     (let port = port_at n a;
          data = \<lparr>proxy_node_name = node_name n, proxy_port_name = port_name,
                  proxy_to_node_name = peer_node_name port,
                  proxy_to_port_name = peer_port_name port\<rparr>
      in forward (peer_node_name port)
           (NewInternalMessage (peer_port_name port) (ObserveProxy data)) n)"

definition MaybeRemoveProxy_Locked :: "port_ptr \<Rightarrow> PortName \<Rightarrow> Node \<Rightarrow> Node" where
  "MaybeRemoveProxy_Locked a port_name n =
     (let port = port_at n a
      in if \<not> remove_proxy_on_last_message port then n
         else if \<not> CanAcceptMoreMessages port
         then let n1 = ErasePort_Locked port_name n
              in (case send_on_proxy_removal port of
                    None \<Rightarrow> n1
                  | Some (to_node, message) \<Rightarrow> forward to_node message n1)
         else n)"

section \<open>Event handlers\<close>

definition AcceptPort :: "PortName \<Rightarrow> PortDescriptor \<Rightarrow> Node \<Rightarrow> fault + Node" where
  "AcceptPort port_name d n =
     (let port = (Port_init (pd_next_sequence_num_to_send d) (pd_next_sequence_num_to_receive d))
            \<lparr>state := kReceiving, peer_node_name := pd_peer_node_name d,
             peer_port_name := pd_peer_port_name d,
             last_sequence_num_to_receive := pd_last_sequence_num_to_receive d,
             peer_closed := pd_peer_closed d,
             message_queue := set_signalable False
               (MessageQueue_init (pd_next_sequence_num_to_receive d))\<rparr>;
          (a, n1) = new_port port n
      in case AddPortWithName port_name a n1 of
           Inl f \<Rightarrow> Inl f
         | Inr n2 \<Rightarrow> Inr (forward (pd_referring_node_name d)
                           (NewInternalMessage (pd_referring_port_name d) PortAccepted) n2))"

fun AcceptPorts :: "PortName list \<Rightarrow> PortDescriptor list \<Rightarrow> Node \<Rightarrow> fault + Node" where
  "AcceptPorts [] ds n = Inr n"
| "AcceptPorts (nm # nms) [] n = Inl OutOfBounds"
| "AcceptPorts (nm # nms) (d # ds) n =
     (case AcceptPort nm d n of Inl f \<Rightarrow> Inl f | Inr n' \<Rightarrow> AcceptPorts nms ds n')"

definition descriptors :: "Message \<Rightarrow> PortDescriptor list" where
  "descriptors m = (case event_data m of UserEvent _ ds \<Rightarrow> ds | _ \<Rightarrow> [])"

definition OnUserMessage :: "Message \<Rightarrow> Node \<Rightarrow> fault + node_rv \<times> Node" where
  "OnUserMessage message n =
     (let port_name = header_port_name message;
          port = GetPort_Locked port_name n
      in case AcceptPorts (msg_ports message) (descriptors message) n of
           Inl f \<Rightarrow> Inl f
         | Inr n1 \<Rightarrow>
             (case port of
                Some a \<Rightarrow>
                  if CanAcceptMoreMessages (port_at n1 a)
                  then (case AcceptMessage_queue message (message_queue (port_at n1 a)) of
                          (has_next_message, q) \<Rightarrow>
                            let n2 = modify_port a (\<lambda>p. p\<lparr>message_queue := q\<rparr>) n1
                            in if state (port_at n2 a) = kBuffering then Inr (OK, n2)
                               else if state (port_at n2 a) = kProxying
                               then (case ForwardMessages_Locked a n2 of
                                       Inl f \<Rightarrow> Inl f
                                     | Inr (rv, n3) \<Rightarrow>
                                         if rv \<noteq> OK then Inr (rv, n3)
                                         else Inr (OK, MaybeRemoveProxy_Locked a port_name n3))
                               else if has_next_message
                               then Inr (OK, status_changed \<lparr>ref_name = port_name, ref_port = a\<rparr> n2)
                               else Inr (OK, n2))
                  else Inr (OK, ClosePorts (msg_ports message) n1)
              | None \<Rightarrow> Inr (OK, ClosePorts (msg_ports message) n1)))"

text \<open>Both \<open>OOPS\<close> branches abort.\<close>

definition OnPortAccepted :: "PortName \<Rightarrow> Node \<Rightarrow> fault + node_rv \<times> Node" where
  "OnPortAccepted port_name n =
     (case GetPort_Locked port_name n of
        None \<Rightarrow> Inl CheckFailure
      | Some a \<Rightarrow>
          if state (port_at n a) \<noteq> kBuffering then Inl CheckFailure
          else (case ForwardMessages_Locked a (modify_port a (\<lambda>p. p\<lparr>state := kProxying\<rparr>) n) of
                  Inl f \<Rightarrow> Inl f
                | Inr (rv, n1) \<Rightarrow>
                    if rv \<noteq> OK then Inr (rv, n1)
                    else if remove_proxy_on_last_message (port_at n1 a)
                    then let n2 = MaybeRemoveProxy_Locked a port_name n1;
                             port = port_at n2 a
                         in Inr (OK, forward (peer_node_name port)
                              (NewInternalMessage (peer_port_name port)
                                 (ObserveClosure (last_sequence_num_to_receive port))) n2)
                    else Inr (OK, InitiateProxyRemoval_Locked a port_name n1)))"

definition OnObserveProxy :: "PortName \<Rightarrow> ObserveProxyEventData \<Rightarrow> Node \<Rightarrow> node_rv \<times> Node" where
  "OnObserveProxy port_name event n =
     (case GetPort_Locked port_name n of
        None \<Rightarrow> (OK, n)
      | Some a \<Rightarrow>
          let port = port_at n a
          in if peer_node_name port = proxy_node_name event \<and>
                peer_port_name port = proxy_port_name event
             then if state port = kReceiving
                  then let n1 = modify_port a
                             (\<lambda>p. p\<lparr>peer_node_name := proxy_to_node_name event,
                                    peer_port_name := proxy_to_port_name event\<rparr>) n;
                           last_sequence_num = next_sequence_num_to_send port - 1
                       in (OK, forward (proxy_node_name event)
                            (NewInternalMessage (proxy_port_name event)
                               (ObserveProxyAck last_sequence_num)) n1)
                  else (OK, modify_port a
                          (\<lambda>p. p\<lparr>send_on_proxy_removal :=
                             Some (proxy_node_name event,
                                   NewInternalMessage (proxy_port_name event)
                                     (ObserveProxyAck kInvalidSequenceNum))\<rparr>) n)
             else (OK, forward (peer_node_name port)
                     (NewInternalMessage (peer_port_name port) (ObserveProxy event)) n))"

definition OnObserveProxyAck :: "PortName \<Rightarrow> uint64_t \<Rightarrow> Node \<Rightarrow> fault + node_rv \<times> Node" where
  "OnObserveProxyAck port_name last_sequence_num n =
     (case GetPort_Locked port_name n of
        None \<Rightarrow> Inr (ERROR_PORT_UNKNOWN, n)
      | Some a \<Rightarrow>
          if state (port_at n a) \<noteq> kProxying then Inl CheckFailure
          else if last_sequence_num = kInvalidSequenceNum
          then Inr (OK, InitiateProxyRemoval_Locked a port_name n)
          else Inr (OK, MaybeRemoveProxy_Locked a port_name
                 (modify_port a
                    (\<lambda>p. p\<lparr>remove_proxy_on_last_message := True,
                           last_sequence_num_to_receive := last_sequence_num\<rparr>) n)))"

definition OnObserveClosure :: "PortName \<Rightarrow> uint64_t \<Rightarrow> Node \<Rightarrow> node_rv \<times> Node" where
  "OnObserveClosure port_name last_sequence_num n =
     (case GetPort_Locked port_name n of
        None \<Rightarrow> (OK, n)
      | Some a \<Rightarrow>
          let n1 = modify_port a (\<lambda>p. p\<lparr>peer_closed := True,
                                        last_sequence_num_to_receive := last_sequence_num\<rparr>) n;
              notify_delegate = (state (port_at n1 a) = kReceiving);
              (forwarded, n2) =
                (if state (port_at n1 a) = kReceiving
                 then (next_sequence_num_to_send (port_at n1 a) - 1, n1)
                 else let n' = modify_port a (\<lambda>p. p\<lparr>remove_proxy_on_last_message := True\<rparr>) n1
                      in (last_sequence_num,
                          if state (port_at n' a) = kProxying
                          then MaybeRemoveProxy_Locked a port_name n' else n'));
              port = port_at n2 a;
              n3 = forward (peer_node_name port)
                     (NewInternalMessage (peer_port_name port) (ObserveClosure forwarded)) n2
          in (OK, if notify_delegate
                  then status_changed \<lparr>ref_name = port_name, ref_port = a\<rparr> n3 else n3))"

definition AcceptMessage :: "Message \<Rightarrow> Node \<Rightarrow> fault + node_rv \<times> Node" where
  "AcceptMessage message n =
     (case event_data message of
        UserEvent _ _ \<Rightarrow> OnUserMessage message n
      | PortAccepted \<Rightarrow> OnPortAccepted (header_port_name message) n
      | ObserveProxy event \<Rightarrow> Inr (OnObserveProxy (header_port_name message) event n)
      | ObserveProxyAck last_sequence_num \<Rightarrow>
          OnObserveProxyAck (header_port_name message) last_sequence_num n
      | ObserveClosure last_sequence_num \<Rightarrow>
          Inr (OnObserveClosure (header_port_name message) last_sequence_num n))"

section \<open>Sending a message\<close>

text \<open>
  The caller's message: \<open>Some\<close> the message as the call leaves it when the send fails, \<open>None\<close> (a null
  pointer) once ownership has moved.
\<close>

definition SendMessage :: "PortRef \<Rightarrow> Message \<Rightarrow> Node \<Rightarrow> fault + node_rv \<times> Message option \<times> Node" where
  "SendMessage port_ref m n =
     (if ref_name port_ref \<in> set (msg_ports m) then Inr (ERROR_PORT_CANNOT_SEND_SELF, Some m, n)
      else let a = ref_port port_ref; port = port_at n a
           in if state port \<noteq> kReceiving then Inr (ERROR_PORT_STATE_UNEXPECTED, Some m, n)
              else if peer_closed port then Inr (ERROR_PORT_PEER_CLOSED, Some m, n)
              else (case WillSendMessage_Locked a m n of
                      Inl f \<Rightarrow> Inl f
                    | Inr (rv, m', n1) \<Rightarrow>
                        if rv \<noteq> OK then Inr (rv, Some m', n1)
                        else if peer_node_name (port_at n1 a) \<noteq> node_name n1
                        then Inr (OK, None, forward (peer_node_name (port_at n1 a)) m' n1)
                        else (case AcceptMessage m' n1 of
                                Inl f \<Rightarrow> Inl f
                              | Inr (_, n2) \<Rightarrow> Inr (OK, None, n2))))"

section \<open>Losing a connection\<close>

definition lose_peer :: "NodeName \<Rightarrow> Port \<Rightarrow> Port" where
  "lose_peer lost port =
     (if peer_node_name port = lost \<and> \<not> peer_closed port
      then port\<lparr>peer_closed := True,
                last_sequence_num_to_receive := next_sequence_num (message_queue port) - 1\<rparr>
      else port)"

text \<open>One pass over the table: the ports to notify, the entries that stay, the updated store.\<close>

fun LostConnection_loop ::
  "NodeName \<Rightarrow> (PortName \<times> port_ptr) list \<Rightarrow> (port_ptr \<Rightarrow> Port) \<Rightarrow>
     PortRef list \<times> (PortName \<times> port_ptr) list \<times> (port_ptr \<Rightarrow> Port)" where
  "LostConnection_loop lost [] st = ([], [], st)"
| "LostConnection_loop lost ((nm, a) # es) st =
     (let port = st a;
          st1 = st(a := lose_peer lost port);
          notify = (peer_node_name port = lost \<and> \<not> peer_closed port \<and> state port = kReceiving);
          remove_port = (peer_node_name port = lost \<and> state port \<noteq> kReceiving);
          (refs, kept, st2) = LostConnection_loop lost es st1
      in (if notify then \<lparr>ref_name = nm, ref_port = a\<rparr> # refs else refs,
          if remove_port then kept else (nm, a) # kept, st2))"

definition LostConnectionToNode :: "NodeName \<Rightarrow> Node \<Rightarrow> node_rv \<times> Node" where
  "LostConnectionToNode lost n =
     (case LostConnection_loop lost (ports n) (port_at n) of
        (ports_to_notify, kept, st) \<Rightarrow>
          (OK, n\<lparr>ports := kept, port_at := st,
                 delegate_calls := delegate_calls n @ map PortStatusChanged ports_to_notify\<rparr>))"

end
