(* ===== verification/Node_Inv.thy ===== *)
theory Node_Inv
  imports Node_Events
begin

text \<open>
  The well-formedness invariant of a node and its preservation by every operation and every event:
  the table is a one-to-one map from names to allocated ports, receiving ports are in the table,
  closed ports are not, and every message queue is a heap of user messages.  Reachability is an
  inductive step relation over the embedder's operations, arbitrary incoming messages included.
\<close>

section \<open>The invariant\<close>

definition queue_ok :: "MessageQueue \<Rightarrow> bool" where
  "queue_ok q \<longleftrightarrow> mq_inv q \<and> (\<forall>m \<in> set (mq_heap q). is_user m)"

abbreviation registered :: "Node \<Rightarrow> port_ptr set" where
  "registered n \<equiv> snd ` set (ports n)"

definition node_inv :: "Node \<Rightarrow> bool" where
  "node_inv n \<longleftrightarrow>
     distinct (map fst (ports n)) \<and> distinct (map snd (ports n)) \<and>
     registered n \<subseteq> {..<port_count n} \<and>
     (\<forall>a. queue_ok (message_queue (port_at n a))) \<and>
     (\<forall>a < port_count n. state (port_at n a) = kReceiving \<longrightarrow> a \<in> registered n) \<and>
     (\<forall>a \<in> registered n. state (port_at n a) \<noteq> kClosed)"

text \<open>A reference the node handed out, whose name has not been taken by another port since.\<close>

definition ref_ok :: "Node \<Rightarrow> PortRef \<Rightarrow> bool" where
  "ref_ok n r \<longleftrightarrow>
     ref_port r < port_count n \<and>
     (map_of (ports n) (ref_name r) = Some (ref_port r) \<or>
      map_of (ports n) (ref_name r) = None \<and> ref_port r \<notin> registered n)"

section \<open>Queues\<close>

lemma queue_ok_init [simp]: "queue_ok (MessageQueue_init s)"
  by (simp add: queue_ok_def) (simp add: MessageQueue_init_def)

lemma queue_ok_set_signalable [simp]: "queue_ok (set_signalable b q) = queue_ok q"
  by (simp add: queue_ok_def)

lemma queue_ok_accept:
  "queue_ok q \<Longrightarrow> is_user m \<Longrightarrow> AcceptMessage_queue m q = (b, q') \<Longrightarrow> queue_ok q'"
  by (auto simp: queue_ok_def AcceptMessage_queue_inv AcceptMessage_queue_frame(2))

lemma queue_ok_get:
  assumes "queue_ok q" "GetNextMessageIf sel q = (r, q')"
  shows "queue_ok q'" "r = Some m \<Longrightarrow> is_user m"
proof -
  have inv: "mq_inv q" using assms(1) by (simp add: queue_ok_def)
  show "queue_ok q'"
  proof (cases r)
    case None
    with assms show ?thesis by (simp add: GetNextMessageIf_None)
  next
    case (Some x)
    note some = GetNextMessageIf_Some [OF inv assms(2) [unfolded Some]]
    have "set_mset (mset (mq_heap q')) \<subseteq> set_mset (mset (mq_heap q))"
      unfolding some(8) by (meson in_diffD subsetI)
    then show ?thesis using assms(1) some(9) by (auto simp: queue_ok_def)
  qed
  show "is_user m" if "r = Some m"
    using GetNextMessageIf_Some(3) [OF inv assms(2) [unfolded that]] assms(1)
    by (simp add: queue_ok_def)
qed

section \<open>Primitive updates\<close>

lemma node_inv_D:
  assumes "node_inv n"
  shows "distinct (map fst (ports n))" "distinct (map snd (ports n))"
    "\<And>a. a \<in> registered n \<Longrightarrow> a < port_count n"
    "\<And>a. queue_ok (message_queue (port_at n a))"
    "\<And>a. a < port_count n \<Longrightarrow> state (port_at n a) = kReceiving \<Longrightarrow> a \<in> registered n"
    "\<And>a. a \<in> registered n \<Longrightarrow> state (port_at n a) \<noteq> kClosed"
  using assms by (auto simp: node_inv_def)

lemma GetPort_Locked_registered: "GetPort_Locked nm n = Some a \<Longrightarrow> a \<in> registered n"
  by (force simp: GetPort_Locked_def dest: map_of_SomeD)

lemma registered_unique:
  assumes "node_inv n" "(nm, a) \<in> set (ports n)" "(nm', a) \<in> set (ports n)"
  shows "nm = nm'"
  using node_inv_D(2) [OF assms(1)] assms(2,3)
  by (metis distinct_map inj_onD snd_conv prod.inject)

lemma node_inv_forward [simp]: "node_inv (forward to m n) = node_inv n"
  by (simp add: node_inv_def)

lemma node_inv_status_changed [simp]: "node_inv (status_changed r n) = node_inv n"
  by (simp add: node_inv_def)

lemma node_inv_random [simp]: "node_inv (snd (GenerateRandomPortName n)) = node_inv n"
  by (simp add: node_inv_def)

lemma node_inv_modify:
  assumes "node_inv n" "queue_ok (message_queue (f (port_at n a)))"
    and "state (f (port_at n a)) = kReceiving \<Longrightarrow> a < port_count n \<Longrightarrow> a \<in> registered n"
    and "state (f (port_at n a)) = kClosed \<Longrightarrow> a \<notin> registered n"
  shows "node_inv (modify_port a f n)"
  using assms by (auto simp: node_inv_def)

lemma node_inv_modify_same [mojo_inv]:
  assumes "node_inv n" "queue_ok (message_queue (f (port_at n a)))"
    and "state (f (port_at n a)) = state (port_at n a)"
  shows "node_inv (modify_port a f n)"
  using assms by (intro node_inv_modify) (auto dest: node_inv_D)

lemma node_inv_erase:
  assumes "node_inv n" "\<And>a. map_of (ports n) nm = Some a \<Longrightarrow> state (port_at n a) \<noteq> kReceiving"
  shows "node_inv (ErasePort_Locked nm n)"
proof -
  have "distinct (map snd (um_erase nm (ports n)))"
    using node_inv_D(2) [OF assms(1)] by (simp add: um_erase_def distinct_map_filter)
  moreover have "a \<in> snd ` set (um_erase nm (ports n))"
    if "a < port_count n" "state (port_at n a) = kReceiving" for a
  proof -
    have "a \<in> registered n" using that node_inv_D(5) [OF assms(1)] by blast
    then obtain nm' where e: "(nm', a) \<in> set (ports n)" by auto
    then have "map_of (ports n) nm' = Some a"
      using node_inv_D(1) [OF assms(1)] by simp
    then have "nm' \<noteq> nm" using assms(2) that by auto
    with e show ?thesis by (force simp: set_um_erase)
  qed
  ultimately show ?thesis
    using assms(1) by (auto simp: node_inv_def set_um_erase)
qed

lemma node_inv_add:
  assumes "node_inv n" "queue_ok (message_queue p)" "state p \<noteq> kClosed"
    and "new_port p n = (a, n1)" "AddPortWithName nm a n1 = Inr n2"
  shows "node_inv n2" "map_of (ports n2) nm = Some a" "port_at n2 = (port_at n)(a := p)"
    "port_count n2 = Suc (port_count n)" "a = port_count n" "map_of (ports n) nm = None"
    "node_name n2 = node_name n"
proof -
  have n2: "a = port_count n" "map_of (ports n) nm = None"
    "n2 = n\<lparr>port_at := (port_at n)(a := p), port_count := Suc (port_count n),
            ports := um_insert nm a (ports n)\<rparr>"
    using assms(4,5) by (auto simp: new_port_def AddPortWithName_def split: if_splits)
  then have reg: "registered n2 = insert a (registered n)" "map snd (ports n2) = map snd (ports n) @ [a]"
    by (simp_all add: set_um_insert_new um_insert_def)
  have "a \<notin> registered n" using node_inv_D(3) [OF assms(1), of a] n2(1) by auto
  then have "distinct (map snd (ports n2))" using node_inv_D(2) [OF assms(1)] unfolding reg(2) by simp
  moreover have "distinct (map fst (ports n2))" using node_inv_D(1) [OF assms(1)] n2 by simp
  ultimately show "node_inv n2"
    using assms(1-3) n2 reg(1) by (auto simp: node_inv_def less_Suc_eq)
qed (use assms(4,5) in \<open>auto simp: new_port_def AddPortWithName_def split: if_splits\<close>)

section \<open>Operations of the embedder\<close>

lemma node_inv_init [mojo_inv]: "node_inv (Node_init name rand)"
  by (simp add: node_inv_def Node_init_def Port_init_def)

lemma CreateUninitializedPort_inv [mojo_inv]:
  assumes "node_inv n" "CreateUninitializedPort n = Inr (r, n')"
  shows "node_inv n'" "map_of (ports n') (ref_name r) = Some (ref_port r)"
    "port_at n' = (port_at n)(ref_port r := Port_init kInitialSequenceNum kInitialSequenceNum)"
    "port_count n' = Suc (port_count n)" "ref_port r = port_count n" "node_name n' = node_name n"
    "map_of (ports n) (ref_name r) = None"
proof -
  let ?n1 = "snd (GenerateRandomPortName n)"
  obtain a n2 where np: "new_port (Port_init kInitialSequenceNum kInitialSequenceNum) ?n1 = (a, n2)"
    by fastforce
  with assms(2) have r: "r = \<lparr>ref_name = random_names n (random_used n), ref_port = a\<rparr>"
    and add: "AddPortWithName (random_names n (random_used n)) a n2 = Inr n'"
    by (auto simp: CreateUninitializedPort_def GenerateRandomPortName_def Let_def
        split: sum.splits)
  note * = node_inv_add [OF _ _ _ np add]
  show "node_inv n'" "map_of (ports n') (ref_name r) = Some (ref_port r)"
    "port_at n' = (port_at n)(ref_port r := Port_init kInitialSequenceNum kInitialSequenceNum)"
    "port_count n' = Suc (port_count n)" "ref_port r = port_count n" "node_name n' = node_name n"
    "map_of (ports n) (ref_name r) = None"
    using * assms(1) r by (simp_all add: Port_init_def)
qed

lemma CreateUninitializedPort_adds:
  "CreateUninitializedPort n = Inr (r, n') \<Longrightarrow>
     ports n' = um_insert (ref_name r) (ref_port r) (ports n) \<and> map_of (ports n) (ref_name r) = None"
  unfolding CreateUninitializedPort_def new_port_def AddPortWithName_def Let_def GenerateRandomPortName_def
  by (simp split: if_splits) auto

lemma InitializePort_inv [mojo_inv]:
  assumes "node_inv n" "ref_ok n r" "ref_port r \<in> registered n"
    and "InitializePort r pn pp n = (rv, n')"
  shows "node_inv n'"
proof -
  have "node_inv (modify_port (ref_port r)
      (\<lambda>p. p\<lparr>state := kReceiving, peer_node_name := pn, peer_port_name := pp\<rparr>) n)"
    using assms(1,3) node_inv_D(4) [OF assms(1)] by (intro node_inv_modify) simp_all
  then show ?thesis using assms(1,4) by (auto simp: InitializePort_def split: if_splits)
qed

lemma SetUserData_inv [mojo_inv]: "node_inv n \<Longrightarrow> SetUserData r d n = (rv, n') \<Longrightarrow> node_inv n'"
  by (auto simp: SetUserData_def intro!: node_inv_modify_same dest: node_inv_D(4) split: if_splits)

lemma ClosePort_step_inv [mojo_inv]:
  assumes "node_inv n" "ref_ok n r" "ClosePort_step r n = (rv, n', nms)"
  shows "node_inv n'"
proof -
  let ?p = "port_at n (ref_port r)"
  consider (uninit) "state ?p = kUninitialized" | (other) "state ?p \<noteq> kUninitialized" "state ?p \<noteq> kReceiving"
    | (recv) "state ?p = kReceiving" by fastforce
  then show ?thesis
  proof cases
    case uninit
    then have "n' = ErasePort_Locked (ref_name r) n" using assms(3) by (simp add: ClosePort_step_def)
    moreover have "state (port_at n a) \<noteq> kReceiving" if "map_of (ports n) (ref_name r) = Some a" for a
      using that assms(2) uninit by (auto simp: ref_ok_def)
    ultimately show ?thesis using assms(1) by (simp add: node_inv_erase)
  next
    case other
    then show ?thesis using assms by (simp add: ClosePort_step_def)
  next
    case recv
    then have reg: "ref_port r \<in> registered n"
      using assms(2) node_inv_D(5) [OF assms(1)] by (auto simp: ref_ok_def)
    then have m: "map_of (ports n) (ref_name r) = Some (ref_port r)"
      using assms(2) by (auto simp: ref_ok_def)
    have unique: "nm = ref_name r" if "(nm, ref_port r) \<in> set (ports n)" for nm
      using registered_unique [OF assms(1) that map_of_SomeD [OF m]] .
    let ?n1 = "ErasePort_Locked (ref_name r)
      (modify_port (ref_port r) (\<lambda>p. p\<lparr>state := kUninitialized\<rparr>) n)"
    obtain to msg where n': "n' = forward to msg
        (ErasePort_Locked (ref_name r) (modify_port (ref_port r) (\<lambda>p. p\<lparr>state := kClosed\<rparr>) n))"
      using assms(3) recv by (auto simp: ClosePort_step_def Let_def)
    also have "\<dots> = forward to msg (modify_port (ref_port r) (\<lambda>p. p\<lparr>state := kClosed\<rparr>) ?n1)"
      by (simp add: ErasePort_Locked_def modify_port_def)
    finally have n'': "n' = \<dots>" .
    have "node_inv ?n1"
      using assms(1) node_inv_D(4) [OF assms(1)] m
      by (intro node_inv_erase node_inv_modify) simp_all
    moreover have "ref_port r \<notin> registered ?n1"
      using unique by (auto simp: set_um_erase)
    ultimately have "node_inv (modify_port (ref_port r) (\<lambda>p. p\<lparr>state := kClosed\<rparr>) ?n1)"
      using node_inv_D(4) [OF assms(1)] by (intro node_inv_modify) simp_all
    then show ?thesis unfolding n'' by simp
  qed
qed

lemma ClosePorts_inv [mojo_inv]: "node_inv n \<Longrightarrow> node_inv (ClosePorts nms n)"
proof (induction nms n rule: ClosePorts.induct)
  case (2 nm nms n)
  show ?case
  proof (cases "GetPort_Locked nm n")
    case None
    with 2 show ?thesis by simp
  next
    case (Some a)
    obtain rv n' nms' where s: "ClosePort_step \<lparr>ref_name = nm, ref_port = a\<rparr> n = (rv, n', nms')"
      by (metis prod_cases3)
    have "ref_ok n \<lparr>ref_name = nm, ref_port = a\<rparr>"
      using Some GetPort_Locked_registered [OF Some] node_inv_D(3) [OF "2.prems"]
      by (simp add: ref_ok_def GetPort_Locked_def)
    then have "node_inv n'" using ClosePort_step_inv "2.prems" s by blast
    then show ?thesis using "2.IH"(2) [OF Some s [symmetric] refl] Some s by simp
  qed
qed simp

lemma ClosePort_inv [mojo_inv]: "node_inv n \<Longrightarrow> ref_ok n r \<Longrightarrow> ClosePort r n = (rv, n') \<Longrightarrow> node_inv n'"
  by (auto simp: ClosePort_def intro: ClosePorts_inv ClosePort_step_inv split: prod.splits)

lemma make_signalable_inv: "node_inv n \<Longrightarrow> make_signalable nms n = Inr n' \<Longrightarrow> node_inv n'"
proof (induction nms n rule: make_signalable.induct)
  case (2 nm nms n)
  then show ?case
    by (auto split: option.splits intro!: "2.IH" node_inv_modify_same dest: node_inv_D(4))
qed simp

lemma GetMessageIf_inv [mojo_inv]:
  assumes "node_inv n" "GetMessageIf r sel n = Inr (rv, m, n')"
  shows "node_inv n'"
proof -
  obtain m1 q where g: "GetNextMessageIf sel (message_queue (port_at n (ref_port r))) = (m1, q)"
    by fastforce
  have "queue_ok q" using queue_ok_get(1) [OF node_inv_D(4) [OF assms(1)] g] .
  then have "node_inv (modify_port (ref_port r) (\<lambda>p. p\<lparr>message_queue := q\<rparr>) n)"
    using assms(1) by (intro node_inv_modify_same) auto
  then show ?thesis
    using assms g make_signalable_inv
    by (auto simp: GetMessageIf_def Let_def split: if_splits option.splits sum.splits)
qed

section \<open>Sending\<close>

lemma WillSendPort_inv:
  assumes "node_inv n" "WillSendPort_Locked a to nm n = (nd, n')"
  shows "node_inv n'"
proof -
  let ?n1 = "snd (GenerateRandomPortName n)"
  obtain f where "n' = modify_port a f ?n1" "\<And>p. message_queue (f p) = message_queue p"
    "\<And>p. state (f p) = kBuffering"
    using assms(2) by (auto simp: WillSendPort_Locked_def Let_def case_prod_beta)
  then show ?thesis using assms(1) node_inv_D(4) [OF assms(1)] by (auto intro!: node_inv_modify)
qed

lemma send_ports_inv: "send_ports to nps n = (nds, n') \<Longrightarrow> node_inv n \<Longrightarrow> node_inv n'"
proof (induction to nps n arbitrary: nds n' rule: send_ports.induct)
  case (2 to nm b rest n)
  obtain nd n1 where w: "WillSendPort_Locked b to nm n = (nd, n1)" by fastforce
  obtain nds1 n2 where s: "send_ports to rest n1 = (nds1, n2)" by fastforce
  show ?case
    using "2.IH" [OF w [symmetric] refl s] WillSendPort_inv [OF "2.prems"(2) w] "2.prems"(1) w s
    by simp
qed simp

lemma WillSendMessage_inv [mojo_inv]:
  assumes "node_inv n" "WillSendMessage_Locked a m n = Inr (rv, m', n')"
  shows "node_inv n'"
proof -
  let ?n1 = "if GetSequenceNum m = 0
    then modify_port a (\<lambda>p. p\<lparr>next_sequence_num_to_send := next_sequence_num_to_send p + 1\<rparr>) n else n"
  have n1: "node_inv ?n1"
    using assms(1) node_inv_D(4) [OF assms(1)] by (auto intro!: node_inv_modify_same)
  have n2: "node_inv (modify_port a (\<lambda>p. p\<lparr>next_sequence_num_to_send := next_sequence_num_to_send p - 1\<rparr>) ?n1)"
    using n1 node_inv_D(4) [OF n1] by (intro node_inv_modify_same) auto
  show ?thesis
  proof (cases "GetSequenceNum m = 0")
    case True
    with assms(2) n1 n2 send_ports_inv show ?thesis
      by (auto simp: WillSendMessage_Locked_def Let_def split: if_splits sum.splits prod.splits)
  next
    case False
    with assms(2) n1 n2 send_ports_inv show ?thesis
      by (auto simp: WillSendMessage_Locked_def Let_def split: if_splits sum.splits prod.splits)
  qed
qed

text \<open>What every single transfer keeps, the forwarding loop keeps.\<close>

lemma ForwardMessages_keeps:
  assumes "ForwardMessages_Locked a n = Inr (rv, n')" "P n"
    and send: "\<And>n m q rv m' n'. P n \<Longrightarrow> GetNextMessageIf None (message_queue (port_at n a)) = (Some m, q) \<Longrightarrow>
      WillSendMessage_Locked a m (modify_port a (\<lambda>p. p\<lparr>message_queue := q\<rparr>) n) = Inr (rv, m', n') \<Longrightarrow> P n'"
    and fwd: "\<And>to m n. P n \<Longrightarrow> P (forward to m n)"
  shows "P n'"
  using assms(1,2)
proof (induction "length (mq_heap (message_queue (port_at n a)))" arbitrary: n rule: less_induct)
  case less
  obtain r q where g: "GetNextMessageIf None (message_queue (port_at n a)) = (r, q)" by fastforce
  show ?case
  proof (cases r)
    case None
    then show ?thesis using less.prems g by (subst (asm) ForwardMessages_Locked.simps) simp
  next
    case (Some m)
    from less.prems(1) g Some obtain rv2 m2 n2
      where w: "WillSendMessage_Locked a m (modify_port a (\<lambda>p. p\<lparr>message_queue := q\<rparr>) n) = Inr (rv2, m2, n2)"
      by (subst (asm) ForwardMessages_Locked.simps) (auto split: sum.splits)
    have P: "P n2" using send less.prems(2) g Some w by blast
    show ?thesis
    proof (cases "rv2 = OK")
      case True
      then have "ForwardMessages_Locked a (forward (peer_node_name (port_at n2 a)) m2 n2) = Inr (rv, n')"
        using less.prems(1) g Some w by (subst (asm) ForwardMessages_Locked.simps) simp
      then show ?thesis
        using less.hyps [OF _ _ fwd [OF P]] ForwardMessages_measure [OF g [unfolded Some] w] by simp
    next
      case False
      then show ?thesis using less.prems(1) g Some w P by (subst (asm) ForwardMessages_Locked.simps) simp
    qed
  qed
qed

lemma ForwardMessages_inv [mojo_inv]:
  assumes "node_inv n" "ForwardMessages_Locked a n = Inr (rv, n')"
  shows "node_inv n'"
proof (rule ForwardMessages_keeps [OF assms(2), of node_inv])
  fix n m q rv m' n'
  assume "node_inv n" "GetNextMessageIf None (message_queue (port_at n a)) = (Some m, q)"
    and w: "WillSendMessage_Locked a m (modify_port a (\<lambda>p. p\<lparr>message_queue := q\<rparr>) n) = Inr (rv, m', n')"
  then have "node_inv (modify_port a (\<lambda>p. p\<lparr>message_queue := q\<rparr>) n)"
    using queue_ok_get(1) [OF node_inv_D(4)] by (intro node_inv_modify_same) auto
  then show "node_inv n'" using WillSendMessage_inv w by blast
qed (use assms(1) in simp_all)

lemma ForwardMessages_frame:
  assumes "ForwardMessages_Locked a n = Inr (rv, n')"
  shows "ports n' = ports n \<and> node_name n' = node_name n \<and> port_count n' = port_count n"
  by (rule ForwardMessages_keeps [OF assms]) (auto dest: WillSendMessage_frame(1-3))

section \<open>Events\<close>

lemma MaybeRemoveProxy_inv [mojo_inv]:
  assumes "node_inv n" "GetPort_Locked nm n = Some a \<or> GetPort_Locked nm n = None"
    and "state (port_at n a) = kProxying"
  shows "node_inv (MaybeRemoveProxy_Locked a nm n)"
proof -
  have "node_inv (ErasePort_Locked nm n)"
    using assms by (intro node_inv_erase) (auto simp: GetPort_Locked_def)
  then show ?thesis
    using assms(1) by (auto simp: MaybeRemoveProxy_Locked_def Let_def split: option.splits)
qed

lemma InitiateProxyRemoval_inv [simp]: "node_inv (InitiateProxyRemoval_Locked a nm n) = node_inv n"
  by (simp add: InitiateProxyRemoval_Locked_def Let_def)

lemma AcceptPort_inv [mojo_inv]:
  assumes "node_inv n" "AcceptPort nm d n = Inr n'"
  shows "node_inv n'"
proof -
  define p where "p = (Port_init (pd_next_sequence_num_to_send d) (pd_next_sequence_num_to_receive d))
            \<lparr>state := kReceiving, peer_node_name := pd_peer_node_name d,
             peer_port_name := pd_peer_port_name d,
             last_sequence_num_to_receive := pd_last_sequence_num_to_receive d,
             peer_closed := pd_peer_closed d,
             message_queue := set_signalable False
               (MessageQueue_init (pd_next_sequence_num_to_receive d))\<rparr>"
  obtain a n1 where np: "new_port p n = (a, n1)" by fastforce
  with assms(2) obtain n2 where ad: "AddPortWithName nm a n1 = Inr n2"
    and n': "n' = forward (pd_referring_node_name d)
      (NewInternalMessage (pd_referring_port_name d) PortAccepted) n2"
    unfolding AcceptPort_def Let_def p_def by (simp split: sum.splits)
  have "node_inv n2"
    by (rule node_inv_add(1) [OF assms(1) _ _ np ad]) (simp_all add: p_def)
  then show ?thesis using n' by simp
qed

lemma AcceptPorts_inv [mojo_inv]: "node_inv n \<Longrightarrow> AcceptPorts nms ds n = Inr n' \<Longrightarrow> node_inv n'"
  by (induction nms ds n rule: AcceptPorts.induct) (auto intro: AcceptPort_inv split: sum.splits)

lemma AcceptPort_frame:
  assumes "AcceptPort nm d n = Inr n'"
  shows "map_of (ports n') = (map_of (ports n))(nm \<mapsto> port_count n)" "map_of (ports n) nm = None"
    "port_count n' = Suc (port_count n)" "\<And>b. b < port_count n \<Longrightarrow> port_at n' b = port_at n b"
    "node_name n' = node_name n"
proof -
  show new: "map_of (ports n) nm = None"
    using assms unfolding AcceptPort_def Let_def new_port_def AddPortWithName_def
    by (simp split: if_splits)
  obtain p to m where n': "n' = forward to m (n\<lparr>port_at := (port_at n)(port_count n := p),
      port_count := Suc (port_count n), ports := um_insert nm (port_count n) (ports n)\<rparr>)"
    using assms new unfolding AcceptPort_def Let_def new_port_def AddPortWithName_def
    by simp (drule sym, blast)
  show "map_of (ports n') = (map_of (ports n))(nm \<mapsto> port_count n)"
    using new unfolding n' by (simp add: fun_eq_iff)
  show "port_count n' = Suc (port_count n)" "\<And>b. b < port_count n \<Longrightarrow> port_at n' b = port_at n b"
    "node_name n' = node_name n"
    unfolding n' by simp_all
qed

lemma AcceptPorts_frame:
  "AcceptPorts nms ds n = Inr n' \<Longrightarrow>
     port_count n \<le> port_count n' \<and> (\<forall>b < port_count n. port_at n' b = port_at n b) \<and>
     (\<forall>nm b. map_of (ports n) nm = Some b \<longrightarrow> map_of (ports n') nm = Some b) \<and>
     node_name n' = node_name n"
proof (induction nms ds n rule: AcceptPorts.induct)
  case (3 nm nms d ds n)
  from "3.prems" obtain n1 where n1: "AcceptPort nm d n = Inr n1" "AcceptPorts nms ds n1 = Inr n'"
    by (auto split: sum.splits)
  note f = AcceptPort_frame [OF n1(1)]
  have ih: "port_count n1 \<le> port_count n'" "\<forall>b < port_count n1. port_at n' b = port_at n1 b"
    "\<forall>nm b. map_of (ports n1) nm = Some b \<longrightarrow> map_of (ports n') nm = Some b"
    "node_name n' = node_name n1"
    using "3.IH" [OF n1] by blast+
  have "map_of (ports n') k = Some b" if "map_of (ports n) k = Some b" for k b
    using that ih(3) f(1,2) by (metis fun_upd_other option.distinct(1))
  moreover have "port_at n' b = port_at n b" if "b < port_count n" for b
    using that ih(2) f(3,4) by simp
  ultimately show ?case using ih(1,4) f(3,5) by simp
qed auto

text \<open>How sending ends: \<open>m1\<close> and \<open>n1\<close> are the message and the node once the sequence number is assigned.\<close>

lemma WillSendMessage_cases:
  assumes "WillSendMessage_Locked a m n = Inr (rv, m', n')"
  obtains m1 n1 k where "is_user m1 = is_user m" "port_at n1 a = (port_at n a)\<lparr>next_sequence_num_to_send := k\<rparr>"
    and "n' = n1" "m' = set_header_port_name (peer_port_name (port_at n a)) m1"
  | m1 n1 k where "is_user m1 = is_user m" "port_at n1 a = (port_at n a)\<lparr>next_sequence_num_to_send := k\<rparr>"
    and "m' = m1" "rv \<noteq> OK" "n' = modify_port a (\<lambda>p. p\<lparr>next_sequence_num_to_send := next_sequence_num_to_send p - 1\<rparr>) n1"
  | m1 n1 k locked nds where "is_user m1 = is_user m" "port_at n1 a = (port_at n a)\<lparr>next_sequence_num_to_send := k\<rparr>"
    and "lock_ports_to_send (port_at n a) n1 [a] [] (msg_ports m1) = Inr (OK, locked)"
      "send_ports (peer_node_name (port_at n a)) (zip (msg_ports m1) locked) n1 = (nds, n')"
      "m' = set_header_port_name (peer_port_name (port_at n a)) (set_ports nds m1)"
proof -
  define m1 where "m1 = (if GetSequenceNum m = 0
    then set_sequence_num (next_sequence_num_to_send (port_at n a)) m else m)"
  define n1 where "n1 = (if GetSequenceNum m = 0
    then modify_port a (\<lambda>p. p\<lparr>next_sequence_num_to_send := next_sequence_num_to_send p + 1\<rparr>) n else n)"
  have w: "(if num_ports m1 > 0
     then (case lock_ports_to_send (port_at n a) n1 [a] [] (msg_ports m1) of
             Inl f \<Rightarrow> Inl f
           | Inr (error, locked) \<Rightarrow>
               if error \<noteq> OK
               then Inr (error, m1, modify_port a (\<lambda>p. p\<lparr>next_sequence_num_to_send :=
                      next_sequence_num_to_send p - 1\<rparr>) n1)
               else (case send_ports (peer_node_name (port_at n a)) (zip (msg_ports m1) locked) n1 of
                       (nds, n2) \<Rightarrow> Inr (OK, set_header_port_name (peer_port_name (port_at n a))
                                          (set_ports nds m1), n2)))
     else Inr (OK, set_header_port_name (peer_port_name (port_at n a)) m1, n1)) = Inr (rv, m', n')"
    using assms unfolding WillSendMessage_Locked_def Let_def m1_def n1_def
    by (cases "GetSequenceNum m = 0") (simp_all only: if_True if_False prod.case simp_thms)
  obtain k where n1: "port_at n1 a = (port_at n a)\<lparr>next_sequence_num_to_send := k\<rparr>"
    by (cases "GetSequenceNum m = 0") (simp_all add: n1_def that [of "next_sequence_num_to_send (port_at n a)"])
  have m1: "is_user m1 = is_user m" by (simp add: m1_def)
  show thesis using w that(1,2,3) [OF m1 n1] by (auto split: if_splits sum.splits prod.splits)
qed

text \<open>Sending changes the state of the ports a message carries, never of the port it is sent on.\<close>

lemma WillSendMessage_port:
  assumes "WillSendMessage_Locked a m n = Inr (rv, m', n')"
  shows "state (port_at n' a) = state (port_at n a)" "peer_node_name (port_at n' a) = peer_node_name (port_at n a)"
    "peer_port_name (port_at n' a) = peer_port_name (port_at n a)" "is_user m \<Longrightarrow> is_user m'"
    "remove_proxy_on_last_message (port_at n' a) = remove_proxy_on_last_message (port_at n a)"
    "peer_closed (port_at n' a) = peer_closed (port_at n a)"
    "last_sequence_num_to_receive (port_at n' a) = last_sequence_num_to_receive (port_at n a)"
    "send_on_proxy_removal (port_at n' a) = send_on_proxy_removal (port_at n a)"
    "rv = OK \<Longrightarrow> header_port_name m' = peer_port_name (port_at n a)"
proof -
  have "\<exists>k. port_at n' a = (port_at n a)\<lparr>next_sequence_num_to_send := k\<rparr>"
    using assms
  proof (cases rule: WillSendMessage_cases)
    case (3 m1 n1 k locked nds)
    have "a \<notin> snd ` set (zip (msg_ports m1) locked)"
      using lock_ports_props [OF 3(3)] by (auto dest: set_zip_rightD)
    then have "port_at n' a = port_at n1 a" using send_ports_frame [OF 3(4)] by blast
    then show ?thesis using 3(2) by (intro exI [of _ k]) simp
  next
    case (1 m1 n1 k)
    then show ?thesis by blast
  next
    case (2 m1 n1 k)
    have "port_at n' a = (port_at n a)\<lparr>next_sequence_num_to_send := k - 1\<rparr>" unfolding 2(5) using 2(2) by simp
    then show ?thesis by (rule exI)
  qed
  then obtain k' where p: "port_at n' a = (port_at n a)\<lparr>next_sequence_num_to_send := k'\<rparr>" ..
  show "state (port_at n' a) = state (port_at n a)" "peer_node_name (port_at n' a) = peer_node_name (port_at n a)"
    "peer_port_name (port_at n' a) = peer_port_name (port_at n a)"
    "remove_proxy_on_last_message (port_at n' a) = remove_proxy_on_last_message (port_at n a)"
    "peer_closed (port_at n' a) = peer_closed (port_at n a)"
    "last_sequence_num_to_receive (port_at n' a) = last_sequence_num_to_receive (port_at n a)"
    "send_on_proxy_removal (port_at n' a) = send_on_proxy_removal (port_at n a)"
    unfolding p by simp_all
  show "is_user m'" if "is_user m"
    using assms by (cases rule: WillSendMessage_cases)
      (use that in \<open>simp_all add: set_header_port_name_def set_ports_def is_user_def\<close>)
  show "header_port_name m' = peer_port_name (port_at n a)" if "rv = OK"
    using assms by (cases rule: WillSendMessage_cases) (use that in \<open>simp_all add: set_header_port_name_def\<close>)
qed

lemma ForwardMessages_port:
  assumes "ForwardMessages_Locked a n = Inr (rv, n')"
  shows "state (port_at n' a) = state (port_at n a) \<and>
    remove_proxy_on_last_message (port_at n' a) = remove_proxy_on_last_message (port_at n a)"
  by (rule ForwardMessages_keeps [OF assms]) (auto dest: WillSendMessage_port(1,5))

lemma OnUserMessage_inv [mojo_inv]:
  assumes "node_inv n" "is_user m" "OnUserMessage m n = Inr (rv, n')"
  shows "node_inv n'"
proof -
  from assms(3) obtain n1 where acc: "AcceptPorts (msg_ports m) (descriptors m) n = Inr n1"
    by (auto simp: OnUserMessage_def Let_def split: sum.splits)
  have n1: "node_inv n1" using AcceptPorts_inv assms(1) acc by blast
  show ?thesis
  proof (cases "\<exists>a. GetPort_Locked (header_port_name m) n = Some a \<and> CanAcceptMoreMessages (port_at n1 a)")
    case False
    then have "n' = ClosePorts (msg_ports m) n1"
      using assms(3) acc by (auto simp: OnUserMessage_def Let_def split: option.splits if_splits)
    then show ?thesis using ClosePorts_inv n1 by simp
  next
    case True
    then obtain a where a: "GetPort_Locked (header_port_name m) n = Some a"
      "CanAcceptMoreMessages (port_at n1 a)" by blast
    obtain b q where q: "AcceptMessage_queue m (message_queue (port_at n1 a)) = (b, q)" by fastforce
    let ?n2 = "modify_port a (\<lambda>p. p\<lparr>message_queue := q\<rparr>) n1"
    have n2: "node_inv ?n2"
      using n1 queue_ok_accept [OF node_inv_D(4) [OF n1] assms(2) q] by (intro node_inv_modify_same) auto
    have a2: "GetPort_Locked (header_port_name m) ?n2 = Some a"
      using AcceptPorts_frame [OF acc] a(1) by (simp add: GetPort_Locked_def)
    have proxying: "node_inv (MaybeRemoveProxy_Locked a (header_port_name m) n3)"
      if "ForwardMessages_Locked a ?n2 = Inr (rv3, n3)" "state (port_at n1 a) = kProxying" for rv3 n3
      using ForwardMessages_inv [OF n2 that(1)] ForwardMessages_frame [OF that(1)]
        ForwardMessages_port [OF that(1)] a2 that(2)
      by (intro MaybeRemoveProxy_inv) (auto simp: GetPort_Locked_def)
    from assms(3) acc a q have "(case ForwardMessages_Locked a ?n2 of
         Inl f \<Rightarrow> True | Inr (rv3, n3) \<Rightarrow> n' = n3 \<or> n' = MaybeRemoveProxy_Locked a (header_port_name m) n3) \<and>
         state (port_at n1 a) = kProxying \<and> (\<exists>x. ForwardMessages_Locked a ?n2 = Inr x)
       \<or> (\<exists>r. n' = status_changed r ?n2) \<or> n' = ?n2"
      unfolding OnUserMessage_def Let_def
      by (simp split: if_splits sum.splits prod.splits) auto
    then show ?thesis
      using n2 proxying ForwardMessages_inv [OF n2] by (auto split: sum.splits)
  qed
qed

lemma OnPortAccepted_inv [mojo_inv]:
  assumes "node_inv n" "OnPortAccepted nm n = Inr (rv, n')"
  shows "node_inv n'"
proof -
  from assms(2) obtain a where a: "GetPort_Locked nm n = Some a"
    by (auto simp: OnPortAccepted_def split: option.splits)
  let ?n1 = "modify_port a (\<lambda>p. p\<lparr>state := kProxying\<rparr>) n"
  have n1: "node_inv ?n1" using assms(1) node_inv_D(4) [OF assms(1)] by (intro node_inv_modify) simp_all
  from assms(2) a obtain rv2 n2 where f: "ForwardMessages_Locked a ?n1 = Inr (rv2, n2)"
    by (auto simp: OnPortAccepted_def split: if_splits sum.splits)
  have n2: "node_inv n2" "state (port_at n2 a) = kProxying" "GetPort_Locked nm n2 = Some a"
    using ForwardMessages_inv [OF n1 f] ForwardMessages_port [OF f] ForwardMessages_frame [OF f] a
    by (simp_all add: GetPort_Locked_def)
  then have "node_inv (MaybeRemoveProxy_Locked a nm n2)" by (intro MaybeRemoveProxy_inv) simp_all
  then show ?thesis
    using assms(2) a f n2 by (auto simp: OnPortAccepted_def Let_def split: if_splits)
qed

lemma OnObserveProxy_inv [mojo_inv]:
  assumes "node_inv n" "OnObserveProxy nm e n = (rv, n')"
  shows "node_inv n'"
  using assms node_inv_D(4) [OF assms(1)]
  by (auto simp: OnObserveProxy_def Let_def intro!: node_inv_modify_same split: option.splits if_splits)

lemma OnObserveProxyAck_inv [mojo_inv]:
  assumes "node_inv n" "OnObserveProxyAck nm s n = Inr (rv, n')"
  shows "node_inv n'"
proof -
  have "node_inv (MaybeRemoveProxy_Locked a nm
      (modify_port a (\<lambda>p. p\<lparr>remove_proxy_on_last_message := True, last_sequence_num_to_receive := s\<rparr>) n))"
    if "GetPort_Locked nm n = Some a" "state (port_at n a) = kProxying" for a
    using that assms(1) node_inv_D(4) [OF assms(1)]
    by (intro MaybeRemoveProxy_inv node_inv_modify_same) (simp_all add: GetPort_Locked_def)
  then show ?thesis using assms
    by (auto simp: OnObserveProxyAck_def split: option.splits if_splits)
qed

lemma OnObserveClosure_inv [mojo_inv]:
  assumes "node_inv n" "OnObserveClosure nm s n = (rv, n')"
  shows "node_inv n'"
proof (cases "GetPort_Locked nm n")
  case None
  then show ?thesis using assms by (simp add: OnObserveClosure_def)
next
  case (Some a)
  let ?n1 = "modify_port a (\<lambda>p. p\<lparr>peer_closed := True, last_sequence_num_to_receive := s\<rparr>) n"
  let ?n2 = "modify_port a (\<lambda>p. p\<lparr>remove_proxy_on_last_message := True\<rparr>) ?n1"
  have n1: "node_inv ?n1"
    using assms(1) node_inv_D(4) [OF assms(1)] by (intro node_inv_modify_same) simp_all
  have n2: "node_inv ?n2"
    using n1 node_inv_D(4) [OF assms(1)] by (intro node_inv_modify_same [OF n1]) simp_all
  have n3: "node_inv (MaybeRemoveProxy_Locked a nm ?n2)" if "state (port_at n a) = kProxying"
    using n2 that Some by (intro MaybeRemoveProxy_inv) (simp_all add: GetPort_Locked_def)
  show ?thesis using assms(2) Some n1 n2 n3
    unfolding OnObserveClosure_def Let_def by (auto split: if_splits)
qed

lemma AcceptMessage_inv [mojo_inv]:
  assumes "node_inv n" "AcceptMessage m n = Inr (rv, n')"
  shows "node_inv n'"
  using assms
  by (cases "event_data m")
    (auto simp: AcceptMessage_def is_user_iff
      intro: OnUserMessage_inv [of n m] OnPortAccepted_inv OnObserveProxy_inv OnObserveProxyAck_inv OnObserveClosure_inv)

lemma SendMessage_inv [mojo_inv]:
  assumes "node_inv n" "SendMessage r m n = Inr (rv, mo, n')"
  shows "node_inv n'"
  using assms
  by (auto simp: SendMessage_def Let_def dest!: WillSendMessage_inv [OF assms(1)]
      intro: AcceptMessage_inv split: if_splits sum.splits prod.splits)

section \<open>Losing a connection\<close>

lemma LostConnection_loop_spec:
  "LostConnection_loop lost es st = (refs, kept, st') \<Longrightarrow> distinct (map snd es) \<Longrightarrow>
     st' = (\<lambda>a. if a \<in> snd ` set es then lose_peer lost (st a) else st a) \<and>
     kept = filter (\<lambda>(nm, a). \<not> (peer_node_name (st a) = lost \<and> state (st a) \<noteq> kReceiving)) es \<and>
     refs = map (\<lambda>(nm, a). \<lparr>ref_name = nm, ref_port = a\<rparr>)
       (filter (\<lambda>(nm, a). peer_node_name (st a) = lost \<and> \<not> peer_closed (st a) \<and> state (st a) = kReceiving) es)"
proof (induction lost es st arbitrary: refs kept st' rule: LostConnection_loop.induct)
  case (2 lost nm a es st)
  obtain refs1 kept1 where l: "LostConnection_loop lost es (st(a := lose_peer lost (st a))) = (refs1, kept1, st')"
    using "2.prems"(1) by (auto simp: Let_def split: prod.splits)
  have new: "a \<notin> snd ` set es" "distinct (map snd es)" using "2.prems"(2) by auto
  have same: "filter (\<lambda>(nm, b). Q ((st(a := lose_peer lost (st a))) b)) es = filter (\<lambda>(nm, b). Q (st b)) es"
    for Q using new(1) by (intro filter_cong) (force simp: fun_upd_def)+
  note ih = "2.IH" [OF refl refl refl refl l new(2)]
  have k: "kept1 = filter (\<lambda>(nm, b). \<not> (peer_node_name (st b) = lost \<and> state (st b) \<noteq> kReceiving)) es"
    using ih same [of "\<lambda>p. \<not> (peer_node_name p = lost \<and> state p \<noteq> kReceiving)"] by simp
  have r: "refs1 = map (\<lambda>(nm, a). \<lparr>ref_name = nm, ref_port = a\<rparr>)
      (filter (\<lambda>(nm, b). peer_node_name (st b) = lost \<and> \<not> peer_closed (st b) \<and> state (st b) = kReceiving) es)"
    using ih same [of "\<lambda>p. peer_node_name p = lost \<and> \<not> peer_closed p \<and> state p = kReceiving"] by simp
  have "st' = (\<lambda>b. if b \<in> snd ` set ((nm, a) # es) then lose_peer lost (st b) else st b)"
    using ih new(1) by (auto simp: fun_eq_iff)
  then show ?case
    using "2.prems"(1) l k r by (auto simp: Let_def)
qed simp

lemma lose_peer_frame [simp]:
  "state (lose_peer lost p) = state p" "message_queue (lose_peer lost p) = message_queue p"
  "peer_node_name (lose_peer lost p) = peer_node_name p" "peer_port_name (lose_peer lost p) = peer_port_name p"
  by (simp_all add: lose_peer_def)

lemma LostConnectionToNode_spec:
  assumes "node_inv n"
  shows "LostConnectionToNode lost n =
    (OK, n\<lparr>ports := filter (\<lambda>(nm, a). \<not> (peer_node_name (port_at n a) = lost \<and> state (port_at n a) \<noteq> kReceiving)) (ports n),
           port_at := (\<lambda>a. if a \<in> registered n then lose_peer lost (port_at n a) else port_at n a),
           delegate_calls := delegate_calls n @ map (\<lambda>(nm, a). PortStatusChanged \<lparr>ref_name = nm, ref_port = a\<rparr>)
             (filter (\<lambda>(nm, a). peer_node_name (port_at n a) = lost \<and> \<not> peer_closed (port_at n a) \<and>
                state (port_at n a) = kReceiving) (ports n))\<rparr>)"
proof -
  obtain refs kept st where l: "LostConnection_loop lost (ports n) (port_at n) = (refs, kept, st)"
    using prod_cases3 by blast
  show ?thesis
    using LostConnection_loop_spec [OF l node_inv_D(2) [OF assms]]
    unfolding LostConnectionToNode_def l by (simp add: comp_def case_prod_beta)
qed

lemma LostConnectionToNode_inv [mojo_inv]:
  assumes "node_inv n" "LostConnectionToNode lost n = (rv, n')"
  shows "node_inv n'"
proof -
  let ?keep = "\<lambda>(nm::PortName, a). \<not> (peer_node_name (port_at n a) = lost \<and> state (port_at n a) \<noteq> kReceiving)"
  have n': "ports n' = filter ?keep (ports n)" "port_count n' = port_count n"
    "port_at n' = (\<lambda>a. if a \<in> registered n then lose_peer lost (port_at n a) else port_at n a)"
    using assms(2) unfolding LostConnectionToNode_spec [OF assms(1)] by auto
  have st: "state (port_at n' a) = state (port_at n a)"
    "message_queue (port_at n' a) = message_queue (port_at n a)" for a
    unfolding n' by simp_all
  have sub: "registered n' \<subseteq> registered n" unfolding n' by auto
  have recv: "a \<in> registered n'" if "a < port_count n" "state (port_at n a) = kReceiving" for a
  proof -
    have "a \<in> registered n" using node_inv_D(5) [OF assms(1) that] .
    then obtain nm where "(nm, a) \<in> set (ports n)" by auto
    then have "(nm, a) \<in> set (ports n')" using that(2) unfolding n' by simp
    then show ?thesis by force
  qed
  have dist: "distinct (map fst (ports n'))" "distinct (map snd (ports n'))"
    using node_inv_D(1,2) [OF assms(1)] unfolding n' by (simp_all add: distinct_map_filter)
  have count: "registered n' \<subseteq> {..<port_count n}" using sub node_inv_D(3) [OF assms(1)] by blast
  have closed: "\<forall>a \<in> registered n'. state (port_at n a) \<noteq> kClosed"
    using sub node_inv_D(6) [OF assms(1)] by blast
  show ?thesis
    unfolding node_inv_def st n'(2) using dist count closed recv node_inv_D(4) [OF assms(1)]
    by (intro conjI allI impI) assumption+
qed

lemma CreatePortPair_inv [mojo_inv]:
  assumes "node_inv n" "CreatePortPair n = Inr (rv, r0, r1, n')"
  shows "node_inv n'"
proof -
  obtain r n1 where c0: "CreateUninitializedPort n = Inr (r, n1)"
  proof (cases "CreateUninitializedPort n")
    case (Inr x)
    then show ?thesis using that by (cases x) simp
  qed (use assms(2) in \<open>simp add: CreatePortPair_def\<close>)
  obtain r' n2 where c1: "CreateUninitializedPort n1 = Inr (r', n2)"
  proof (cases "CreateUninitializedPort n1")
    case (Inr x)
    then show ?thesis using that by (cases x) simp
  qed (use assms(2) c0 in \<open>simp add: CreatePortPair_def\<close>)
  note f0 = CreateUninitializedPort_inv [OF assms(1) c0]
  note f1 = CreateUninitializedPort_inv [OF f0(1) c1]
  obtain rv3 n3 where i0: "InitializePort r (node_name n2) (ref_name r') n2 = (rv3, n3)" by fastforce
  have reg: "ref_port r \<in> registered n''" "ref_ok n'' r"
    if "node_inv n''" "map_of (ports n'') (ref_name r) = Some (ref_port r)" for r :: PortRef and n''
    using that node_inv_D(3) [OF that(1), of "ref_port r"] GetPort_Locked_registered [of "ref_name r" n'']
    by (auto simp: GetPort_Locked_def ref_ok_def)
  have m0: "map_of (ports n2) (ref_name r) = Some (ref_port r)"
    using f0(2) CreateUninitializedPort_adds [OF c1] by auto
  have n3: "node_inv n3" using InitializePort_inv [OF f1(1) reg(2,1) [OF f1(1) m0] i0] .
  have "ports n3 = ports n2" using i0 by (auto simp: InitializePort_def split: if_splits)
  then have m1: "map_of (ports n3) (ref_name r') = Some (ref_port r')" using f1(2) by simp
  show ?thesis
    using assms(2) c0 c1 i0 n3 InitializePort_inv [OF n3 reg(2,1) [OF n3 m1]]
    by (auto simp: CreatePortPair_def split: if_splits prod.splits)
qed

section \<open>Reachable nodes\<close>

text \<open>
  A step of a node: an operation of the embedder on references it holds, a message that arrives
  from anywhere, or a lost connection.
\<close>

inductive node_step :: "Node \<Rightarrow> Node \<Rightarrow> bool" where
  create: "CreateUninitializedPort n = Inr (r, n') \<Longrightarrow> node_step n n'"
| create_pair: "CreatePortPair n = Inr (rv, r0, r1, n') \<Longrightarrow> node_step n n'"
| initialize: "ref_ok n r \<Longrightarrow> ref_port r \<in> registered n \<Longrightarrow> InitializePort r pn pp n = (rv, n') \<Longrightarrow> node_step n n'"
| set_user_data: "SetUserData r d n = (rv, n') \<Longrightarrow> node_step n n'"
| close: "ref_ok n r \<Longrightarrow> ClosePort r n = (rv, n') \<Longrightarrow> node_step n n'"
| get: "GetMessageIf r sel n = Inr (rv, m, n') \<Longrightarrow> node_step n n'"
| send: "SendMessage r m n = Inr (rv, mo, n') \<Longrightarrow> node_step n n'"
| accept: "AcceptMessage m n = Inr (rv, n') \<Longrightarrow> node_step n n'"
| lost: "LostConnectionToNode nd n = (rv, n') \<Longrightarrow> node_step n n'"

inductive reachable :: "NodeName \<Rightarrow> (nat \<Rightarrow> PortName) \<Rightarrow> Node \<Rightarrow> bool" for nm rand where
  init: "reachable nm rand (Node_init nm rand)"
| step: "reachable nm rand n \<Longrightarrow> node_step n n' \<Longrightarrow> reachable nm rand n'"

inductive_cases node_stepE: "node_step n n'"

lemma node_step_inv [mojo_inv]:
  assumes "node_step n n'" "node_inv n"
  shows "node_inv n'"
  using assms(1)
proof cases
  case create
  then show ?thesis using CreateUninitializedPort_inv(1) assms(2) by blast
next
  case create_pair
  then show ?thesis using CreatePortPair_inv assms(2) by blast
next
  case initialize
  then show ?thesis using InitializePort_inv assms(2) by blast
next
  case set_user_data
  then show ?thesis using SetUserData_inv assms(2) by blast
next
  case close
  then show ?thesis using ClosePort_inv assms(2) by blast
next
  case get
  then show ?thesis using GetMessageIf_inv assms(2) by blast
next
  case send
  then show ?thesis using SendMessage_inv assms(2) by blast
next
  case accept
  then show ?thesis using AcceptMessage_inv assms(2) by blast
next
  case lost
  then show ?thesis using LostConnectionToNode_inv assms(2) by blast
qed

lemma reachable_inv: "reachable nm rand n \<Longrightarrow> node_inv n"
  by (induction rule: reachable.induct) (auto intro: node_inv_init node_step_inv)

end
