(* ===== verification/Node_Props.thy ===== *)
theory Node_Props
  imports Node_Inv
begin

text \<open>
  Functional correctness of the node's operations: the results and effects of each operation on
  every branch, what sending, closing and reading promise, and the steps of the protocol that
  removes proxies.
\<close>

section \<open>Reachable nodes\<close>

text \<open>
  C4: Every node reached from a fresh one by operations of the embedder on valid references,
  arbitrary incoming messages and lost connections is well formed: the table is a one-to-one map
  from names to allocated ports, every receiving port is in it, no closed port is, and every queue
  is a heap of user messages.
\<close>

theorem reachable_node_inv: "reachable nm rand n \<Longrightarrow> node_inv n"
  by (rule reachable_inv)

definition example_names :: "nat \<Rightarrow> PortName" where
  "example_names i = Name (of_nat i + 1) 7"

definition example_node :: Node where
  "example_node = Node_init (Name 1 1) example_names"

definition example_pair :: "PortRef \<times> PortRef \<times> Node" where
  "example_pair = (case CreatePortPair example_node of Inr (_, r) \<Rightarrow> r
     | Inl _ \<Rightarrow> (\<lparr>ref_name = Name 0 0, ref_port = 0\<rparr>, \<lparr>ref_name = Name 0 0, ref_port = 0\<rparr>, example_node))"

lemmas example_defs = example_pair_def example_node_def example_names_def Node_init_def
  CreatePortPair_def CreateUninitializedPort_def InitializePort_def GenerateRandomPortName_def
  new_port_def AddPortWithName_def um_insert_def Port_init_def modify_port_def status_changed_def Let_def

lemma example_pair_eval:
  "CreatePortPair example_node = Inr (OK, example_pair)"
  "fst example_pair = \<lparr>ref_name = Name 1 7, ref_port = 0\<rparr>"
  "fst (snd example_pair) = \<lparr>ref_name = Name 2 7, ref_port = 1\<rparr>"
  "ports (snd (snd example_pair)) = [(Name 1 7, 0), (Name 2 7, 1)]"
  by (simp_all add: example_defs)

theorem reachable_node_inv_witness: "node_inv (snd (snd example_pair))"
proof (rule reachable_node_inv [of "Name 1 1" example_names])
  have "node_step example_node (snd (snd example_pair))"
    using node_step.create_pair [of example_node OK "fst example_pair" "fst (snd example_pair)"] example_pair_eval(1)
    by simp
  then show "reachable (Name 1 1) example_names (snd (snd example_pair))"
    using reachable.intros [of "Name 1 1" example_names] unfolding example_node_def by blast
qed

section \<open>Creating ports\<close>

lemma CreatePortPair_new:
  assumes "node_inv n" "CreatePortPair n = Inr (rv, r0, r1, n')"
  shows "rv = OK \<and> node_name n' = node_name n \<and> ref_port r0 \<noteq> ref_port r1 \<and> ref_name r0 \<noteq> ref_name r1 \<and>
    map_of (ports n) (ref_name r0) = None \<and> map_of (ports n) (ref_name r1) = None \<and>
    map_of (ports n') = (map_of (ports n))(ref_name r0 \<mapsto> ref_port r0, ref_name r1 \<mapsto> ref_port r1) \<and>
    port_at n' = (port_at n)
      (ref_port r0 := (Port_init kInitialSequenceNum kInitialSequenceNum)
         \<lparr>state := kReceiving, peer_node_name := node_name n, peer_port_name := ref_name r1\<rparr>,
       ref_port r1 := (Port_init kInitialSequenceNum kInitialSequenceNum)
         \<lparr>state := kReceiving, peer_node_name := node_name n, peer_port_name := ref_name r0\<rparr>)"
proof -
  obtain n1 where c0: "CreateUninitializedPort n = Inr (r0, n1)"
  proof (cases "CreateUninitializedPort n")
    case (Inr x)
    then show ?thesis using that assms(2) by (cases x) (simp add: CreatePortPair_def split: sum.splits prod.splits if_splits)
  qed (use assms(2) in \<open>simp add: CreatePortPair_def\<close>)
  obtain n2 where c1: "CreateUninitializedPort n1 = Inr (r1, n2)"
  proof (cases "CreateUninitializedPort n1")
    case (Inr x)
    then show ?thesis using that assms(2) c0 by (cases x) (simp add: CreatePortPair_def split: prod.splits if_splits)
  qed (use assms(2) c0 in \<open>simp add: CreatePortPair_def\<close>)
  note f0 = CreateUninitializedPort_inv [OF assms(1) c0]
  note f1 = CreateUninitializedPort_inv [OF f0(1) c1]
  note a0 = CreateUninitializedPort_adds [OF c0]
  note a1 = CreateUninitializedPort_adds [OF c1]
  have ne: "ref_port r0 \<noteq> ref_port r1" "ref_name r0 \<noteq> ref_name r1" using f0 f1 by auto
  have st: "state (port_at n2 (ref_port r0)) = kUninitialized" "state (port_at n2 (ref_port r1)) = kUninitialized"
    using f0(3) f1(3) ne by (simp_all add: Port_init_def)
  have n': "rv = OK" "ports n' = ports n2" "port_at n' = (port_at n2)
      (ref_port r0 := (port_at n2 (ref_port r0))
         \<lparr>state := kReceiving, peer_node_name := node_name n2, peer_port_name := ref_name r1\<rparr>,
       ref_port r1 := (port_at n2 (ref_port r1))
         \<lparr>state := kReceiving, peer_node_name := node_name n2, peer_port_name := ref_name r0\<rparr>)"
    using assms(2) c0 c1 st ne unfolding CreatePortPair_def InitializePort_def
    by (simp_all add: fun_upd_twist) auto
  have nn: "node_name n' = node_name n"
    using assms(2) c0 c1 f0(6) f1(6) st ne unfolding CreatePortPair_def InitializePort_def by simp auto
  have none: "map_of (ports n) (ref_name r0) = None" "map_of (ports n) (ref_name r1) = None"
    using a0 a1 ne(2) by (auto split: if_splits)
  have tab: "map_of (ports n') = (map_of (ports n))(ref_name r0 \<mapsto> ref_port r0, ref_name r1 \<mapsto> ref_port r1)"
    unfolding n'(2) using a0 a1 by (auto simp: fun_eq_iff)
  have "port_at n' = (port_at n)
      (ref_port r0 := (Port_init kInitialSequenceNum kInitialSequenceNum)
         \<lparr>state := kReceiving, peer_node_name := node_name n, peer_port_name := ref_name r1\<rparr>,
       ref_port r1 := (Port_init kInitialSequenceNum kInitialSequenceNum)
         \<lparr>state := kReceiving, peer_node_name := node_name n, peer_port_name := ref_name r0\<rparr>)"
    unfolding n'(3) f1(3) f0(3) using ne f0(6) f1(6) by (auto simp: fun_eq_iff)
  then show ?thesis using n'(1) nn ne none tab by blast
qed

text \<open>
  Creating a port pair on a well-formed node either aborts because the random generator returned
  a name that is in use, or returns two fresh ports, registered under their names, that are each
  other's peer on this node, with empty queues and sequence numbers starting at 1.
\<close>

theorem CreatePortPair_spec:
  assumes "node_inv n" "CreatePortPair n = Inr (rv, r0, r1, n')"
  shows "rv = OK \<and> node_name n' = node_name n \<and> ref_port r0 \<noteq> ref_port r1 \<and> ref_name r0 \<noteq> ref_name r1 \<and>
    map_of (ports n) (ref_name r0) = None \<and> map_of (ports n) (ref_name r1) = None \<and>
    map_of (ports n') = (map_of (ports n))(ref_name r0 \<mapsto> ref_port r0, ref_name r1 \<mapsto> ref_port r1) \<and>
    port_at n' = (port_at n)
      (ref_port r0 := (Port_init kInitialSequenceNum kInitialSequenceNum)
         \<lparr>state := kReceiving, peer_node_name := node_name n, peer_port_name := ref_name r1\<rparr>,
       ref_port r1 := (Port_init kInitialSequenceNum kInitialSequenceNum)
         \<lparr>state := kReceiving, peer_node_name := node_name n, peer_port_name := ref_name r0\<rparr>)"
  using CreatePortPair_new [OF assms] .

theorem CreatePortPair_spec_witness:
  "case example_pair of (r0, r1, n') \<Rightarrow> peer_port_name (port_at n' (ref_port r0)) = ref_name r1"
proof -
  have "node_inv example_node" unfolding example_node_def by (rule node_inv_init)
  moreover obtain r0 r1 n' where e: "example_pair = (r0, r1, n')" using prod_cases3 by blast
  ultimately have "port_at n' (ref_port r0) = (Port_init kInitialSequenceNum kInitialSequenceNum)
         \<lparr>state := kReceiving, peer_node_name := node_name example_node, peer_port_name := ref_name r1\<rparr>"
    using CreatePortPair_spec [of example_node OK r0 r1 n'] example_pair_eval(1) by simp
  then show ?thesis unfolding e prod.case by simp
qed

section \<open>Failed sends\<close>

lemma modify_port_undo:
  "modify_port a (\<lambda>p. p\<lparr>next_sequence_num_to_send := next_sequence_num_to_send p - 1\<rparr>)
     (modify_port a (\<lambda>p. p\<lparr>next_sequence_num_to_send := next_sequence_num_to_send p + 1\<rparr>) n) = n"
  by (simp add: modify_port_def)

lemma WillSendMessage_fail:
  assumes "WillSendMessage_Locked a m n = Inr (rv, m', n')" "rv \<noteq> OK" "GetSequenceNum m = 0"
  shows "n' = n \<and> m' = set_sequence_num (next_sequence_num_to_send (port_at n a)) m"
  using assms by (auto simp: WillSendMessage_Locked_def Let_def modify_port_undo split: if_splits sum.splits prod.splits)



text \<open>
  A failed send of a message with attached ports leaves in the message the very number that the
  next message of the port will be given: \<open>|message| is left unchanged\<close> does not hold, and sending
  the returned message again after another one puts two messages with one number on the wire.
\<close>

theorem failed_send_leaves_number:
  assumes "SendMessage r m n = Inr (rv, Some m', n')" "rv \<noteq> OK" "GetSequenceNum m = 0" "is_user m" "m' \<noteq> m"
  shows "GetSequenceNum m' = next_sequence_num_to_send (port_at n' (ref_port r))"
  using assms
  by (auto simp: SendMessage_def Let_def dest!: WillSendMessage_fail split: if_splits sum.splits prod.splits)

theorem failed_send_leaves_number_witness:
  "case example_pair of (r0, r1, n) \<Rightarrow>
     (case SendMessage r0 (NewUserMessage [ref_name r1] []) n of
        Inr (rv, Some m', n') \<Rightarrow> GetSequenceNum m' = next_sequence_num_to_send (port_at n' (ref_port r0))
      | _ \<Rightarrow> False)"
proof -
  obtain r0 r1 n where e: "example_pair = (r0, r1, n)" using prod_cases3 by blast
  define m where "m = NewUserMessage [ref_name r1] []"
  have "\<exists>n' m'. SendMessage r0 m n = Inr (ERROR_PORT_CANNOT_SEND_PEER, Some m', n') \<and> m' \<noteq> m"
    using e unfolding m_def
    by (simp add: example_defs) (auto simp: SendMessage_def WillSendMessage_Locked_def Let_def num_ports_def
      GetPort_Locked_def NewUserMessage_def set_sequence_num_def GetSequenceNum_def kInitialSequenceNum_def)
  then obtain n' m' where s: "SendMessage r0 m n = Inr (ERROR_PORT_CANNOT_SEND_PEER, Some m', n')" "m' \<noteq> m" by blast
  then show ?thesis
    using failed_send_leaves_number [OF s(1)] unfolding e prod.case m_def [symmetric] by (simp add: m_def)
qed

section \<open>Reading\<close>

text \<open>
  On a well-formed node \<open>GetMessageIf\<close> on a receiving port reports a closed peer exactly when the
  peer is closed (or the port is being removed) and the last message that will ever arrive has been
  read; otherwise it returns a message only if it carries the next number and the selector accepts
  it, advances the number by one and removes exactly that message from the queue, and returns
  nothing without touching the queue in every other case.
\<close>

theorem GetMessageIf_spec:
  assumes "node_inv n" "state (port_at n (ref_port r)) = kReceiving" "GetMessageIf r sel n = Inr (rv, mo, n')"
  defines "p \<equiv> port_at n (ref_port r)"
  shows "(rv = ERROR_PORT_PEER_CLOSED \<longleftrightarrow> (peer_closed p \<or> remove_proxy_on_last_message p) \<and>
           last_sequence_num_to_receive p + 1 = next_sequence_num (message_queue p)) \<and>
    (case mo of
       None \<Rightarrow> message_queue (port_at n' (ref_port r)) = message_queue p
     | Some m \<Rightarrow> rv = OK \<and> m \<in># pending (message_queue p) \<and>
         GetSequenceNum m = next_sequence_num (message_queue p) \<and> (\<forall>f. sel = Some f \<longrightarrow> f m) \<and>
         pending (message_queue (port_at n' (ref_port r))) = pending (message_queue p) - {#m#} \<and>
         next_sequence_num (message_queue (port_at n' (ref_port r))) = next_sequence_num (message_queue p) + 1)"
proof -
  let ?a = "ref_port r"
  have keep: "make_signalable nms n1 = Inr n2 \<Longrightarrow>
      mq_heap (message_queue (port_at n2 b)) = mq_heap (message_queue (port_at n1 b)) \<and>
      mq_next_sequence_num (message_queue (port_at n2 b)) = mq_next_sequence_num (message_queue (port_at n1 b))"
    for nms n1 n2 b
    by (induction nms n1 rule: make_signalable.induct) (auto split: option.splits if_splits)
  obtain m1 q where g: "GetNextMessageIf sel (message_queue p) = (m1, q)" by fastforce
  have inv: "mq_inv (message_queue p)" using node_inv_D(4) [OF assms(1)] by (simp add: p_def queue_ok_def)
  have closed: "\<not> CanAcceptMoreMessages p \<longleftrightarrow> (peer_closed p \<or> remove_proxy_on_last_message p) \<and>
      last_sequence_num_to_receive p + 1 = next_sequence_num (message_queue p)"
    by (auto simp: CanAcceptMoreMessages_def Let_def algebra_simps)
  show ?thesis
  proof (cases "CanAcceptMoreMessages p")
    case False
    then show ?thesis using assms closed by (simp add: GetMessageIf_def Let_def)
  next
    case True
    show ?thesis
    proof (cases m1)
      case None
      have "q = message_queue p" using g None by (simp add: GetNextMessageIf_None)
      then show ?thesis using assms(2,3) True closed g None unfolding p_def
        by (simp add: GetMessageIf_def Let_def) auto
    next
      case (Some m)
      note s = GetNextMessageIf_Some [OF inv g [unfolded Some]]
      from assms(2,3) True g Some have "rv = OK" "mo = Some m"
        "make_signalable (msg_ports m) (modify_port ?a (\<lambda>p. p\<lparr>message_queue := q\<rparr>) n) = Inr n'"
        unfolding p_def by (auto simp: GetMessageIf_def Let_def split: sum.splits)
      then show ?thesis using s keep [of "msg_ports m" _ n' ?a] True closed by (auto simp: next_sequence_num_def)
    qed
  qed
qed

theorem GetMessageIf_spec_witness:
  "case example_pair of (r0, r1, n) \<Rightarrow> (\<exists>n'. GetMessageIf r1 None n = Inr (OK, None, n') \<and>
     message_queue (port_at n' (ref_port r1)) = message_queue (port_at n (ref_port r1)))"
proof -
  obtain r0 r1 n where e: "example_pair = (r0, r1, n)" using prod_cases3 by blast
  have inv: "node_inv n"
    using CreatePortPair_inv [OF _ example_pair_eval(1) [unfolded e]] node_inv_init [of "Name 1 1" example_names]
    by (simp add: example_node_def)
  have p: "\<exists>n'. GetMessageIf r1 None n = Inr (OK, None, n')" "state (port_at n (ref_port r1)) = kReceiving"
    using e by (auto simp: example_defs GetMessageIf_def CanAcceptMoreMessages_def GetNextMessageIf_def
        HasNextMessage_def MessageQueue_init_def kInitialSequenceNum_def)
  then obtain n' where g: "GetMessageIf r1 None n = Inr (OK, None, n')" by blast
  show ?thesis using GetMessageIf_spec [OF inv p(2) g] g unfolding e prod.case by auto
qed

section \<open>Transferring a port\<close>

text \<open>
  C21: A port that is sent in a message arrives as the same endpoint: after \<open>WillSendPort_Locked\<close> on the
  sending node and \<open>AcceptPort\<close> on the receiving one, the new port receives, has the old port's peer,
  continues both of its sequences at the same numbers, inherits its end-of-stream state, starts with
  an empty queue that does not signal, and tells the sending node that it was accepted.  The old port
  is a buffering proxy whose peer is the new port and which is to go away when its peer was closed.
\<close>

theorem port_transfer:
  assumes "WillSendPort_Locked a to nm n = ((new, d), n1)" "AcceptPort new d k = Inr k1"
  defines "p \<equiv> port_at n a" and "b \<equiv> port_count k"
  shows "map_of (ports k) new = None \<and> map_of (ports k1) new = Some b \<and>
    port_at k1 b = (Port_init (next_sequence_num_to_send p) (next_sequence_num (message_queue p)))
      \<lparr>state := kReceiving, peer_node_name := peer_node_name p, peer_port_name := peer_port_name p,
       last_sequence_num_to_receive := last_sequence_num_to_receive p, peer_closed := peer_closed p,
       message_queue := set_signalable False (MessageQueue_init (next_sequence_num (message_queue p)))\<rparr> \<and>
    delegate_calls k1 = delegate_calls k @ [ForwardMessage (node_name n) (NewInternalMessage nm PortAccepted)] \<and>
    port_at n1 a = p\<lparr>state := kBuffering, peer_node_name := to, peer_port_name := new,
      remove_proxy_on_last_message := peer_closed p \<or> remove_proxy_on_last_message p\<rparr>"
proof -
  have w: "new = random_names n (random_used n)"
    "d = \<lparr>pd_peer_node_name = peer_node_name p, pd_peer_port_name = peer_port_name p,
         pd_referring_node_name = node_name n, pd_referring_port_name = nm,
         pd_next_sequence_num_to_send = next_sequence_num_to_send p,
         pd_next_sequence_num_to_receive = next_sequence_num (message_queue p),
         pd_last_sequence_num_to_receive = last_sequence_num_to_receive p, pd_peer_closed = peer_closed p\<rparr>"
    "port_at n1 a = p\<lparr>state := kBuffering, peer_node_name := to, peer_port_name := new,
      remove_proxy_on_last_message := peer_closed p \<or> remove_proxy_on_last_message p\<rparr>"
    using assms(1) by (auto simp: WillSendPort_Locked_def Let_def case_prod_beta p_def)
  have new: "map_of (ports k) new = None" using AcceptPort_frame(2) [OF assms(2)] .
  show ?thesis
    using assms(2) new w(3) unfolding AcceptPort_def Let_def new_port_def AddPortWithName_def b_def w(2)
    by simp (drule sym, simp)
qed

theorem port_transfer_witness:
  "case example_pair of (r0, r1, n) \<Rightarrow>
     (case WillSendPort_Locked (ref_port r1) (Name 2 2) (ref_name r1) n of
        ((new, d), n1) \<Rightarrow>
          (case AcceptPort new d (Node_init (Name 2 2) example_names) of
             Inr k1 \<Rightarrow> map_of (ports k1) new = Some 0 \<and> peer_port_name (port_at k1 0) = ref_name r0
           | Inl _ \<Rightarrow> False))"
proof -
  obtain r0 r1 n where e: "example_pair = (r0, r1, n)" using prod_cases3 by blast
  obtain new d n1 where w: "WillSendPort_Locked (ref_port r1) (Name 2 2) (ref_name r1) n = ((new, d), n1)"
    by (metis prod.exhaust)
  obtain k1 where k: "AcceptPort new d (Node_init (Name 2 2) example_names) = Inr k1"
    by (simp add: AcceptPort_def new_port_def AddPortWithName_def Node_init_def Let_def)
  have "peer_port_name (port_at n (ref_port r1)) = ref_name r0" using e by (auto simp: example_defs)
  then show ?thesis
    using port_transfer [OF w k] w k unfolding e prod.case by (simp add: Node_init_def)
qed

end
