(* ===== verification/Node_Protocol.thy ===== *)
theory Node_Protocol
  imports Node_Props
begin

text \<open>
  The life cycle of ports: closing, losing the connection to a node, forwarding by proxies and their
  removal, and the condition for a clean shutdown.
\<close>

section \<open>Closing\<close>

lemma ClosePort_step_frame:
  assumes "ClosePort_step r n = (rv, n', nms)"
  shows "map_of (ports n') x = Some a \<Longrightarrow> map_of (ports n) x = Some a"
    "state (port_at n' b) = state (port_at n b) \<or> state (port_at n' b) = kClosed"
    "\<exists>cs. delegate_calls n' = delegate_calls n @ cs"
    "state (port_at n (ref_port r)) \<in> {kReceiving, kUninitialized} \<Longrightarrow> map_of (ports n') (ref_name r) = None"
  using assms by (auto simp: ClosePort_step_def Let_def split: if_splits)

lemma ClosePorts_frame:
  "(\<forall>x a. map_of (ports (ClosePorts nms n)) x = Some a \<longrightarrow> map_of (ports n) x = Some a) \<and>
   (\<forall>b. state (port_at (ClosePorts nms n) b) = state (port_at n b) \<or> state (port_at (ClosePorts nms n) b) = kClosed) \<and>
   (\<exists>cs. delegate_calls (ClosePorts nms n) = delegate_calls n @ cs)"
proof (induction nms n rule: ClosePorts.induct)
  case (2 nm nms n)
  show ?case
  proof (cases "GetPort_Locked nm n")
    case None
    with 2 show ?thesis by simp
  next
    case (Some a)
    obtain rv n' nms' where s: "ClosePort_step \<lparr>ref_name = nm, ref_port = a\<rparr> n = (rv, n', nms')"
      by (metis prod_cases3)
    note ih = "2.IH"(2) [OF Some s [symmetric] refl]
    have c: "ClosePorts (nm # nms) n = ClosePorts (nms' @ nms) n'" using Some s by simp
    obtain cs1 cs2 where cs: "delegate_calls n' = delegate_calls n @ cs1"
      "delegate_calls (ClosePorts (nms' @ nms) n') = delegate_calls n' @ cs2"
      using ClosePort_step_frame(3) [OF s] ih by blast
    show ?thesis unfolding c using ih ClosePort_step_frame(1,2) [OF s] cs by (metis append_assoc)
  qed
qed simp

lemma ClosePorts_closes:
  "nm \<in> set nms \<Longrightarrow> map_of (ports (ClosePorts nms n)) nm = Some a \<Longrightarrow>
     state (port_at (ClosePorts nms n) a) \<notin> {kReceiving, kUninitialized}"
proof (induction nms n rule: ClosePorts.induct)
  case (2 x nms n)
  show ?case
  proof (cases "GetPort_Locked x n")
    case None
    then have c: "ClosePorts (x # nms) n = ClosePorts nms n" by simp
    have "map_of (ports n) nm = Some a" using ClosePorts_frame [of nms n] "2.prems"(2) unfolding c by blast
    then have "nm \<noteq> x" using None by (auto simp: GetPort_Locked_def)
    then show ?thesis using 2 None by simp
  next
    case (Some b)
    obtain rv n' nms' where s: "ClosePort_step \<lparr>ref_name = x, ref_port = b\<rparr> n = (rv, n', nms')"
      by (metis prod_cases3)
    have c: "ClosePorts (x # nms) n = ClosePorts (nms' @ nms) n'" using Some s by simp
    note fr = ClosePorts_frame [of "nms' @ nms" n'] and sf = ClosePort_step_frame [OF s]
    show ?thesis
    proof (cases "nm = x")
      case False
      then show ?thesis using "2.IH"(2) [OF Some s [symmetric] refl] "2.prems" unfolding c by simp
    next
      case True
      have n': "map_of (ports n') x = Some a" using fr "2.prems"(2) True unfolding c by blast
      then have "a = b" using sf(1) Some by (auto simp: GetPort_Locked_def)
      then have "state (port_at n a) \<notin> {kReceiving, kUninitialized}" using sf(4) n' by auto
      then have "state (port_at n' a) \<notin> {kReceiving, kUninitialized}" using sf(2) [of a] by auto
      moreover have "state (port_at (ClosePorts (nms' @ nms) n') a) = state (port_at n' a) \<or>
          state (port_at (ClosePorts (nms' @ nms) n') a) = kClosed" using fr by blast
      ultimately show ?thesis unfolding c by auto
    qed
  qed
qed simp

text \<open>
  Closing a receiving port returns, takes it out of the table, marks it closed, first tells its
  peer the number of the last message it sent, and leaves no port that an unread message carried in
  a usable state: each of them is out of the table or a proxy that will remove itself.
\<close>

theorem ClosePort_spec:
  assumes "state (port_at n (ref_port r)) = kReceiving" "ClosePort r n = (rv, n')"
  defines "p \<equiv> port_at n (ref_port r)"
  shows "rv = OK \<and> map_of (ports n') (ref_name r) = None \<and> state (port_at n' (ref_port r)) = kClosed \<and>
    (\<exists>cs. delegate_calls n' = delegate_calls n @ ForwardMessage (peer_node_name p)
       (NewInternalMessage (peer_port_name p) (ObserveClosure (next_sequence_num_to_send p - 1))) # cs) \<and>
    (\<forall>nm \<in> set (GetReferencedPorts (message_queue p)).
       case map_of (ports n') nm of None \<Rightarrow> True | Some a \<Rightarrow> state (port_at n' a) \<notin> {kReceiving, kUninitialized})"
proof -
  obtain n1 where s: "ClosePort_step r n = (OK, n1, GetReferencedPorts (message_queue p))"
    and n1: "map_of (ports n1) (ref_name r) = None" "state (port_at n1 (ref_port r)) = kClosed"
      "delegate_calls n1 = delegate_calls n @ [ForwardMessage (peer_node_name p)
         (NewInternalMessage (peer_port_name p) (ObserveClosure (next_sequence_num_to_send p - 1)))]"
    using assms(1) by (simp add: ClosePort_step_def Let_def p_def)
  let ?nms = "GetReferencedPorts (message_queue p)"
  have n': "rv = OK" "n' = ClosePorts ?nms n1" using assms(2) s by (simp_all add: ClosePort_def)
  note fr = ClosePorts_frame [of ?nms n1, folded n'(2)]
  have "map_of (ports n') (ref_name r) = None" using fr n1(1) by (metis not_Some_eq)
  moreover have "state (port_at n' (ref_port r)) = kClosed" using fr n1(2) by metis
  moreover have "case map_of (ports n') nm of None \<Rightarrow> True | Some a \<Rightarrow> state (port_at n' a) \<notin> {kReceiving, kUninitialized}"
    if "nm \<in> set ?nms" for nm
    using ClosePorts_closes [OF that, of n1] unfolding n'(2) by (auto split: option.splits)
  ultimately show ?thesis using n'(1) fr n1(3) by auto
qed

text \<open>The pair of a node, one of whose ports is closed.\<close>

theorem ClosePort_spec_witness:
  "case example_pair of (r0, r1, n) \<Rightarrow>
     (case ClosePort r0 n of (rv, n') \<Rightarrow> rv = OK \<and> map_of (ports n') (ref_name r0) = None)"
proof -
  obtain r0 r1 n where e: "example_pair = (r0, r1, n)" using prod_cases3 by blast
  obtain rv n' where c: "ClosePort r0 n = (rv, n')" by fastforce
  have "state (port_at n (ref_port r0)) = kReceiving" using e by (auto simp: example_defs)
  then show ?thesis using ClosePort_spec [OF _ c] c unfolding e prod.case by simp
qed

section \<open>Losing a connection\<close>

text \<open>
  Losing the connection to a node closes exactly the receiving ports whose peer lives there: each
  of them is notified once and will report a closed peer as soon as the messages that are already in
  sequence are read, every other port of that node (proxies) is dropped from the table, ports with
  other peers are untouched, and doing it again changes nothing and notifies nobody.
\<close>

theorem LostConnectionToNode_effect:
  assumes "node_inv n" "LostConnectionToNode lost n = (rv, n')"
  shows "rv = OK \<and>
    (\<forall>nm a. map_of (ports n') nm = Some a \<longleftrightarrow>
       map_of (ports n) nm = Some a \<and> (peer_node_name (port_at n a) = lost \<longrightarrow> state (port_at n a) = kReceiving)) \<and>
    (\<forall>a \<in> registered n. port_at n' a = (if peer_node_name (port_at n a) = lost \<and> \<not> peer_closed (port_at n a)
       then (port_at n a)\<lparr>peer_closed := True, last_sequence_num_to_receive := next_sequence_num (message_queue (port_at n a)) - 1\<rparr>
       else port_at n a)) \<and>
    (\<forall>r. PortStatusChanged r \<in> set (drop (length (delegate_calls n)) (delegate_calls n')) \<longleftrightarrow>
       map_of (ports n) (ref_name r) = Some (ref_port r) \<and> state (port_at n (ref_port r)) = kReceiving \<and>
       peer_node_name (port_at n (ref_port r)) = lost \<and> \<not> peer_closed (port_at n (ref_port r))) \<and>
    LostConnectionToNode lost n' = (OK, n')"
proof -
  let ?keep = "\<lambda>(nm::PortName, a). \<not> (peer_node_name (port_at n a) = lost \<and> state (port_at n a) \<noteq> kReceiving)"
  let ?tell = "\<lambda>(nm::PortName, a). peer_node_name (port_at n a) = lost \<and> \<not> peer_closed (port_at n a) \<and>
     state (port_at n a) = kReceiving"
  have n': "rv = OK" "ports n' = filter ?keep (ports n)"
    "port_at n' = (\<lambda>a. if a \<in> registered n then lose_peer lost (port_at n a) else port_at n a)"
    "delegate_calls n' = delegate_calls n @ map (\<lambda>(nm, a). PortStatusChanged \<lparr>ref_name = nm, ref_port = a\<rparr>) (filter ?tell (ports n))"
    using assms(2) unfolding LostConnectionToNode_spec [OF assms(1)] by auto
  have dist: "distinct (map fst (ports n))" "distinct (map fst (ports n'))"
    using node_inv_D(1) [OF assms(1)] unfolding n'(2) by (simp_all add: distinct_map_filter)
  have inv': "node_inv n'" using LostConnectionToNode_inv [OF assms] .
  have tab: "map_of (ports n') nm = Some a \<longleftrightarrow> map_of (ports n) nm = Some a \<and>
      (peer_node_name (port_at n a) = lost \<longrightarrow> state (port_at n a) = kReceiving)" for nm a
    using map_of_eq_Some_iff [OF dist(1), of nm a] map_of_eq_Some_iff [OF dist(2), of nm a]
      set_filter [of ?keep "ports n"] unfolding n'(2) by simp
  have told: "PortStatusChanged r \<in> set (drop (length (delegate_calls n)) (delegate_calls n')) \<longleftrightarrow>
      map_of (ports n) (ref_name r) = Some (ref_port r) \<and> state (port_at n (ref_port r)) = kReceiving \<and>
      peer_node_name (port_at n (ref_port r)) = lost \<and> \<not> peer_closed (port_at n (ref_port r))" for r
    unfolding map_of_eq_Some_iff [OF dist(1)] n'(4) by (cases r) (auto simp: image_iff)
  have reg: "b \<in> registered n" if "(x, b) \<in> set (ports n)" for x b using that by force
  have idem: "LostConnectionToNode lost n' = (OK, n')"
  proof -
    have "filter (\<lambda>(nm, a). \<not> (peer_node_name (port_at n' a) = lost \<and> state (port_at n' a) \<noteq> kReceiving)) (ports n') = ports n'"
      unfolding n'(2,3) by (auto simp: filter_id_conv)
    moreover have "filter (\<lambda>(nm, a). peer_node_name (port_at n' a) = lost \<and> \<not> peer_closed (port_at n' a) \<and>
        state (port_at n' a) = kReceiving) (ports n') = []"
      unfolding n'(2,3) using reg by (auto simp: filter_empty_conv lose_peer_def)
    moreover have "(\<lambda>a. if a \<in> registered n' then lose_peer lost (port_at n' a) else port_at n' a) = port_at n'"
      unfolding n'(2,3) by (auto simp: lose_peer_def fun_eq_iff)
    ultimately show ?thesis unfolding LostConnectionToNode_spec [OF inv'] by simp
  qed
  show ?thesis
    using n'(1) tab told idem unfolding n'(3) lose_peer_def by auto
qed

definition example_remote :: "PortRef \<times> Node" where
  "example_remote = (case CreateUninitializedPort example_node of
     Inr (r, n) \<Rightarrow> (r, snd (InitializePort r (Name 9 9) (Name 5 5) n))
   | Inl _ \<Rightarrow> (\<lparr>ref_name = Name 0 0, ref_port = 0\<rparr>, example_node))"

lemma example_remote_facts:
  assumes "example_remote = (r, n)"
  shows "node_inv n" "map_of (ports n) (ref_name r) = Some (ref_port r)"
    "state (port_at n (ref_port r)) = kReceiving" "peer_node_name (port_at n (ref_port r)) = Name 9 9"
    "\<not> peer_closed (port_at n (ref_port r))"
proof -
  have inv: "node_inv example_node" unfolding example_node_def by (rule node_inv_init)
  obtain r1 n1 where c: "CreateUninitializedPort example_node = Inr (r1, n1)"
    by (simp add: example_defs)
  note f = CreateUninitializedPort_inv [OF inv c]
  have e: "r = r1" "n = snd (InitializePort r1 (Name 9 9) (Name 5 5) n1)"
    using assms c by (auto simp: example_remote_def)
  have reg: "ref_port r1 \<in> registered n1"
    using f(2) GetPort_Locked_registered [of "ref_name r1" n1] by (simp add: GetPort_Locked_def)
  then have "ref_ok n1 r1" using f(2) node_inv_D(3) [OF f(1)] by (simp add: ref_ok_def)
  then show "node_inv n" unfolding e(2) using InitializePort_inv [OF f(1) _ reg] prod.collapse by metis
  show "map_of (ports n) (ref_name r) = Some (ref_port r)"
    "state (port_at n (ref_port r)) = kReceiving" "peer_node_name (port_at n (ref_port r)) = Name 9 9"
    "\<not> peer_closed (port_at n (ref_port r))"
    using f(2,3) unfolding e by (simp_all add: InitializePort_def Port_init_def)
qed

theorem LostConnectionToNode_effect_witness:
  "case example_remote of (r, n) \<Rightarrow> peer_closed (port_at (snd (LostConnectionToNode (Name 9 9) n)) (ref_port r))"
proof -
  obtain r n where e: "example_remote = (r, n)" by fastforce
  note f = example_remote_facts [OF e]
  obtain rv n' where l: "LostConnectionToNode (Name 9 9) n = (rv, n')" by fastforce
  have "ref_port r \<in> registered n"
    using f(2) GetPort_Locked_registered [of "ref_name r" n] by (simp add: GetPort_Locked_def)
  then have "peer_closed (port_at n' (ref_port r))"
    using LostConnectionToNode_effect [OF f(1) l] f(4,5) by auto
  then show ?thesis unfolding e prod.case l by simp
qed

section \<open>Proxies\<close>

text \<open>
  C22: A proxy whose queued messages carry no ports forwards exactly those that are in sequence: the
  loop returns, the messages leave in the order of their consecutive numbers, each once, with only
  the destination rewritten to the proxy's peer, and what stays in the queue is waiting for a message
  that has not arrived.
\<close>

theorem proxy_forwards_in_order:
  assumes "mq_inv (message_queue (port_at n a))"
    and "\<forall>m \<in> set (mq_heap (message_queue (port_at n a))). msg_ports m = [] \<and> GetSequenceNum m \<noteq> 0"
  shows "\<exists>ms q. let q0 = message_queue (port_at n a); p = port_at n a in
    ForwardMessages_Locked a n = Inr (OK, n\<lparr>port_at := (port_at n)(a := p\<lparr>message_queue := q\<rparr>),
      delegate_calls := delegate_calls n @
        map (\<lambda>m. ForwardMessage (peer_node_name p) (set_header_port_name (peer_port_name p) m)) ms\<rparr>) \<and>
    map GetSequenceNum ms = seq_from (mq_next_sequence_num q0) (length ms) \<and>
    mset ms + pending q = pending q0 \<and> mq_next_sequence_num q = mq_next_sequence_num q0 + of_nat (length ms) \<and>
    \<not> HasNextMessage q"
  using assms
proof (induction "length (mq_heap (message_queue (port_at n a)))" arbitrary: n rule: less_induct)
  case less
  let ?p = "port_at n a"
  obtain r q where g: "GetNextMessageIf None (message_queue ?p) = (r, q)" by fastforce
  show ?case
  proof (cases r)
    case None
    then have "\<not> HasNextMessage (message_queue ?p)" using g by (simp add: GetNextMessageIf_None)
    then show ?thesis using g None unfolding Let_def
      by (intro exI [of _ "[]"] exI [of _ "message_queue ?p"]) (simp add: ForwardMessages_Locked.simps)
  next
    case (Some m)
    note s = GetNextMessageIf_Some [OF less.prems(1) g [unfolded Some]]
    have m: "msg_ports m = []" "GetSequenceNum m \<noteq> 0" using less.prems(2) s(3) by auto
    let ?n1 = "forward (peer_node_name ?p) (set_header_port_name (peer_port_name ?p) m)
      (modify_port a (\<lambda>p. p\<lparr>message_queue := q\<rparr>) n)"
    have f: "ForwardMessages_Locked a n = ForwardMessages_Locked a ?n1"
      using g Some m by (simp add: ForwardMessages_Locked.simps [of a n] WillSendMessage_Locked_def num_ports_def)
    have sub: "set (mq_heap q) \<subseteq> set (mq_heap (message_queue ?p))"
      using s(8) by (metis in_diffD set_mset_mset subsetI)
    have "\<exists>ms q'. ForwardMessages_Locked a ?n1 = Inr (OK, ?n1\<lparr>port_at := (port_at ?n1)(a := (port_at ?n1 a)\<lparr>message_queue := q'\<rparr>),
      delegate_calls := delegate_calls ?n1 @
        map (\<lambda>m. ForwardMessage (peer_node_name (port_at ?n1 a)) (set_header_port_name (peer_port_name (port_at ?n1 a)) m)) ms\<rparr>) \<and>
      map GetSequenceNum ms = seq_from (mq_next_sequence_num q) (length ms) \<and>
      mset ms + pending q' = pending q \<and> mq_next_sequence_num q' = mq_next_sequence_num q + of_nat (length ms) \<and>
      \<not> HasNextMessage q'"
      using less.hyps [of ?n1] s(9,10) less.prems(2) sub unfolding Let_def by auto
    then obtain ms q' where ih: "ForwardMessages_Locked a ?n1 = Inr (OK, ?n1\<lparr>port_at := (port_at ?n1)(a := (port_at ?n1 a)\<lparr>message_queue := q'\<rparr>),
      delegate_calls := delegate_calls ?n1 @
        map (\<lambda>m. ForwardMessage (peer_node_name (port_at ?n1 a)) (set_header_port_name (peer_port_name (port_at ?n1 a)) m)) ms\<rparr>)"
      "map GetSequenceNum ms = seq_from (mq_next_sequence_num q) (length ms)"
      "mset ms + pending q' = pending q" "mq_next_sequence_num q' = mq_next_sequence_num q + of_nat (length ms)"
      "\<not> HasNextMessage q'" by blast
    have "ForwardMessages_Locked a n = Inr (OK, n\<lparr>port_at := (port_at n)(a := ?p\<lparr>message_queue := q'\<rparr>),
      delegate_calls := delegate_calls n @
        map (\<lambda>m. ForwardMessage (peer_node_name ?p) (set_header_port_name (peer_port_name ?p) m)) (m # ms)\<rparr>)"
      unfolding f ih(1) by (simp add: forward_def modify_port_def)
    moreover have "mset (m # ms) + pending q' = pending (message_queue ?p)"
      using ih(3) s(3,8) by simp
    ultimately show ?thesis
      using ih(2,4,5) s(4,6) unfolding Let_def
      by (intro exI [of _ "m # ms"] exI [of _ q']) (simp add: algebra_simps)
  qed
qed

definition plain_message :: "uint64_t \<Rightarrow> Message" where
  "plain_message s = set_sequence_num s (NewUserMessage [] [ucast s])"

definition example_proxy :: Node where
  "example_proxy = modify_port 0 (\<lambda>p. p\<lparr>state := kProxying, peer_node_name := Name 9 9, peer_port_name := Name 5 5,
     message_queue := \<lparr>mq_heap = [plain_message 3, plain_message 4, plain_message 6],
       mq_next_sequence_num = 3, mq_signalable = True\<rparr>\<rparr>) example_node"

theorem proxy_forwards_in_order_witness:
  "\<exists>n'. ForwardMessages_Locked 0 example_proxy = Inr (OK, n') \<and>
     \<not> HasNextMessage (message_queue (port_at n' 0))"
proof -
  have "mq_inv (message_queue (port_at example_proxy 0))"
    by (simp add: example_proxy_def mq_inv_def) (code_simp)
  moreover have "\<forall>m \<in> set (mq_heap (message_queue (port_at example_proxy 0))). msg_ports m = [] \<and> GetSequenceNum m \<noteq> 0"
    by (simp add: example_proxy_def plain_message_def)
  ultimately show ?thesis
    using proxy_forwards_in_order [of example_proxy 0] unfolding Let_def by auto
qed

text \<open>Entries of the table that only a handler's own port can lose.\<close>

lemma ClosePorts_keeps_proxy:
  "map_of (ports n) nm = Some a \<Longrightarrow> state (port_at n a) = kProxying \<Longrightarrow>
     map_of (ports (ClosePorts nms n)) nm = Some a"
proof (induction nms n rule: ClosePorts.induct)
  case (2 x nms n)
  show ?case
  proof (cases "GetPort_Locked x n")
    case None
    then show ?thesis using "2.IH"(1) [OF None "2.prems"] by simp
  next
    case (Some b)
    obtain rv n' nms' where s: "ClosePort_step \<lparr>ref_name = x, ref_port = b\<rparr> n = (rv, n', nms')"
      by (metis prod_cases3)
    have "map_of (ports n') nm = Some a" "state (port_at n' a) = kProxying"
      using s Some "2.prems" by (auto simp: ClosePort_step_def GetPort_Locked_def Let_def split: if_splits)
    then show ?thesis using "2.IH"(2) [OF Some s [symmetric] refl] Some s by simp
  qed
qed simp

lemma MaybeRemoveProxy_erases:
  assumes "map_of (ports (MaybeRemoveProxy_Locked b x n)) nm \<noteq> map_of (ports n) nm"
  shows "nm = x" "remove_proxy_on_last_message (port_at n b)" "\<not> CanAcceptMoreMessages (port_at n b)"
  using assms by (auto simp: MaybeRemoveProxy_Locked_def Let_def split: if_splits option.splits)

lemma MaybeRemoveProxy_port [simp]: "port_at (MaybeRemoveProxy_Locked b x n) = port_at n"
  by (simp add: MaybeRemoveProxy_Locked_def Let_def split: option.splits)

text \<open>
  When a proxy leaves the table: through a message \<open>x\<close> addressed to itself, with its removal agreed, and nothing left
  to hand on.
\<close>

definition removal_due :: "PortName \<Rightarrow> PortName \<Rightarrow> nat \<Rightarrow> Node \<Rightarrow> bool" where
  "removal_due x nm a n \<longleftrightarrow> x = nm \<and> remove_proxy_on_last_message (port_at n a) \<and>
     last_sequence_num_to_receive (port_at n a) + 1 = next_sequence_num (message_queue (port_at n a))"

lemma MaybeRemoveProxy_due:
  assumes "map_of (ports n) nm = Some a" "map_of (ports n) x = Some b" "map_of (ports n3) nm = Some a" "map_of (ports n') nm \<noteq> Some a"
    and "n' = MaybeRemoveProxy_Locked b x n3 \<or> (\<exists>to mm. n' = forward to mm (MaybeRemoveProxy_Locked b x n3))"
  shows "removal_due x nm a n'"
proof -
  have p: "port_at n' = port_at n3" "map_of (ports (MaybeRemoveProxy_Locked b x n3)) nm \<noteq> map_of (ports n3) nm"
    using assms(3-5) by auto
  note e = MaybeRemoveProxy_erases [OF p(2)]
  have "b = a" using e(1) assms(1,2) by simp
  then show ?thesis
    using e p(1) by (auto simp: removal_due_def CanAcceptMoreMessages_def Let_def algebra_simps split: if_splits)
qed

lemma OnUserMessage_removal:
  assumes "node_inv n" "map_of (ports n) nm = Some a" "state (port_at n a) = kProxying"
    and "OnUserMessage m n = Inr (rv, n')" "map_of (ports n') nm \<noteq> Some a"
  shows "removal_due (header_port_name m) nm a n'"
proof -
  let ?x = "header_port_name m"
  from assms(4) obtain n1 where acc: "AcceptPorts (msg_ports m) (descriptors m) n = Inr n1"
    by (auto simp: OnUserMessage_def Let_def split: sum.splits)
  have "a < port_count n"
    using node_inv_D(3) [OF assms(1)] GetPort_Locked_registered [of nm n a] assms(2) by (simp add: GetPort_Locked_def)
  then have a1: "map_of (ports n1) nm = Some a" "state (port_at n1 a) = kProxying"
    using AcceptPorts_frame [OF acc] assms(2,3) by auto
  then have cl: "n' \<noteq> ClosePorts (msg_ports m) n1" using ClosePorts_keeps_proxy assms(5) by metis
  then obtain b q has where b: "map_of (ports n) ?x = Some b"
    "AcceptMessage_queue m (message_queue (port_at n1 b)) = (has, q)" "CanAcceptMoreMessages (port_at n1 b)"
    using assms(4) acc by (auto simp: OnUserMessage_def Let_def GetPort_Locked_def split: option.splits if_splits prod.splits)
  let ?n2 = "modify_port b (\<lambda>p. p\<lparr>message_queue := q\<rparr>) n1"
  have "\<exists>rv3 n3. ForwardMessages_Locked b ?n2 = Inr (rv3, n3) \<and> (n' = n3 \<or> n' = MaybeRemoveProxy_Locked b ?x n3)"
    using assms(4) acc b a1(1) assms(5) unfolding OnUserMessage_def Let_def GetPort_Locked_def
    by (auto split: if_splits sum.splits prod.splits)
  then obtain rv3 n3 where f: "ForwardMessages_Locked b ?n2 = Inr (rv3, n3)"
    "n' = n3 \<or> n' = MaybeRemoveProxy_Locked b ?x n3" by blast
  have "map_of (ports n3) nm = Some a" using ForwardMessages_frame [OF f(1)] a1(1) by simp
  then show ?thesis using MaybeRemoveProxy_due [OF assms(2) b(1) _ assms(5)] f(2) assms(5) by blast
qed

lemma OnPortAccepted_removal:
  assumes "map_of (ports n) nm = Some a" "OnPortAccepted x n = Inr (rv, n')" "map_of (ports n') nm \<noteq> Some a"
  shows "removal_due x nm a n'"
proof -
  from assms(2) obtain b where b: "map_of (ports n) x = Some b" "state (port_at n b) = kBuffering"
    by (auto simp: OnPortAccepted_def GetPort_Locked_def split: option.splits if_splits)
  let ?n1 = "modify_port b (\<lambda>p. p\<lparr>state := kProxying\<rparr>) n"
  from assms(2) b obtain rv2 n2 where f: "ForwardMessages_Locked b ?n1 = Inr (rv2, n2)"
    by (auto simp: OnPortAccepted_def GetPort_Locked_def split: if_splits sum.splits)
  have "map_of (ports n2) nm = Some a" using ForwardMessages_frame [OF f] assms(1) by simp
  moreover from this have "n' = n2 \<or> (\<exists>to mm. n' = forward to mm (MaybeRemoveProxy_Locked b x n2)) \<or>
      n' = InitiateProxyRemoval_Locked b x n2"
    using assms(2) b f by (auto simp: OnPortAccepted_def GetPort_Locked_def Let_def split: if_splits)
  ultimately show ?thesis
    using MaybeRemoveProxy_due [OF assms(1) b(1) _ assms(3)] assms(3) by (auto simp: InitiateProxyRemoval_Locked_def Let_def)
qed

lemma OnObserveProxyAck_removal:
  assumes "map_of (ports n) nm = Some a" "OnObserveProxyAck x s n = Inr (rv, n')" "map_of (ports n') nm \<noteq> Some a"
  shows "removal_due x nm a n'"
proof -
  obtain b where b: "map_of (ports n) x = Some b"
    using assms by (auto simp: OnObserveProxyAck_def GetPort_Locked_def split: option.splits)
  let ?n1 = "modify_port b (\<lambda>p. p\<lparr>remove_proxy_on_last_message := True, last_sequence_num_to_receive := s\<rparr>) n"
  have "n' = MaybeRemoveProxy_Locked b x ?n1"
    using assms b by (auto simp: OnObserveProxyAck_def GetPort_Locked_def InitiateProxyRemoval_Locked_def Let_def split: if_splits)
  then show ?thesis using MaybeRemoveProxy_due [OF assms(1) b _ assms(3), of ?n1] assms(1) by simp
qed

lemma OnObserveClosure_removal:
  assumes "map_of (ports n) nm = Some a" "OnObserveClosure x s n = (rv, n')" "map_of (ports n') nm \<noteq> Some a"
  shows "removal_due x nm a n'"
proof -
  obtain b where b: "map_of (ports n) x = Some b"
    using assms by (auto simp: OnObserveClosure_def GetPort_Locked_def split: option.splits)
  let ?n1 = "modify_port b (\<lambda>p. p\<lparr>remove_proxy_on_last_message := True\<rparr>)
    (modify_port b (\<lambda>p. p\<lparr>peer_closed := True, last_sequence_num_to_receive := s\<rparr>) n)"
  have "\<exists>to mm. n' = forward to mm (MaybeRemoveProxy_Locked b x ?n1)"
    using assms b unfolding OnObserveClosure_def GetPort_Locked_def Let_def by (auto split: if_splits)
  then show ?thesis using MaybeRemoveProxy_due [OF assms(1) b _ assms(3), of ?n1] assms(1) by simp
qed



section \<open>The removal of a proxy\<close>

text \<open>
  C14: One round of the removal protocol takes a caught-up proxy out of the ring.  Let \<open>x\<close> on node
  \<open>A\<close> send through the proxy \<open>p\<close> on node \<open>B\<close> to \<open>y\<close> on node \<open>C\<close>, whose peer is \<open>x\<close>.  The notice the proxy
  sends reaches \<open>y\<close>, which passes it on to \<open>x\<close>; \<open>x\<close> redirects itself to \<open>y\<close> and acknowledges with the
  last number it sent through the proxy; the proxy, having forwarded everything up to that number, is
  erased.  Afterwards \<open>x\<close> and \<open>y\<close> are each other's peer.
\<close>

theorem proxy_removal_round:
  fixes A B C :: Node
  assumes x: "map_of (ports A) xn = Some x" "state (port_at A x) = kReceiving"
      "peer_node_name (port_at A x) = node_name B" "peer_port_name (port_at A x) = pn"
    and p: "map_of (ports B) pn = Some p" "state (port_at B p) = kProxying"
      "peer_node_name (port_at B p) = node_name C" "peer_port_name (port_at B p) = yn"
      "send_on_proxy_removal (port_at B p) = None"
    and y: "map_of (ports C) yn = Some y" "peer_node_name (port_at C y) = node_name A"
      "peer_port_name (port_at C y) = xn" "(node_name A, xn) \<noteq> (node_name B, pn)"
    and caught_up: "next_sequence_num (message_queue (port_at B p)) = next_sequence_num_to_send (port_at A x)"
      "next_sequence_num_to_send (port_at A x) - 1 \<noteq> kInvalidSequenceNum"
  shows "\<exists>m1 m2 m3 A' B1 B' C'.
    InitiateProxyRemoval_Locked p pn B = B1 \<and> delegate_calls B1 = delegate_calls B @ [ForwardMessage (node_name C) m1] \<and>
    AcceptMessage m1 C = Inr (OK, C') \<and> delegate_calls C' = delegate_calls C @ [ForwardMessage (node_name A) m2] \<and>
    AcceptMessage m2 A = Inr (OK, A') \<and> delegate_calls A' = delegate_calls A @ [ForwardMessage (node_name B) m3] \<and>
    AcceptMessage m3 B1 = Inr (OK, B') \<and> map_of (ports B') pn = None \<and>
    peer_node_name (port_at A' x) = node_name C \<and> peer_port_name (port_at A' x) = yn \<and>
    next_sequence_num_to_send (port_at A' x) = next_sequence_num_to_send (port_at A x) \<and> port_at C' = port_at C"
proof -
  define ev where "ev = \<lparr>proxy_node_name = node_name B, proxy_port_name = pn,
    proxy_to_node_name = node_name C, proxy_to_port_name = yn\<rparr>"
  define m1 where "m1 = NewInternalMessage yn (ObserveProxy ev)"
  define m2 where "m2 = NewInternalMessage xn (ObserveProxy ev)"
  define m3 where "m3 = NewInternalMessage pn (ObserveProxyAck (next_sequence_num_to_send (port_at A x) - 1))"
  define B1 where "B1 = forward (node_name C) m1 B"
  define A' where "A' = forward (node_name B) m3
    (modify_port x (\<lambda>p. p\<lparr>peer_node_name := node_name C, peer_port_name := yn\<rparr>) A)"
  have b1: "InitiateProxyRemoval_Locked p pn B = B1"
    using p by (simp add: InitiateProxyRemoval_Locked_def B1_def m1_def ev_def Let_def)
  have c: "AcceptMessage m1 C = Inr (OK, forward (node_name A) m2 C)"
    using y by (auto simp: AcceptMessage_def OnObserveProxy_def m1_def m2_def ev_def GetPort_Locked_def Let_def)
  have a: "AcceptMessage m2 A = Inr (OK, A')"
    using x by (simp add: AcceptMessage_def OnObserveProxy_def m2_def m3_def ev_def A'_def GetPort_Locked_def Let_def)
  have "\<not> CanAcceptMoreMessages ((port_at B p)\<lparr>remove_proxy_on_last_message := True,
      last_sequence_num_to_receive := next_sequence_num_to_send (port_at A x) - 1\<rparr>)"
    using caught_up(1) by (simp add: CanAcceptMoreMessages_def Let_def)
  then obtain B' where b: "AcceptMessage m3 B1 = Inr (OK, B')" "map_of (ports B') pn = None"
    using p caught_up(2) by (simp add: AcceptMessage_def OnObserveProxyAck_def m3_def B1_def GetPort_Locked_def
        MaybeRemoveProxy_Locked_def Let_def)
  show ?thesis
    using b1 c a b by (intro exI [of _ m1] exI [of _ m2] exI [of _ m3] exI [of _ A'] exI [of _ B1] exI [of _ B']
        exI [of _ "forward (node_name A) m2 C"]) (simp add: B1_def A'_def)
qed

definition one_port_node :: "NodeName \<Rightarrow> PortName \<Rightarrow> Port \<Rightarrow> Node" where
  "one_port_node nd nm p = (Node_init nd example_names)\<lparr>ports := [(nm, 0)], port_count := 1, port_at := (\<lambda>_. p)\<rparr>"

definition ring_port :: "PortState \<Rightarrow> uint64_t \<Rightarrow> uint64_t \<Rightarrow> NodeName \<Rightarrow> PortName \<Rightarrow> Port" where
  "ring_port st s r nd nm = (Port_init s r)\<lparr>state := st, peer_node_name := nd, peer_port_name := nm\<rparr>"

theorem proxy_removal_round_witness:
  "\<exists>m3 B'. AcceptMessage m3
       (InitiateProxyRemoval_Locked 0 (Name 2 7)
          (one_port_node (Name 2 2) (Name 2 7) (ring_port kProxying 1 5 (Name 3 3) (Name 3 7)))) = Inr (OK, B') \<and>
     map_of (ports B') (Name 2 7) = None"
proof -
  let ?A = "one_port_node (Name 1 1) (Name 1 7) (ring_port kReceiving 5 1 (Name 2 2) (Name 2 7))"
  let ?B = "one_port_node (Name 2 2) (Name 2 7) (ring_port kProxying 1 5 (Name 3 3) (Name 3 7))"
  let ?C = "one_port_node (Name 3 3) (Name 3 7) (ring_port kReceiving 1 1 (Name 1 1) (Name 1 7))"
  note simps = one_port_node_def ring_port_def Node_init_def Port_init_def MessageQueue_init_def
    next_sequence_num_def kInvalidSequenceNum_def
  show ?thesis
    using proxy_removal_round [of ?A "Name 1 7" 0 ?B "Name 2 7" 0 ?C "Name 3 7" 0] by (auto simp: simps)
qed

section \<open>Shutting down\<close>

text \<open>
  A node may shut down cleanly with local ports allowed exactly when every port whose peer lives on
  another node is a receiving one, so that no proxy between nodes is cut; without that permission
  exactly when it has no ports.
\<close>

theorem CanShutdownCleanly_iff:
  assumes "node_inv n"
  shows "CanShutdownCleanly local n \<longleftrightarrow>
    (if local then \<forall>nm a. map_of (ports n) nm = Some a \<longrightarrow> peer_node_name (port_at n a) \<noteq> node_name n \<longrightarrow>
       state (port_at n a) = kReceiving
     else \<forall>nm. map_of (ports n) nm = None)"
proof -
  note iff = map_of_eq_Some_iff [OF node_inv_D(1) [OF assms]]
  have "(\<forall>nm. map_of (ports n) nm = None) \<longleftrightarrow> ports n = []"
    using map_of_eq_empty_iff [of "ports n"] by (metis ext)
  then show ?thesis unfolding CanShutdownCleanly_def iff list_ex_iff by (cases local) (simp, fastforce, simp)
qed

theorem CanShutdownCleanly_iff_witness:
  "case example_remote of (r, n) \<Rightarrow> \<not> CanShutdownCleanly False n"
proof -
  obtain r n where e: "example_remote = (r, n)" by fastforce
  show ?thesis using CanShutdownCleanly_iff [OF example_remote_facts(1) [OF e], of False] example_remote_facts(2) [OF e]
    unfolding e prod.case by (metis option.distinct(1))
qed

end
