(* ===== verification/Node_Channel.thy ===== *)
theory Node_Channel
  imports Channel
begin

text \<open>
  The node channel (\<open>node_channel.h\<close>, \<open>node_channel.cc\<close>): the messages nodes exchange over a channel,
  their encoding, and the decoding that calls the node controller.  The relay of handles on
  Windows is in \<open>Win_Relay\<close>.  Tokens are strings of bytes.
\<close>

section \<open>Message types\<close>

datatype MessageType = ACCEPT_CHILD | ACCEPT_PARENT | PORTS_MESSAGE | REQUEST_PORT_CONNECTION
  | CONNECT_TO_PORT | REQUEST_INTRODUCTION | INTRODUCE

fun type_code :: "MessageType \<Rightarrow> uint32_t" where
  "type_code ACCEPT_CHILD = 0"
| "type_code ACCEPT_PARENT = 1"
| "type_code PORTS_MESSAGE = 2"
| "type_code REQUEST_PORT_CONNECTION = 3"
| "type_code CONNECT_TO_PORT = 4"
| "type_code REQUEST_INTRODUCTION = 5"
| "type_code INTRODUCE = 6"

text \<open>The calls a node channel makes on its delegate, the node controller.\<close>

datatype 'h controller_call =
    OnAcceptChild NodeName NodeName NodeName
  | OnAcceptParent NodeName NodeName NodeName
  | OnPortsMessage "'h ChannelMessage"
  | OnRequestPortConnection NodeName PortName "uint8_t list"
  | OnConnectToPort NodeName PortName PortName
  | OnRequestIntroduction NodeName NodeName
  | OnIntroduce NodeName NodeName "'h option"
  | OnChannelError NodeName

section \<open>Creating messages\<close>

definition CreateMessage :: "MessageType \<Rightarrow> uint8_t list \<Rightarrow> nat \<Rightarrow> 'h ChannelMessage" where
  "CreateMessage type data n = ChannelMessage_new (write_u32 (type_code type) @ write_u32 0 @ data) n"

definition CreatePortsMessage :: "uint8_t list \<Rightarrow> nat \<Rightarrow> 'h ChannelMessage" where
  "CreatePortsMessage data n = CreateMessage PORTS_MESSAGE data n"

definition GetPortsMessageData :: "'h ChannelMessage \<Rightarrow> uint8_t list" where
  "GetPortsMessageData m = drop 8 (cm_payload m)"

record 'h NodeChannel =
  channel_open :: bool
  remote_node_name :: NodeName
  nc_written :: "'h ChannelMessage list"

definition NodeChannel_Create :: "'h NodeChannel" where
  "NodeChannel_Create = \<lparr>channel_open = True, remote_node_name = kInvalidNodeName, nc_written = []\<rparr>"

definition SetRemoteNodeName :: "NodeName \<Rightarrow> 'h NodeChannel \<Rightarrow> 'h NodeChannel" where
  "SetRemoteNodeName nm c = c\<lparr>remote_node_name := nm\<rparr>"

definition NodeChannel_ShutDown :: "'h NodeChannel \<Rightarrow> 'h NodeChannel" where
  "NodeChannel_ShutDown c = c\<lparr>channel_open := False\<rparr>"

definition WriteChannelMessage :: "'h ChannelMessage \<Rightarrow> 'h NodeChannel \<Rightarrow> 'h NodeChannel" where
  "WriteChannelMessage m c = (if \<not> channel_open c then c else c\<lparr>nc_written := nc_written c @ [m]\<rparr>)"

definition AcceptChild :: "NodeName \<Rightarrow> NodeName \<Rightarrow> 'h NodeChannel \<Rightarrow> 'h NodeChannel" where
  "AcceptChild parent_name token =
     WriteChannelMessage (CreateMessage ACCEPT_CHILD (write_Name parent_name @ write_Name token) 0)"

definition AcceptParent :: "NodeName \<Rightarrow> NodeName \<Rightarrow> 'h NodeChannel \<Rightarrow> 'h NodeChannel" where
  "AcceptParent token child_name =
     WriteChannelMessage (CreateMessage ACCEPT_PARENT (write_Name token @ write_Name child_name) 0)"

definition PortsMessage_write :: "'h ChannelMessage \<Rightarrow> 'h NodeChannel \<Rightarrow> 'h NodeChannel" where
  "PortsMessage_write m = WriteChannelMessage m"

definition RequestPortConnection :: "PortName \<Rightarrow> uint8_t list \<Rightarrow> 'h NodeChannel \<Rightarrow> 'h NodeChannel" where
  "RequestPortConnection connector_port_name token =
     WriteChannelMessage (CreateMessage REQUEST_PORT_CONNECTION (write_Name connector_port_name @ token) 0)"

definition ConnectToPort :: "PortName \<Rightarrow> PortName \<Rightarrow> 'h NodeChannel \<Rightarrow> 'h NodeChannel" where
  "ConnectToPort connector_port_name connectee_port_name =
     WriteChannelMessage (CreateMessage CONNECT_TO_PORT (write_Name connector_port_name @ write_Name connectee_port_name) 0)"

definition RequestIntroduction :: "NodeName \<Rightarrow> 'h NodeChannel \<Rightarrow> 'h NodeChannel" where
  "RequestIntroduction nm = WriteChannelMessage (CreateMessage REQUEST_INTRODUCTION (write_Name nm) 0)"

text \<open>\<open>None\<close> is the invalid platform handle.\<close>

definition Introduce :: "NodeName \<Rightarrow> 'h option \<Rightarrow> 'h NodeChannel \<Rightarrow> fault + 'h NodeChannel" where
  "Introduce nm handle c =
     (let handles = (case handle of Some h \<Rightarrow> Some [h] | None \<Rightarrow> None);
          m = CreateMessage INTRODUCE (write_Name nm) (if handles \<noteq> None then 1 else 0)
      in case SetHandles handles m of Inl f \<Rightarrow> Inl f | Inr m' \<Rightarrow> Inr (WriteChannelMessage m' c))"

section \<open>Receiving messages\<close>

text \<open>
  \<open>NodeChannel::OnChannelMessage\<close>.  The payload is a null pointer when it is empty, and the structures are
  read in place without comparing their size with \<open>payload_size\<close>; only the token's length is computed
  from it, in unsigned arithmetic, and a string of a length that wrapped around cannot be built.
\<close>

definition need :: "nat \<Rightarrow> uint8_t list \<Rightarrow> 'a \<Rightarrow> fault + 'a" where
  "need n payload x = (if length payload < n then Inl OutOfBounds else Inr x)"

definition OnChannelMessage :: "uint8_t list \<Rightarrow> 'h list \<Rightarrow> 'h NodeChannel \<Rightarrow> fault + 'h controller_call" where
  "OnChannelMessage payload handles c =
     (if payload = [] then Inl NullPointer
      else if length payload < 4 then Inl OutOfBounds
      else let type = read_u32 payload; from = remote_node_name c; data = drop 8 payload
           in if type = type_code ACCEPT_CHILD
              then need 40 payload (OnAcceptChild from (read_Name data) (read_Name (drop 16 data)))
              else if type = type_code ACCEPT_PARENT
              then need 40 payload (OnAcceptParent from (read_Name data) (read_Name (drop 16 data)))
              else if type = type_code PORTS_MESSAGE
              then (case SetHandles (if handles = [] then None else Some handles)
                           (ChannelMessage_new payload (length handles)) of
                      Inl f \<Rightarrow> Inl f
                    | Inr m \<Rightarrow> Inr (OnPortsMessage m))
              else if type = type_code REQUEST_PORT_CONNECTION
              then need 24 payload (OnRequestPortConnection from (read_Name data) (drop 16 data))
              else if type = type_code CONNECT_TO_PORT
              then need 40 payload (OnConnectToPort from (read_Name data) (read_Name (drop 16 data)))
              else if type = type_code REQUEST_INTRODUCTION
              then need 24 payload (OnRequestIntroduction from (read_Name data))
              else if type = type_code INTRODUCE
              then need 24 payload (OnIntroduce from (read_Name data)
                     (case handles of [] \<Rightarrow> None | h # _ \<Rightarrow> Some h))
              else Inr (OnChannelError from))"

definition NodeChannel_OnChannelError :: "'h NodeChannel \<Rightarrow> 'h NodeChannel \<times> 'h controller_call" where
  "NodeChannel_OnChannelError c = (NodeChannel_ShutDown c, OnChannelError (remote_node_name c))"

section \<open>Round trip\<close>

text \<open>What a receiver that knows the sender as \<open>from\<close> does with one written message.\<close>

definition deliver :: "NodeName \<Rightarrow> 'h ChannelMessage \<Rightarrow> fault + 'h controller_call" where
  "deliver from m = OnChannelMessage (cm_payload m) (case handle_vector m of Some hs \<Rightarrow> hs | None \<Rightarrow> [])
     (SetRemoteNodeName from NodeChannel_Create)"

lemma type_code_inject [simp]: "type_code a = type_code b \<longleftrightarrow> a = b"
  by (cases a; cases b) simp_all

lemma CreateMessage_payload:
  "cm_payload (CreateMessage t data n) = write_u32 (type_code t) @ write_u32 0 @ data"
  "handle_vector (CreateMessage t data n) = None" "num_handles (cm_header (CreateMessage t data n)) = of_nat n"
  by (simp_all add: CreateMessage_def ChannelMessage_new_def)

lemma CreateMessage_read:
  "read_u32 (cm_payload (CreateMessage t data n)) = type_code t" "drop 8 (cm_payload (CreateMessage t data n)) = data"
  "length (cm_payload (CreateMessage t data n)) = length data + 8" "cm_payload (CreateMessage t data n) \<noteq> []"
  unfolding CreateMessage_payload by (simp_all add: layout_simps) (metis length_0_conv u32.enc_length zero_neq_numeral)

lemma write_open: "channel_open c \<Longrightarrow> nc_written (WriteChannelMessage m c) = nc_written c @ [m]"
  by (simp add: WriteChannelMessage_def)

text \<open>
  C29: Every request one node sends another over an open channel arrives as the corresponding call on the
  receiver's controller with the same arguments: the encodings and the decoder of the node channel agree.
\<close>

theorem node_channel_roundtrip:
  assumes "channel_open c"
  shows "deliver from (last (nc_written (AcceptChild p t c))) = Inr (OnAcceptChild from p t) \<and>
    deliver from (last (nc_written (AcceptParent t p c))) = Inr (OnAcceptParent from t p) \<and>
    deliver from (last (nc_written (RequestPortConnection p token c))) = Inr (OnRequestPortConnection from p token) \<and>
    deliver from (last (nc_written (ConnectToPort p q c))) = Inr (OnConnectToPort from p q) \<and>
    deliver from (last (nc_written (RequestIntroduction p c))) = Inr (OnRequestIntroduction from p) \<and>
    (\<exists>c'. Introduce p h c = Inr c' \<and> deliver from (last (nc_written c')) = Inr (OnIntroduce from p h))"
proof -
  note simps = write_open [OF assms] deliver_def OnChannelMessage_def CreateMessage_read CreateMessage_payload(2)
    need_def layout_simps SetRemoteNodeName_def name.dec_enc [of _ "[]", simplified] Let_def
  have "deliver from (last (nc_written (AcceptChild p t c))) = Inr (OnAcceptChild from p t)"
    by (simp add: AcceptChild_def simps)
  moreover have "deliver from (last (nc_written (AcceptParent t p c))) = Inr (OnAcceptParent from t p)"
    by (simp add: AcceptParent_def simps)
  moreover have "deliver from (last (nc_written (RequestPortConnection p token c))) = Inr (OnRequestPortConnection from p token)"
    by (simp add: RequestPortConnection_def simps)
  moreover have "deliver from (last (nc_written (ConnectToPort p q c))) = Inr (OnConnectToPort from p q)"
    by (simp add: ConnectToPort_def simps)
  moreover have "deliver from (last (nc_written (RequestIntroduction p c))) = Inr (OnRequestIntroduction from p)"
    by (simp add: RequestIntroduction_def simps)
  moreover have "\<exists>c'. Introduce p h c = Inr c' \<and> deliver from (last (nc_written c')) = Inr (OnIntroduce from p h)"
    by (cases h) (simp_all add: Introduce_def SetHandles_def simps CreateMessage_payload(3))
  ultimately show ?thesis by blast
qed

theorem node_channel_roundtrip_witness:
  "deliver (Name 1 2) (last (nc_written (RequestPortConnection (Name 3 4) [65, 66] (NodeChannel_Create :: bool NodeChannel)))) =
     Inr (OnRequestPortConnection (Name 1 2) (Name 3 4) [65, 66])"
  using node_channel_roundtrip [of "NodeChannel_Create :: bool NodeChannel"] by (simp add: NodeChannel_Create_def)

lemma ports_message_deliver:
  assumes "SetHandles hs (CreatePortsMessage data (case hs of Some xs \<Rightarrow> length xs | None \<Rightarrow> 0)) = Inr m"
    and "length (case hs of Some xs \<Rightarrow> xs | None \<Rightarrow> []) < 2 ^ 16"
  shows "\<exists>m'. deliver from m = Inr (OnPortsMessage m') \<and> GetPortsMessageData m' = data \<and>
    (case handle_vector m' of Some xs \<Rightarrow> xs | None \<Rightarrow> []) = (case hs of Some xs \<Rightarrow> xs | None \<Rightarrow> [])"
proof -
  let ?xs = "case hs of Some xs \<Rightarrow> xs | None \<Rightarrow> []"
  have m: "cm_payload m = write_u32 (type_code PORTS_MESSAGE) @ write_u32 0 @ data"
    "(case handle_vector m of Some xs \<Rightarrow> xs | None \<Rightarrow> []) = ?xs"
    using assms(1) by (auto simp: SetHandles_def CreatePortsMessage_def CreateMessage_def ChannelMessage_new_def
        split: if_splits option.splits)
  have n: "unat (of_nat (length ?xs) :: uint16_t) = length ?xs" using assms(2) by (simp add: unat_of_nat)
  have z: "(of_nat (length ?xs) :: uint16_t) = 0 \<longleftrightarrow> ?xs = []" using n by (metis length_0_conv unat_eq_zero)
  have p: "cm_payload m \<noteq> []" "\<not> length (cm_payload m) < 4" "read_u32 (cm_payload m) = type_code PORTS_MESSAGE"
    unfolding m(1) by (simp_all add: layout_simps) (metis length_0_conv u32.enc_length zero_neq_numeral)
  have d: "drop 8 (cm_payload m) = data" unfolding m(1) by (simp add: layout_simps)
  show ?thesis
    using p n z d by (cases "?xs = []")
      (simp_all add: deliver_def OnChannelMessage_def SetHandles_def ChannelMessage_new_def GetPortsMessageData_def m(2) Let_def)
qed

text \<open>
  A ports message that is sent with its handles is delivered to the controller with the same handles
  and the same data.
\<close>

theorem ports_message_roundtrip:
  assumes "SetHandles hs (CreatePortsMessage data (case hs of Some xs \<Rightarrow> length xs | None \<Rightarrow> 0)) = Inr m"
    and "length (case hs of Some xs \<Rightarrow> xs | None \<Rightarrow> []) < 2 ^ 16"
  shows "\<exists>m'. deliver from m = Inr (OnPortsMessage m') \<and> GetPortsMessageData m' = data \<and>
    (case handle_vector m' of Some xs \<Rightarrow> xs | None \<Rightarrow> []) = (case hs of Some xs \<Rightarrow> xs | None \<Rightarrow> [])"
  using ports_message_deliver [OF assms] .

theorem ports_message_roundtrip_witness:
  "case SetHandles (Some [True]) (CreatePortsMessage [1, 2, 3] 1) of
     Inl _ \<Rightarrow> False
   | Inr m \<Rightarrow> (\<exists>m'. deliver (Name 1 2) m = Inr (OnPortsMessage m') \<and> GetPortsMessageData m' = [1, 2, 3])"
proof -
  obtain m where m: "SetHandles (Some [True]) (CreatePortsMessage [1, 2, 3] 1) = Inr m"
    by (simp add: SetHandles_def CreatePortsMessage_def CreateMessage_def ChannelMessage_new_def)
  then show ?thesis using ports_message_roundtrip [of "Some [True]" "[1, 2, 3]" m "Name 1 2"] by auto
qed

text \<open>
  The decoder trusts its peer: an empty message makes it dereference a null pointer, and a known
  request shorter than its structure is read beyond its end.
\<close>

theorem OnChannelMessage_short:
  "OnChannelMessage [] hs c = Inl NullPointer \<and>
   (\<forall>t data. t \<in> {ACCEPT_CHILD, ACCEPT_PARENT, CONNECT_TO_PORT} \<longrightarrow> length data < 32 \<longrightarrow>
      OnChannelMessage (write_u32 (type_code t) @ write_u32 0 @ data) hs c = Inl OutOfBounds)"
proof -
  have "OnChannelMessage (write_u32 (type_code t) @ write_u32 0 @ data) hs c = Inl OutOfBounds"
    if "t \<in> {ACCEPT_CHILD, ACCEPT_PARENT, CONNECT_TO_PORT}" "length data < 32" for t data
  proof -
    have "write_u32 (type_code t) @ write_u32 0 @ data \<noteq> []"
      by (metis CreateMessage_payload(1) CreateMessage_read(4))
    then show ?thesis using that by (auto simp: OnChannelMessage_def layout_simps need_def Let_def)
  qed
  then show ?thesis by (simp add: OnChannelMessage_def)
qed

theorem OnChannelMessage_short_witness:
  "OnChannelMessage (write_u32 (type_code ACCEPT_CHILD) @ write_u32 0 @ [1]) ([] :: bool list) NodeChannel_Create = Inl OutOfBounds"
  using OnChannelMessage_short [of "[] :: bool list" NodeChannel_Create] by simp

end
