(* ===== verification/Ports_Wire.thy ===== *)
theory Ports_Wire
  imports Byte_Layout
begin

text \<open>
  The bytes of a ports message (\<open>ports/event.h\<close>, \<open>ports/message.h\<close>, \<open>ports/message.cc\<close>): storage is
  \<open>[header][ports][payload]\<close>, where the header is an \<open>EventHeader\<close> followed by the data of the event
  and, for a user message, one descriptor per port.
\<close>

section \<open>Structures\<close>

definition sizeof_EventHeader :: nat where "sizeof_EventHeader = 24"
definition sizeof_UserEventData :: nat where "sizeof_UserEventData = 16"
definition sizeof_PortDescriptor :: nat where "sizeof_PortDescriptor = 96"
definition sizeof_ObserveProxyEventData :: nat where "sizeof_ObserveProxyEventData = 64"
definition sizeof_ObserveProxyAckEventData :: nat where "sizeof_ObserveProxyAckEventData = 8"
definition sizeof_ObserveClosureEventData :: nat where "sizeof_ObserveClosureEventData = 8"
definition sizeof_PortName :: nat where "sizeof_PortName = 16"

lemmas sizeof_defs = sizeof_EventHeader_def sizeof_UserEventData_def sizeof_PortDescriptor_def
  sizeof_ObserveProxyEventData_def sizeof_ObserveProxyAckEventData_def
  sizeof_ObserveClosureEventData_def sizeof_PortName_def

definition write_PortDescriptor :: "PortDescriptor \<Rightarrow> uint8_t list" where
  "write_PortDescriptor d =
     write_Name (pd_peer_node_name d) @ write_Name (pd_peer_port_name d) @
     write_Name (pd_referring_node_name d) @ write_Name (pd_referring_port_name d) @
     write_u64 (pd_next_sequence_num_to_send d) @ write_u64 (pd_next_sequence_num_to_receive d) @
     write_u64 (pd_last_sequence_num_to_receive d) @ (if pd_peer_closed d then 1 else 0) # replicate 7 0"

definition read_PortDescriptor :: "uint8_t list \<Rightarrow> PortDescriptor" where
  "read_PortDescriptor bs =
     \<lparr>pd_peer_node_name = read_Name bs, pd_peer_port_name = read_Name (drop 16 bs),
      pd_referring_node_name = read_Name (drop 32 bs), pd_referring_port_name = read_Name (drop 48 bs),
      pd_next_sequence_num_to_send = read_u64 (drop 64 bs),
      pd_next_sequence_num_to_receive = read_u64 (drop 72 bs),
      pd_last_sequence_num_to_receive = read_u64 (drop 80 bs), pd_peer_closed = (drop 88 bs ! 0 \<noteq> 0)\<rparr>"

interpretation descriptor: codec write_PortDescriptor read_PortDescriptor 96
  by unfold_locales (simp_all add: write_PortDescriptor_def read_PortDescriptor_def layout_simps)

definition write_ObserveProxyEventData :: "ObserveProxyEventData \<Rightarrow> uint8_t list" where
  "write_ObserveProxyEventData e =
     write_Name (proxy_node_name e) @ write_Name (proxy_port_name e) @
     write_Name (proxy_to_node_name e) @ write_Name (proxy_to_port_name e)"

definition read_ObserveProxyEventData :: "uint8_t list \<Rightarrow> ObserveProxyEventData" where
  "read_ObserveProxyEventData bs =
     \<lparr>proxy_node_name = read_Name bs, proxy_port_name = read_Name (drop 16 bs),
      proxy_to_node_name = read_Name (drop 32 bs), proxy_to_port_name = read_Name (drop 48 bs)\<rparr>"

interpretation observe_proxy: codec write_ObserveProxyEventData read_ObserveProxyEventData 64
  by unfold_locales (simp_all add: write_ObserveProxyEventData_def read_ObserveProxyEventData_def layout_simps)

section \<open>Messages\<close>

fun event_code :: "EventType \<Rightarrow> uint32_t" where
  "event_code kUser = 0"
| "event_code kPortAccepted = 1"
| "event_code kObserveProxy = 2"
| "event_code kObserveProxyAck = 3"
| "event_code kObserveClosure = 4"

definition write_EventHeader :: "EventType \<Rightarrow> PortName \<Rightarrow> uint8_t list" where
  "write_EventHeader type port_name = write_u32 (event_code type) @ write_u32 0 @ write_Name port_name"

definition write_EventData :: "EventData \<Rightarrow> uint8_t list" where
  "write_EventData e =
     (case e of
        UserEvent s ds \<Rightarrow> write_u64 s @ write_u32 (of_nat (length ds)) @ write_u32 0 @ write_array write_PortDescriptor ds
      | PortAccepted \<Rightarrow> []
      | ObserveProxy d \<Rightarrow> write_ObserveProxyEventData d
      | ObserveProxyAck s \<Rightarrow> write_u64 s
      | ObserveClosure s \<Rightarrow> write_u64 s)"

definition write_Message :: "Message \<Rightarrow> uint8_t list" where
  "write_Message m =
     write_EventHeader (event_type (event_data m)) (header_port_name m) @ write_EventData (event_data m) @
     write_array write_Name (msg_ports m) @ msg_payload m"

text \<open>
  \<open>Message::Parse\<close>, with the sizes computed in \<open>size_t\<close>: header, payload, ports.  It reads the type of
  the event and, for a user event, the number of ports, without comparing anything with \<open>num_bytes\<close>.
\<close>

definition Parse :: "uint8_t list \<Rightarrow> size_t \<Rightarrow> fault + size_t \<times> size_t \<times> size_t" where
  "Parse bytes num_bytes =
     (if length bytes < 4 then Inl OutOfBounds
      else let type = read_u32 bytes
           in if type = event_code kUser
              then if length bytes < 36 then Inl OutOfBounds
                   else let num_ports = read_u32 (drop 32 bytes);
                            num_header_bytes = of_nat sizeof_EventHeader + of_nat sizeof_UserEventData +
                              ucast num_ports * of_nat sizeof_PortDescriptor;
                            num_ports_bytes = ucast num_ports * of_nat sizeof_PortName
                        in Inr (num_header_bytes, num_bytes - num_header_bytes - num_ports_bytes, num_ports_bytes)
              else if type = event_code kPortAccepted then Inr (of_nat sizeof_EventHeader, 0, 0)
              else if type = event_code kObserveProxy
              then Inr (of_nat sizeof_EventHeader + of_nat sizeof_ObserveProxyEventData, 0, 0)
              else if type = event_code kObserveProxyAck
              then Inr (of_nat sizeof_EventHeader + of_nat sizeof_ObserveProxyAckEventData, 0, 0)
              else if type = event_code kObserveClosure
              then Inr (of_nat sizeof_EventHeader + of_nat sizeof_ObserveClosureEventData, 0, 0)
              else Inl CheckFailure)"

text \<open>The accessors of \<open>event.h\<close> and \<open>message.h\<close>: pointers into the storage at the offsets of the sections.\<close>

definition GetEventHeader :: "uint8_t list \<Rightarrow> uint32_t \<times> PortName" where
  "GetEventHeader bytes = (read_u32 bytes, read_Name (drop 8 bytes))"

definition GetEventData :: "(uint8_t list \<Rightarrow> 'e) \<Rightarrow> uint8_t list \<Rightarrow> 'e" where
  "GetEventData read bytes = read (drop sizeof_EventHeader bytes)"

definition GetPortDescriptors :: "nat \<Rightarrow> uint8_t list \<Rightarrow> PortDescriptor list" where
  "GetPortDescriptors n bytes =
     read_array read_PortDescriptor sizeof_PortDescriptor n
       (drop sizeof_UserEventData (drop sizeof_EventHeader bytes))"

text \<open>The message that the handlers of a node see in a received buffer.\<close>

definition read_Message :: "uint8_t list \<Rightarrow> fault + Message" where
  "read_Message bytes =
     (case Parse bytes (of_nat (length bytes)) of
        Inl f \<Rightarrow> Inl f
      | Inr (num_header_bytes, num_payload_bytes, num_ports_bytes) \<Rightarrow>
          if length bytes < unat num_header_bytes + unat num_ports_bytes then Inl OutOfBounds
          else let num_ports = unat (num_ports_bytes div of_nat sizeof_PortName);
                   (type, port_name) = GetEventHeader bytes;
                   event =
                     (if type = event_code kUser
                      then UserEvent (GetEventData read_u64 bytes) (GetPortDescriptors num_ports bytes)
                      else if type = event_code kPortAccepted then PortAccepted
                      else if type = event_code kObserveProxy
                      then ObserveProxy (GetEventData read_ObserveProxyEventData bytes)
                      else if type = event_code kObserveProxyAck then ObserveProxyAck (GetEventData read_u64 bytes)
                      else ObserveClosure (GetEventData read_u64 bytes))
               in Inr \<lparr>header_port_name = port_name, event_data = event,
                       msg_ports = read_array read_Name sizeof_PortName num_ports (drop (unat num_header_bytes) bytes),
                       msg_payload = take (unat num_payload_bytes)
                         (drop (unat num_header_bytes + unat num_ports_bytes) bytes), msg_handles = []\<rparr>)"

section \<open>Round trip\<close>

definition wire_ok :: "Message \<Rightarrow> bool" where
  "wire_ok m \<longleftrightarrow> (if is_user m then length (ev_descriptors (event_data m)) = length (msg_ports m)
     else msg_ports m = [] \<and> msg_payload m = []) \<and>
     length (msg_ports m) < 2 ^ 32 \<and> length (write_Message m) < 2 ^ 64"

lemma event_code_inject [simp]: "event_code a = event_code b \<longleftrightarrow> a = b"
  by (cases a; cases b) simp_all

lemma wire_header:
  assumes "bytes = write_EventHeader t nm @ rest"
  shows "read_u32 bytes = event_code t" "GetEventHeader bytes = (event_code t, nm)" "drop 24 bytes = rest"
    "24 \<le> length bytes"
  using assms by (simp_all add: write_EventHeader_def GetEventHeader_def layout_simps)

lemma read_Message_internal:
  assumes "wire_ok m" "\<not> is_user m"
  shows "read_Message (write_Message m) = Inr (m\<lparr>msg_handles := []\<rparr>)"
proof -
  let ?b = "write_Message m"
  have e: "?b = write_EventHeader (event_type (event_data m)) (header_port_name m) @ write_EventData (event_data m)"
    and p: "msg_ports m = []" "msg_payload m = []"
    using assms by (simp_all add: wire_ok_def write_Message_def write_array_def)
  note h = wire_header [OF e]
  have l: "\<not> length ?b < 4" using h(4) by simp
  have len: "length ?b = 24 + length (write_EventData (event_data m))"
    by (simp add: e write_EventHeader_def layout_simps)
  show ?thesis
    using assms(2) p h l len
    by (cases "event_data m")
      (simp_all add: is_user_def read_Message_def Parse_def Let_def sizeof_defs GetEventData_def write_EventData_def
        read_array_def observe_proxy.enc_length layout_simps
        observe_proxy.dec_enc [of _ "[]", simplified] u64.dec_enc [of _ "[]", simplified])
qed

lemma ucast_of_nat_32: "k < 2 ^ 32 \<Longrightarrow> ucast (of_nat k :: uint32_t) = (of_nat k :: size_t)"
  by (rule word_unat_eq_iff [THEN iffD2]) (simp add: unsigned_ucast_eq take_bit_eq_mod unat_of_nat)

lemma read_Message_user:
  assumes "wire_ok m" "event_data m = UserEvent s ds"
  shows "read_Message (write_Message m) = Inr (m\<lparr>msg_handles := []\<rparr>)"
proof -
  let ?b = "write_Message m" and ?k = "length (msg_ports m)"
  let ?tail = "write_array write_Name (msg_ports m) @ msg_payload m"
  have ds: "length ds = ?k" and k: "?k < 2 ^ 32" and len64: "length ?b < 2 ^ 64"
    using assms by (simp_all add: wire_ok_def is_user_def)
  have e: "?b = write_EventHeader kUser (header_port_name m) @
      write_u64 s @ write_u32 (of_nat ?k) @ write_u32 0 @ write_array write_PortDescriptor ds @ ?tail"
    using assms(2) ds by (simp add: write_Message_def write_EventData_def)
  note h = wire_header [OF e]
  have len: "length ?b = 40 + ?k * 96 + ?k * 16 + length (msg_payload m)"
    by (simp add: e write_EventHeader_def layout_simps descriptor.array_length name.array_length ds)
  have d32: "drop 32 ?b = write_u32 (of_nat ?k) @ write_u32 0 @ write_array write_PortDescriptor ds @ ?tail"
    using h(3) by (simp add: e write_EventHeader_def layout_simps)
  have d40: "drop 40 ?b = write_array write_PortDescriptor ds @ ?tail"
    by (simp add: e write_EventHeader_def layout_simps)
  have hdr: "drop (40 + ?k * 96) ?b = ?tail"
    by (simp add: e write_EventHeader_def layout_simps descriptor.array_length ds)
  have pay: "drop (40 + ?k * 96 + ?k * 16) ?b = msg_payload m"
    by (simp add: e write_EventHeader_def layout_simps descriptor.array_length name.array_length ds)
  define H P :: size_t where "H = 24 + 16 + ucast (of_nat ?k :: uint32_t) * 96" and "P = ucast (of_nat ?k :: uint32_t) * 16"
  have HP: "H = of_nat (40 + ?k * 96)" "P = of_nat (?k * 16)"
    using ucast_of_nat_32 [OF k] by (simp_all add: H_def P_def)
  define Z :: size_t where "Z = of_nat (length ?b) - H - P"
  have Z: "Z = of_nat (length (msg_payload m))"
    unfolding Z_def HP len by simp
  have un: "unat H = 40 + ?k * 96" "unat P = ?k * 16" "unat Z = length (msg_payload m)"
    unfolding Z HP using len len64 by (simp_all add: unat_of_nat del: of_nat_add of_nat_mult)
  have PD: "unat (P div 16) = ?k" using un(2) by (simp add: unat_div_distrib)
  have parse: "Parse ?b (of_nat (length ?b)) = Inr (H, Z, P)"
    using h(1) len by (simp add: Parse_def Let_def sizeof_defs d32 layout_simps H_def P_def Z_def)
  have m: "\<lparr>header_port_name = header_port_name m, event_data = UserEvent s ds, msg_ports = msg_ports m,
      msg_payload = msg_payload m, msg_handles = []\<rparr> = m\<lparr>msg_handles := []\<rparr>" using assms(2) by (cases m) simp
  show ?thesis
    using h(2,3) len d40 ds pay hdr unfolding read_Message_def parse
    by (simp add: Let_def un PD sizeof_defs GetEventData_def GetPortDescriptors_def layout_simps m
        descriptor.array_roundtrip [of ds, unfolded ds] name.array_roundtrip)
qed

lemma read_write_Message: "wire_ok m \<Longrightarrow> read_Message (write_Message m) = Inr (m\<lparr>msg_handles := []\<rparr>)"
  using read_Message_internal read_Message_user by (cases "event_data m") (auto simp: is_user_def)

text \<open>
  C20: Every message survives the wire: for every internal event, and every user message with one
  descriptor per port, writing the message in the layout of \<open>event.h\<close> and reading it back through
  \<open>Message::Parse\<close> and the accessors returns the same message, ports and payload included; only the
  platform handles are not part of the bytes.
\<close>

theorem wire_roundtrip: "wire_ok m \<Longrightarrow> read_Message (write_Message m) = Inr (m\<lparr>msg_handles := []\<rparr>)"
  by (rule read_write_Message)

theorem wire_roundtrip_witness:
  "read_Message (write_Message (NewUserMessage [Name 1 2] [7, 8])) = Inr (NewUserMessage [Name 1 2] [7, 8])"
proof -
  have "wire_ok (NewUserMessage [Name 1 2] [7, 8])"
    by (simp add: wire_ok_def write_Message_def NewUserMessage_def write_EventHeader_def write_EventData_def
        write_array_def layout_simps descriptor.enc_length is_user_def)
  then show ?thesis using wire_roundtrip [of "NewUserMessage [Name 1 2] [7, 8]"] by (simp add: NewUserMessage_def)
qed

text \<open>
  \<open>Message::Parse\<close> does not check the sizes it computes: when a user message announces more ports
  than the buffer has room for, the reported payload size has wrapped around and exceeds the number
  of bytes received; only otherwise do the three sections add up to the buffer.
\<close>

theorem Parse_user_sizes:
  assumes "Parse bytes num_bytes = Inr (h, payload, ports_bytes)" "read_u32 bytes = event_code kUser"
  shows "unat h = 40 + unat (read_u32 (drop 32 bytes)) * 96 \<and> unat ports_bytes = unat (read_u32 (drop 32 bytes)) * 16 \<and>
    (if unat h + unat ports_bytes \<le> unat num_bytes then unat h + unat ports_bytes + unat payload = unat num_bytes
     else unat num_bytes < unat payload)"
proof -
  let ?k = "unat (read_u32 (drop 32 bytes))"
  have k: "?k < 2 ^ 32" using unsigned_less [of "read_u32 (drop 32 bytes)"] by simp
  have hp: "h = of_nat (40 + ?k * 96)" "ports_bytes = of_nat (?k * 16)" "payload = num_bytes - h - ports_bytes"
    using assms ucast_of_nat_32 [OF k] by (auto simp: Parse_def Let_def sizeof_defs split: if_splits)
  have u: "unat h = 40 + ?k * 96" "unat ports_bytes = ?k * 16"
    unfolding hp(1,2) using k by (simp_all add: unat_of_nat del: of_nat_add of_nat_mult)
  let ?s = "40 + ?k * 112"
  have "h + ports_bytes = of_nat ?s" unfolding hp(1,2) by (simp add: algebra_simps)
  then have s: "unat (h + ports_bytes) = ?s"
    using k by (simp add: unat_of_nat del: of_nat_add of_nat_mult)
  have p: "payload = num_bytes - (h + ports_bytes)" using hp(3) by simp
  show ?thesis
  proof (cases "?s \<le> unat num_bytes")
    case True
    then have "unat payload = unat num_bytes - ?s"
      unfolding p using s by (simp add: unat_sub word_le_nat_alt)
    then show ?thesis using u True by simp
  next
    case False
    then have "unat payload = unat num_bytes + 2 ^ 64 - ?s"
      unfolding p using s k by (simp add: unat_sub_if' )
    then show ?thesis using u False k by simp
  qed
qed

theorem Parse_user_sizes_witness:
  "case Parse (replicate 32 0 @ [1] @ replicate 7 0) 40 of
     Inr (h, payload, p) \<Rightarrow> (40::nat) < unat payload | Inl _ \<Rightarrow> False"
proof -
  let ?b = "replicate 32 0 @ [1] @ replicate 7 0 :: uint8_t list"
  obtain h y p where e: "Parse ?b 40 = Inr (h, y, p)" by (simp add: Parse_def Let_def read_u32_def field_def numeral_eq_Suc)
  have "read_u32 ?b = event_code kUser" "read_u32 (drop 32 ?b) = 1"
    by (simp_all add: read_u32_def field_def numeral_eq_Suc)
  then show ?thesis using Parse_user_sizes [OF e] unfolding e by auto
qed

end
