(* ===== verification/Node_Controller.thy ===== *)
theory Node_Controller
  imports Node_Protocol Node_Channel Ports_Wire
begin

text \<open>
  The node controller (\<open>node_controller.h\<close>, \<open>node_controller.cc\<close>): it owns a node, is its delegate, and
  connects it to other nodes over node channels.  Channels live in a store and are named by their
  index.  The calls of a node on its delegate are recorded by the node's model and carried out when the
  node's operation has returned: none of them changes the node.  Callbacks (of reserved ports, pending
  connections, observers and shutdown) are opaque numbers, and running one is recorded in \<open>callbacks\<close>.

  Tasks posted to the I/O thread are calls of the posted function.  The relay of Windows is in \<open>Win_Relay\<close>.
\<close>

section \<open>State\<close>

type_synonym callback = nat
type_synonym channel_ref = nat
type_synonym token = "uint8_t list"

datatype callback_run = RunObserver callback | RunReserved callback PortRef | RunConnected callback | RunShutdown callback

record ReservedPort =
  rp_local_port :: PortRef
  rp_callback :: callback

record PendingPortRequest =
  pr_token :: token
  pr_local_port :: PortRef
  pr_callback :: callback

record NodeController =
  nc_name :: NodeName
  nc_node :: Node
  channels :: "channel_ref \<Rightarrow> PlatformHandle NodeChannel"
  channel_count :: channel_ref
  peers :: "(NodeName \<times> channel_ref) list"
  pending_peer_messages :: "(NodeName \<times> Message list) list"
  reserved_ports :: "(token \<times> ReservedPort) list"
  parent_name :: NodeName
  bootstrap_parent_channel :: "channel_ref option"
  incoming_messages :: "Message list"
  shutdown_callback :: "callback option"
  pending_port_requests :: "PendingPortRequest list"
  pending_port_connections :: "(PortName \<times> callback) list"
  pending_children :: "(NodeName \<times> channel_ref) list"
  node_tokens :: "nat \<Rightarrow> NodeName"
  tokens_used :: nat
  handle_pairs :: "nat \<Rightarrow> PlatformHandle \<times> PlatformHandle"
  pairs_used :: nat
  callbacks :: "callback_run list"

definition NodeController_init ::
  "NodeName \<Rightarrow> (nat \<Rightarrow> PortName) \<Rightarrow> (nat \<Rightarrow> NodeName) \<Rightarrow> (nat \<Rightarrow> PlatformHandle \<times> PlatformHandle) \<Rightarrow> NodeController" where
  "NodeController_init name rand tokens pairs =
     \<lparr>nc_name = name, nc_node = Node_init name rand, channels = (\<lambda>_. NodeChannel_Create), channel_count = 0,
      peers = [], pending_peer_messages = [], reserved_ports = [], parent_name = kInvalidNodeName,
      bootstrap_parent_channel = None, incoming_messages = [], shutdown_callback = None,
      pending_port_requests = [], pending_port_connections = [], pending_children = [],
      node_tokens = tokens, tokens_used = 0, handle_pairs = pairs, pairs_used = 0, callbacks = []\<rparr>"

definition modify_channel :: "channel_ref \<Rightarrow> (PlatformHandle NodeChannel \<Rightarrow> PlatformHandle NodeChannel) \<Rightarrow> NodeController \<Rightarrow> NodeController" where
  "modify_channel ch f c = c\<lparr>channels := (channels c)(ch := f (channels c ch))\<rparr>"

definition new_channel :: "NodeController \<Rightarrow> channel_ref \<times> NodeController" where
  "new_channel c = (channel_count c,
     c\<lparr>channels := (channels c)(channel_count c := NodeChannel_Create), channel_count := Suc (channel_count c)\<rparr>)"

definition run_callback :: "callback_run \<Rightarrow> NodeController \<Rightarrow> NodeController" where
  "run_callback r c = c\<lparr>callbacks := callbacks c @ [r]\<rparr>"

definition set_node :: "Node \<Rightarrow> NodeController \<Rightarrow> NodeController" where
  "set_node n c = c\<lparr>nc_node := n\<rparr>"

section \<open>Peers\<close>

definition GetPeerChannel :: "NodeName \<Rightarrow> NodeController \<Rightarrow> channel_ref option" where
  "GetPeerChannel nm c = map_of (peers c) nm"

definition GetParentChannel :: "NodeController \<Rightarrow> channel_ref option" where
  "GetParentChannel c = GetPeerChannel (parent_name c) c"

text \<open>\<open>PortsMessage::TakeChannelMessage\<close>: the channel message that backs a ports message, with its handles.\<close>

definition TakeChannelMessage :: "Message \<Rightarrow> PlatformHandle ChannelMessage" where
  "TakeChannelMessage m =
     (CreatePortsMessage (write_Message m) (length (msg_handles m)))
       \<lparr>handle_vector := (if msg_handles m = [] then None else Some (msg_handles m))\<rparr>"

definition pending_for :: "NodeName \<Rightarrow> NodeController \<Rightarrow> Message list" where
  "pending_for nm c = (case map_of (pending_peer_messages c) nm of None \<Rightarrow> [] | Some ms \<Rightarrow> ms)"

definition SendPeerMessage :: "NodeName \<Rightarrow> Message \<Rightarrow> NodeController \<Rightarrow> NodeController" where
  "SendPeerMessage nm m c =
     (case GetPeerChannel nm c of
        Some ch \<Rightarrow> modify_channel ch (PortsMessage_write (TakeChannelMessage m)) c
      | None \<Rightarrow>
          let queue = pending_for nm c;
              needs_introduction = (queue = []);
              c1 = c\<lparr>pending_peer_messages := (nm, queue @ [m]) # um_erase nm (pending_peer_messages c)\<rparr>
          in if needs_introduction
             then (case GetParentChannel c1 of
                     None \<Rightarrow> c1
                   | Some parent \<Rightarrow> modify_channel parent (RequestIntroduction nm) c1)
             else c1)"

text \<open>A duplicate name leaves the table alone; the renamed channel is dropped.\<close>

definition AddPeer :: "NodeName \<Rightarrow> channel_ref \<Rightarrow> NodeController \<Rightarrow> NodeController" where
  "AddPeer nm ch c =
     (let c1 = modify_channel ch (SetRemoteNodeName nm) c
      in if map_of (peers c1) nm \<noteq> None then c1
         else let c2 = c1\<lparr>peers := um_insert nm ch (peers c1)\<rparr>;
                  c3 = modify_channel ch (fold (\<lambda>m. PortsMessage_write (TakeChannelMessage m)) (pending_for nm c2)) c2
              in c3\<lparr>pending_peer_messages := um_erase nm (pending_peer_messages c3)\<rparr>)"

section \<open>The delegate of the node\<close>

definition NC_ForwardMessage :: "NodeName \<Rightarrow> Message \<Rightarrow> NodeController \<Rightarrow> NodeController" where
  "NC_ForwardMessage nd m c =
     (if nd = nc_name c then c\<lparr>incoming_messages := incoming_messages c @ [m]\<rparr> else SendPeerMessage nd m c)"

definition NC_PortStatusChanged :: "PortRef \<Rightarrow> NodeController \<Rightarrow> NodeController" where
  "NC_PortStatusChanged r c =
     (case GetUserData r (nc_node c) of (_, Some observer) \<Rightarrow> run_callback (RunObserver observer) c | _ \<Rightarrow> c)"

fun delegate_step :: "delegate_call \<Rightarrow> NodeController \<Rightarrow> NodeController" where
  "delegate_step (ForwardMessage nd m) c = NC_ForwardMessage nd m c"
| "delegate_step (PortStatusChanged r) c = NC_PortStatusChanged r c"

text \<open>Carry out the calls an operation of the node has made.\<close>

definition run_delegate :: "Node \<Rightarrow> NodeController \<Rightarrow> NodeController" where
  "run_delegate n c = fold delegate_step (delegate_calls n) (set_node (n\<lparr>delegate_calls := []\<rparr>) c)"

definition DropPeer :: "NodeName \<Rightarrow> NodeController \<Rightarrow> NodeController" where
  "DropPeer nm c =
     (let c1 = c\<lparr>peers := um_erase nm (peers c), pending_peer_messages := um_erase nm (pending_peer_messages c),
                 pending_children := um_erase nm (pending_children c)\<rparr>
      in run_delegate (snd (LostConnectionToNode nm (nc_node c1))) c1)"

definition AttemptShutdownIfRequested :: "NodeController \<Rightarrow> NodeController" where
  "AttemptShutdownIfRequested c =
     (case shutdown_callback c of
        None \<Rightarrow> c
      | Some cb \<Rightarrow>
          if \<not> CanShutdownCleanly True (nc_node c) then c
          else run_callback (RunShutdown cb) (c\<lparr>shutdown_callback := None\<rparr>))"

definition RequestShutdown :: "callback \<Rightarrow> NodeController \<Rightarrow> NodeController" where
  "RequestShutdown cb c = AttemptShutdownIfRequested (c\<lparr>shutdown_callback := Some cb\<rparr>)"

text \<open>One batch of incoming messages, in order.\<close>

fun accept_batch :: "Message list \<Rightarrow> NodeController \<Rightarrow> fault + NodeController" where
  "accept_batch [] c = Inr c"
| "accept_batch (m # ms) c =
     (case AcceptMessage m (nc_node c) of
        Inl f \<Rightarrow> Inl f
      | Inr (_, n) \<Rightarrow> accept_batch ms (run_delegate n c))"

text \<open>
  The pump runs until no message is left; \<open>fuel\<close> bounds the number of batches, and \<open>None\<close> means that more
  were needed.
\<close>

fun pump :: "nat \<Rightarrow> NodeController \<Rightarrow> (fault + NodeController) option" where
  "pump fuel c =
     (if incoming_messages c = [] then Some (Inr c)
      else case fuel of
             0 \<Rightarrow> None
           | Suc fuel' \<Rightarrow>
               (case accept_batch (incoming_messages c) (c\<lparr>incoming_messages := []\<rparr>) of
                  Inl f \<Rightarrow> Some (Inl f)
                | Inr c' \<Rightarrow> pump fuel' c'))"

declare pump.simps [simp del]

definition AcceptIncomingMessages :: "nat \<Rightarrow> NodeController \<Rightarrow> (fault + NodeController) option" where
  "AcceptIncomingMessages fuel c =
     (case pump fuel c of Some (Inr c') \<Rightarrow> Some (Inr (AttemptShutdownIfRequested c')) | r \<Rightarrow> r)"

section \<open>Operations of the embedder\<close>

definition SetPortObserver :: "PortRef \<Rightarrow> callback option \<Rightarrow> NodeController \<Rightarrow> NodeController" where
  "SetPortObserver r observer c = set_node (snd (SetUserData r observer (nc_node c))) c"

definition NC_ClosePort :: "nat \<Rightarrow> PortRef \<Rightarrow> NodeController \<Rightarrow> (fault + NodeController) option" where
  "NC_ClosePort fuel r c =
     (let c1 = SetPortObserver r None c
      in AcceptIncomingMessages fuel (run_delegate (snd (ClosePort r (nc_node c1))) c1))"

definition NC_SendMessage ::
  "nat \<Rightarrow> PortRef \<Rightarrow> Message \<Rightarrow> NodeController \<Rightarrow> (fault + node_rv \<times> Message option \<times> NodeController) option" where
  "NC_SendMessage fuel r m c =
     (case SendMessage r m (nc_node c) of
        Inl f \<Rightarrow> Some (Inl f)
      | Inr (rv, mo, n) \<Rightarrow>
          (case AcceptIncomingMessages fuel (run_delegate n c) of
             None \<Rightarrow> None
           | Some (Inl f) \<Rightarrow> Some (Inl f)
           | Some (Inr c') \<Rightarrow> Some (Inr (rv, mo, c'))))"

definition ReservePort :: "token \<Rightarrow> callback \<Rightarrow> NodeController \<Rightarrow> fault + NodeController" where
  "ReservePort token cb c =
     (case CreateUninitializedPort (nc_node c) of
        Inl f \<Rightarrow> Inl f
      | Inr (r, n) \<Rightarrow> Inr ((set_node n c)\<lparr>reserved_ports :=
          um_insert token \<lparr>rp_local_port = r, rp_callback = cb\<rparr> (reserved_ports c)\<rparr>))"

definition ConnectReservedPorts :: "token \<Rightarrow> token \<Rightarrow> NodeController \<Rightarrow> NodeController" where
  "ConnectReservedPorts token1 token2 c =
     (case (map_of (reserved_ports c) token1, map_of (reserved_ports c) token2) of
        (Some port1, Some port2) \<Rightarrow>
          let c1 = c\<lparr>reserved_ports := um_erase token2 (um_erase token1 (reserved_ports c))\<rparr>;
              c2 = run_delegate (snd (InitializePort (rp_local_port port1) (nc_name c1)
                     (ref_name (rp_local_port port2)) (nc_node c1))) c1;
              c3 = run_delegate (snd (InitializePort (rp_local_port port2) (nc_name c2)
                     (ref_name (rp_local_port port1)) (nc_node c2))) c2
          in run_callback (RunReserved (rp_callback port2) (rp_local_port port2))
               (run_callback (RunReserved (rp_callback port1) (rp_local_port port1)) c3)
      | _ \<Rightarrow> c)"

definition ConnectToChildOnIOThread :: "NodeController \<Rightarrow> NodeController" where
  "ConnectToChildOnIOThread c =
     (let (ch, c1) = new_channel c;
          token = node_tokens c1 (tokens_used c1);
          c2 = modify_channel ch (AcceptChild (nc_name c1) token \<circ> SetRemoteNodeName token) c1
      in c2\<lparr>tokens_used := Suc (tokens_used c2), pending_children := um_insert token ch (pending_children c2)\<rparr>)"

definition ConnectToParentOnIOThread :: "NodeController \<Rightarrow> NodeController" where
  "ConnectToParentOnIOThread c =
     (let (ch, c1) = new_channel c in c1\<lparr>bootstrap_parent_channel := Some ch\<rparr>)"

definition RequestParentPortConnectionOnIOThread :: "PortRef \<Rightarrow> token \<Rightarrow> callback \<Rightarrow> NodeController \<Rightarrow> NodeController" where
  "RequestParentPortConnectionOnIOThread r token cb c =
     (case GetParentChannel c of
        None \<Rightarrow> c\<lparr>pending_port_requests := pending_port_requests c @
                 [\<lparr>pr_token = token, pr_local_port = r, pr_callback = cb\<rparr>]\<rparr>
      | Some parent \<Rightarrow>
          modify_channel parent (RequestPortConnection (ref_name r) token)
            (c\<lparr>pending_port_connections := um_insert (ref_name r) cb (pending_port_connections c)\<rparr>))"

definition DropAllPeers :: "NodeController \<Rightarrow> NodeController" where
  "DropAllPeers c =
     (let c1 = (case bootstrap_parent_channel c of
                  None \<Rightarrow> c
                | Some ch \<Rightarrow> (modify_channel ch NodeChannel_ShutDown c)\<lparr>bootstrap_parent_channel := None\<rparr>);
          all_peers = map snd (peers c1) @ map snd (pending_children c1);
          c2 = c1\<lparr>peers := [], pending_children := [], pending_peer_messages := []\<rparr>
      in fold (\<lambda>ch. modify_channel ch NodeChannel_ShutDown) all_peers c2)"

section \<open>The delegate of the node channels\<close>

definition NC_OnAcceptChild :: "NodeName \<Rightarrow> NodeName \<Rightarrow> NodeName \<Rightarrow> NodeController \<Rightarrow> NodeController" where
  "NC_OnAcceptChild from_node parent token c =
     (case bootstrap_parent_channel c of
        Some ch \<Rightarrow>
          if parent_name c \<noteq> kInvalidNodeName then DropPeer from_node c
          else let c1 = c\<lparr>parent_name := parent, bootstrap_parent_channel := None\<rparr>;
                   c2 = modify_channel ch (AcceptParent token (nc_name c1)) c1;
                   c3 = fold (\<lambda>request c. modify_channel ch
                          (RequestPortConnection (ref_name (pr_local_port request)) (pr_token request))
                          (c\<lparr>pending_port_connections := um_insert (ref_name (pr_local_port request))
                              (pr_callback request) (pending_port_connections c)\<rparr>))
                        (pending_port_requests c2) c2
               in AddPeer parent ch (c3\<lparr>pending_port_requests := []\<rparr>)
      | None \<Rightarrow> DropPeer from_node c)"

definition NC_OnAcceptParent :: "NodeName \<Rightarrow> NodeName \<Rightarrow> NodeName \<Rightarrow> NodeController \<Rightarrow> NodeController" where
  "NC_OnAcceptParent from_node token child_name c =
     (case map_of (pending_children c) from_node of
        Some ch \<Rightarrow>
          if token \<noteq> from_node then DropPeer from_node c
          else AddPeer child_name ch (c\<lparr>pending_children := um_erase from_node (pending_children c)\<rparr>)
      | None \<Rightarrow> DropPeer from_node c)"

definition NC_OnPortsMessage :: "nat \<Rightarrow> PlatformHandle ChannelMessage \<Rightarrow> NodeController \<Rightarrow> (fault + NodeController) option" where
  "NC_OnPortsMessage fuel channel_message c =
     (case read_Message (GetPortsMessageData channel_message) of
        Inl f \<Rightarrow> Some (Inl f)
      | Inr m \<Rightarrow>
          (case AcceptMessage (m\<lparr>msg_handles := (case handle_vector channel_message of None \<Rightarrow> [] | Some hs \<Rightarrow> hs)\<rparr>) (nc_node c) of
             Inl f \<Rightarrow> Some (Inl f)
           | Inr (_, n) \<Rightarrow>
               (case AcceptIncomingMessages fuel (run_delegate n c) of
                  Some (Inr c') \<Rightarrow> Some (Inr (AttemptShutdownIfRequested c'))
                | r \<Rightarrow> r)))"

definition NC_OnRequestPortConnection :: "NodeName \<Rightarrow> PortName \<Rightarrow> token \<Rightarrow> NodeController \<Rightarrow> fault + NodeController" where
  "NC_OnRequestPortConnection from_node connector_port_name token c =
     (case map_of (reserved_ports c) token of
        None \<Rightarrow> Inr c
      | Some rp \<Rightarrow>
          let c1 = c\<lparr>reserved_ports := um_erase token (reserved_ports c)\<rparr>
          in (case GetPeerChannel from_node c1 of
                None \<Rightarrow> Inr c1
              | Some peer \<Rightarrow>
                  (case InitializePort (rp_local_port rp) from_node connector_port_name (nc_node c1) of
                     (rv, n) \<Rightarrow>
                       if rv \<noteq> OK then Inl CheckFailure
                       else Inr (run_callback (RunReserved (rp_callback rp) (rp_local_port rp))
                              (modify_channel peer (ConnectToPort (ref_name (rp_local_port rp)) connector_port_name)
                                 (run_delegate n c1))))))"

text \<open>The iterator of an unknown connection is past the end; running its callback is undefined.\<close>

definition NC_OnConnectToPort :: "NodeName \<Rightarrow> PortName \<Rightarrow> PortName \<Rightarrow> NodeController \<Rightarrow> fault + NodeController" where
  "NC_OnConnectToPort from_node connector_port_name connectee_port_name c =
     (case GetPort connectee_port_name (nc_node c) of
        (OK, Some r) \<Rightarrow>
          (case GetStatus r (nc_node c) of
             (OK, _) \<Rightarrow> Inr c
           | _ \<Rightarrow>
               (case InitializePort r from_node connector_port_name (nc_node c) of
                  (rv, n) \<Rightarrow>
                    if rv \<noteq> OK then Inl CheckFailure
                    else (case map_of (pending_port_connections c) connectee_port_name of
                            None \<Rightarrow> Inl NullPointer
                          | Some cb \<Rightarrow>
                              let c1 = run_callback (RunConnected cb) (run_delegate n c)
                              in Inr (c1\<lparr>pending_port_connections :=
                                   um_erase connectee_port_name (pending_port_connections c1)\<rparr>))))
      | _ \<Rightarrow> Inr c)"

definition introduce_on :: "channel_ref \<Rightarrow> NodeName \<Rightarrow> PlatformHandle option \<Rightarrow> NodeController \<Rightarrow> fault + NodeController" where
  "introduce_on ch nm h c =
     (case Introduce nm h (channels c ch) of
        Inl f \<Rightarrow> Inl f
      | Inr nch \<Rightarrow> Inr (c\<lparr>channels := (channels c)(ch := nch)\<rparr>))"

definition NC_OnRequestIntroduction :: "NodeName \<Rightarrow> NodeName \<Rightarrow> NodeController \<Rightarrow> fault + NodeController" where
  "NC_OnRequestIntroduction from_node nm c =
     (case GetPeerChannel from_node c of
        None \<Rightarrow> Inr (DropPeer from_node c)
      | Some requestor \<Rightarrow>
          if from_node = nm \<or> nm = kInvalidNodeName then Inr (DropPeer from_node c)
          else if GetParentChannel c \<noteq> None then Inr c
          else (case GetPeerChannel nm c of
                  None \<Rightarrow> introduce_on requestor nm None c
                | Some new_friend \<Rightarrow>
                    let (server, client) = handle_pairs c (pairs_used c);
                        c1 = c\<lparr>pairs_used := Suc (pairs_used c)\<rparr>
                    in (case introduce_on requestor nm (Some server) c1 of
                          Inl f \<Rightarrow> Inl f
                        | Inr c2 \<Rightarrow> introduce_on new_friend from_node (Some client) c2)))"

definition NC_OnIntroduce :: "NodeName \<Rightarrow> NodeName \<Rightarrow> PlatformHandle option \<Rightarrow> NodeController \<Rightarrow> NodeController" where
  "NC_OnIntroduce from_node nm handle c =
     (if from_node \<noteq> parent_name c then DropPeer from_node c
      else (case handle of
              None \<Rightarrow> c\<lparr>pending_peer_messages := um_erase nm (pending_peer_messages c)\<rparr>
            | Some _ \<Rightarrow> let (ch, c1) = new_channel c in AddPeer nm ch c1))"

definition NC_OnChannelError :: "NodeName \<Rightarrow> NodeController \<Rightarrow> NodeController" where
  "NC_OnChannelError from_node c = DropPeer from_node c"

text \<open>A message of a channel, dispatched to its handler.\<close>

fun controller_step :: "nat \<Rightarrow> PlatformHandle controller_call \<Rightarrow> NodeController \<Rightarrow> (fault + NodeController) option" where
  "controller_step fuel (OnAcceptChild f p t) c = Some (Inr (NC_OnAcceptChild f p t c))"
| "controller_step fuel (OnAcceptParent f t ch) c = Some (Inr (NC_OnAcceptParent f t ch c))"
| "controller_step fuel (OnPortsMessage m) c = NC_OnPortsMessage fuel m c"
| "controller_step fuel (OnRequestPortConnection f p t) c = Some (NC_OnRequestPortConnection f p t c)"
| "controller_step fuel (OnConnectToPort f p q) c = Some (NC_OnConnectToPort f p q c)"
| "controller_step fuel (OnRequestIntroduction f nm) c = Some (NC_OnRequestIntroduction f nm c)"
| "controller_step fuel (OnIntroduce f nm h) c = Some (Inr (NC_OnIntroduce f nm h c))"
| "controller_step fuel (OnChannelError f) c = Some (Inr (NC_OnChannelError f c))"

end
