(* ===== verification/Win_Relay.thy ===== *)
theory Win_Relay
  imports Node_Controller
begin

unbundle bit_operations_syntax

text \<open>
  Handles between processes on Windows: there they are part of the bytes of a message (the \<open>OS_WIN\<close> parts of
  \<open>channel.cc\<close>) and have to be duplicated from one process to another by the parent, which relays the messages of its
  children (the \<open>OS_WIN\<close> parts of \<open>node_channel.cc\<close> and \<open>node_controller.cc\<close>).  Arguments of the model are the layout of a
  platform handle, \<open>enc\<close> and \<open>dec\<close> of \<open>sz\<close> bytes, the system call \<open>dup\<close> that duplicates a handle of one process for
  another and closes the original, this process \<open>self\<close>, and the process at the other end of a channel.
\<close>

section \<open>Messages with their handles\<close>

text \<open>The handles are the \<open>handle_vector\<close> of the record; here they are the end of the buffer.\<close>

definition WinMessage_new :: "nat \<Rightarrow> uint8_t list \<Rightarrow> nat \<Rightarrow> PlatformHandle ChannelMessage" where
  "WinMessage_new sz payload n =
     \<lparr>cm_header = \<lparr>num_bytes = of_nat (length payload + sizeof_Header + n * sz), num_handles = of_nat n\<rparr>,
      cm_payload = payload, handle_vector = (if n > 0 then Some (replicate n 0) else None)\<rparr>"

definition win_handles :: "PlatformHandle ChannelMessage \<Rightarrow> PlatformHandle list" where
  "win_handles m = (case handle_vector m of None \<Rightarrow> [] | Some hs \<Rightarrow> hs)"

definition win_data :: "(PlatformHandle \<Rightarrow> uint8_t list) \<Rightarrow> PlatformHandle ChannelMessage \<Rightarrow> uint8_t list" where
  "win_data enc m = write_Header (cm_header m) @ cm_payload m @ write_array enc (win_handles m)"

text \<open>\<open>Message::Deserialize\<close>: the bytes of a message inside another one.\<close>

definition Deserialize :: "(uint8_t list \<Rightarrow> PlatformHandle) \<Rightarrow> nat \<Rightarrow> uint8_t list \<Rightarrow> PlatformHandle ChannelMessage option" where
  "Deserialize dec sz bytes =
     (if length bytes < sizeof_Header then None
      else let h = read_Header bytes; n = unat (num_handles h); handles_size = n * sz mod 2 ^ 32
           in if unat (num_bytes h) \<noteq> length bytes then None
              else if length bytes < sizeof_Header + handles_size then None
              else let size = length bytes - sizeof_Header - handles_size; m = WinMessage_new sz (field sizeof_Header size bytes) n
                   in Some (if n > 0 then m\<lparr>handle_vector := Some (read_array dec sz n (drop (sizeof_Header + size) bytes))\<rparr> else m))"

section \<open>Writing\<close>

definition map_handles :: "(PlatformHandle \<Rightarrow> PlatformHandle) \<Rightarrow> PlatformHandle ChannelMessage \<Rightarrow> PlatformHandle ChannelMessage" where
  "map_handles f m = m\<lparr>handle_vector := map_option (map f) (handle_vector m)\<rparr>"

text \<open>Without a process at the other end the handles are sent as they are, which the code logs as an error.\<close>

definition Win_WriteChannelMessage ::
  "('p \<Rightarrow> 'p \<Rightarrow> PlatformHandle \<Rightarrow> PlatformHandle) \<Rightarrow> 'p \<Rightarrow> 'p option \<Rightarrow> PlatformHandle ChannelMessage \<Rightarrow>
     PlatformHandle NodeChannel \<Rightarrow> PlatformHandle NodeChannel" where
  "Win_WriteChannelMessage dup self remote_process_handle m =
     WriteChannelMessage
       (if num_handles (cm_header m) > 0
        then (case remote_process_handle of None \<Rightarrow> m | Some p \<Rightarrow> map_handles (dup self p) m)
        else m)"

definition RELAY_PORTS_MESSAGE :: uint32_t where "RELAY_PORTS_MESSAGE = 7"

text \<open>The relayed message carries the handles among its bytes and none of its own.\<close>

definition RelayPortsMessage ::
  "(PlatformHandle \<Rightarrow> uint8_t list) \<Rightarrow> NodeName \<Rightarrow> PlatformHandle ChannelMessage \<Rightarrow> PlatformHandle NodeChannel \<Rightarrow> PlatformHandle NodeChannel" where
  "RelayPortsMessage enc destination m =
     WriteChannelMessage
       (ChannelMessage_new (write_u32 RELAY_PORTS_MESSAGE @ write_u32 0 @ write_Name destination @ win_data enc m) 0)"

text \<open>\<open>PortsMessage::TakeChannelMessage\<close> and the branch of \<open>SendPeerMessage\<close> for a message with handles.\<close>

definition Win_TakeChannelMessage :: "nat \<Rightarrow> Message \<Rightarrow> PlatformHandle ChannelMessage" where
  "Win_TakeChannelMessage sz m =
     (let cm = WinMessage_new sz (cm_payload (TakeChannelMessage m)) (length (msg_handles m))
      in cm\<lparr>handle_vector := (if msg_handles m = [] then None else Some (msg_handles m))\<rparr>)"

definition Win_SendPeerMessage ::
  "(PlatformHandle \<Rightarrow> uint8_t list) \<Rightarrow> nat \<Rightarrow> ('p \<Rightarrow> 'p \<Rightarrow> PlatformHandle \<Rightarrow> PlatformHandle) \<Rightarrow> 'p \<Rightarrow> (channel_ref \<Rightarrow> 'p option) \<Rightarrow>
     NodeName \<Rightarrow> Message \<Rightarrow> NodeController \<Rightarrow> NodeController" where
  "Win_SendPeerMessage enc sz dup self process nm m c =
     (case (if msg_handles m \<noteq> [] then GetParentChannel c else None) of
        Some parent \<Rightarrow> modify_channel parent (RelayPortsMessage enc nm (Win_TakeChannelMessage sz m)) c
      | None \<Rightarrow>
          (case GetPeerChannel nm c of
             Some ch \<Rightarrow> modify_channel ch (Win_WriteChannelMessage dup self (process ch) (Win_TakeChannelMessage sz m)) c
           | None \<Rightarrow> SendPeerMessage nm m c))"

section \<open>Relaying\<close>

text \<open>
  The case of \<open>NodeChannel::OnChannelMessage\<close>: \<open>None\<close> when the message inside is dropped as invalid, otherwise the arguments of
  \<open>OnRelayPortsMessage\<close>.
\<close>

definition OnChannelMessage_relay ::
  "(uint8_t list \<Rightarrow> PlatformHandle) \<Rightarrow> nat \<Rightarrow> uint8_t list \<Rightarrow> PlatformHandle NodeChannel \<Rightarrow>
     fault + (NodeName \<times> NodeName \<times> PlatformHandle ChannelMessage) option" where
  "OnChannelMessage_relay dec sz payload c =
     (if length payload < 24 then Inl OutOfBounds
      else Inr (map_option (\<lambda>m. (remote_node_name c, read_Name (drop 8 payload), m)) (Deserialize dec sz (drop 24 payload))))"

definition OnRelayPortsMessage ::
  "nat \<Rightarrow> ('p \<Rightarrow> 'p \<Rightarrow> PlatformHandle \<Rightarrow> PlatformHandle) \<Rightarrow> 'p \<Rightarrow> (channel_ref \<Rightarrow> 'p option) \<Rightarrow>
     NodeName \<Rightarrow> 'p \<Rightarrow> NodeName \<Rightarrow> PlatformHandle ChannelMessage \<Rightarrow> NodeController \<Rightarrow> (fault + NodeController) option" where
  "OnRelayPortsMessage fuel dup self process from_node from_process destination message c =
     (case GetParentChannel c of
        Some _ \<Rightarrow> Some (Inr (DropPeer from_node c))
      | None \<Rightarrow>
          let message' = map_handles (dup from_process self) message
          in if destination = nc_name c then NC_OnPortsMessage fuel message' c
             else (case GetPeerChannel destination c of
                     Some ch \<Rightarrow> Some (Inr (modify_channel ch (Win_WriteChannelMessage dup self (process ch) message') c))
                   | None \<Rightarrow> Some (Inr c)))"

section \<open>A relayed message\<close>

definition layout_ok :: "(PlatformHandle \<Rightarrow> uint8_t list) \<Rightarrow> (uint8_t list \<Rightarrow> PlatformHandle) \<Rightarrow> nat \<Rightarrow> PlatformHandle list \<Rightarrow> bool" where
  "layout_ok enc dec sz hs \<longleftrightarrow> (\<forall>h \<in> set hs. length (enc h) = sz \<and> (\<forall>bs. dec (enc h @ bs) = h))"

lemma read_array_Suc: "read_array dec sz (Suc k) bs = dec bs # read_array dec sz k (drop sz bs)"
  by (simp add: read_array_def upt_conv_Cons map_Suc_upt [symmetric] comp_def add.commute del: upt_Suc)

lemma layout_ok_array:
  "layout_ok enc dec sz hs \<Longrightarrow> length (write_array enc hs) = length hs * sz \<and> read_array dec sz (length hs) (write_array enc hs @ bs) = hs"
  by (induction hs) (auto simp: layout_ok_def write_array_def read_array_Suc, simp add: read_array_def)

text \<open>A message whose sizes fit the fields of its header is read back from its bytes.\<close>

lemma Deserialize_win_data:
  assumes "layout_ok enc dec sz hs" "length payload + 8 + length hs * sz < 2 ^ 32" "length hs < 2 ^ 16"
    "m = (WinMessage_new sz payload (length hs))\<lparr>handle_vector := (if hs = [] then None else Some hs)\<rparr>"
  shows "Deserialize dec sz (win_data enc m) = Some m"
proof -
  note a = layout_ok_array [OF assms(1), of "[]"]
  have hs: "win_handles m = hs" by (simp add: assms(4) win_handles_def)
  have hdr: "unat (num_bytes (cm_header m)) = length payload + 8 + length hs * sz" "unat (num_handles (cm_header m)) = length hs"
    using assms(2,3)
    by (simp_all add: assms(4) WinMessage_new_def sizeof_Header_def unat_of_nat del: of_nat_add of_nat_mult)
  have len: "length (win_data enc m) = length payload + 8 + length hs * sz"
    using a hs by (simp add: win_data_def header.enc_length assms(4) WinMessage_new_def)
  have rd: "read_Header (win_data enc m) = cm_header m" by (simp add: win_data_def header.dec_enc)
  have pl: "field 8 (length payload) (win_data enc m) = payload" "drop (8 + length payload) (win_data enc m) = write_array enc hs"
    using hs by (simp_all add: win_data_def field_def header.enc_length assms(4) WinMessage_new_def)
  have sz: "length hs * sz mod 2 ^ 32 = length hs * sz" using assms(2) by simp
  have size: "length payload + 8 + length hs * sz - 8 - length hs * sz = length payload" by simp
  have "Deserialize dec sz (win_data enc m) =
      Some (let m' = WinMessage_new sz payload (length hs) in if length hs > 0 then m'\<lparr>handle_vector := Some hs\<rparr> else m')"
    unfolding Deserialize_def Let_def rd hdr len sizeof_Header_def sz size pl using a by simp
  then show ?thesis by (cases hs) (simp_all add: assms(4) WinMessage_new_def)
qed

text \<open>
  C37: Handles that a child on Windows sends to another node reach it: the child relays the message through its parent, with
  the handles hidden among the bytes; the parent decodes it, takes over the handles of the sender and gives them to
  the process of the destination, so that the message arrives with the same data and, in order, handles to the same
  resources.
\<close>

theorem relay_delivers:
  assumes "layout_ok enc dec sz (msg_handles m)" "msg_handles m \<noteq> []" "length (msg_handles m) < 2 ^ 16"
    "length (write_Message m) + 16 + length (msg_handles m) * sz < 2 ^ 32"
    "\<And>p q h. resource q (dup p q h) = resource p h"
    "GetParentChannel child = Some ch" "channel_open (channels child ch)"
    "GetParentChannel parent = None" "destination \<noteq> nc_name parent" "GetPeerChannel destination parent = Some ch'"
    "channel_open (channels parent ch')" "process ch' = Some target"
  shows "\<exists>relayed from_node message parent' sent hs.
    nc_written (channels (Win_SendPeerMessage enc sz dup sender process' destination m child) ch) =
      nc_written (channels child ch) @ [relayed] \<and> num_handles (cm_header relayed) = 0 \<and>
    OnChannelMessage_relay dec sz (cm_payload relayed) c = Inr (Some (from_node, destination, message)) \<and>
    OnRelayPortsMessage fuel dup self process from_node sender destination message parent = Some (Inr parent') \<and>
    nc_written (channels parent' ch') = nc_written (channels parent ch') @ [sent] \<and>
    GetPortsMessageData sent = write_Message m \<and> handle_vector sent = Some hs \<and>
    map (resource target) hs = map (resource sender) (msg_handles m)"
proof -
  let ?hs = "msg_handles m" and ?cm = "Win_TakeChannelMessage sz m"
  let ?relayed = "ChannelMessage_new (write_u32 RELAY_PORTS_MESSAGE @ write_u32 0 @ write_Name destination @ win_data enc ?cm) 0"
  let ?payload = "cm_payload (TakeChannelMessage m)"
  have cm: "?cm = (WinMessage_new sz ?payload (length ?hs))\<lparr>handle_vector := (if ?hs = [] then None else Some ?hs)\<rparr>"
    by (simp add: Win_TakeChannelMessage_def Let_def)
  have len: "length ?payload = length (write_Message m) + 8"
    by (simp add: TakeChannelMessage_def CreatePortsMessage_def CreateMessage_payload u32.enc_length)
  have "Deserialize dec sz (win_data enc ?cm) = Some ?cm"
    using Deserialize_win_data [OF assms(1) _ assms(3) cm] assms(4) len by simp
  then have decoded: "OnChannelMessage_relay dec sz (cm_payload ?relayed) c = Inr (Some (remote_node_name c, destination, ?cm))"
    by (simp add: OnChannelMessage_relay_def ChannelMessage_new_def layout_simps)
  have "unat (of_nat (length ?hs) :: uint16_t) = length ?hs" using assms(3) by (simp add: unat_of_nat)
  then have "(of_nat (length ?hs) :: uint16_t) > 0" using assms(2) by (metis length_0_conv unat_eq_zero word_gt_0)
  then have data: "GetPortsMessageData (map_handles f ?cm) = write_Message m" "win_handles ?cm = ?hs"
    "num_handles (cm_header (map_handles f ?cm)) > 0" "handle_vector ?cm = Some ?hs" for f
    using assms(2,3)
    by (simp_all add: cm map_handles_def GetPortsMessageData_def WinMessage_new_def win_handles_def TakeChannelMessage_def
        CreatePortsMessage_def CreateMessage_payload layout_simps)
  let ?sent = "map_handles (dup self target) (map_handles (dup sender self) ?cm)"
  let ?parent = "modify_channel ch' (WriteChannelMessage ?sent) parent"
  have "OnRelayPortsMessage fuel dup self process (remote_node_name c) sender destination ?cm parent = Some (Inr ?parent)"
    using assms(8-12) data(3) by (simp add: OnRelayPortsMessage_def Win_WriteChannelMessage_def)
  moreover have "nc_written (channels ?parent ch') = nc_written (channels parent ch') @ [?sent]"
    using assms(11) by (simp add: modify_channel_def write_open)
  moreover have "nc_written (channels (Win_SendPeerMessage enc sz dup sender process' destination m child) ch) =
      nc_written (channels child ch) @ [?relayed]"
    using assms(2,6,7) by (simp add: Win_SendPeerMessage_def RelayPortsMessage_def modify_channel_def write_open)
  moreover have "GetPortsMessageData ?sent = write_Message m" "handle_vector ?sent = Some (map (dup self target) (map (dup sender self) ?hs))"
    using data by (simp_all add: map_handles_def GetPortsMessageData_def)
  moreover have "map (resource target) (map (dup self target) (map (dup sender self) ?hs)) = map (resource sender) ?hs"
    using assms(5) by (simp add: comp_def)
  moreover have "num_handles (cm_header ?relayed) = 0" by (simp add: ChannelMessage_new_def)
  ultimately show ?thesis using decoded by blast
qed

text \<open>Handles as 64-bit numbers; what a handle refers to depends on the process that holds it.\<close>

definition example_enc :: "PlatformHandle \<Rightarrow> uint8_t list" where "example_enc h = write_u64 (of_nat h)"
definition example_dec :: "uint8_t list \<Rightarrow> PlatformHandle" where "example_dec bs = unat (read_u64 bs)"
definition example_dup :: "nat \<Rightarrow> nat \<Rightarrow> PlatformHandle \<Rightarrow> PlatformHandle" where "example_dup p q h = h XOR p XOR q"

definition example_relayed :: Message where "example_relayed = (NewUserMessage [] [1, 2])\<lparr>msg_handles := [5, 6]\<rparr>"

definition example_peers :: "NodeName \<Rightarrow> NodeName \<Rightarrow> NodeName \<Rightarrow> NodeController" where
  "example_peers nm peer parent =
     (NodeController_init nm (\<lambda>_. Name 1 1) (\<lambda>_. Name 1 1) (\<lambda>_. (0, 0)))\<lparr>peers := [(peer, 0)], parent_name := parent\<rparr>"

lemma example_peers:
  "GetPeerChannel peer (example_peers nm peer parent) = Some 0" "GetParentChannel (example_peers nm peer peer) = Some 0"
  "parent \<noteq> peer \<Longrightarrow> GetParentChannel (example_peers nm peer parent) = None" "nc_name (example_peers nm peer parent) = nm"
  "channel_open (channels (example_peers nm peer parent) ch)" "nc_written (channels (example_peers nm peer parent) ch) = []"
  by (simp_all add: example_peers_def NodeController_init_def GetParentChannel_def GetPeerChannel_def NodeChannel_Create_def)

theorem relay_delivers_witness:
  "\<exists>relayed from_node message parent' sent hs.
    nc_written (channels (Win_SendPeerMessage example_enc 8 example_dup 1 (\<lambda>_. None) (Name 3 3) example_relayed
        (example_peers (Name 2 2) (Name 9 9) (Name 9 9))) 0) = [relayed] \<and>
    OnChannelMessage_relay example_dec 8 (cm_payload relayed) NodeChannel_Create = Inr (Some (from_node, Name 3 3, message)) \<and>
    OnRelayPortsMessage 0 example_dup 4 (\<lambda>_. Some 7) from_node 1 (Name 3 3) message
      (example_peers (Name 9 9) (Name 3 3) kInvalidNodeName) = Some (Inr parent') \<and>
    nc_written (channels parent' 0) = [sent] \<and> GetPortsMessageData sent = write_Message example_relayed \<and>
    handle_vector sent = Some hs \<and> map (\<lambda>h. h XOR 7) hs = map (\<lambda>h. h XOR 1) [5, 6]"
proof -
  have h: "msg_handles example_relayed = [5, 6]" by (simp add: example_relayed_def)
  have l: "layout_ok example_enc example_dec 8 (msg_handles example_relayed)"
    unfolding h by (simp add: layout_ok_def example_enc_def example_dec_def u64.enc_length u64.dec_enc)
  have w: "length (write_Message example_relayed) + 16 + length (msg_handles example_relayed) * 8 < 2 ^ 32"
    unfolding h
    by (simp add: example_relayed_def NewUserMessage_def write_Message_def write_EventHeader_def write_EventData_def layout_simps write_array_def)
  have x: "example_dup p q h XOR q = h XOR p" for p q h by (simp add: example_dup_def xor.assoc)
  have k: "kInvalidNodeName \<noteq> Name 3 3" by (simp add: kInvalidNodeName_def)
  have d: "Name 3 3 \<noteq> nc_name (example_peers (Name 9 9) (Name 3 3) kInvalidNodeName)" by (simp add: example_peers)
  have n: "msg_handles example_relayed \<noteq> []" "length (msg_handles example_relayed) < 2 ^ 16" by (simp_all add: h)
  show ?thesis
    using relay_delivers [where resource = "\<lambda>p h. h XOR p" and dup = example_dup and process = "\<lambda>_. Some 7" and target = 7 and
        process' = "\<lambda>_. None" and sender = 1 and self = 4 and c = NodeChannel_Create and fuel = 0 and
        child = "example_peers (Name 2 2) (Name 9 9) (Name 9 9)",
        OF l n w x example_peers(2,5) example_peers(3) [OF k] d example_peers(1,5) refl]
    unfolding example_peers(6) append.simps h by blast
qed

end
