(* ===== verification/Mojo_Types.thy ===== *)
theory Mojo_Types
  imports Ports_Prelude
begin

text \<open>
  The names of the public Mojo C interface that the system layer uses.  The interface's headers are
  not part of the repository: results are kept by name, words of flags and signals are the sets
  of the bits that are set in them, and an invalid handle is zero, as the interface documents.
\<close>

datatype MojoResult = MOJO_RESULT_OK | MOJO_RESULT_INVALID_ARGUMENT | MOJO_RESULT_ALREADY_EXISTS
  | MOJO_RESULT_NOT_FOUND | MOJO_RESULT_RESOURCE_EXHAUSTED | MOJO_RESULT_FAILED_PRECONDITION
  | MOJO_RESULT_OUT_OF_RANGE | MOJO_RESULT_UNIMPLEMENTED | MOJO_RESULT_INTERNAL
  | MOJO_RESULT_UNKNOWN | MOJO_RESULT_BUSY | MOJO_RESULT_SHOULD_WAIT | MOJO_RESULT_CANCELLED

type_synonym MojoHandle = uint32_t

abbreviation (input) MOJO_HANDLE_INVALID :: MojoHandle where
  "MOJO_HANDLE_INVALID \<equiv> 0"

section \<open>Flags\<close>

datatype write_flag = MOJO_WRITE_DATA_FLAG_ALL_OR_NONE

datatype read_flag = MOJO_READ_DATA_FLAG_ALL_OR_NONE | MOJO_READ_DATA_FLAG_DISCARD
  | MOJO_READ_DATA_FLAG_QUERY | MOJO_READ_DATA_FLAG_PEEK

record MojoCreateDataPipeOptions =
  element_num_bytes :: uint32_t
  capacity_num_bytes :: uint32_t

section \<open>Signals\<close>

text \<open>
  The members of \<open>HandleSignalsState\<close> are plain words; its predicates are outside the repository and a
  parameter of the operations that call them.  The awakable list is outside as well: the calls that a
  dispatcher makes on it are recorded in order.
\<close>

datatype signal = MOJO_HANDLE_SIGNAL_READABLE | MOJO_HANDLE_SIGNAL_WRITABLE | MOJO_HANDLE_SIGNAL_PEER_CLOSED

record HandleSignalsState =
  satisfied_signals :: "signal set"
  satisfiable_signals :: "signal set"

record signals_ops =
  hs_equals :: "HandleSignalsState \<Rightarrow> HandleSignalsState \<Rightarrow> bool"
  hs_satisfies :: "HandleSignalsState \<Rightarrow> signal set \<Rightarrow> bool"
  hs_can_satisfy :: "HandleSignalsState \<Rightarrow> signal set \<Rightarrow> bool"

datatype awakable_call = AwakeForStateChange HandleSignalsState | CancelAll
  | AddAwakable_call nat "signal set" nat | RemoveAwakable_call nat

section \<open>Outcomes\<close>

text \<open>
  An operation that may pump messages takes fuel: it runs out of it (\<open>None\<close>), ends in a fault, or returns.
\<close>

type_synonym 'a outcome = "(fault + 'a) option"

definition and_then :: "'a outcome \<Rightarrow> ('a \<Rightarrow> 'b outcome) \<Rightarrow> 'b outcome" where
  "and_then r k = (case r of None \<Rightarrow> None | Some (Inl f) \<Rightarrow> Some (Inl f) | Some (Inr x) \<Rightarrow> k x)"

lemma and_then_simps [simp]:
  "and_then None k = None" "and_then (Some (Inl f)) k = Some (Inl f)" "and_then (Some (Inr x)) k = k x"
  by (simp_all add: and_then_def)

lemma and_then_OK: "and_then r k = Some (Inr y) \<longleftrightarrow> (\<exists>x. r = Some (Inr x) \<and> k x = Some (Inr y))"
  by (auto simp: and_then_def split: option.splits sum.splits)

text \<open>The remainder of unsigned integers.\<close>

definition umod :: "uint32_t \<Rightarrow> uint32_t \<Rightarrow> fault + uint32_t" where
  "umod a b = (if b = 0 then Inl DivideByZero else Inr (a mod b))"

end
