(* ===== verification/Data_Pipe.thy ===== *)
theory Data_Pipe
  imports Node_Controller Mojo_Types
begin

text \<open>
  Data pipes (\<open>data_pipe_producer_dispatcher.cc\<close>, \<open>data_pipe_consumer_dispatcher.cc\<close>,
  \<open>data_pipe_control_message.cc\<close>): a producer and a consumer share a ring buffer in memory and keep each
  other informed over a pair of control ports.  Shared buffers are named by numbers and their contents
  live in the environment next to the node controller; what the platform does to create, duplicate and
  map them is a parameter.  An operation runs under the dispatcher's lock and is one step; the port
  observers it triggers are recorded by the controller and run as steps of their own.

  The fields of a port status that is not available are uninitialised in the code; the value that is
  read then is the parameter \<open>stale\<close>.
\<close>

section \<open>Control messages and shared memory\<close>

datatype DataPipeCommand = DATA_WAS_WRITTEN | DATA_WAS_READ

fun command_code :: "DataPipeCommand \<Rightarrow> uint32_t" where
  "command_code DATA_WAS_WRITTEN = 0"
| "command_code DATA_WAS_READ = 1"

type_synonym buffer_ref = nat

record PipeEnv =
  pe_controller :: "NodeController"
  pe_memory :: "buffer_ref \<Rightarrow> uint8_t list"

definition DataPipeControlMessage :: "DataPipeCommand \<Rightarrow> uint32_t \<Rightarrow> uint8_t list" where
  "DataPipeControlMessage command nbytes = write_u32 (command_code command) @ write_u32 nbytes"

definition SendDataPipeControlMessage ::
  "nat \<Rightarrow> PortRef \<Rightarrow> DataPipeCommand \<Rightarrow> uint32_t \<Rightarrow> PipeEnv \<Rightarrow> PipeEnv outcome" where
  "SendDataPipeControlMessage fuel port command nbytes e =
     and_then (NC_SendMessage fuel port (NewUserMessage [] (DataPipeControlMessage command nbytes)) (pe_controller e))
       (\<lambda>(_, _, c). Some (Inr (e\<lparr>pe_controller := c\<rparr>)))"

text \<open>Copies into and out of a block of memory.\<close>

definition copy_in :: "nat \<Rightarrow> uint8_t list \<Rightarrow> uint8_t list \<Rightarrow> fault + uint8_t list" where
  "copy_in off bs mem =
     (if off + length bs \<le> length mem then Inr (take off mem @ bs @ drop (off + length bs) mem) else Inl OutOfBounds)"

definition copy_out :: "nat \<Rightarrow> nat \<Rightarrow> uint8_t list \<Rightarrow> fault + uint8_t list" where
  "copy_out off n mem = (if off + n \<le> length mem then Inr (take n (drop off mem)) else Inl OutOfBounds)"

text \<open>The two-part copies of \<open>WriteData\<close> and \<open>ReadData\<close>: up to the end of the ring, then from its start.\<close>

definition ring_write :: "uint32_t \<Rightarrow> uint32_t \<Rightarrow> uint8_t list \<Rightarrow> uint32_t \<Rightarrow> uint8_t list \<Rightarrow> fault + uint8_t list" where
  "ring_write write_offset capacity source num_bytes_to_write mem =
     (let tail_bytes_to_write = min (capacity - write_offset) num_bytes_to_write;
          head_bytes_to_write = num_bytes_to_write - tail_bytes_to_write
      in case copy_out 0 (unat tail_bytes_to_write) source of
           Inl f \<Rightarrow> Inl f
         | Inr t \<Rightarrow>
             (case copy_in (unat write_offset) t mem of
                Inl f \<Rightarrow> Inl f
              | Inr mem1 \<Rightarrow>
                  if head_bytes_to_write > 0
                  then (case copy_out (unat tail_bytes_to_write) (unat head_bytes_to_write) source of
                          Inl f \<Rightarrow> Inl f
                        | Inr h \<Rightarrow> copy_in 0 h mem1)
                  else Inr mem1))"

definition ring_read :: "uint32_t \<Rightarrow> uint32_t \<Rightarrow> uint32_t \<Rightarrow> uint8_t list \<Rightarrow> fault + uint8_t list" where
  "ring_read read_offset capacity bytes_to_read mem =
     (let tail_bytes_to_copy = min (capacity - read_offset) bytes_to_read;
          head_bytes_to_copy = bytes_to_read - tail_bytes_to_copy
      in case (if tail_bytes_to_copy > 0 then copy_out (unat read_offset) (unat tail_bytes_to_copy) mem else Inr []) of
           Inl f \<Rightarrow> Inl f
         | Inr t \<Rightarrow>
             (case (if head_bytes_to_copy > 0 then copy_out 0 (unat head_bytes_to_copy) mem else Inr []) of
                Inl f \<Rightarrow> Inl f
              | Inr h \<Rightarrow> Inr (t @ h)))"

section \<open>Reading the control port\<close>

lemma make_signalable_heap:
  "make_signalable nms n = Inr n' \<Longrightarrow>
     mq_heap (message_queue (port_at n' b)) = mq_heap (message_queue (port_at n b))"
  by (induction nms n rule: make_signalable.induct) (auto split: option.splits if_splits)

lemma GetMessageIf_shrinks:
  assumes "GetMessageIf r sel n = Inr (rv, Some m, n')"
  shows "length (mq_heap (message_queue (port_at n' (ref_port r)))) < length (mq_heap (message_queue (port_at n (ref_port r))))"
proof -
  let ?q = "message_queue (port_at n (ref_port r))"
  obtain q where q: "GetNextMessageIf sel ?q = (Some m, q)"
    "make_signalable (msg_ports m) (modify_port (ref_port r) (\<lambda>p. p\<lparr>message_queue := q\<rparr>) n) = Inr n'"
    using assms by (auto simp: GetMessageIf_def Let_def split: if_splits prod.splits option.splits sum.splits)
  then show ?thesis using make_signalable_heap [OF q(2), of "ref_port r"] GetNextMessageIf_length [OF q(1)]
    by (simp add: modify_port_def)
qed

text \<open>
  The loop of \<open>UpdateSignalsStateNoLock\<close>, the same in both dispatchers but for the command it expects and
  for an amount that exceeds the capacity, which only the consumer takes for a closed peer.
\<close>

function control_loop ::
  "DataPipeCommand \<Rightarrow> bool \<Rightarrow> uint32_t \<Rightarrow> PortRef \<Rightarrow> bool \<Rightarrow> uint32_t \<Rightarrow> Node \<Rightarrow> fault + bool \<times> uint32_t \<times> Node" where
  "control_loop command excess_closes capacity port closed amount n =
     (case GetMessageIf port None n of
        Inl f \<Rightarrow> Inl f
      | Inr (rv, None, n') \<Rightarrow> Inr (closed \<or> rv \<noteq> OK, amount, n')
      | Inr (rv, Some m, n') \<Rightarrow>
          if length (msg_payload m) < 8 then Inl OutOfBounds
          else let nbytes = read_u32 (drop 4 (msg_payload m))
               in if read_u32 (msg_payload m) \<noteq> command_code command then Inr (True, amount, n')
                  else if unat amount + unat nbytes > unat capacity then Inr (closed \<or> rv \<noteq> OK \<or> excess_closes, amount, n')
                  else control_loop command excess_closes capacity port (closed \<or> rv \<noteq> OK) (amount + nbytes) n')"
  by pat_completeness auto
termination
  by (relation "measure (\<lambda>(_, _, _, port, _, _, n). length (mq_heap (message_queue (port_at n (ref_port port)))))")
    (auto dest: GetMessageIf_shrinks)

declare control_loop.simps [simp del]

text \<open>The first half of \<open>UpdateSignalsStateNoLock\<close>: the new \<open>peer_closed_\<close>, the new amount and the node.\<close>

definition read_control_port ::
  "DataPipeCommand \<Rightarrow> bool \<Rightarrow> bool \<Rightarrow> uint32_t \<Rightarrow> PortRef \<Rightarrow> bool \<Rightarrow> bool \<Rightarrow> uint32_t \<Rightarrow> Node \<Rightarrow>
     fault + bool \<times> uint32_t \<times> Node" where
  "read_control_port command excess_closes stale capacity port in_transit closed amount n =
     (let (rv, status) = GetStatus port n;
          closed' = (closed \<or> rv \<noteq> OK \<or> (case status of None \<Rightarrow> False | Some s \<Rightarrow> \<not> receiving_messages s));
          has = (case status of None \<Rightarrow> stale | Some s \<Rightarrow> has_messages s)
      in if has \<and> \<not> in_transit then control_loop command excess_closes capacity port closed' amount n
         else Inr (closed', amount, n))"

section \<open>The producer\<close>

record Producer =
  p_options :: MojoCreateDataPipeOptions
  p_control_port :: PortRef
  p_pipe_id :: uint64_t
  p_observer :: callback
  p_awakable_list :: "awakable_call list"
  p_shared_ring_buffer :: "buffer_ref option"
  p_ring_buffer_mapping :: "buffer_ref option"
  p_buffer_handle_for_transit :: "PlatformHandle option"
  p_in_transit :: bool
  p_is_closed :: bool
  p_peer_closed :: bool
  p_transferred :: bool
  p_in_two_phase_write :: bool
  p_write_offset :: uint32_t
  p_available_capacity :: uint32_t

abbreviation p_capacity :: "Producer \<Rightarrow> uint32_t" where
  "p_capacity p \<equiv> capacity_num_bytes (p_options p)"

definition P_awake :: "awakable_call \<Rightarrow> Producer \<Rightarrow> Producer" where
  "P_awake x p = p\<lparr>p_awakable_list := p_awakable_list p @ [x]\<rparr>"

definition P_GetHandleSignalsStateNoLock :: "Producer \<Rightarrow> HandleSignalsState" where
  "P_GetHandleSignalsStateNoLock p =
     (if \<not> p_peer_closed p
      then \<lparr>satisfied_signals =
              (if \<not> p_in_two_phase_write p \<and> p_shared_ring_buffer p \<noteq> None \<and> p_available_capacity p > 0
               then {MOJO_HANDLE_SIGNAL_WRITABLE} else {}),
            satisfiable_signals = {MOJO_HANDLE_SIGNAL_WRITABLE, MOJO_HANDLE_SIGNAL_PEER_CLOSED}\<rparr>
      else \<lparr>satisfied_signals = {MOJO_HANDLE_SIGNAL_PEER_CLOSED},
            satisfiable_signals = {MOJO_HANDLE_SIGNAL_PEER_CLOSED}\<rparr>)"

definition NotifyWrite :: "nat \<Rightarrow> uint32_t \<Rightarrow> Producer \<Rightarrow> PipeEnv \<Rightarrow> PipeEnv outcome" where
  "NotifyWrite fuel nbytes p e = SendDataPipeControlMessage fuel (p_control_port p) DATA_WAS_WRITTEN nbytes e"

definition P_UpdateSignalsStateNoLock :: "bool \<Rightarrow> Producer \<Rightarrow> PipeEnv \<Rightarrow> fault + Producer \<times> PipeEnv" where
  "P_UpdateSignalsStateNoLock stale p e =
     (case read_control_port DATA_WAS_READ False stale (p_capacity p) (p_control_port p) (p_in_transit p)
             (p_peer_closed p) (p_available_capacity p) (nc_node (pe_controller e)) of
        Inl f \<Rightarrow> Inl f
      | Inr (closed, available, n) \<Rightarrow>
          let p1 = p\<lparr>p_peer_closed := closed, p_available_capacity := available\<rparr>
          in Inr (if closed \<noteq> p_peer_closed p \<or> available \<noteq> p_available_capacity p
                  then P_awake (AwakeForStateChange (P_GetHandleSignalsStateNoLock p1)) p1 else p1,
                  e\<lparr>pe_controller := set_node n (pe_controller e)\<rparr>))"

definition P_OnPortStatusChanged :: "bool \<Rightarrow> Producer \<Rightarrow> PipeEnv \<Rightarrow> fault + Producer \<times> PipeEnv" where
  "P_OnPortStatusChanged stale p e = (if p_transferred p then Inr (p, e) else P_UpdateSignalsStateNoLock stale p e)"

definition P_InitializeNoLock :: "(buffer_ref \<Rightarrow> uint32_t \<Rightarrow> bool) \<Rightarrow> Producer \<Rightarrow> PipeEnv \<Rightarrow> Producer \<times> PipeEnv" where
  "P_InitializeNoLock Map p e =
     ((case p_shared_ring_buffer p of
         None \<Rightarrow> p
       | Some b \<Rightarrow> if Map b (p_capacity p) then p\<lparr>p_ring_buffer_mapping := Some b\<rparr>
                   else p\<lparr>p_ring_buffer_mapping := None, p_shared_ring_buffer := None\<rparr>),
      e\<lparr>pe_controller := SetPortObserver (p_control_port p) (Some (p_observer p)) (pe_controller e)\<rparr>)"

definition DataPipeProducerDispatcher ::
  "(buffer_ref \<Rightarrow> uint32_t \<Rightarrow> bool) \<Rightarrow> callback \<Rightarrow> PortRef \<Rightarrow> buffer_ref option \<Rightarrow> MojoCreateDataPipeOptions \<Rightarrow> bool \<Rightarrow>
     uint64_t \<Rightarrow> PipeEnv \<Rightarrow> Producer \<times> PipeEnv" where
  "DataPipeProducerDispatcher Map observer control_port buffer options initialized pipe_id e =
     (let p = \<lparr>p_options = options, p_control_port = control_port, p_pipe_id = pipe_id, p_observer = observer,
               p_awakable_list = [], p_shared_ring_buffer = buffer, p_ring_buffer_mapping = None,
               p_buffer_handle_for_transit = None, p_in_transit = False, p_is_closed = False, p_peer_closed = False,
               p_transferred = False, p_in_two_phase_write = False, p_write_offset = 0,
               p_available_capacity = capacity_num_bytes options\<rparr>
      in if initialized then P_InitializeNoLock Map p e else (p, e))"

definition P_CloseNoLock :: "nat \<Rightarrow> Producer \<Rightarrow> PipeEnv \<Rightarrow> (MojoResult \<times> Producer \<times> PipeEnv) outcome" where
  "P_CloseNoLock fuel p e =
     (if p_is_closed p \<or> p_in_transit p then Some (Inr (MOJO_RESULT_INVALID_ARGUMENT, p, e))
      else let p1 = P_awake CancelAll (p\<lparr>p_is_closed := True, p_ring_buffer_mapping := None, p_shared_ring_buffer := None\<rparr>)
           in if \<not> p_transferred p
              then and_then (NC_ClosePort fuel (p_control_port p) (pe_controller e))
                     (\<lambda>c. Some (Inr (MOJO_RESULT_OK, p1, e\<lparr>pe_controller := c\<rparr>)))
              else Some (Inr (MOJO_RESULT_OK, p1, e)))"

definition P_Close :: "nat \<Rightarrow> Producer \<Rightarrow> PipeEnv \<Rightarrow> (MojoResult \<times> Producer \<times> PipeEnv) outcome" where
  "P_Close fuel p e = P_CloseNoLock fuel p e"

definition WriteData ::
  "nat \<Rightarrow> signals_ops \<Rightarrow> uint8_t list option \<Rightarrow> uint32_t \<Rightarrow> write_flag set \<Rightarrow> Producer \<Rightarrow> PipeEnv \<Rightarrow>
     (MojoResult \<times> uint32_t \<times> Producer \<times> PipeEnv) outcome" where
  "WriteData fuel hs elements nbytes flags p e =
     (let return = (\<lambda>rv. Some (Inr (rv, nbytes, p, e)))
      in if p_shared_ring_buffer p = None \<or> p_in_transit p then return MOJO_RESULT_INVALID_ARGUMENT
         else if p_in_two_phase_write p then return MOJO_RESULT_BUSY
         else if p_peer_closed p then return MOJO_RESULT_FAILED_PRECONDITION
         else and_then (Some (umod nbytes (element_num_bytes (p_options p)))) (\<lambda>r.
           if r \<noteq> 0 then return MOJO_RESULT_INVALID_ARGUMENT
           else if nbytes = 0 then return MOJO_RESULT_OK
           else let all_or_none = (MOJO_WRITE_DATA_FLAG_ALL_OR_NONE \<in> flags);
                    min_num_bytes_to_write = (if all_or_none then nbytes else 0);
                    num_bytes_to_write = min nbytes (p_available_capacity p)
                in if min_num_bytes_to_write > p_capacity p then return MOJO_RESULT_OUT_OF_RANGE
                   else if num_bytes_to_write = 0 then return MOJO_RESULT_SHOULD_WAIT
                   else (case (p_ring_buffer_mapping p, elements) of
                           (Some b, Some source) \<Rightarrow>
                             and_then (Some (ring_write (p_write_offset p) (p_capacity p) source num_bytes_to_write (pe_memory e b))) (\<lambda>mem.
                             and_then (Some (umod (p_write_offset p + num_bytes_to_write) (p_capacity p))) (\<lambda>offset.
                               let p1 = p\<lparr>p_available_capacity := p_available_capacity p - num_bytes_to_write,
                                          p_write_offset := offset\<rparr>;
                                   old_state = P_GetHandleSignalsStateNoLock p;
                                   new_state = P_GetHandleSignalsStateNoLock p1;
                                   p2 = (if \<not> hs_equals hs new_state old_state then P_awake (AwakeForStateChange new_state) p1 else p1)
                               in and_then (NotifyWrite fuel num_bytes_to_write p2 (e\<lparr>pe_memory := (pe_memory e)(b := mem)\<rparr>))
                                    (\<lambda>e'. Some (Inr (MOJO_RESULT_OK, num_bytes_to_write, p2, e')))))
                         | _ \<Rightarrow> Some (Inl CheckFailure))))"

text \<open>The buffer that a two-phase access hands out is the block of memory with an offset and a length.\<close>

definition BeginWriteData ::
  "Producer \<Rightarrow> fault + MojoResult \<times> (buffer_ref \<times> uint32_t \<times> uint32_t) option \<times> Producer" where
  "BeginWriteData p =
     (if p_shared_ring_buffer p = None \<or> p_in_transit p then Inr (MOJO_RESULT_INVALID_ARGUMENT, None, p)
      else if p_in_two_phase_write p then Inr (MOJO_RESULT_BUSY, None, p)
      else if p_peer_closed p then Inr (MOJO_RESULT_FAILED_PRECONDITION, None, p)
      else if p_available_capacity p = 0 then Inr (MOJO_RESULT_SHOULD_WAIT, None, p)
      else (case p_ring_buffer_mapping p of
              None \<Rightarrow> Inl CheckFailure
            | Some b \<Rightarrow>
                Inr (MOJO_RESULT_OK,
                     Some (b, p_write_offset p, min (p_capacity p - p_write_offset p) (p_available_capacity p)),
                     p\<lparr>p_in_two_phase_write := True\<rparr>)))"

definition EndWriteData ::
  "nat \<Rightarrow> signals_ops \<Rightarrow> uint32_t \<Rightarrow> Producer \<Rightarrow> PipeEnv \<Rightarrow> (MojoResult \<times> Producer \<times> PipeEnv) outcome" where
  "EndWriteData fuel hs num_bytes_written p e =
     (if p_is_closed p \<or> p_in_transit p then Some (Inr (MOJO_RESULT_INVALID_ARGUMENT, p, e))
      else if \<not> p_in_two_phase_write p then Some (Inr (MOJO_RESULT_FAILED_PRECONDITION, p, e))
      else let finish = (\<lambda>rv p e.
             let p1 = p\<lparr>p_in_two_phase_write := False\<rparr>;
                 new_state = P_GetHandleSignalsStateNoLock p1
             in Some (Inr (rv, if hs_satisfies hs new_state {MOJO_HANDLE_SIGNAL_WRITABLE}
                               then P_awake (AwakeForStateChange new_state) p1 else p1, e)))
           in if num_bytes_written > p_available_capacity p then finish MOJO_RESULT_INVALID_ARGUMENT p e
              else and_then (Some (umod num_bytes_written (element_num_bytes (p_options p)))) (\<lambda>r.
                if r \<noteq> 0 \<or> p_write_offset p + num_bytes_written > p_capacity p
                then finish MOJO_RESULT_INVALID_ARGUMENT p e
                else and_then (Some (umod (p_write_offset p + num_bytes_written) (p_capacity p))) (\<lambda>offset.
                  let p1 = p\<lparr>p_available_capacity := p_available_capacity p - num_bytes_written, p_write_offset := offset\<rparr>
                  in and_then (NotifyWrite fuel num_bytes_written p1 e) (\<lambda>e'. finish MOJO_RESULT_OK p1 e'))))"

definition P_AddAwakable ::
  "bool \<Rightarrow> signals_ops \<Rightarrow> nat \<Rightarrow> signal set \<Rightarrow> nat \<Rightarrow> Producer \<Rightarrow> PipeEnv \<Rightarrow>
     fault + MojoResult \<times> HandleSignalsState option \<times> Producer \<times> PipeEnv" where
  "P_AddAwakable stale hs awakable signals context p e =
     (if p_shared_ring_buffer p = None \<or> p_in_transit p
      then Inr (MOJO_RESULT_INVALID_ARGUMENT, Some \<lparr>satisfied_signals = {}, satisfiable_signals = {}\<rparr>, p, e)
      else (case P_UpdateSignalsStateNoLock stale p e of
              Inl f \<Rightarrow> Inl f
            | Inr (p1, e1) \<Rightarrow>
                let st = P_GetHandleSignalsStateNoLock p1
                in if hs_satisfies hs st signals then Inr (MOJO_RESULT_ALREADY_EXISTS, Some st, p1, e1)
                   else if \<not> hs_can_satisfy hs st signals then Inr (MOJO_RESULT_FAILED_PRECONDITION, Some st, p1, e1)
                   else Inr (MOJO_RESULT_OK, None, P_awake (AddAwakable_call awakable signals context) p1, e1)))"

definition P_RemoveAwakable :: "nat \<Rightarrow> Producer \<Rightarrow> HandleSignalsState \<times> Producer" where
  "P_RemoveAwakable awakable p =
     (if p_shared_ring_buffer p = None \<or> p_in_transit p then \<lparr>satisfied_signals = {}, satisfiable_signals = {}\<rparr>
      else P_GetHandleSignalsStateNoLock p,
      P_awake (RemoveAwakable_call awakable) p)"

record P_SerializedState =
  ps_options :: MojoCreateDataPipeOptions
  ps_pipe_id :: uint64_t
  ps_peer_closed :: bool
  ps_write_offset :: uint32_t
  ps_available_capacity :: uint32_t

text \<open>The number of ports and of handles that \<open>StartSerialize\<close> announces, and what \<open>EndSerialize\<close> stores.\<close>

definition P_StartSerialize :: "nat \<times> nat" where
  "P_StartSerialize = (1, 1)"

definition P_EndSerialize ::
  "(buffer_ref \<Rightarrow> PlatformHandle) \<Rightarrow> Producer \<Rightarrow> fault + (P_SerializedState \<times> PortName list \<times> PlatformHandle list) \<times> Producer" where
  "P_EndSerialize DuplicatePlatformHandle p =
     (case p_shared_ring_buffer p of
        None \<Rightarrow> Inl NullPointer
      | Some b \<Rightarrow>
          let h = DuplicatePlatformHandle b
          in Inr ((\<lparr>ps_options = p_options p, ps_pipe_id = p_pipe_id p, ps_peer_closed = p_peer_closed p,
                    ps_write_offset = p_write_offset p, ps_available_capacity = p_available_capacity p\<rparr>,
                   [ref_name (p_control_port p)], [h]), p\<lparr>p_buffer_handle_for_transit := Some h\<rparr>))"

definition P_BeginTransit :: "Producer \<Rightarrow> bool \<times> Producer" where
  "P_BeginTransit p =
     (if p_in_transit p then (False, p)
      else (\<not> p_in_two_phase_write p, p\<lparr>p_in_transit := \<not> p_in_two_phase_write p\<rparr>))"

definition P_CompleteTransitAndClose :: "nat \<Rightarrow> Producer \<Rightarrow> PipeEnv \<Rightarrow> (Producer \<times> PipeEnv) outcome" where
  "P_CompleteTransitAndClose fuel p e =
     (let e1 = e\<lparr>pe_controller := SetPortObserver (p_control_port p) None (pe_controller e)\<rparr>;
          p1 = p\<lparr>p_transferred := True, p_in_transit := False, p_buffer_handle_for_transit := None\<rparr>
      in and_then (P_CloseNoLock fuel p1 e1) (\<lambda>(_, p2, e2). Some (Inr (p2, e2))))"

definition P_CancelTransit :: "Producer \<Rightarrow> Producer" where
  "P_CancelTransit p =
     (let p1 = p\<lparr>p_in_transit := False, p_buffer_handle_for_transit := None\<rparr>
      in P_awake (AwakeForStateChange (P_GetHandleSignalsStateNoLock p1)) p1)"

text \<open>Serialised data of another size than the structure's is \<open>None\<close>.\<close>

definition P_Deserialize ::
  "(uint32_t \<Rightarrow> PlatformHandle \<Rightarrow> buffer_ref option) \<Rightarrow> (buffer_ref \<Rightarrow> uint32_t \<Rightarrow> bool) \<Rightarrow> callback \<Rightarrow>
     P_SerializedState option \<Rightarrow> PortName list \<Rightarrow> PlatformHandle list \<Rightarrow> PipeEnv \<Rightarrow> Producer option \<times> PipeEnv" where
  "P_Deserialize CreateSharedBufferFromHandle Map observer data nms handles e =
     (case (data, nms, handles) of
        (Some st, [nm], [h]) \<Rightarrow>
          (case GetPort nm (nc_node (pe_controller e)) of
             (OK, Some port) \<Rightarrow>
               (case CreateSharedBufferFromHandle (capacity_num_bytes (ps_options st)) h of
                  None \<Rightarrow> (None, e)
                | Some ring_buffer \<Rightarrow>
                    let (p, e1) = DataPipeProducerDispatcher Map observer port (Some ring_buffer) (ps_options st) False
                                    (ps_pipe_id st) e;
                        p1 = p\<lparr>p_peer_closed := ps_peer_closed st, p_write_offset := ps_write_offset st,
                               p_available_capacity := ps_available_capacity st\<rparr>;
                        (p2, e2) = P_InitializeNoLock Map p1 e1
                    in (Some p2, e2))
           | _ \<Rightarrow> (None, e))
      | _ \<Rightarrow> (None, e))"

section \<open>The consumer\<close>

record Consumer =
  c_options :: MojoCreateDataPipeOptions
  c_control_port :: PortRef
  c_pipe_id :: uint64_t
  c_observer :: callback
  c_awakable_list :: "awakable_call list"
  c_shared_ring_buffer :: "buffer_ref option"
  c_ring_buffer_mapping :: "buffer_ref option"
  c_buffer_handle_for_transit :: "PlatformHandle option"
  c_in_two_phase_read :: bool
  c_two_phase_max_bytes_read :: uint32_t
  c_in_transit :: bool
  c_is_closed :: bool
  c_peer_closed :: bool
  c_transferred :: bool
  c_read_offset :: uint32_t
  c_bytes_available :: uint32_t

abbreviation c_capacity :: "Consumer \<Rightarrow> uint32_t" where
  "c_capacity c \<equiv> capacity_num_bytes (c_options c)"

definition C_awake :: "awakable_call \<Rightarrow> Consumer \<Rightarrow> Consumer" where
  "C_awake x c = c\<lparr>c_awakable_list := c_awakable_list c @ [x]\<rparr>"

definition C_GetHandleSignalsStateNoLock :: "Consumer \<Rightarrow> HandleSignalsState" where
  "C_GetHandleSignalsStateNoLock c =
     (let readable = (c_shared_ring_buffer c \<noteq> None \<and> c_bytes_available c \<noteq> 0)
      in \<lparr>satisfied_signals =
            (if readable \<and> \<not> c_in_two_phase_read c then {MOJO_HANDLE_SIGNAL_READABLE} else {}) \<union>
            (if c_peer_closed c then {MOJO_HANDLE_SIGNAL_PEER_CLOSED} else {}),
          satisfiable_signals =
            (if readable \<or> \<not> c_peer_closed c \<and> c_shared_ring_buffer c \<noteq> None
             then {MOJO_HANDLE_SIGNAL_READABLE} else {}) \<union> {MOJO_HANDLE_SIGNAL_PEER_CLOSED}\<rparr>)"

definition NotifyRead :: "nat \<Rightarrow> uint32_t \<Rightarrow> Consumer \<Rightarrow> PipeEnv \<Rightarrow> PipeEnv outcome" where
  "NotifyRead fuel nbytes c e = SendDataPipeControlMessage fuel (c_control_port c) DATA_WAS_READ nbytes e"

definition C_UpdateSignalsStateNoLock :: "bool \<Rightarrow> Consumer \<Rightarrow> PipeEnv \<Rightarrow> fault + Consumer \<times> PipeEnv" where
  "C_UpdateSignalsStateNoLock stale c e =
     (case read_control_port DATA_WAS_WRITTEN True stale (c_capacity c) (c_control_port c) (c_in_transit c)
             (c_peer_closed c) (c_bytes_available c) (nc_node (pe_controller e)) of
        Inl f \<Rightarrow> Inl f
      | Inr (closed, available, n) \<Rightarrow>
          let c1 = c\<lparr>c_peer_closed := closed, c_bytes_available := available\<rparr>
          in Inr (if closed \<noteq> c_peer_closed c \<or> available \<noteq> c_bytes_available c
                  then C_awake (AwakeForStateChange (C_GetHandleSignalsStateNoLock c1)) c1 else c1,
                  e\<lparr>pe_controller := set_node n (pe_controller e)\<rparr>))"

definition C_OnPortStatusChanged :: "bool \<Rightarrow> Consumer \<Rightarrow> PipeEnv \<Rightarrow> fault + Consumer \<times> PipeEnv" where
  "C_OnPortStatusChanged stale c e = (if c_transferred c then Inr (c, e) else C_UpdateSignalsStateNoLock stale c e)"

definition C_InitializeNoLock :: "(buffer_ref \<Rightarrow> uint32_t \<Rightarrow> bool) \<Rightarrow> Consumer \<Rightarrow> PipeEnv \<Rightarrow> Consumer \<times> PipeEnv" where
  "C_InitializeNoLock Map c e =
     ((case c_shared_ring_buffer c of
         None \<Rightarrow> c
       | Some b \<Rightarrow> if Map b (c_capacity c) then c\<lparr>c_ring_buffer_mapping := Some b\<rparr>
                   else c\<lparr>c_ring_buffer_mapping := None, c_shared_ring_buffer := None\<rparr>),
      e\<lparr>pe_controller := SetPortObserver (c_control_port c) (Some (c_observer c)) (pe_controller e)\<rparr>)"

definition DataPipeConsumerDispatcher ::
  "(buffer_ref \<Rightarrow> uint32_t \<Rightarrow> bool) \<Rightarrow> callback \<Rightarrow> PortRef \<Rightarrow> buffer_ref option \<Rightarrow> MojoCreateDataPipeOptions \<Rightarrow> bool \<Rightarrow>
     uint64_t \<Rightarrow> PipeEnv \<Rightarrow> Consumer \<times> PipeEnv" where
  "DataPipeConsumerDispatcher Map observer control_port buffer options initialized pipe_id e =
     (let c = \<lparr>c_options = options, c_control_port = control_port, c_pipe_id = pipe_id, c_observer = observer,
               c_awakable_list = [], c_shared_ring_buffer = buffer, c_ring_buffer_mapping = None,
               c_buffer_handle_for_transit = None, c_in_two_phase_read = False, c_two_phase_max_bytes_read = 0,
               c_in_transit = False, c_is_closed = False, c_peer_closed = False, c_transferred = False,
               c_read_offset = 0, c_bytes_available = 0\<rparr>
      in if initialized then C_InitializeNoLock Map c e else (c, e))"

definition C_CloseNoLock :: "nat \<Rightarrow> Consumer \<Rightarrow> PipeEnv \<Rightarrow> (MojoResult \<times> Consumer \<times> PipeEnv) outcome" where
  "C_CloseNoLock fuel c e =
     (if c_is_closed c \<or> c_in_transit c then Some (Inr (MOJO_RESULT_INVALID_ARGUMENT, c, e))
      else let c1 = C_awake CancelAll (c\<lparr>c_is_closed := True, c_ring_buffer_mapping := None, c_shared_ring_buffer := None\<rparr>)
           in if \<not> c_transferred c
              then and_then (NC_ClosePort fuel (c_control_port c) (pe_controller e))
                     (\<lambda>nc. Some (Inr (MOJO_RESULT_OK, c1, e\<lparr>pe_controller := nc\<rparr>)))
              else Some (Inr (MOJO_RESULT_OK, c1, e)))"

definition C_Close :: "nat \<Rightarrow> Consumer \<Rightarrow> PipeEnv \<Rightarrow> (MojoResult \<times> Consumer \<times> PipeEnv) outcome" where
  "C_Close fuel c e = C_CloseNoLock fuel c e"

text \<open>The bytes that are copied to the caller are part of the result; \<open>elements\<close> says that its buffer is not null.\<close>

definition ReadData ::
  "nat \<Rightarrow> bool \<Rightarrow> uint32_t \<Rightarrow> read_flag set \<Rightarrow> Consumer \<Rightarrow> PipeEnv \<Rightarrow>
     (MojoResult \<times> uint32_t \<times> uint8_t list \<times> Consumer \<times> PipeEnv) outcome" where
  "ReadData fuel elements nbytes flags c e =
     (let return = (\<lambda>rv. Some (Inr (rv, nbytes, [], c, e)))
      in if c_shared_ring_buffer c = None \<or> c_in_transit c then return MOJO_RESULT_INVALID_ARGUMENT
         else if c_in_two_phase_read c then return MOJO_RESULT_BUSY
         else if MOJO_READ_DATA_FLAG_QUERY \<in> flags
         then (if MOJO_READ_DATA_FLAG_PEEK \<in> flags \<or> MOJO_READ_DATA_FLAG_DISCARD \<in> flags
               then return MOJO_RESULT_INVALID_ARGUMENT
               else Some (Inr (MOJO_RESULT_OK, c_bytes_available c, [], c, e)))
         else let discard = (MOJO_READ_DATA_FLAG_DISCARD \<in> flags);
                  peek = (MOJO_READ_DATA_FLAG_PEEK \<in> flags);
                  all_or_none = (MOJO_READ_DATA_FLAG_ALL_OR_NONE \<in> flags)
              in if discard \<and> peek then return MOJO_RESULT_INVALID_ARGUMENT
                 else and_then (Some (umod nbytes (element_num_bytes (c_options c)))) (\<lambda>r.
                   if r \<noteq> 0 then return MOJO_RESULT_INVALID_ARGUMENT
                   else let min_num_bytes_to_read = (if all_or_none then nbytes else 0);
                            bytes_to_read = min nbytes (c_bytes_available c)
                        in if min_num_bytes_to_read > c_bytes_available c
                           then return (if c_peer_closed c then MOJO_RESULT_FAILED_PRECONDITION else MOJO_RESULT_OUT_OF_RANGE)
                           else if bytes_to_read = 0
                           then return (if c_peer_closed c then MOJO_RESULT_FAILED_PRECONDITION else MOJO_RESULT_SHOULD_WAIT)
                           else and_then
                             (if discard then Some (Inr [])
                              else (case c_ring_buffer_mapping c of
                                      None \<Rightarrow> Some (Inl NullPointer)
                                    | Some b \<Rightarrow>
                                        if \<not> elements then Some (Inl CheckFailure)
                                        else Some (ring_read (c_read_offset c) (c_capacity c) bytes_to_read (pe_memory e b))))
                             (\<lambda>bytes.
                                if discard \<or> \<not> peek
                                then and_then (Some (umod (c_read_offset c + bytes_to_read) (c_capacity c))) (\<lambda>offset.
                                  let c1 = c\<lparr>c_read_offset := offset, c_bytes_available := c_bytes_available c - bytes_to_read\<rparr>
                                  in and_then (NotifyRead fuel bytes_to_read c1 e)
                                       (\<lambda>e'. Some (Inr (MOJO_RESULT_OK, bytes_to_read, bytes, c1, e'))))
                                else Some (Inr (MOJO_RESULT_OK, bytes_to_read, bytes, c, e)))))"

definition BeginReadData ::
  "read_flag set \<Rightarrow> Consumer \<Rightarrow> fault + MojoResult \<times> (buffer_ref \<times> uint32_t \<times> uint32_t) option \<times> Consumer" where
  "BeginReadData flags c =
     (if c_shared_ring_buffer c = None \<or> c_in_transit c then Inr (MOJO_RESULT_INVALID_ARGUMENT, None, c)
      else if c_in_two_phase_read c then Inr (MOJO_RESULT_BUSY, None, c)
      else if MOJO_READ_DATA_FLAG_DISCARD \<in> flags \<or> MOJO_READ_DATA_FLAG_QUERY \<in> flags \<or> MOJO_READ_DATA_FLAG_PEEK \<in> flags
      then Inr (MOJO_RESULT_INVALID_ARGUMENT, None, c)
      else if c_bytes_available c = 0
      then Inr (if c_peer_closed c then MOJO_RESULT_FAILED_PRECONDITION else MOJO_RESULT_SHOULD_WAIT, None, c)
      else let bytes_to_read = min (c_bytes_available c) (c_capacity c - c_read_offset c)
           in (case c_ring_buffer_mapping c of
                 None \<Rightarrow> Inl CheckFailure
               | Some b \<Rightarrow> Inr (MOJO_RESULT_OK, Some (b, c_read_offset c, bytes_to_read),
                   c\<lparr>c_in_two_phase_read := True, c_two_phase_max_bytes_read := bytes_to_read\<rparr>)))"

definition EndReadData ::
  "nat \<Rightarrow> signals_ops \<Rightarrow> uint32_t \<Rightarrow> Consumer \<Rightarrow> PipeEnv \<Rightarrow> (MojoResult \<times> Consumer \<times> PipeEnv) outcome" where
  "EndReadData fuel hs num_bytes_read c e =
     (if \<not> c_in_two_phase_read c then Some (Inr (MOJO_RESULT_FAILED_PRECONDITION, c, e))
      else if c_in_transit c then Some (Inr (MOJO_RESULT_INVALID_ARGUMENT, c, e))
      else if c_shared_ring_buffer c = None then Some (Inl CheckFailure)
      else let old_state = C_GetHandleSignalsStateNoLock c;
               finish = (\<lambda>rv c e.
                 let c1 = c\<lparr>c_in_two_phase_read := False, c_two_phase_max_bytes_read := 0\<rparr>;
                     new_state = C_GetHandleSignalsStateNoLock c1
                 in Some (Inr (rv, if \<not> hs_equals hs new_state old_state
                                   then C_awake (AwakeForStateChange new_state) c1 else c1, e)))
           in if num_bytes_read > c_two_phase_max_bytes_read c then finish MOJO_RESULT_INVALID_ARGUMENT c e
              else and_then (Some (umod num_bytes_read (element_num_bytes (c_options c)))) (\<lambda>r.
                if r \<noteq> 0 then finish MOJO_RESULT_INVALID_ARGUMENT c e
                else and_then (Some (umod (c_read_offset c + num_bytes_read) (c_capacity c))) (\<lambda>offset.
                  let c1 = c\<lparr>c_read_offset := offset, c_bytes_available := c_bytes_available c - num_bytes_read\<rparr>
                  in and_then (NotifyRead fuel num_bytes_read c1 e) (\<lambda>e'. finish MOJO_RESULT_OK c1 e'))))"

definition C_AddAwakable ::
  "bool \<Rightarrow> signals_ops \<Rightarrow> nat \<Rightarrow> signal set \<Rightarrow> nat \<Rightarrow> Consumer \<Rightarrow> PipeEnv \<Rightarrow>
     fault + MojoResult \<times> HandleSignalsState option \<times> Consumer \<times> PipeEnv" where
  "C_AddAwakable stale hs awakable signals context c e =
     (if c_shared_ring_buffer c = None \<or> c_in_transit c
      then Inr (MOJO_RESULT_INVALID_ARGUMENT, Some \<lparr>satisfied_signals = {}, satisfiable_signals = {}\<rparr>, c, e)
      else (case C_UpdateSignalsStateNoLock stale c e of
              Inl f \<Rightarrow> Inl f
            | Inr (c1, e1) \<Rightarrow>
                let st = C_GetHandleSignalsStateNoLock c1
                in if hs_satisfies hs st signals then Inr (MOJO_RESULT_ALREADY_EXISTS, Some st, c1, e1)
                   else if \<not> hs_can_satisfy hs st signals then Inr (MOJO_RESULT_FAILED_PRECONDITION, Some st, c1, e1)
                   else Inr (MOJO_RESULT_OK, None, C_awake (AddAwakable_call awakable signals context) c1, e1)))"

definition C_RemoveAwakable :: "nat \<Rightarrow> Consumer \<Rightarrow> HandleSignalsState \<times> Consumer" where
  "C_RemoveAwakable awakable c =
     (if c_shared_ring_buffer c = None \<or> c_in_transit c then \<lparr>satisfied_signals = {}, satisfiable_signals = {}\<rparr>
      else C_GetHandleSignalsStateNoLock c,
      C_awake (RemoveAwakable_call awakable) c)"

record C_SerializedState =
  cs_options :: MojoCreateDataPipeOptions
  cs_pipe_id :: uint64_t
  cs_peer_closed :: bool
  cs_read_offset :: uint32_t
  cs_bytes_available :: uint32_t

definition C_StartSerialize :: "nat \<times> nat" where
  "C_StartSerialize = (1, 1)"

definition C_EndSerialize ::
  "(buffer_ref \<Rightarrow> PlatformHandle) \<Rightarrow> Consumer \<Rightarrow> fault + (C_SerializedState \<times> PortName list \<times> PlatformHandle list) \<times> Consumer" where
  "C_EndSerialize DuplicatePlatformHandle c =
     (case c_shared_ring_buffer c of
        None \<Rightarrow> Inl NullPointer
      | Some b \<Rightarrow>
          let h = DuplicatePlatformHandle b
          in Inr ((\<lparr>cs_options = c_options c, cs_pipe_id = c_pipe_id c, cs_peer_closed = c_peer_closed c,
                    cs_read_offset = c_read_offset c, cs_bytes_available = c_bytes_available c\<rparr>,
                   [ref_name (c_control_port c)], [h]), c\<lparr>c_buffer_handle_for_transit := Some h\<rparr>))"

definition C_BeginTransit :: "Consumer \<Rightarrow> bool \<times> Consumer" where
  "C_BeginTransit c =
     (if c_in_transit c then (False, c)
      else (\<not> c_in_two_phase_read c, c\<lparr>c_in_transit := \<not> c_in_two_phase_read c\<rparr>))"

definition C_CompleteTransitAndClose :: "nat \<Rightarrow> Consumer \<Rightarrow> PipeEnv \<Rightarrow> (Consumer \<times> PipeEnv) outcome" where
  "C_CompleteTransitAndClose fuel c e =
     (let e1 = e\<lparr>pe_controller := SetPortObserver (c_control_port c) None (pe_controller e)\<rparr>;
          c1 = c\<lparr>c_in_transit := False, c_transferred := True, c_buffer_handle_for_transit := None\<rparr>
      in and_then (C_CloseNoLock fuel c1 e1) (\<lambda>(_, c2, e2). Some (Inr (c2, e2))))"

definition C_CancelTransit :: "bool \<Rightarrow> Consumer \<Rightarrow> PipeEnv \<Rightarrow> fault + Consumer \<times> PipeEnv" where
  "C_CancelTransit stale c e =
     C_UpdateSignalsStateNoLock stale (c\<lparr>c_in_transit := False, c_buffer_handle_for_transit := None\<rparr>) e"

definition C_Deserialize ::
  "(uint32_t \<Rightarrow> PlatformHandle \<Rightarrow> buffer_ref option) \<Rightarrow> (buffer_ref \<Rightarrow> uint32_t \<Rightarrow> bool) \<Rightarrow> callback \<Rightarrow>
     C_SerializedState option \<Rightarrow> PortName list \<Rightarrow> PlatformHandle list \<Rightarrow> PipeEnv \<Rightarrow> Consumer option \<times> PipeEnv" where
  "C_Deserialize CreateSharedBufferFromHandle Map observer data nms handles e =
     (case (data, nms, handles) of
        (Some st, [nm], [h]) \<Rightarrow>
          (case GetPort nm (nc_node (pe_controller e)) of
             (OK, Some port) \<Rightarrow>
               (case CreateSharedBufferFromHandle (capacity_num_bytes (cs_options st)) h of
                  None \<Rightarrow> (None, e)
                | Some ring_buffer \<Rightarrow>
                    let (c, e1) = DataPipeConsumerDispatcher Map observer port (Some ring_buffer) (cs_options st) False
                                    (cs_pipe_id st) e;
                        c1 = c\<lparr>c_peer_closed := cs_peer_closed st, c_read_offset := cs_read_offset st,
                               c_bytes_available := cs_bytes_available st\<rparr>;
                        (c2, e2) = C_InitializeNoLock Map c1 e1
                    in (Some c2, e2))
           | _ \<Rightarrow> (None, e))
      | _ \<Rightarrow> (None, e))"

end
