(* ===== verification/Buffer_Dispatchers.thy ===== *)
theory Buffer_Dispatchers
  imports Data_Pipe
begin

text \<open>
  What the dispatchers rely on outside the repository, in one record, and the two dispatchers that
  only wrap a resource of the platform: shared buffers (\<open>shared_buffer_dispatcher.cc\<close>) and platform
  handles (\<open>platform_handle_dispatcher.cc\<close>).
\<close>

section \<open>The platform\<close>

text \<open>
  Shared memory, the predicates on signals, the layout of the public options structure, the
  configuration, and the values of memory that is not initialised: the bytes of a message that
  nobody writes and the status of a port that is not available.  Creating a buffer changes the memory.
\<close>

record platform =
  pl_signals :: signals_ops
  pl_CreateSharedBuffer :: "size_t \<Rightarrow> PipeEnv \<Rightarrow> (buffer_ref \<times> PipeEnv) option"
  pl_CreateSharedBufferFromHandle :: "size_t \<Rightarrow> PlatformHandle \<Rightarrow> buffer_ref option"
  pl_DuplicatePlatformHandle :: "buffer_ref \<Rightarrow> PlatformHandle"
  pl_is_valid :: "PlatformHandle \<Rightarrow> bool"
  pl_invalid_handle :: PlatformHandle
  pl_GetNumBytes :: "buffer_ref \<Rightarrow> size_t"
  pl_Map :: "buffer_ref \<Rightarrow> uint32_t \<Rightarrow> bool"
  pl_IsValidMap :: "buffer_ref \<Rightarrow> size_t \<Rightarrow> size_t \<Rightarrow> bool"
  pl_MapNoCheck :: "buffer_ref \<Rightarrow> size_t \<Rightarrow> size_t \<Rightarrow> nat option"
  pl_write_options :: "MojoCreateDataPipeOptions \<Rightarrow> uint8_t list"
  pl_read_options :: "uint8_t list \<Rightarrow> MojoCreateDataPipeOptions"
  pl_sizeof_options :: nat
  pl_max_shared_memory_num_bytes :: uint64_t
  pl_max_wait_many_num_handles :: uint32_t
  pl_stale :: bool
  pl_garbage :: "nat \<Rightarrow> uint8_t"

text \<open>Store into memory that already has contents.\<close>

definition overwrite :: "nat \<Rightarrow> uint8_t list \<Rightarrow> uint8_t list \<Rightarrow> uint8_t list" where
  "overwrite off bs dest = take off dest @ bs @ drop (off + length bs) dest"

lemma length_overwrite [simp]: "off + length bs \<le> length dest \<Longrightarrow> length (overwrite off bs dest) = length dest"
  by (simp add: overwrite_def)

text \<open>The default value of the signals of a handle.\<close>

abbreviation (input) no_signals :: HandleSignalsState where
  "no_signals \<equiv> \<lparr>satisfied_signals = {}, satisfiable_signals = {}\<rparr>"

section \<open>Shared buffers\<close>

record SharedBuffer =
  sb_shared_buffer :: "buffer_ref option"
  sb_in_transit :: bool
  sb_handle_for_transit :: "PlatformHandle option"

text \<open>
  The reader of user options is outside: it says whether the structure is valid, whether it is large
  enough to have the flags, and the flags that are set.  No flag is known to the code.
\<close>

record user_options =
  uo_valid :: bool
  uo_has_flags :: bool
  uo_flags :: "nat set"

definition ValidateCreateOptions :: "user_options option \<Rightarrow> MojoResult \<times> nat set" where
  "ValidateCreateOptions in_options =
     (case in_options of
        None \<Rightarrow> (MOJO_RESULT_OK, {})
      | Some o' \<Rightarrow>
          if \<not> uo_valid o' then (MOJO_RESULT_INVALID_ARGUMENT, {})
          else if \<not> uo_has_flags o' then (MOJO_RESULT_OK, {})
          else if uo_flags o' \<noteq> {} then (MOJO_RESULT_UNIMPLEMENTED, {})
          else (MOJO_RESULT_OK, uo_flags o'))"

definition ValidateDuplicateOptions :: "user_options option \<Rightarrow> MojoResult \<times> nat set" where
  "ValidateDuplicateOptions in_options =
     (case in_options of
        None \<Rightarrow> (MOJO_RESULT_OK, {})
      | Some o' \<Rightarrow>
          if \<not> uo_valid o' then (MOJO_RESULT_INVALID_ARGUMENT, {})
          else if \<not> uo_has_flags o' then (MOJO_RESULT_OK, {})
          else if uo_flags o' \<noteq> {} then (MOJO_RESULT_UNIMPLEMENTED, {})
          else (MOJO_RESULT_OK, uo_flags o'))"

text \<open>\<open>CreateInternal\<close>; the buffer of a duplicate may be null.\<close>

definition SharedBuffer_new :: "buffer_ref option \<Rightarrow> SharedBuffer" where
  "SharedBuffer_new b = \<lparr>sb_shared_buffer = b, sb_in_transit = False, sb_handle_for_transit = None\<rparr>"

definition SB_Create :: "platform \<Rightarrow> uint64_t \<Rightarrow> PipeEnv \<Rightarrow> MojoResult \<times> SharedBuffer option \<times> PipeEnv" where
  "SB_Create pl nbytes e =
     (if nbytes = 0 then (MOJO_RESULT_INVALID_ARGUMENT, None, e)
      else if nbytes > pl_max_shared_memory_num_bytes pl then (MOJO_RESULT_RESOURCE_EXHAUSTED, None, e)
      else (case pl_CreateSharedBuffer pl nbytes e of
              None \<Rightarrow> (MOJO_RESULT_RESOURCE_EXHAUSTED, None, e)
            | Some (b, e') \<Rightarrow> (MOJO_RESULT_OK, Some (SharedBuffer_new (Some b)), e')))"

text \<open>
  \<open>Deserialize\<close> gets pointers into the arrays of a message; the lists are what is left of the arrays from
  there on, and the counts are the ones that the sender claims.  The pointer to the handles is null
  (\<open>None\<close>) when the message has none at all.
\<close>

definition SB_Deserialize ::
  "platform \<Rightarrow> uint8_t list \<Rightarrow> nat \<Rightarrow> nat \<Rightarrow> PlatformHandle list option \<Rightarrow> nat \<Rightarrow> fault + SharedBuffer option" where
  "SB_Deserialize pl bytes nbytes nports platform_handles nhandles =
     (if nbytes \<noteq> 8 then Inr None
      else if length bytes < 8 then Inl OutOfBounds
      else if read_u64 bytes = 0 then Inr None
      else (case platform_handles of
              None \<Rightarrow> Inr None
            | Some hs \<Rightarrow>
                if nhandles \<noteq> 1 \<or> nports \<noteq> 0 then Inr None
                else if hs = [] then Inl OutOfBounds
                else (case pl_CreateSharedBufferFromHandle pl (read_u64 bytes) (hd hs) of
                        None \<Rightarrow> Inr None
                      | Some b \<Rightarrow> Inr (Some (SharedBuffer_new (Some b))))))"

definition SB_Close :: "SharedBuffer \<Rightarrow> MojoResult \<times> SharedBuffer" where
  "SB_Close d =
     (if sb_shared_buffer d = None \<or> sb_in_transit d then (MOJO_RESULT_INVALID_ARGUMENT, d)
      else (MOJO_RESULT_OK, d\<lparr>sb_shared_buffer := None\<rparr>))"

definition SB_DuplicateBufferHandle :: "user_options option \<Rightarrow> SharedBuffer \<Rightarrow> MojoResult \<times> SharedBuffer option" where
  "SB_DuplicateBufferHandle options d =
     (let result = fst (ValidateDuplicateOptions options)
      in if result \<noteq> MOJO_RESULT_OK then (result, None)
         else if sb_in_transit d then (MOJO_RESULT_INVALID_ARGUMENT, None)
         else (MOJO_RESULT_OK, Some (SharedBuffer_new (sb_shared_buffer d))))"

text \<open>On a 64-bit machine no offset and no size is beyond the range of \<open>size_t\<close>.\<close>

definition SB_MapBuffer :: "platform \<Rightarrow> uint64_t \<Rightarrow> uint64_t \<Rightarrow> SharedBuffer \<Rightarrow> fault + MojoResult \<times> nat option" where
  "SB_MapBuffer pl offset nbytes d =
     (if sb_in_transit d then Inr (MOJO_RESULT_INVALID_ARGUMENT, None)
      else (case sb_shared_buffer d of
              None \<Rightarrow> Inl NullPointer
            | Some b \<Rightarrow>
                if \<not> pl_IsValidMap pl b offset nbytes then Inr (MOJO_RESULT_INVALID_ARGUMENT, None)
                else (case pl_MapNoCheck pl b offset nbytes of
                        None \<Rightarrow> Inr (MOJO_RESULT_RESOURCE_EXHAUSTED, None)
                      | Some m \<Rightarrow> Inr (MOJO_RESULT_OK, Some m))))"

definition SB_StartSerialize :: "uint32_t \<times> uint32_t \<times> uint32_t" where
  "SB_StartSerialize = (8, 0, 1)"

definition SB_EndSerialize ::
  "platform \<Rightarrow> uint8_t list \<Rightarrow> SharedBuffer \<Rightarrow> fault + (bool \<times> uint8_t list \<times> PlatformHandle list) \<times> SharedBuffer" where
  "SB_EndSerialize pl destination d =
     (case sb_shared_buffer d of
        None \<Rightarrow> Inl NullPointer
      | Some b \<Rightarrow>
          let bytes = overwrite 0 (write_u64 (pl_GetNumBytes pl b)) destination;
              h = pl_DuplicatePlatformHandle pl b
          in if \<not> pl_is_valid pl h
             then Inr ((False, bytes, []), d\<lparr>sb_handle_for_transit := Some h, sb_shared_buffer := None\<rparr>)
             else Inr ((True, bytes, [h]), d\<lparr>sb_handle_for_transit := Some h\<rparr>))"

definition SB_BeginTransit :: "SharedBuffer \<Rightarrow> bool \<times> SharedBuffer" where
  "SB_BeginTransit d =
     (if sb_in_transit d then (False, d)
      else (sb_shared_buffer d \<noteq> None, d\<lparr>sb_in_transit := (sb_shared_buffer d \<noteq> None)\<rparr>))"

definition SB_CompleteTransitAndClose :: "SharedBuffer \<Rightarrow> SharedBuffer" where
  "SB_CompleteTransitAndClose d = d\<lparr>sb_in_transit := False, sb_shared_buffer := None, sb_handle_for_transit := None\<rparr>"

definition SB_CancelTransit :: "SharedBuffer \<Rightarrow> SharedBuffer" where
  "SB_CancelTransit d = d\<lparr>sb_in_transit := False, sb_handle_for_transit := None\<rparr>"

section \<open>Platform handles\<close>

text \<open>The scoped handle is \<open>None\<close> when it holds nothing.\<close>

record PlatformHandleWrapper =
  ph_platform_handle :: "PlatformHandle option"
  ph_in_transit :: bool
  ph_is_closed :: bool

definition PH_Create :: "PlatformHandle option \<Rightarrow> PlatformHandleWrapper" where
  "PH_Create h = \<lparr>ph_platform_handle = h, ph_in_transit = False, ph_is_closed = False\<rparr>"

definition PassPlatformHandle :: "PlatformHandleWrapper \<Rightarrow> PlatformHandle option \<times> PlatformHandleWrapper" where
  "PassPlatformHandle d = (ph_platform_handle d, d\<lparr>ph_platform_handle := None\<rparr>)"

definition PH_Close :: "PlatformHandleWrapper \<Rightarrow> MojoResult \<times> PlatformHandleWrapper" where
  "PH_Close d =
     (if ph_is_closed d \<or> ph_in_transit d then (MOJO_RESULT_INVALID_ARGUMENT, d)
      else (MOJO_RESULT_OK, d\<lparr>ph_is_closed := True, ph_platform_handle := None\<rparr>))"

definition PH_StartSerialize :: "uint32_t \<times> uint32_t \<times> uint32_t" where
  "PH_StartSerialize = (0, 0, 1)"

text \<open>An empty wrapper stores the invalid handle.\<close>

definition PH_EndSerialize :: "platform \<Rightarrow> PlatformHandleWrapper \<Rightarrow> bool \<times> PlatformHandle list" where
  "PH_EndSerialize pl d =
     (if ph_is_closed d then (False, [])
      else (True, [case ph_platform_handle d of None \<Rightarrow> pl_invalid_handle pl | Some h \<Rightarrow> h]))"

definition PH_BeginTransit :: "PlatformHandleWrapper \<Rightarrow> bool \<times> PlatformHandleWrapper" where
  "PH_BeginTransit d =
     (if ph_in_transit d then (False, d)
      else (\<not> ph_is_closed d, d\<lparr>ph_in_transit := (\<not> ph_is_closed d)\<rparr>))"

definition PH_CompleteTransitAndClose :: "PlatformHandleWrapper \<Rightarrow> PlatformHandleWrapper" where
  "PH_CompleteTransitAndClose d = d\<lparr>ph_in_transit := False, ph_is_closed := True, ph_platform_handle := None\<rparr>"

definition PH_CancelTransit :: "PlatformHandleWrapper \<Rightarrow> PlatformHandleWrapper" where
  "PH_CancelTransit d = d\<lparr>ph_in_transit := False\<rparr>"

definition PH_Deserialize ::
  "nat \<Rightarrow> nat \<Rightarrow> PlatformHandle list option \<Rightarrow> nat \<Rightarrow> fault + PlatformHandleWrapper option" where
  "PH_Deserialize nbytes nports handles nhandles =
     (if nbytes \<noteq> 0 \<or> nports \<noteq> 0 \<or> nhandles \<noteq> 1 then Inr None
      else (case handles of
              None \<Rightarrow> Inl NullPointer
            | Some [] \<Rightarrow> Inl OutOfBounds
            | Some (h # _) \<Rightarrow> Inr (Some (PH_Create (Some h)))))"

end
