(* ===== verification/Message_Pipe.thy ===== *)
theory Message_Pipe
  imports Buffer_Dispatchers
begin

text \<open>
  An end of a message pipe (\<open>message_pipe_dispatcher.h\<close>, \<open>message_pipe_dispatcher.cc\<close>): a port with
  the state of its transfer and its awakables.  The operations here touch only the end itself and the
  node controller; writing and reading messages also reach other dispatchers and are in theory
  \<open>Core_Messages\<close>.
\<close>

section \<open>State and signals\<close>

record MessagePipe =
  mp_port :: PortRef
  mp_pipe_id :: uint64_t
  mp_endpoint :: int
  mp_observer :: callback
  mp_in_transit :: bool
  mp_port_transferred :: bool
  mp_port_closed :: bool
  mp_awakables :: "awakable_call list"

definition MP_awake :: "awakable_call \<Rightarrow> MessagePipe \<Rightarrow> MessagePipe" where
  "MP_awake x d = d\<lparr>mp_awakables := mp_awakables d @ [x]\<rparr>"

definition MessagePipeDispatcher ::
  "callback \<Rightarrow> PortRef \<Rightarrow> uint64_t \<Rightarrow> int \<Rightarrow> NodeController \<Rightarrow> MessagePipe \<times> NodeController" where
  "MessagePipeDispatcher observer port pipe_id endpoint c =
     (\<lparr>mp_port = port, mp_pipe_id = pipe_id, mp_endpoint = endpoint, mp_observer = observer, mp_in_transit = False,
       mp_port_transferred = False, mp_port_closed = False, mp_awakables = []\<rparr>,
      SetPortObserver port (Some observer) c)"

definition MP_GetHandleSignalsStateNoLock :: "MessagePipe \<Rightarrow> Node \<Rightarrow> fault + HandleSignalsState" where
  "MP_GetHandleSignalsStateNoLock d n =
     (case GetStatus (mp_port d) n of
        (OK, Some status) \<Rightarrow>
          Inr \<lparr>satisfied_signals =
                 (if has_messages status then {MOJO_HANDLE_SIGNAL_READABLE} else {}) \<union>
                 (if \<not> status_peer_closed status then {MOJO_HANDLE_SIGNAL_WRITABLE} else {MOJO_HANDLE_SIGNAL_PEER_CLOSED}),
               satisfiable_signals =
                 (if has_messages status then {MOJO_HANDLE_SIGNAL_READABLE} else {}) \<union>
                 (if receiving_messages status then {MOJO_HANDLE_SIGNAL_READABLE} else {}) \<union>
                 (if \<not> status_peer_closed status then {MOJO_HANDLE_SIGNAL_WRITABLE, MOJO_HANDLE_SIGNAL_READABLE} else {}) \<union>
                 {MOJO_HANDLE_SIGNAL_PEER_CLOSED}\<rparr>
      | _ \<Rightarrow> if mp_in_transit d \<or> mp_port_transferred d \<or> mp_port_closed d then Inr no_signals else Inl CheckFailure)"

text \<open>\<open>awakables_.AwakeForStateChange(GetHandleSignalsStateNoLock())\<close>\<close>

definition MP_AwakeForStateChange :: "MessagePipe \<Rightarrow> Node \<Rightarrow> fault + MessagePipe" where
  "MP_AwakeForStateChange d n =
     (case MP_GetHandleSignalsStateNoLock d n of
        Inl f \<Rightarrow> Inl f
      | Inr st \<Rightarrow> Inr (MP_awake (AwakeForStateChange st) d))"

definition MP_OnPortStatusChanged :: "MessagePipe \<Rightarrow> Node \<Rightarrow> fault + MessagePipe" where
  "MP_OnPortStatusChanged d n = (if mp_port_transferred d then Inr d else MP_AwakeForStateChange d n)"

section \<open>Closing and waiting\<close>

definition MP_CloseNoLock :: "nat \<Rightarrow> MessagePipe \<Rightarrow> NodeController \<Rightarrow> (MojoResult \<times> MessagePipe \<times> NodeController) outcome" where
  "MP_CloseNoLock fuel d c =
     (if mp_port_closed d \<or> mp_in_transit d then Some (Inr (MOJO_RESULT_INVALID_ARGUMENT, d, c))
      else let d1 = MP_awake CancelAll (d\<lparr>mp_port_closed := True\<rparr>)
           in if \<not> mp_port_transferred d
              then and_then (NC_ClosePort fuel (mp_port d) c) (\<lambda>c'. Some (Inr (MOJO_RESULT_OK, d1, c')))
              else Some (Inr (MOJO_RESULT_OK, d1, c)))"

definition MP_Close :: "nat \<Rightarrow> MessagePipe \<Rightarrow> NodeController \<Rightarrow> (MojoResult \<times> MessagePipe \<times> NodeController) outcome" where
  "MP_Close fuel d c = MP_CloseNoLock fuel d c"

definition MP_AddAwakable ::
  "signals_ops \<Rightarrow> nat \<Rightarrow> signal set \<Rightarrow> nat \<Rightarrow> MessagePipe \<Rightarrow> Node \<Rightarrow>
     fault + MojoResult \<times> HandleSignalsState option \<times> MessagePipe" where
  "MP_AddAwakable hs awakable signals context d n =
     (if mp_port_closed d \<or> mp_in_transit d then Inr (MOJO_RESULT_INVALID_ARGUMENT, Some no_signals, d)
      else (case MP_GetHandleSignalsStateNoLock d n of
              Inl f \<Rightarrow> Inl f
            | Inr st \<Rightarrow>
                if hs_satisfies hs st signals then Inr (MOJO_RESULT_ALREADY_EXISTS, Some st, d)
                else if \<not> hs_can_satisfy hs st signals then Inr (MOJO_RESULT_FAILED_PRECONDITION, Some st, d)
                else Inr (MOJO_RESULT_OK, None, MP_awake (AddAwakable_call awakable signals context) d)))"

text \<open>The signals are computed only for a caller that asks for them.\<close>

definition MP_RemoveAwakable ::
  "nat \<Rightarrow> bool \<Rightarrow> MessagePipe \<Rightarrow> Node \<Rightarrow> fault + HandleSignalsState \<times> MessagePipe" where
  "MP_RemoveAwakable awakable wants_state d n =
     (case (if mp_port_closed d \<or> mp_in_transit d \<or> \<not> wants_state then Inr no_signals
            else MP_GetHandleSignalsStateNoLock d n) of
        Inl f \<Rightarrow> Inl f
      | Inr st \<Rightarrow> Inr (st, MP_awake (RemoveAwakable_call awakable) d))"

section \<open>Transfer\<close>

text \<open>The serialised state: the pipe's identity, the end as a byte, and seven bytes of padding.\<close>

definition MP_StartSerialize :: "uint32_t \<times> uint32_t \<times> uint32_t" where
  "MP_StartSerialize = (16, 1, 0)"

definition MP_EndSerialize :: "uint8_t list \<Rightarrow> MessagePipe \<Rightarrow> uint8_t list \<times> PortName list" where
  "MP_EndSerialize destination d =
     (overwrite 0 (write_u64 (mp_pipe_id d) @ [word_of_int (mp_endpoint d)]) destination, [ref_name (mp_port d)])"

definition MP_BeginTransit :: "MessagePipe \<Rightarrow> bool \<times> MessagePipe" where
  "MP_BeginTransit d = (if mp_in_transit d then (False, d) else (True, d\<lparr>mp_in_transit := True\<rparr>))"

definition MP_CompleteTransitAndClose :: "nat \<Rightarrow> MessagePipe \<Rightarrow> NodeController \<Rightarrow> (MessagePipe \<times> NodeController) outcome" where
  "MP_CompleteTransitAndClose fuel d c =
     and_then (MP_CloseNoLock fuel (d\<lparr>mp_in_transit := False, mp_port_transferred := True\<rparr>) (SetPortObserver (mp_port d) None c))
       (\<lambda>(_, d1, c1). Some (Inr (d1, c1)))"

definition MP_CancelTransit :: "MessagePipe \<Rightarrow> Node \<Rightarrow> fault + MessagePipe" where
  "MP_CancelTransit d n = MP_AwakeForStateChange (d\<lparr>mp_in_transit := False\<rparr>) n"

definition MP_Deserialize ::
  "callback \<Rightarrow> uint8_t list \<Rightarrow> nat \<Rightarrow> PortName list \<Rightarrow> nat \<Rightarrow> nat \<Rightarrow> NodeController \<Rightarrow>
     fault + MessagePipe option \<times> NodeController" where
  "MP_Deserialize observer data nbytes nms nports nhandles c =
     (if nports \<noteq> 1 \<or> nhandles \<noteq> 0 \<or> nbytes \<noteq> 16 then Inr (None, c)
      else if nms = [] \<or> length data < 16 then Inl OutOfBounds
      else (case GetPort (hd nms) (nc_node c) of
              (OK, Some port) \<Rightarrow>
                let (d, c') = MessagePipeDispatcher observer port (read_u64 data) (sint (data ! 8)) c
                in Inr (Some d, c')
            | _ \<Rightarrow> Inl CheckFailure))"

end
