(* ===== verification/Wait_Set.thy ===== *)
theory Wait_Set
  imports Mojo_Types
begin

text \<open>
  Wait sets (\<open>wait_set_dispatcher.h\<close>, \<open>wait_set_dispatcher.cc\<close>).  Dispatchers are named by their
  address.  The calls on the dispatchers that are waited for are virtual: they are arguments of the
  operations here, which act on the store \<open>'s\<close> of all dispatchers, and theory \<open>Dispatchers\<close> supplies
  them.  The waiter of the set (\<open>Waiter::Awake\<close>) is called by the awakable lists, outside of these
  operations: it is the step \<open>WakeDispatcher\<close>.
\<close>

section \<open>State and operations\<close>

record WaitState =
  wst_dispatcher :: nat
  wst_signals :: "signal set"
  wst_context :: nat

record WaitSet =
  ws_is_closed :: bool
  ws_waiting_dispatchers :: "(nat \<times> WaitState) list"
  ws_awoken_queue :: "(nat \<times> MojoResult) list"
  ws_processed_dispatchers :: "nat list"
  ws_awakable_list :: "awakable_call list"

definition WaitSet_new :: WaitSet where
  "WaitSet_new = \<lparr>ws_is_closed = False, ws_waiting_dispatchers = [], ws_awoken_queue = [],
                  ws_processed_dispatchers = [], ws_awakable_list = []\<rparr>"

text \<open>An ordered map: the entries stay sorted by their keys.\<close>

definition om_insert :: "nat \<Rightarrow> 'v \<Rightarrow> (nat \<times> 'v) list \<Rightarrow> (nat \<times> 'v) list" where
  "om_insert k v m = (case map_of m k of None \<Rightarrow> insort_key fst (k, v) m | Some _ \<Rightarrow> m)"

definition om_erase :: "nat \<Rightarrow> (nat \<times> 'v) list \<Rightarrow> (nat \<times> 'v) list" where
  "om_erase k m = filter (\<lambda>e. fst e \<noteq> k) m"

definition WS_awake :: "awakable_call \<Rightarrow> WaitSet \<Rightarrow> WaitSet" where
  "WS_awake x ws = ws\<lparr>ws_awakable_list := ws_awakable_list ws @ [x]\<rparr>"

definition WakeDispatcher :: "MojoResult \<Rightarrow> nat \<Rightarrow> WaitSet \<Rightarrow> WaitSet" where
  "WakeDispatcher result context ws =
     WS_awake (AwakeForStateChange \<lparr>satisfied_signals = {MOJO_HANDLE_SIGNAL_READABLE},
                                    satisfiable_signals = {MOJO_HANDLE_SIGNAL_READABLE}\<rparr>)
       (ws\<lparr>ws_awoken_queue := ws_awoken_queue ws @
            [(context, if result = MOJO_RESULT_ALREADY_EXISTS then MOJO_RESULT_OK else result)]\<rparr>)"

text \<open>\<open>remove\<close> is \<open>RemoveAwakable\<close> of a dispatcher, called with the set's waiter.\<close>

fun remove_all :: "(nat \<Rightarrow> 's \<Rightarrow> fault + 's) \<Rightarrow> nat list \<Rightarrow> 's \<Rightarrow> fault + 's" where
  "remove_all remove [] s = Inr s"
| "remove_all remove (d # ds) s = (case remove d s of Inl f \<Rightarrow> Inl f | Inr s' \<Rightarrow> remove_all remove ds s')"

definition WS_Close :: "(nat \<Rightarrow> 's \<Rightarrow> fault + 's) \<Rightarrow> WaitSet \<Rightarrow> 's \<Rightarrow> fault + MojoResult \<times> WaitSet \<times> 's" where
  "WS_Close remove ws s =
     (if ws_is_closed ws then Inr (MOJO_RESULT_INVALID_ARGUMENT, ws, s)
      else let ws1 = WS_awake CancelAll (ws\<lparr>ws_is_closed := True\<rparr>)
           in (case remove_all remove (map (wst_dispatcher \<circ> snd) (ws_waiting_dispatchers ws1)) s of
                 Inl f \<Rightarrow> Inl f
               | Inr s' \<Rightarrow> Inr (MOJO_RESULT_OK,
                   ws1\<lparr>ws_waiting_dispatchers := [], ws_awoken_queue := [], ws_processed_dispatchers := []\<rparr>, s')))"

text \<open>\<open>add d signals context\<close> is \<open>AddAwakable\<close> of the dispatcher \<open>d\<close>, called with the set's waiter.\<close>

definition WS_AddWaitingDispatcher ::
  "(nat \<Rightarrow> signal set \<Rightarrow> nat \<Rightarrow> 's \<Rightarrow> fault + MojoResult \<times> 's) \<Rightarrow> nat \<Rightarrow> nat \<Rightarrow> signal set \<Rightarrow> nat \<Rightarrow> WaitSet \<Rightarrow> 's \<Rightarrow>
     fault + MojoResult \<times> WaitSet \<times> 's" where
  "WS_AddWaitingDispatcher add this d signals context ws s =
     (if d = this then Inr (MOJO_RESULT_INVALID_ARGUMENT, ws, s)
      else if ws_is_closed ws then Inr (MOJO_RESULT_INVALID_ARGUMENT, ws, s)
      else if map_of (ws_waiting_dispatchers ws) d \<noteq> None then Inr (MOJO_RESULT_ALREADY_EXISTS, ws, s)
      else (case add d signals d s of
              Inl f \<Rightarrow> Inl f
            | Inr (result, s1) \<Rightarrow>
                if result = MOJO_RESULT_INVALID_ARGUMENT then Inr (result, ws, s1)
                else let ws1 = (if result \<noteq> MOJO_RESULT_OK then WakeDispatcher result d ws else ws);
                         st = \<lparr>wst_dispatcher = d, wst_signals = signals, wst_context = context\<rparr>
                     in Inr (MOJO_RESULT_OK,
                          ws1\<lparr>ws_waiting_dispatchers := om_insert d st (ws_waiting_dispatchers ws1)\<rparr>, s1)))"

definition WS_RemoveWaitingDispatcher ::
  "(nat \<Rightarrow> 's \<Rightarrow> fault + 's) \<Rightarrow> nat \<Rightarrow> WaitSet \<Rightarrow> 's \<Rightarrow> fault + MojoResult \<times> WaitSet \<times> 's" where
  "WS_RemoveWaitingDispatcher remove d ws s =
     (if map_of (ws_waiting_dispatchers ws) d = None then Inr (MOJO_RESULT_NOT_FOUND, ws, s)
      else (case remove d s of
              Inl f \<Rightarrow> Inl f
            | Inr s1 \<Rightarrow>
                Inr (MOJO_RESULT_OK,
                     ws\<lparr>ws_waiting_dispatchers := om_erase d (ws_waiting_dispatchers ws),
                        ws_awoken_queue := filter (\<lambda>x. fst x \<noteq> d) (ws_awoken_queue ws),
                        ws_processed_dispatchers := filter (\<lambda>x. x \<noteq> d) (ws_processed_dispatchers ws)\<rparr>, s1)))"

text \<open>
  The loop over the dispatchers that the last call returned: the set's waiter is added to each of
  them again.  The iterator of a dispatcher that is not waited for is past the end, and
  dereferencing it is undefined.
\<close>

fun requeue ::
  "(nat \<Rightarrow> signal set \<Rightarrow> nat \<Rightarrow> 's \<Rightarrow> fault + MojoResult \<times> 's) \<Rightarrow> nat list \<Rightarrow> WaitSet \<Rightarrow> 's \<Rightarrow> fault + WaitSet \<times> 's" where
  "requeue add [] ws s = Inr (ws, s)"
| "requeue add (d # ds) ws s =
     (case map_of (ws_waiting_dispatchers ws) d of
        None \<Rightarrow> Inl NullPointer
      | Some st \<Rightarrow>
          (case add (wst_dispatcher st) (wst_signals st) d s of
             Inl f \<Rightarrow> Inl f
           | Inr (result, s1) \<Rightarrow>
               requeue add ds
                 (if result = MOJO_RESULT_INVALID_ARGUMENT
                  then ws\<lparr>ws_waiting_dispatchers := om_erase d (ws_waiting_dispatchers ws)\<rparr>
                  else if result \<noteq> MOJO_RESULT_OK then WakeDispatcher result d ws else ws) s1))"

text \<open>The loop that takes ready dispatchers from the queue: dispatcher, result and context of each.\<close>

fun pop_ready :: "nat \<Rightarrow> (nat \<times> MojoResult) list \<Rightarrow> WaitSet \<Rightarrow> fault + (nat \<times> MojoResult \<times> nat) list \<times> WaitSet" where
  "pop_ready 0 q ws = Inr ([], ws\<lparr>ws_awoken_queue := q\<rparr>)"
| "pop_ready (Suc k) [] ws = Inr ([], ws\<lparr>ws_awoken_queue := []\<rparr>)"
| "pop_ready (Suc k) ((d, result) # q) ws =
     (case map_of (ws_waiting_dispatchers ws) d of
        None \<Rightarrow> Inl NullPointer
      | Some st \<Rightarrow>
          (case pop_ready k q
                  (if result \<noteq> MOJO_RESULT_CANCELLED
                   then ws\<lparr>ws_processed_dispatchers := ws_processed_dispatchers ws @ [d]\<rparr>
                   else ws\<lparr>ws_waiting_dispatchers := om_erase d (ws_waiting_dispatchers ws)\<rparr>) of
             Inl f \<Rightarrow> Inl f
           | Inr (out, ws') \<Rightarrow> Inr ((wst_dispatcher st, result, wst_context st) # out, ws')))"

lemma pop_ready_more [simp]:
  "pop_ready k [] ws = Inr ([], ws\<lparr>ws_awoken_queue := []\<rparr>)"
  "pop_ready (numeral n) ((d, result) # q) ws =
     (case map_of (ws_waiting_dispatchers ws) d of
        None \<Rightarrow> Inl NullPointer
      | Some st \<Rightarrow>
          (case pop_ready (pred_numeral n) q
                  (if result \<noteq> MOJO_RESULT_CANCELLED
                   then ws\<lparr>ws_processed_dispatchers := ws_processed_dispatchers ws @ [d]\<rparr>
                   else ws\<lparr>ws_waiting_dispatchers := om_erase d (ws_waiting_dispatchers ws)\<rparr>) of
             Inl f \<Rightarrow> Inl f
           | Inr (out, ws') \<Rightarrow> Inr ((wst_dispatcher st, result, wst_context st) # out, ws')))"
  by (cases k) (simp_all add: numeral_eq_Suc)

definition WS_GetReadyDispatchers ::
  "(nat \<Rightarrow> signal set \<Rightarrow> nat \<Rightarrow> 's \<Rightarrow> fault + MojoResult \<times> 's) \<Rightarrow> uint32_t \<Rightarrow> WaitSet \<Rightarrow> 's \<Rightarrow>
     fault + MojoResult \<times> (nat \<times> MojoResult \<times> nat) list \<times> WaitSet \<times> 's" where
  "WS_GetReadyDispatchers add max_woken ws s =
     (case requeue add (ws_processed_dispatchers ws) (ws\<lparr>ws_processed_dispatchers := []\<rparr>) s of
        Inl f \<Rightarrow> Inl f
      | Inr (ws1, s1) \<Rightarrow>
          (case pop_ready (unat max_woken) (ws_awoken_queue ws1) ws1 of
             Inl f \<Rightarrow> Inl f
           | Inr (out, ws2) \<Rightarrow>
               Inr (if out = [] then MOJO_RESULT_SHOULD_WAIT else MOJO_RESULT_OK, out, ws2, s1)))"

definition WS_GetHandleSignalsState :: "WaitSet \<Rightarrow> HandleSignalsState" where
  "WS_GetHandleSignalsState ws =
     \<lparr>satisfied_signals =
        (if ws_awoken_queue ws \<noteq> [] \<or> ws_processed_dispatchers ws \<noteq> [] then {MOJO_HANDLE_SIGNAL_READABLE} else {}),
      satisfiable_signals = {MOJO_HANDLE_SIGNAL_READABLE}\<rparr>"

definition WS_AddAwakable ::
  "signals_ops \<Rightarrow> nat \<Rightarrow> signal set \<Rightarrow> nat \<Rightarrow> WaitSet \<Rightarrow> MojoResult \<times> HandleSignalsState option \<times> WaitSet" where
  "WS_AddAwakable hs awakable signals context ws =
     (let st = WS_GetHandleSignalsState ws
      in if hs_satisfies hs st signals then (MOJO_RESULT_ALREADY_EXISTS, Some st, ws)
         else if \<not> hs_can_satisfy hs st signals then (MOJO_RESULT_FAILED_PRECONDITION, Some st, ws)
         else (MOJO_RESULT_OK, None, WS_awake (AddAwakable_call awakable signals context) ws))"

definition WS_RemoveAwakable :: "nat \<Rightarrow> WaitSet \<Rightarrow> HandleSignalsState \<times> WaitSet" where
  "WS_RemoveAwakable awakable ws = (WS_GetHandleSignalsState ws, WS_awake (RemoveAwakable_call awakable) ws)"

definition WS_BeginTransit :: "WaitSet \<Rightarrow> bool" where
  "WS_BeginTransit ws = False"

section \<open>What a wait set keeps\<close>

lemma keys_om_erase [simp]: "fst ` set (om_erase k m) = fst ` set m - {k}"
  by (auto simp: om_erase_def)

lemma map_of_om_erase [simp]: "map_of (om_erase k m) j = (if j = k then None else map_of m j)"
  by (induction m) (auto simp: om_erase_def)

lemma keys_om_insert [simp]: "fst ` set (om_insert k v m) = insert k (fst ` set m)"
  by (auto simp: om_insert_def map_of_eq_None_iff set_insort_key split: option.splits dest: map_of_SomeD
      intro: rev_image_eqI)

lemma map_of_insort_key: "map_of m k = None \<Longrightarrow> map_of (insort_key fst (k, v) m) j = (if j = k then Some v else map_of m j)"
  by (induction m) (auto split: if_splits)

lemma map_of_om_insert [simp]:
  "map_of (om_insert k v m) j = (if j = k \<and> map_of m k = None then Some v else map_of m j)"
  by (auto simp: om_insert_def map_of_insort_key split: option.splits)

text \<open>Each entry is filed under the address of its dispatcher.\<close>

definition filed :: "(nat \<times> WaitState) list \<Rightarrow> bool" where
  "filed m \<longleftrightarrow> (\<forall>e \<in> set m. wst_dispatcher (snd e) = fst e)"

lemma filed_simps [simp]:
  "filed []" "filed m \<Longrightarrow> filed (om_erase k m)" "filed m \<Longrightarrow> wst_dispatcher v = k \<Longrightarrow> filed (om_insert k v m)"
  by (auto simp: filed_def om_erase_def om_insert_def set_insort_key split: option.splits)

lemma WakeDispatcher_simps [simp]:
  "ws_waiting_dispatchers (WakeDispatcher r d ws) = ws_waiting_dispatchers ws"
  "ws_processed_dispatchers (WakeDispatcher r d ws) = ws_processed_dispatchers ws"
  "map fst (ws_awoken_queue (WakeDispatcher r d ws)) = map fst (ws_awoken_queue ws) @ [d]"
  "fst ` set (ws_awoken_queue (WakeDispatcher r d ws)) = insert d (fst ` set (ws_awoken_queue ws))"
  by (simp_all add: WakeDispatcher_def WS_awake_def)

text \<open>
  Every dispatcher in a wait set is in exactly one place: the set's waiter is on its list of awakables, or
  it is in the queue of woken dispatchers, or the last call returned it.  \<open>armed\<close> is the set of dispatchers
  on whose list the waiter is.
\<close>

definition ws_inv :: "WaitSet \<Rightarrow> nat set \<Rightarrow> bool" where
  "ws_inv ws armed \<longleftrightarrow>
     distinct (map fst (ws_awoken_queue ws) @ ws_processed_dispatchers ws) \<and>
     armed \<inter> (fst ` set (ws_awoken_queue ws) \<union> set (ws_processed_dispatchers ws)) = {} \<and>
     fst ` set (ws_waiting_dispatchers ws) =
       armed \<union> fst ` set (ws_awoken_queue ws) \<union> set (ws_processed_dispatchers ws) \<and>
     filed (ws_waiting_dispatchers ws)"

lemma ws_inv_entry: "ws_inv ws A \<Longrightarrow> map_of (ws_waiting_dispatchers ws) d = Some st \<Longrightarrow> wst_dispatcher st = d"
  by (auto simp: ws_inv_def filed_def dest!: map_of_SomeD)

lemma ws_inv_new: "ws_inv WaitSet_new {}"
  by (simp add: ws_inv_def WaitSet_new_def)

text \<open>The waiter is called for a dispatcher on whose list it is, and the list then drops it.\<close>

lemma ws_inv_wake: "ws_inv ws armed \<Longrightarrow> d \<in> armed \<Longrightarrow> ws_inv (WakeDispatcher r d ws) (armed - {d})"
  unfolding ws_inv_def by auto

text \<open>
  What a wait set relies on: adding its waiter to a dispatcher puts it on that dispatcher's list exactly
  when the result is \<open>MOJO_RESULT_OK\<close>, and removing it takes it off.
\<close>

locale waitable =
  fixes add :: "nat \<Rightarrow> signal set \<Rightarrow> nat \<Rightarrow> 's \<Rightarrow> fault + MojoResult \<times> 's"
    and remove :: "nat \<Rightarrow> 's \<Rightarrow> fault + 's"
    and armed :: "'s \<Rightarrow> nat set"
  assumes add_OK: "add d sg ctx s = Inr (MOJO_RESULT_OK, s') \<Longrightarrow> armed s' = insert d (armed s)"
    and add_not_OK: "add d sg ctx s = Inr (rv, s') \<Longrightarrow> rv \<noteq> MOJO_RESULT_OK \<Longrightarrow> armed s' = armed s"
    and remove_armed: "remove d s = Inr s' \<Longrightarrow> armed s' = armed s - {d}"
begin

lemma add_inv:
  assumes "ws_inv ws (armed s)" "WS_AddWaitingDispatcher add this d sg ctx ws s = Inr (rv, ws', s')"
  shows "ws_inv ws' (armed s')"
proof (cases "\<exists>r. add d sg d s = Inr (r, s') \<and> r \<noteq> MOJO_RESULT_INVALID_ARGUMENT \<and> map_of (ws_waiting_dispatchers ws) d = None
    \<and> ws' = (let ws1 = (if r \<noteq> MOJO_RESULT_OK then WakeDispatcher r d ws else ws)
       in ws1\<lparr>ws_waiting_dispatchers := om_insert d \<lparr>wst_dispatcher = d, wst_signals = sg, wst_context = ctx\<rparr> (ws_waiting_dispatchers ws1)\<rparr>)")
  case True
  then obtain r where r: "add d sg d s = Inr (r, s')" "map_of (ws_waiting_dispatchers ws) d = None"
    "ws' = (let ws1 = (if r \<noteq> MOJO_RESULT_OK then WakeDispatcher r d ws else ws)
       in ws1\<lparr>ws_waiting_dispatchers := om_insert d \<lparr>wst_dispatcher = d, wst_signals = sg, wst_context = ctx\<rparr> (ws_waiting_dispatchers ws1)\<rparr>)"
    by blast
  have fresh: "d \<notin> armed s" "d \<notin> fst ` set (ws_awoken_queue ws)" "d \<notin> set (ws_processed_dispatchers ws)"
    using assms(1) r(2) unfolding ws_inv_def map_of_eq_None_iff by blast+
  show ?thesis
  proof (cases "r = MOJO_RESULT_OK")
    case True
    then show ?thesis using assms(1) r fresh add_OK [of d sg d s s'] by (auto simp: ws_inv_def)
  next
    case False
    then show ?thesis using assms(1) r fresh add_not_OK [OF r(1)] by (auto simp: ws_inv_def Let_def)
  qed
next
  case False
  then have "ws' = ws" "armed s' = armed s"
    using assms(2) add_not_OK by (auto simp: WS_AddWaitingDispatcher_def Let_def split: if_splits sum.splits prod.splits)
  then show ?thesis using assms(1) by simp
qed

lemma remove_inv:
  assumes "ws_inv ws (armed s)" "WS_RemoveWaitingDispatcher remove d ws s = Inr (rv, ws', s')"
  shows "ws_inv ws' (armed s')"
proof (cases "map_of (ws_waiting_dispatchers ws) d = None")
  case True
  then show ?thesis using assms by (simp add: WS_RemoveWaitingDispatcher_def)
next
  case False
  then have s': "armed s' = armed s - {d}" and ws': "ws' = ws\<lparr>ws_waiting_dispatchers := om_erase d (ws_waiting_dispatchers ws),
      ws_awoken_queue := filter (\<lambda>x. fst x \<noteq> d) (ws_awoken_queue ws),
      ws_processed_dispatchers := filter (\<lambda>x. x \<noteq> d) (ws_processed_dispatchers ws)\<rparr>"
    using assms(2) remove_armed by (auto simp: WS_RemoveWaitingDispatcher_def split: sum.splits)
  show ?thesis unfolding ws' s' using assms(1) unfolding ws_inv_def
    by (auto simp: distinct_map_filter)
qed

lemma remove_all_armed: "remove_all remove ds s = Inr s' \<Longrightarrow> armed s' = armed s - set ds"
  by (induction ds arbitrary: s) (auto dest: remove_armed split: sum.splits)

text \<open>A wait set that was closed is empty, and its waiter is on no list.\<close>

lemma close_inv:
  assumes "ws_inv ws (armed s)" "WS_Close remove ws s = Inr (rv, ws', s')"
  shows "ws_inv ws' (armed s')" "rv = MOJO_RESULT_OK \<Longrightarrow> ws_waiting_dispatchers ws' = [] \<and> armed s' = {}"
proof -
  have "map (wst_dispatcher \<circ> snd) (ws_waiting_dispatchers ws) = map fst (ws_waiting_dispatchers ws)"
    using assms(1) by (simp add: ws_inv_def filed_def)
  then have k: "set (map (wst_dispatcher \<circ> snd) (ws_waiting_dispatchers ws)) = fst ` set (ws_waiting_dispatchers ws)"
    by (metis set_map)
  have "armed s' = {}" if "\<not> ws_is_closed ws"
    using that assms remove_all_armed k
    by (fastforce simp: WS_Close_def WS_awake_def ws_inv_def Let_def split: sum.splits)
  then show "ws_inv ws' (armed s')" "rv = MOJO_RESULT_OK \<Longrightarrow> ws_waiting_dispatchers ws' = [] \<and> armed s' = {}"
    using assms by (auto simp: WS_Close_def ws_inv_def WS_awake_def Let_def split: if_splits sum.splits)
qed

text \<open>Re-adding the waiter keeps the pending dispatchers apart from the other places.\<close>

lemma requeue_inv:
  assumes "requeue add ds ws s = Inr (ws', s')" "ws_inv (ws\<lparr>ws_processed_dispatchers := ds\<rparr>) (armed s)"
    "ws_processed_dispatchers ws = []"
  shows "ws_inv ws' (armed s') \<and> ws_processed_dispatchers ws' = []"
  using assms
proof (induction ds arbitrary: ws s)
  case Nil
  then show ?case by (simp add: ws_inv_def)
next
  case (Cons d ds)
  then obtain st r s1 where st: "map_of (ws_waiting_dispatchers ws) d = Some st"
    "add (wst_dispatcher st) (wst_signals st) d s = Inr (r, s1)"
    "requeue add ds (if r = MOJO_RESULT_INVALID_ARGUMENT then ws\<lparr>ws_waiting_dispatchers := om_erase d (ws_waiting_dispatchers ws)\<rparr>
       else if r \<noteq> MOJO_RESULT_OK then WakeDispatcher r d ws else ws) s1 = Inr (ws', s')" (is "requeue add ds ?ws1 s1 = _")
    by (auto split: option.splits sum.splits prod.splits)
  have d: "wst_dispatcher st = d" using ws_inv_entry [OF Cons.prems(2)] st(1) by simp
  have "armed s1 = (if r = MOJO_RESULT_OK then insert d (armed s) else armed s)"
    using st(2) d add_OK add_not_OK by auto
  then have "ws_inv (?ws1\<lparr>ws_processed_dispatchers := ds\<rparr>) (armed s1)"
    using Cons.prems(2) by (auto simp: ws_inv_def)
  moreover have "ws_processed_dispatchers ?ws1 = []" using Cons.prems(3) by simp
  ultimately show ?case using Cons.IH [OF st(3)] by simp
qed

lemma requeue_no_fault:
  assumes "requeue add ds ws s = Inl f" "ws_inv (ws\<lparr>ws_processed_dispatchers := ds\<rparr>) (armed s)"
    "ws_processed_dispatchers ws = []"
  shows "\<exists>d sg ctx s0. add d sg ctx s0 = Inl f"
  using assms
proof (induction ds arbitrary: ws s)
  case Nil
  then show ?case by simp
next
  case (Cons d ds)
  have "d \<in> fst ` set (ws_waiting_dispatchers ws)" using Cons.prems(2) by (auto simp: ws_inv_def)
  then obtain st where st: "map_of (ws_waiting_dispatchers ws) d = Some st"
    by (metis map_of_eq_None_iff not_None_eq)
  have d: "wst_dispatcher st = d" using ws_inv_entry [OF Cons.prems(2)] st(1) by simp
  show ?case
  proof (cases "add (wst_dispatcher st) (wst_signals st) d s")
    case (Inl g)
    then show ?thesis using Cons.prems(1) st by auto
  next
    case (Inr rs)
    obtain r s1 where rs: "rs = (r, s1)" by fastforce
    let ?ws1 = "if r = MOJO_RESULT_INVALID_ARGUMENT then ws\<lparr>ws_waiting_dispatchers := om_erase d (ws_waiting_dispatchers ws)\<rparr>
       else if r \<noteq> MOJO_RESULT_OK then WakeDispatcher r d ws else ws"
    have "armed s1 = (if r = MOJO_RESULT_OK then insert d (armed s) else armed s)"
      using Inr rs d add_OK add_not_OK by auto
    then have "ws_inv (?ws1\<lparr>ws_processed_dispatchers := ds\<rparr>) (armed s1)"
      using Cons.prems(2) by (auto simp: ws_inv_def)
    then show ?thesis using Cons.IH [of ?ws1 s1] Cons.prems(1,3) st Inr rs by simp
  qed
qed


text \<open>What is queued again comes after what was queued, and only the dispatchers returned last come.\<close>

lemma requeue_queue:
  assumes "requeue add ds ws s = Inr (ws', s')"
  shows "\<exists>re. ws_awoken_queue ws' = ws_awoken_queue ws @ re \<and> fst ` set re \<subseteq> set ds"
  using assms
proof (induction ds arbitrary: ws s)
  case Nil
  then show ?case by simp
next
  case (Cons d ds)
  then obtain st r s1 where st:
    "requeue add ds (if r = MOJO_RESULT_INVALID_ARGUMENT then ws\<lparr>ws_waiting_dispatchers := om_erase d (ws_waiting_dispatchers ws)\<rparr>
       else if r \<noteq> MOJO_RESULT_OK then WakeDispatcher r d ws else ws) s1 = Inr (ws', s')" (is "requeue add ds ?ws1 s1 = _")
    by (auto split: option.splits sum.splits prod.splits)
  obtain re where re: "ws_awoken_queue ws' = ws_awoken_queue ?ws1 @ re" "fst ` set re \<subseteq> set ds"
    using Cons.IH [OF st] by blast
  obtain x where "ws_awoken_queue ?ws1 = ws_awoken_queue ws @ x" "fst ` set x \<subseteq> {d}"
    by (cases "r = MOJO_RESULT_INVALID_ARGUMENT \<or> r = MOJO_RESULT_OK") (auto simp: WakeDispatcher_def WS_awake_def)
  then show ?case using re by (intro exI [of _ "x @ re"]) auto
qed

text \<open>A dispatcher that still satisfies its signals when the waiter is added to it again is queued again.\<close>

lemma requeue_level_triggered:
  assumes "requeue add ds ws s = Inr (ws', s')" "d \<in> set ds"
    "\<And>d' sg ctx s r s'. ready s \<Longrightarrow> d' \<noteq> d \<Longrightarrow> add d' sg ctx s = Inr (r, s') \<Longrightarrow> ready s'"
    "\<And>s r s'. ready s \<Longrightarrow> add d (wst_signals st) d s = Inr (r, s') \<Longrightarrow> r = MOJO_RESULT_ALREADY_EXISTS"
    "ws_inv (ws\<lparr>ws_processed_dispatchers := ds\<rparr>) (armed s)" "ws_processed_dispatchers ws = []" "ready s"
    "map_of (ws_waiting_dispatchers ws) d = Some st"
  shows "(d, MOJO_RESULT_OK) \<in> set (ws_awoken_queue ws')"
  using assms(1,2,5,6,7,8)
proof (induction ds arbitrary: ws s)
  case Nil
  then show ?case by simp
next
  case (Cons d' ds)
  then obtain st' r s1 where st: "map_of (ws_waiting_dispatchers ws) d' = Some st'"
    "add (wst_dispatcher st') (wst_signals st') d' s = Inr (r, s1)"
    "requeue add ds (if r = MOJO_RESULT_INVALID_ARGUMENT then ws\<lparr>ws_waiting_dispatchers := om_erase d' (ws_waiting_dispatchers ws)\<rparr>
       else if r \<noteq> MOJO_RESULT_OK then WakeDispatcher r d' ws else ws) s1 = Inr (ws', s')" (is "requeue add ds ?ws1 s1 = _")
    by (auto split: option.splits sum.splits prod.splits)
  have d': "wst_dispatcher st' = d'" using ws_inv_entry [OF Cons.prems(3)] st(1) by simp
  show ?case
  proof (cases "d = d'")
    case True
    then have "r = MOJO_RESULT_ALREADY_EXISTS" using assms(4) [OF Cons.prems(5)] Cons.prems(6) st(1,2) d' by simp
    then have "(d, MOJO_RESULT_OK) \<in> set (ws_awoken_queue ?ws1)" using True by (simp add: WakeDispatcher_def WS_awake_def)
    then show ?thesis using requeue_queue [OF st(3)] by auto
  next
    case False
    have "armed s1 = (if r = MOJO_RESULT_OK then insert d' (armed s) else armed s)"
      using st(2) d' add_OK add_not_OK by auto
    then have "ws_inv (?ws1\<lparr>ws_processed_dispatchers := ds\<rparr>) (armed s1)" using Cons.prems(3) by (auto simp: ws_inv_def)
    moreover have "ready s1" using assms(3) [OF Cons.prems(5) _ st(2)] d' False by simp
    ultimately show ?thesis using Cons.IH [OF st(3)] Cons.prems(2,4,6) False by simp
  qed
qed

end

text \<open>Taking from the queue never meets a dispatcher that is not waited for, and takes from its front.\<close>

lemma pop_ready_inv:
  assumes "ws_inv (ws\<lparr>ws_awoken_queue := q\<rparr>) A"
  shows "\<exists>out ws'. pop_ready k q ws = Inr (out, ws') \<and> ws_inv ws' A \<and>
    map (\<lambda>(d, r, _). (d, r)) out = take k q \<and> ws_awoken_queue ws' = drop k q"
  using assms
proof (induction k q ws rule: pop_ready.induct)
  case (3 k d r q ws)
  have "d \<in> fst ` set (ws_waiting_dispatchers ws)" using "3.prems" by (auto simp: ws_inv_def)
  then obtain st where st1: "map_of (ws_waiting_dispatchers ws) d = Some st"
    by (metis map_of_eq_None_iff not_None_eq)
  then have st: "map_of (ws_waiting_dispatchers ws) d = Some st" "wst_dispatcher st = d"
    using ws_inv_entry [OF "3.prems"] by simp_all
  let ?ws1 = "if r \<noteq> MOJO_RESULT_CANCELLED then ws\<lparr>ws_processed_dispatchers := ws_processed_dispatchers ws @ [d]\<rparr>
    else ws\<lparr>ws_waiting_dispatchers := om_erase d (ws_waiting_dispatchers ws)\<rparr>"
  have "ws_inv (?ws1\<lparr>ws_awoken_queue := q\<rparr>) A" using "3.prems" by (auto simp: ws_inv_def)
  then obtain out ws' where "pop_ready k q ?ws1 = Inr (out, ws')" "ws_inv ws' A"
    "map (\<lambda>(d, r, _). (d, r)) out = take k q" "ws_awoken_queue ws' = drop k q" using "3.IH" [OF st(1)] by blast
  then show ?case using st by auto
qed auto

context waitable
begin

text \<open>
  What \<open>GetReadyDispatchers\<close> returns and what stays queued is the old queue followed by what was queued again;
  a call only fails to return when \<open>AddAwakable\<close> of some dispatcher does.
\<close>

lemma get_ready_spec:
  assumes "ws_inv ws (armed s)"
  shows "case WS_GetReadyDispatchers add k ws s of
      Inl f \<Rightarrow> \<exists>d sg ctx s0. add d sg ctx s0 = Inl f
    | Inr (rv, out, ws', s') \<Rightarrow> ws_inv ws' (armed s') \<and> length out \<le> unat k \<and>
        (rv = MOJO_RESULT_OK \<longleftrightarrow> out \<noteq> []) \<and> (length out < unat k \<longrightarrow> ws_awoken_queue ws' = []) \<and>
        (\<exists>re. map (\<lambda>(d, r, _). (d, r)) out @ ws_awoken_queue ws' = ws_awoken_queue ws @ re \<and>
              fst ` set re \<subseteq> set (ws_processed_dispatchers ws))"
proof (cases "requeue add (ws_processed_dispatchers ws) (ws\<lparr>ws_processed_dispatchers := []\<rparr>) s")
  case (Inl f)
  then show ?thesis using requeue_no_fault [OF Inl] assms by (simp add: WS_GetReadyDispatchers_def)
next
  case (Inr r1)
  obtain ws1 s1 where r1: "r1 = (ws1, s1)" by fastforce
  have inv1: "ws_inv ws1 (armed s1)" using requeue_inv [OF Inr [unfolded r1]] assms by simp
  obtain out ws2 where p: "pop_ready (unat k) (ws_awoken_queue ws1) ws1 = Inr (out, ws2)" "ws_inv ws2 (armed s1)"
    "map (\<lambda>(d, r, _). (d, r)) out = take (unat k) (ws_awoken_queue ws1)" "ws_awoken_queue ws2 = drop (unat k) (ws_awoken_queue ws1)"
    using pop_ready_inv [where ws = ws1 and q = "ws_awoken_queue ws1" and A = "armed s1" and k = "unat k"] inv1 by auto
  obtain re where re: "ws_awoken_queue ws1 = ws_awoken_queue ws @ re" "fst ` set re \<subseteq> set (ws_processed_dispatchers ws)"
    using requeue_queue [OF Inr [unfolded r1]] by auto
  have len: "length out = min (length (ws_awoken_queue ws1)) (unat k)" using arg_cong [OF p(3), of length] by simp
  have "map (\<lambda>(d, r, _). (d, r)) out @ ws_awoken_queue ws2 = ws_awoken_queue ws @ re"
    unfolding p(3,4) append_take_drop_id by (rule re(1))
  moreover have "length out < unat k \<longrightarrow> ws_awoken_queue ws2 = []" using len p(4) by auto
  moreover have "WS_GetReadyDispatchers add k ws s = Inr (if out = [] then MOJO_RESULT_SHOULD_WAIT else MOJO_RESULT_OK, out, ws2, s1)"
    using p(1) Inr r1 by (simp add: WS_GetReadyDispatchers_def)
  ultimately show ?thesis using p(2) len re(2) by auto
qed

lemma get_ready_level_triggered:
  assumes "ws_inv ws (armed s)" "d \<in> set (ws_processed_dispatchers ws)"
    "\<And>d' sg ctx s r s'. ready s \<Longrightarrow> d' \<noteq> d \<Longrightarrow> add d' sg ctx s = Inr (r, s') \<Longrightarrow> ready s'"
    "\<And>s r s'. ready s \<Longrightarrow> add d (wst_signals st) d s = Inr (r, s') \<Longrightarrow> r = MOJO_RESULT_ALREADY_EXISTS"
    "map_of (ws_waiting_dispatchers ws) d = Some st" "ready s" "WS_GetReadyDispatchers add k ws s = Inr (rv, out, ws', s')" "length out < unat k"
  shows "\<exists>ctx. (d, MOJO_RESULT_OK, ctx) \<in> set out"
proof -
  obtain ws1 s1 where r1: "requeue add (ws_processed_dispatchers ws) (ws\<lparr>ws_processed_dispatchers := []\<rparr>) s = Inr (ws1, s1)"
    using assms(7) by (auto simp: WS_GetReadyDispatchers_def split: sum.splits)
  have inv1: "ws_inv ws1 (armed s1)" using requeue_inv [OF r1] assms(1) by simp
  have p: "pop_ready (unat k) (ws_awoken_queue ws1) ws1 = Inr (out, ws')"
    using assms(7) r1 by (auto simp: WS_GetReadyDispatchers_def split: sum.splits)
  have "map (\<lambda>(d, r, _). (d, r)) out = take (unat k) (ws_awoken_queue ws1)"
    using pop_ready_inv [where ws = ws1 and q = "ws_awoken_queue ws1" and A = "armed s1" and k = "unat k"] inv1 p by auto
  moreover from this have "length out = min (length (ws_awoken_queue ws1)) (unat k)" by (metis length_map length_take)
  then have "take (unat k) (ws_awoken_queue ws1) = ws_awoken_queue ws1" using assms(8) by simp
  moreover have "(d, MOJO_RESULT_OK) \<in> set (ws_awoken_queue ws1)"
    using requeue_level_triggered [of "ws_processed_dispatchers ws" _ s ws1 s1 d ready st] r1 assms(1-6) by simp
  ultimately have "(d, MOJO_RESULT_OK) \<in> set (map (\<lambda>(d, r, _). (d, r)) out)" by simp
  then show ?thesis by auto
qed

end

end
