(* ===== verification/Handle_Table.thy ===== *)
theory Handle_Table
  imports Mojo_Types
begin

text \<open>
  The table of handles (\<open>handle_table.h\<close>, \<open>handle_table.cc\<close>): handles are numbered consecutively,
  each names a dispatcher, and a handle that is being sent in a message is busy.  The dispatchers'
  own part of a transfer (\<open>Dispatcher::BeginTransit\<close> and its siblings) is a virtual call, hence a
  parameter here that acts on the store \<open>'s\<close> of all dispatchers.
\<close>

section \<open>The table and its operations\<close>

record 'd Entry =
  entry_dispatcher :: 'd
  entry_busy :: bool

record 'd HandleTable =
  handles :: "(MojoHandle \<times> 'd Entry) list"
  next_available_handle :: uint32_t

definition HandleTable_init :: "'d HandleTable" where
  "HandleTable_init = \<lparr>handles = [], next_available_handle = 1\<rparr>"

record 'd DispatcherInTransit =
  dit_dispatcher :: 'd
  local_handle :: MojoHandle

definition Entry_init :: "'d \<Rightarrow> 'd Entry" where
  "Entry_init d = \<lparr>entry_dispatcher = d, entry_busy = False\<rparr>"

definition AddDispatcher :: "'d \<Rightarrow> 'd HandleTable \<Rightarrow> MojoHandle \<times> 'd HandleTable" where
  "AddDispatcher d t =
     (if next_available_handle t = MOJO_HANDLE_INVALID then (MOJO_HANDLE_INVALID, t)
      else let handle = next_available_handle t
           in (handle, t\<lparr>next_available_handle := next_available_handle t + 1,
                         handles := um_insert handle (Entry_init d) (handles t)\<rparr>))"

fun add_all :: "'d list \<Rightarrow> 'd HandleTable \<Rightarrow> MojoHandle list \<times> 'd HandleTable" where
  "add_all [] t = ([], t)"
| "add_all (d # ds) t =
     (let handle = next_available_handle t;
          t1 = t\<lparr>next_available_handle := next_available_handle t + 1,
                 handles := um_insert handle (Entry_init d) (handles t)\<rparr>;
          (hs, t2) = add_all ds t1
      in (handle # hs, t2))"

text \<open>The sum in the overflow test is computed in \<open>size_t\<close>, which is wider than a handle.\<close>

definition AddDispatchersFromTransit ::
  "'d DispatcherInTransit list \<Rightarrow> 'd HandleTable \<Rightarrow> bool \<times> MojoHandle list \<times> 'd HandleTable" where
  "AddDispatchersFromTransit dispatchers t =
     (if next_available_handle t = MOJO_HANDLE_INVALID then (False, [], t)
      else if (ucast (next_available_handle t) :: size_t) + of_nat (length dispatchers)
             < ucast (next_available_handle t)
      then (False, [], t)
      else (True, add_all (map dit_dispatcher dispatchers) t))"

definition GetDispatcher :: "MojoHandle \<Rightarrow> 'd HandleTable \<Rightarrow> 'd option" where
  "GetDispatcher handle t = map_option entry_dispatcher (map_of (handles t) handle)"

definition GetAndRemoveDispatcher ::
  "MojoHandle \<Rightarrow> 'd HandleTable \<Rightarrow> MojoResult \<times> 'd option \<times> 'd HandleTable" where
  "GetAndRemoveDispatcher handle t =
     (case map_of (handles t) handle of
        None \<Rightarrow> (MOJO_RESULT_INVALID_ARGUMENT, None, t)
      | Some e \<Rightarrow>
          if entry_busy e then (MOJO_RESULT_BUSY, None, t)
          else (MOJO_RESULT_OK, Some (entry_dispatcher e), t\<lparr>handles := um_erase handle (handles t)\<rparr>))"

definition set_busy :: "bool \<Rightarrow> MojoHandle \<Rightarrow> 'd HandleTable \<Rightarrow> 'd HandleTable" where
  "set_busy b handle t =
     t\<lparr>handles := map (\<lambda>(h, e). (h, if h = handle then e\<lparr>entry_busy := b\<rparr> else e)) (handles t)\<rparr>"

fun BeginTransit ::
  "('d \<Rightarrow> 's \<Rightarrow> bool \<times> 's) \<Rightarrow> MojoHandle list \<Rightarrow> 'd HandleTable \<Rightarrow> 's \<Rightarrow>
     MojoResult \<times> 'd DispatcherInTransit list \<times> 'd HandleTable \<times> 's" where
  "BeginTransit begin_transit [] t s = (MOJO_RESULT_OK, [], t, s)"
| "BeginTransit begin_transit (h # hs) t s =
     (case map_of (handles t) h of
        None \<Rightarrow> (MOJO_RESULT_INVALID_ARGUMENT, [], t, s)
      | Some e \<Rightarrow>
          if entry_busy e then (MOJO_RESULT_BUSY, [], t, s)
          else (case begin_transit (entry_dispatcher e) s of
                  (ok, s1) \<Rightarrow>
                    if \<not> ok then (MOJO_RESULT_BUSY, [], t, s1)
                    else (case BeginTransit begin_transit hs (set_busy True h t) s1 of
                            (rv, ds, t2, s2) \<Rightarrow>
                              (rv, \<lparr>dit_dispatcher = entry_dispatcher e, local_handle = h\<rparr> # ds, t2, s2))))"

fun CompleteTransitAndClose ::
  "('d \<Rightarrow> 's \<Rightarrow> 's) \<Rightarrow> 'd DispatcherInTransit list \<Rightarrow> 'd HandleTable \<Rightarrow> 's \<Rightarrow> 'd HandleTable \<times> 's" where
  "CompleteTransitAndClose complete [] t s = (t, s)"
| "CompleteTransitAndClose complete (d # ds) t s =
     CompleteTransitAndClose complete ds (t\<lparr>handles := um_erase (local_handle d) (handles t)\<rparr>)
       (complete (dit_dispatcher d) s)"

fun CancelTransit ::
  "('d \<Rightarrow> 's \<Rightarrow> 's) \<Rightarrow> 'd DispatcherInTransit list \<Rightarrow> 'd HandleTable \<Rightarrow> 's \<Rightarrow> 'd HandleTable \<times> 's" where
  "CancelTransit cancel [] t s = (t, s)"
| "CancelTransit cancel (d # ds) t s =
     CancelTransit cancel ds (set_busy False (local_handle d) t) (cancel (dit_dispatcher d) s)"

definition GetActiveHandlesForTest :: "'d HandleTable \<Rightarrow> MojoHandle list" where
  "GetActiveHandlesForTest t = map fst (handles t)"

section \<open>Invariant\<close>

definition table_inv :: "'d HandleTable \<Rightarrow> bool" where
  "table_inv t \<longleftrightarrow> distinct (map fst (handles t)) \<and> MOJO_HANDLE_INVALID \<notin> fst ` set (handles t) \<and>
     (next_available_handle t \<noteq> MOJO_HANDLE_INVALID \<longrightarrow>
        (\<forall>h \<in> fst ` set (handles t). h < next_available_handle t))"

lemma map_of_update_key:
  "map_of (map (\<lambda>(x, e). (x, if x = h then f e else e)) xs) k =
     (if k = h then map_option f (map_of xs h) else map_of xs k)"
  by (induction xs) auto

lemma map_of_set_busy [simp]:
  "map_of (handles (set_busy b h t)) k =
     (if k = h then map_option (\<lambda>e. e\<lparr>entry_busy := b\<rparr>) (map_of (handles t) h) else map_of (handles t) k)"
  by (simp add: set_busy_def map_of_update_key)

lemma set_busy_keys [simp]:
  "map fst (handles (set_busy b h t)) = map fst (handles t)"
  "next_available_handle (set_busy b h t) = next_available_handle t"
  by (simp_all add: set_busy_def case_prod_beta comp_def)

lemma table_inv_init: "table_inv HandleTable_init"
  by (simp add: table_inv_def HandleTable_init_def)

lemma table_inv_keys:
  assumes "table_inv t" "map fst (handles t') = map fst (handles t)"
    "next_available_handle t' = next_available_handle t"
  shows "table_inv t'"
proof -
  have "fst ` set (handles t') = fst ` set (handles t)" using assms(2) by (metis set_map)
  then show ?thesis using assms by (simp add: table_inv_def)
qed

lemma table_inv_erase:
  "table_inv t \<Longrightarrow> table_inv (t\<lparr>handles := um_erase h (handles t)\<rparr>)"
  by (auto simp: table_inv_def)

lemma next_handle_wrap:
  fixes w h :: uint32_t
  assumes "w + 1 \<noteq> 0" "h \<le> w"
  shows "h < w + 1"
  using assms unatSuc [of w] by (simp add: word_le_nat_alt word_less_nat_alt add.commute)

lemma AddDispatcher_next:
  assumes "table_inv t" "next_available_handle t \<noteq> MOJO_HANDLE_INVALID"
  obtains t' where "AddDispatcher d t = (next_available_handle t, t')" "map_of (handles t) (next_available_handle t) = None"
    "map_of (handles t') = (map_of (handles t))(next_available_handle t \<mapsto> Entry_init d)"
    "next_available_handle t' = next_available_handle t + 1" "table_inv t'"
proof -
  let ?h = "next_available_handle t"
  let ?t' = "t\<lparr>next_available_handle := ?h + 1, handles := um_insert ?h (Entry_init d) (handles t)\<rparr>"
  have fresh: "map_of (handles t) ?h = None" using assms by (auto simp: table_inv_def map_of_eq_None_iff)
  have "x < ?h + 1" if "?h + 1 \<noteq> 0" "x \<in> fst ` set (handles ?t')" for x
    using that assms by (intro next_handle_wrap) (auto simp: table_inv_def)
  then have "table_inv ?t'" using assms by (auto simp: table_inv_def)
  then show thesis using fresh assms(2) by (intro that [of ?t']) (auto simp: AddDispatcher_def Let_def)
qed

text \<open>
  Adding a dispatcher to a well-formed table that still has handles returns a handle that is valid
  and was not in use, under which exactly that dispatcher is found afterwards; no other handle
  changes its meaning, and the table stays well formed.
\<close>

theorem AddDispatcher_fresh:
  assumes "table_inv t" "AddDispatcher d t = (h, t')" "next_available_handle t \<noteq> MOJO_HANDLE_INVALID"
  shows "h \<noteq> MOJO_HANDLE_INVALID \<and> GetDispatcher h t = None \<and> GetDispatcher h t' = Some d \<and>
    (\<forall>k. k \<noteq> h \<longrightarrow> map_of (handles t') k = map_of (handles t) k) \<and> table_inv t'"
proof (rule AddDispatcher_next [OF assms(1,3), of d])
  fix t2
  assume "AddDispatcher d t = (next_available_handle t, t2)" "map_of (handles t) (next_available_handle t) = None"
    "map_of (handles t2) = (map_of (handles t))(next_available_handle t \<mapsto> Entry_init d)" "table_inv t2"
  then show ?thesis using assms(2,3) by (simp add: GetDispatcher_def Entry_init_def)
qed

theorem AddDispatcher_fresh_witness:
  "GetDispatcher 1 (snd (AddDispatcher CHR ''d'' HandleTable_init)) = Some CHR ''d''"
proof -
  obtain h t where a: "AddDispatcher CHR ''d'' HandleTable_init = (h, t)" by fastforce
  then have "h = 1" by (simp add: AddDispatcher_def HandleTable_init_def Let_def)
  then show ?thesis
    using AddDispatcher_fresh [OF table_inv_init a] a by (simp add: HandleTable_init_def)
qed

section \<open>Transfers\<close>

lemma set_busy_restore:
  assumes "distinct (map fst (handles t))" "map_of (handles t) h = Some e" "\<not> entry_busy e"
  shows "set_busy False h (set_busy True h t) = t"
proof -
  have "(k, if k = h then e'\<lparr>entry_busy := False\<rparr> else e') = (k, e')" if "(k, e') \<in> set (handles t)" for k e'
  proof (cases "k = h")
    case True
    then have "e' = e" using that assms(1,2) by simp
    then show ?thesis using assms(3) by simp
  qed simp
  then have "map (\<lambda>(k, e'). (k, if k = h then e'\<lparr>entry_busy := False\<rparr> else e')) (handles t) = handles t"
    by (intro map_idI) auto
  moreover have "handles (set_busy False h (set_busy True h t)) =
      map (\<lambda>(k, e'). (k, if k = h then e'\<lparr>entry_busy := False\<rparr> else e')) (handles t)"
    by (auto simp: set_busy_def case_prod_beta)
  ultimately show ?thesis by (simp add: set_busy_def)
qed

lemma set_busy_commute: "set_busy b h (set_busy c k t) = set_busy c k (set_busy b h t)" if "h \<noteq> k"
  using that by (auto simp: set_busy_def case_prod_beta)

lemma CancelTransit_commute:
  "h \<notin> local_handle ` set ds \<Longrightarrow>
     set_busy b h (fst (CancelTransit c ds t s)) = fst (CancelTransit c ds (set_busy b h t) s)"
  by (induction ds arbitrary: t s) (auto simp: set_busy_commute)

text \<open>The successful step of the loop of \<open>BeginTransit\<close>.\<close>

lemma BeginTransit_step:
  assumes "BeginTransit b (h # hs) t s = (rv, ds, t', s')" "ds \<noteq> [] \<or> rv = MOJO_RESULT_OK"
  obtains e s1 ds2 where "map_of (handles t) h = Some e" "\<not> entry_busy e" "b (entry_dispatcher e) s = (True, s1)"
    "BeginTransit b hs (set_busy True h t) s1 = (rv, ds2, t', s')"
    "ds = \<lparr>dit_dispatcher = entry_dispatcher e, local_handle = h\<rparr> # ds2"
  using assms by (auto split: option.splits if_splits prod.splits)

lemma BeginTransit_not_busy:
  "BeginTransit b hs t s = (rv, ds, t', s') \<Longrightarrow> d \<in> set ds \<Longrightarrow>
     \<exists>e. map_of (handles t) (local_handle d) = Some e \<and> \<not> entry_busy e \<and> entry_dispatcher e = dit_dispatcher d"
proof (induction hs arbitrary: t s ds)
  case (Cons h hs)
  then obtain e s1 ds2 where st: "map_of (handles t) h = Some e" "\<not> entry_busy e"
    "BeginTransit b hs (set_busy True h t) s1 = (rv, ds2, t', s')"
    "ds = \<lparr>dit_dispatcher = entry_dispatcher e, local_handle = h\<rparr> # ds2"
    using BeginTransit_step [OF Cons.prems(1)] by (metis empty_iff empty_set)
  then show ?case using Cons.IH [OF st(3)] Cons.prems(2) by (auto split: if_splits)
qed simp

lemma BeginTransit_fresh:
  assumes "BeginTransit b hs (set_busy True h t) s1 = (rv, ds, t', s')"
  shows "h \<notin> local_handle ` set ds"
  using BeginTransit_not_busy [OF assms] by fastforce

text \<open>
  Whatever the outcome of \<open>BeginTransit\<close> (success, a bad handle, a busy one, or a dispatcher that
  refuses), the dispatchers it reports are exactly the ones it marked busy: cancelling the transfer
  of those restores the table to what it was.
\<close>

theorem BeginTransit_CancelTransit:
  assumes "table_inv t" "BeginTransit b hs t s = (rv, ds, t', s')"
  shows "fst (CancelTransit c ds t' s2) = t"
  using assms
proof (induction hs arbitrary: t s ds s2)
  case (Cons h hs)
  show ?case
  proof (cases "ds = []")
    case True
    then show ?thesis using Cons.prems(2) by (auto split: option.splits if_splits prod.splits)
  next
    case False
    then obtain e s1 ds2 where st: "map_of (handles t) h = Some e" "\<not> entry_busy e"
      "BeginTransit b hs (set_busy True h t) s1 = (rv, ds2, t', s')"
      "ds = \<lparr>dit_dispatcher = entry_dispatcher e, local_handle = h\<rparr> # ds2"
      using BeginTransit_step [OF Cons.prems(2)] by metis
    have "table_inv (set_busy True h t)" by (rule table_inv_keys [OF Cons.prems(1)]) simp_all
    note ih = Cons.IH [OF this st(3)]
    have "fst (CancelTransit c ds t' s2) = set_busy False h (fst (CancelTransit c ds2 t' (c (entry_dispatcher e) s2)))"
      unfolding st(4) using BeginTransit_fresh [OF st(3)] by (simp add: CancelTransit_commute)
    also have "\<dots> = t"
      unfolding ih using set_busy_restore [OF _ st(1,2)] Cons.prems(1) by (simp add: table_inv_def)
    finally show ?thesis .
  qed
qed simp

text \<open>Two dispatchers under the handles 1 and 2, for the examples.\<close>

definition example_table :: "char HandleTable" where
  "example_table = snd (AddDispatcher CHR ''b'' (snd (AddDispatcher CHR ''a'' HandleTable_init)))"

lemma example_table_inv: "table_inv example_table"
  by (simp add: example_table_def AddDispatcher_def HandleTable_init_def table_inv_def um_insert_def Let_def)

theorem BeginTransit_CancelTransit_witness:
  "(case BeginTransit (\<lambda>d s. (d = CHR ''a'', s)) [1, 2] example_table () of
     (rv, ds, t', _) \<Rightarrow> rv = MOJO_RESULT_BUSY \<and> map local_handle ds = [1] \<and> fst (CancelTransit (\<lambda>_ s. s) ds t' ()) = example_table)"
proof -
  obtain rv ds t' s' where b: "BeginTransit (\<lambda>d s. (d = CHR ''a'', s)) [1, 2] example_table () = (rv, ds, t', s')"
    by (metis prod_cases4)
  then have "rv = MOJO_RESULT_BUSY" "map local_handle ds = [1]"
    by (auto simp: example_table_def AddDispatcher_def HandleTable_init_def um_insert_def Entry_init_def Let_def)
  then show ?thesis using BeginTransit_CancelTransit [OF example_table_inv b] b by simp
qed

lemma CompleteTransit_removes:
  "map_of (handles (fst (CompleteTransitAndClose c ds t s))) k =
     (if k \<in> local_handle ` set ds then None else map_of (handles t) k)"
  by (induction ds arbitrary: t s) auto

lemma BeginTransit_keys:
  "BeginTransit b hs t s = (MOJO_RESULT_OK, ds, t', s') \<Longrightarrow>
     map local_handle ds = hs \<and> distinct hs \<and>
     (\<forall>k. k \<notin> set hs \<longrightarrow> map_of (handles t') k = map_of (handles t) k)"
proof (induction hs arbitrary: t s ds)
  case (Cons h hs)
  obtain e s1 ds2 where st: "BeginTransit b hs (set_busy True h t) s1 = (MOJO_RESULT_OK, ds2, t', s')"
    "ds = \<lparr>dit_dispatcher = entry_dispatcher e, local_handle = h\<rparr> # ds2" "map_of (handles t) h = Some e"
    by (rule BeginTransit_step [OF Cons.prems]) blast+
  note ih = Cons.IH [OF st(1)]
  have "h \<notin> set hs" using BeginTransit_fresh [OF st(1)] ih by (metis set_map)
  then show ?case using ih st(2) by auto
qed simp

text \<open>
  A completed transfer removes from the table exactly the handles that were sent, which are pairwise
  distinct; every other handle is untouched.
\<close>

theorem transit_removes_exactly:
  assumes "BeginTransit b hs t s = (MOJO_RESULT_OK, ds, t1, s1)" "CompleteTransitAndClose c ds t1 s2 = (t2, s3)"
  shows "distinct hs \<and> (\<forall>k. map_of (handles t2) k = (if k \<in> set hs then None else map_of (handles t) k))"
proof -
  note k = BeginTransit_keys [OF assms(1)]
  have "local_handle ` set ds = set hs" using k by (metis set_map)
  then show ?thesis
    using k CompleteTransit_removes [of c ds t1 s2] assms(2) by auto
qed

theorem transit_removes_exactly_witness:
  "(case BeginTransit (\<lambda>d s. (True, s)) [1] example_table () of
     (rv, ds, t', s') \<Rightarrow> GetDispatcher 1 (fst (CompleteTransitAndClose (\<lambda>_ s. s) ds t' s')) = None)"
proof -
  obtain rv ds t' s' where b: "BeginTransit (\<lambda>d s. (True, s)) [1] example_table () = (rv, ds, t', s')"
    by (metis prod_cases4)
  have "rv = MOJO_RESULT_OK" using b
    by (auto simp: example_table_def AddDispatcher_def HandleTable_init_def um_insert_def Entry_init_def Let_def)
  moreover obtain t'' s'' where c: "CompleteTransitAndClose (\<lambda>_ s. s) ds t' s' = (t'', s'')"
    using prod.exhaust_sel by blast
  ultimately show ?thesis using transit_removes_exactly [of _ "[1]" example_table "()" ds t' s' _ s' t'' s''] b c
    by (simp add: GetDispatcher_def)
qed

text \<open>
  C31: The overflow test of \<open>AddDispatchersFromTransit\<close> never fires on a 64-bit machine: near the end of the
  handle space the call succeeds and hands out the invalid handle among the new ones.
\<close>

theorem AddDispatchersFromTransit_wraps:
  assumes "next_available_handle t \<noteq> MOJO_HANDLE_INVALID" "length ds < 2 ^ 32"
    and "2 ^ 32 - unat (next_available_handle t) < length ds"
  shows "fst (AddDispatchersFromTransit ds t) \<and>
    MOJO_HANDLE_INVALID \<in> set (fst (snd (AddDispatchersFromTransit ds t)))"
proof -
  let ?n = "next_available_handle t"
  have n: "unat ?n < 2 ^ 32" using unsigned_less [of ?n] by simp
  have hs: "fst (add_all xs u) = seq_from (next_available_handle u) (length xs)" for xs :: "'a list" and u
    by (induction xs u rule: add_all.induct) (auto simp: Let_def split: prod.splits)
  have "unat ((ucast ?n :: size_t) + of_nat (length ds)) = unat ?n + length ds"
    using n assms(2) by (simp add: unat_word_ariths unat_of_nat unsigned_ucast_eq take_bit_eq_mod)
  then have no: "\<not> (ucast ?n :: size_t) + of_nat (length ds) < ucast ?n"
    using n by (simp add: word_less_nat_alt unsigned_ucast_eq take_bit_eq_mod)
  let ?i = "2 ^ 32 - unat ?n"
  have "seq_from ?n (length ds) ! ?i = ?n + of_nat ?i" using assms(3) by (rule seq_from_nth)
  also have "\<dots> = of_nat (unat ?n + ?i)" by simp
  also have "unat ?n + ?i = 2 ^ 32" using n by simp
  also have "(of_nat (2 ^ 32) :: uint32_t) = 0" by simp
  finally have "0 \<in> set (seq_from ?n (length ds))"
    using assms(3) by (metis length_seq_from nth_mem)
  then show ?thesis using assms(1) no hs [of "map dit_dispatcher ds" t]
    by (simp add: AddDispatchersFromTransit_def)
qed

theorem AddDispatchersFromTransit_wraps_witness:
  "fst (AddDispatchersFromTransit [\<lparr>dit_dispatcher = (), local_handle = 5\<rparr>, \<lparr>dit_dispatcher = (), local_handle = 6\<rparr>]
     \<lparr>handles = [], next_available_handle = 0xFFFFFFFF\<rparr>)"
  using AddDispatchersFromTransit_wraps [of "\<lparr>handles = [], next_available_handle = 0xFFFFFFFF\<rparr>"
      "[\<lparr>dit_dispatcher = (), local_handle = 5\<rparr>, \<lparr>dit_dispatcher = (), local_handle = 6\<rparr>]"]
  by simp

end
