(* ===== verification/Dispatchers.thy ===== *)
theory Dispatchers
  imports Message_Pipe Wait_Set Handle_Table
begin

text \<open>
  The class hierarchy of dispatchers (\<open>dispatcher.h\<close>, \<open>dispatcher.cc\<close>) and the process that owns
  them.  Dispatchers live in a store and are named by their address; a virtual call looks at the kind
  of the object there, and the methods that a class does not override are the base class's.  The
  observer of a port is the address of the dispatcher that observes it.
\<close>

section \<open>Objects\<close>

datatype Dispatcher =
    D_MessagePipe MessagePipe
  | D_Producer Producer
  | D_Consumer Consumer
  | D_SharedBuffer SharedBuffer
  | D_WaitSet WaitSet
  | D_PlatformHandle PlatformHandleWrapper

datatype Type = UNKNOWN | MESSAGE_PIPE | DATA_PIPE_PRODUCER | DATA_PIPE_CONSUMER | SHARED_BUFFER | WAIT_SET | PLATFORM_HANDLE

fun Type_code :: "Type \<Rightarrow> uint32_t" where
  "Type_code UNKNOWN = 0"
| "Type_code MESSAGE_PIPE = 1"
| "Type_code DATA_PIPE_PRODUCER = 2"
| "Type_code DATA_PIPE_CONSUMER = 3"
| "Type_code SHARED_BUFFER = 4"
| "Type_code WAIT_SET = 5"
| "Type_code PLATFORM_HANDLE = - 1"

fun GetType :: "Dispatcher \<Rightarrow> Type" where
  "GetType (D_MessagePipe _) = MESSAGE_PIPE"
| "GetType (D_Producer _) = DATA_PIPE_PRODUCER"
| "GetType (D_Consumer _) = DATA_PIPE_CONSUMER"
| "GetType (D_SharedBuffer _) = SHARED_BUFFER"
| "GetType (D_WaitSet _) = WAIT_SET"
| "GetType (D_PlatformHandle _) = PLATFORM_HANDLE"

text \<open>The process: \<open>Core\<close> with its node controller, the memory, the dispatchers and the handles.\<close>

record Core =
  core_env :: PipeEnv
  core_objects :: "nat \<Rightarrow> Dispatcher option"
  core_next :: nat
  core_handles :: "nat HandleTable"

abbreviation controller :: "Core \<Rightarrow> NodeController" where
  "controller w \<equiv> pe_controller (core_env w)"

definition set_controller :: "NodeController \<Rightarrow> Core \<Rightarrow> Core" where
  "set_controller c w = w\<lparr>core_env := (core_env w)\<lparr>pe_controller := c\<rparr>\<rparr>"

definition put_object :: "nat \<Rightarrow> Dispatcher \<Rightarrow> Core \<Rightarrow> Core" where
  "put_object a d w = w\<lparr>core_objects := (core_objects w)(a := Some d)\<rparr>"

text \<open>\<open>new\<close>: the object gets the next address.\<close>

definition alloc :: "Dispatcher \<Rightarrow> Core \<Rightarrow> nat \<times> Core" where
  "alloc d w = (core_next w, put_object (core_next w) d (w\<lparr>core_next := Suc (core_next w)\<rparr>))"

section \<open>Awakables\<close>

definition V_AddAwakable ::
  "platform \<Rightarrow> nat \<Rightarrow> signal set \<Rightarrow> nat \<Rightarrow> nat \<Rightarrow> Core \<Rightarrow> fault + MojoResult \<times> HandleSignalsState option \<times> Core" where
  "V_AddAwakable pl awakable signals context a w =
     (case core_objects w a of
        None \<Rightarrow> Inl NullPointer
      | Some (D_MessagePipe d) \<Rightarrow>
          (case MP_AddAwakable (pl_signals pl) awakable signals context d (nc_node (controller w)) of
             Inl f \<Rightarrow> Inl f
           | Inr (rv, st, d') \<Rightarrow> Inr (rv, st, put_object a (D_MessagePipe d') w))
      | Some (D_Producer d) \<Rightarrow>
          (case P_AddAwakable (pl_stale pl) (pl_signals pl) awakable signals context d (core_env w) of
             Inl f \<Rightarrow> Inl f
           | Inr (rv, st, d', e) \<Rightarrow> Inr (rv, st, put_object a (D_Producer d') (w\<lparr>core_env := e\<rparr>)))
      | Some (D_Consumer d) \<Rightarrow>
          (case C_AddAwakable (pl_stale pl) (pl_signals pl) awakable signals context d (core_env w) of
             Inl f \<Rightarrow> Inl f
           | Inr (rv, st, d', e) \<Rightarrow> Inr (rv, st, put_object a (D_Consumer d') (w\<lparr>core_env := e\<rparr>)))
      | Some (D_WaitSet d) \<Rightarrow>
          (case WS_AddAwakable (pl_signals pl) awakable signals context d of
             (rv, st, d') \<Rightarrow> Inr (rv, st, put_object a (D_WaitSet d') w))
      | Some _ \<Rightarrow> Inr (MOJO_RESULT_INVALID_ARGUMENT, None, w))"

text \<open>The base class's method is \<open>NOTREACHED()\<close>: only an awakable that was added is removed.\<close>

definition V_RemoveAwakable :: "nat \<Rightarrow> bool \<Rightarrow> nat \<Rightarrow> Core \<Rightarrow> fault + HandleSignalsState \<times> Core" where
  "V_RemoveAwakable awakable wants_state a w =
     (case core_objects w a of
        None \<Rightarrow> Inl NullPointer
      | Some (D_MessagePipe d) \<Rightarrow>
          (case MP_RemoveAwakable awakable wants_state d (nc_node (controller w)) of
             Inl f \<Rightarrow> Inl f
           | Inr (st, d') \<Rightarrow> Inr (st, put_object a (D_MessagePipe d') w))
      | Some (D_Producer d) \<Rightarrow>
          (case P_RemoveAwakable awakable d of (st, d') \<Rightarrow> Inr (st, put_object a (D_Producer d') w))
      | Some (D_Consumer d) \<Rightarrow>
          (case C_RemoveAwakable awakable d of (st, d') \<Rightarrow> Inr (st, put_object a (D_Consumer d') w))
      | Some (D_WaitSet d) \<Rightarrow>
          (case WS_RemoveAwakable awakable d of (st, d') \<Rightarrow> Inr (st, put_object a (D_WaitSet d') w))
      | Some _ \<Rightarrow> Inr (no_signals, w))"

definition V_GetHandleSignalsState :: "nat \<Rightarrow> Core \<Rightarrow> fault + HandleSignalsState" where
  "V_GetHandleSignalsState a w =
     (case core_objects w a of
        None \<Rightarrow> Inl NullPointer
      | Some (D_MessagePipe d) \<Rightarrow> MP_GetHandleSignalsStateNoLock d (nc_node (controller w))
      | Some (D_Producer d) \<Rightarrow> Inr (P_GetHandleSignalsStateNoLock d)
      | Some (D_Consumer d) \<Rightarrow> Inr (C_GetHandleSignalsStateNoLock d)
      | Some (D_WaitSet d) \<Rightarrow> Inr (WS_GetHandleSignalsState d)
      | Some _ \<Rightarrow> Inr no_signals)"

text \<open>The calls that a wait set makes with its own waiter, which bears the address of the set.\<close>

definition add_waiter :: "platform \<Rightarrow> nat \<Rightarrow> nat \<Rightarrow> signal set \<Rightarrow> nat \<Rightarrow> Core \<Rightarrow> fault + MojoResult \<times> Core" where
  "add_waiter pl this d signals context w =
     (case V_AddAwakable pl this signals context d w of Inl f \<Rightarrow> Inl f | Inr (rv, _, w') \<Rightarrow> Inr (rv, w'))"

definition remove_waiter :: "nat \<Rightarrow> nat \<Rightarrow> Core \<Rightarrow> fault + Core" where
  "remove_waiter this d w =
     (case V_RemoveAwakable this False d w of Inl f \<Rightarrow> Inl f | Inr (_, w') \<Rightarrow> Inr w')"

section \<open>Closing\<close>

definition V_Close :: "nat \<Rightarrow> nat \<Rightarrow> Core \<Rightarrow> (MojoResult \<times> Core) outcome" where
  "V_Close fuel a w =
     (case core_objects w a of
        None \<Rightarrow> Some (Inl NullPointer)
      | Some (D_MessagePipe d) \<Rightarrow>
          and_then (MP_Close fuel d (controller w))
            (\<lambda>(rv, d', c). Some (Inr (rv, put_object a (D_MessagePipe d') (set_controller c w))))
      | Some (D_Producer d) \<Rightarrow>
          and_then (P_Close fuel d (core_env w))
            (\<lambda>(rv, d', e). Some (Inr (rv, put_object a (D_Producer d') (w\<lparr>core_env := e\<rparr>))))
      | Some (D_Consumer d) \<Rightarrow>
          and_then (C_Close fuel d (core_env w))
            (\<lambda>(rv, d', e). Some (Inr (rv, put_object a (D_Consumer d') (w\<lparr>core_env := e\<rparr>))))
      | Some (D_SharedBuffer d) \<Rightarrow>
          (case SB_Close d of (rv, d') \<Rightarrow> Some (Inr (rv, put_object a (D_SharedBuffer d') w)))
      | Some (D_WaitSet d) \<Rightarrow>
          and_then (Some (WS_Close (remove_waiter a) d w))
            (\<lambda>(rv, d', w'). Some (Inr (rv, put_object a (D_WaitSet d') w')))
      | Some (D_PlatformHandle d) \<Rightarrow>
          (case PH_Close d of (rv, d') \<Rightarrow> Some (Inr (rv, put_object a (D_PlatformHandle d') w))))"

text \<open>What a port's observer does.\<close>

definition V_OnPortStatusChanged :: "platform \<Rightarrow> nat \<Rightarrow> Core \<Rightarrow> fault + Core" where
  "V_OnPortStatusChanged pl a w =
     (case core_objects w a of
        Some (D_MessagePipe d) \<Rightarrow>
          (case MP_OnPortStatusChanged d (nc_node (controller w)) of
             Inl f \<Rightarrow> Inl f
           | Inr d' \<Rightarrow> Inr (put_object a (D_MessagePipe d') w))
      | Some (D_Producer d) \<Rightarrow>
          (case P_OnPortStatusChanged (pl_stale pl) d (core_env w) of
             Inl f \<Rightarrow> Inl f
           | Inr (d', e) \<Rightarrow> Inr (put_object a (D_Producer d') (w\<lparr>core_env := e\<rparr>)))
      | Some (D_Consumer d) \<Rightarrow>
          (case C_OnPortStatusChanged (pl_stale pl) d (core_env w) of
             Inl f \<Rightarrow> Inl f
           | Inr (d', e) \<Rightarrow> Inr (put_object a (D_Consumer d') (w\<lparr>core_env := e\<rparr>)))
      | _ \<Rightarrow> Inl NullPointer)"

section \<open>Transfers\<close>

text \<open>
  The serialised states of data pipe ends: the options, the pipe's identity, a flag with three bytes of
  padding, two integers and four bytes of padding.
\<close>

definition sizeof_pipe_state :: "platform \<Rightarrow> nat" where
  "sizeof_pipe_state pl = pl_sizeof_options pl + 24"

definition write_pipe_state ::
  "platform \<Rightarrow> MojoCreateDataPipeOptions \<Rightarrow> uint64_t \<Rightarrow> bool \<Rightarrow> uint32_t \<Rightarrow> uint32_t \<Rightarrow> uint8_t list \<Rightarrow> uint8_t list" where
  "write_pipe_state pl options pipe_id closed offset amount destination =
     (let so = pl_sizeof_options pl
      in overwrite (so + 12) (write_u32 offset @ write_u32 amount)
           (overwrite 0 (pl_write_options pl options @ write_u64 pipe_id @ [if closed then 1 else 0]) destination))"

definition read_pipe_state ::
  "platform \<Rightarrow> uint8_t list \<Rightarrow> MojoCreateDataPipeOptions \<times> uint64_t \<times> bool \<times> uint32_t \<times> uint32_t" where
  "read_pipe_state pl data =
     (let so = pl_sizeof_options pl
      in (pl_read_options pl data, read_u64 (drop so data), data ! (so + 8) \<noteq> 0,
          read_u32 (drop (so + 12) data), read_u32 (drop (so + 16) data)))"

fun V_StartSerialize :: "platform \<Rightarrow> Dispatcher \<Rightarrow> uint32_t \<times> uint32_t \<times> uint32_t" where
  "V_StartSerialize pl (D_MessagePipe d) = MP_StartSerialize"
| "V_StartSerialize pl (D_Producer d) =
     (of_nat (sizeof_pipe_state pl), of_nat (fst P_StartSerialize), of_nat (snd P_StartSerialize))"
| "V_StartSerialize pl (D_Consumer d) =
     (of_nat (sizeof_pipe_state pl), of_nat (fst C_StartSerialize), of_nat (snd C_StartSerialize))"
| "V_StartSerialize pl (D_SharedBuffer d) = SB_StartSerialize"
| "V_StartSerialize pl (D_WaitSet d) = (0, 0, 0)"
| "V_StartSerialize pl (D_PlatformHandle d) = PH_StartSerialize"

text \<open>
  \<open>EndSerialize\<close> gets its part of the message and returns whether it succeeds, the new contents of that
  part, the names of ports and the handles that it stores.
\<close>

type_synonym serialized = "bool \<times> uint8_t list \<times> PortName list \<times> PlatformHandle list"

fun V_EndSerialize :: "platform \<Rightarrow> uint8_t list \<Rightarrow> Dispatcher \<Rightarrow> fault + serialized \<times> Dispatcher" where
  "V_EndSerialize pl dest (D_MessagePipe d) =
     (case MP_EndSerialize dest d of (bytes, nms) \<Rightarrow> Inr ((True, bytes, nms, []), D_MessagePipe d))"
| "V_EndSerialize pl dest (D_Producer d) =
     (case P_EndSerialize (pl_DuplicatePlatformHandle pl) d of
        Inl f \<Rightarrow> Inl f
      | Inr ((st, nms, hs), d') \<Rightarrow>
          Inr ((True, write_pipe_state pl (ps_options st) (ps_pipe_id st) (ps_peer_closed st) (ps_write_offset st)
                        (ps_available_capacity st) dest, nms, hs), D_Producer d'))"
| "V_EndSerialize pl dest (D_Consumer d) =
     (case C_EndSerialize (pl_DuplicatePlatformHandle pl) d of
        Inl f \<Rightarrow> Inl f
      | Inr ((st, nms, hs), d') \<Rightarrow>
          Inr ((True, write_pipe_state pl (cs_options st) (cs_pipe_id st) (cs_peer_closed st) (cs_read_offset st)
                        (cs_bytes_available st) dest, nms, hs), D_Consumer d'))"
| "V_EndSerialize pl dest (D_SharedBuffer d) =
     (case SB_EndSerialize pl dest d of
        Inl f \<Rightarrow> Inl f
      | Inr ((ok, bytes, hs), d') \<Rightarrow> Inr ((ok, bytes, [], hs), D_SharedBuffer d'))"
| "V_EndSerialize pl dest (D_WaitSet d) = Inr ((True, dest, [], []), D_WaitSet d)"
| "V_EndSerialize pl dest (D_PlatformHandle d) =
     (case PH_EndSerialize pl d of (ok, hs) \<Rightarrow> Inr ((ok, dest, [], hs), D_PlatformHandle d))"

definition V_BeginTransit :: "nat \<Rightarrow> Core \<Rightarrow> bool \<times> Core" where
  "V_BeginTransit a w =
     (case core_objects w a of
        None \<Rightarrow> (False, w)
      | Some (D_MessagePipe d) \<Rightarrow> (case MP_BeginTransit d of (ok, d') \<Rightarrow> (ok, put_object a (D_MessagePipe d') w))
      | Some (D_Producer d) \<Rightarrow> (case P_BeginTransit d of (ok, d') \<Rightarrow> (ok, put_object a (D_Producer d') w))
      | Some (D_Consumer d) \<Rightarrow> (case C_BeginTransit d of (ok, d') \<Rightarrow> (ok, put_object a (D_Consumer d') w))
      | Some (D_SharedBuffer d) \<Rightarrow> (case SB_BeginTransit d of (ok, d') \<Rightarrow> (ok, put_object a (D_SharedBuffer d') w))
      | Some (D_WaitSet d) \<Rightarrow> (WS_BeginTransit d, w)
      | Some (D_PlatformHandle d) \<Rightarrow> (case PH_BeginTransit d of (ok, d') \<Rightarrow> (ok, put_object a (D_PlatformHandle d') w)))"

definition V_CompleteTransitAndClose :: "nat \<Rightarrow> nat \<Rightarrow> Core \<Rightarrow> Core outcome" where
  "V_CompleteTransitAndClose fuel a w =
     (case core_objects w a of
        None \<Rightarrow> Some (Inl NullPointer)
      | Some (D_MessagePipe d) \<Rightarrow>
          and_then (MP_CompleteTransitAndClose fuel d (controller w))
            (\<lambda>(d', c). Some (Inr (put_object a (D_MessagePipe d') (set_controller c w))))
      | Some (D_Producer d) \<Rightarrow>
          and_then (P_CompleteTransitAndClose fuel d (core_env w))
            (\<lambda>(d', e). Some (Inr (put_object a (D_Producer d') (w\<lparr>core_env := e\<rparr>))))
      | Some (D_Consumer d) \<Rightarrow>
          and_then (C_CompleteTransitAndClose fuel d (core_env w))
            (\<lambda>(d', e). Some (Inr (put_object a (D_Consumer d') (w\<lparr>core_env := e\<rparr>))))
      | Some (D_SharedBuffer d) \<Rightarrow> Some (Inr (put_object a (D_SharedBuffer (SB_CompleteTransitAndClose d)) w))
      | Some (D_WaitSet d) \<Rightarrow> Some (Inr w)
      | Some (D_PlatformHandle d) \<Rightarrow> Some (Inr (put_object a (D_PlatformHandle (PH_CompleteTransitAndClose d)) w)))"

definition V_CancelTransit :: "platform \<Rightarrow> nat \<Rightarrow> Core \<Rightarrow> Core outcome" where
  "V_CancelTransit pl a w =
     (case core_objects w a of
        None \<Rightarrow> Some (Inl NullPointer)
      | Some (D_MessagePipe d) \<Rightarrow>
          and_then (Some (MP_CancelTransit d (nc_node (controller w))))
            (\<lambda>d'. Some (Inr (put_object a (D_MessagePipe d') w)))
      | Some (D_Producer d) \<Rightarrow> Some (Inr (put_object a (D_Producer (P_CancelTransit d)) w))
      | Some (D_Consumer d) \<Rightarrow>
          and_then (Some (C_CancelTransit (pl_stale pl) d (core_env w)))
            (\<lambda>(d', e). Some (Inr (put_object a (D_Consumer d') (w\<lparr>core_env := e\<rparr>))))
      | Some (D_SharedBuffer d) \<Rightarrow> Some (Inr (put_object a (D_SharedBuffer (SB_CancelTransit d)) w))
      | Some (D_WaitSet d) \<Rightarrow> Some (Inr w)
      | Some (D_PlatformHandle d) \<Rightarrow> Some (Inr (put_object a (D_PlatformHandle (PH_CancelTransit d)) w)))"

text \<open>
  \<open>Dispatcher::Deserialize\<close>: the type is the number in the message, and the address of the object is the
  result.  The arrays start where the pointers point; the pointer to the handles may be null.
\<close>

definition D_Deserialize ::
  "platform \<Rightarrow> uint32_t \<Rightarrow> uint8_t list \<Rightarrow> nat \<Rightarrow> PortName list \<Rightarrow> nat \<Rightarrow> PlatformHandle list option \<Rightarrow> nat \<Rightarrow> Core \<Rightarrow>
     fault + nat option \<times> Core" where
  "D_Deserialize pl type bytes nbytes nms nports platform_handles nhandles w =
     (if type = Type_code MESSAGE_PIPE
      then (case MP_Deserialize (core_next w) bytes nbytes nms nports nhandles (controller w) of
              Inl f \<Rightarrow> Inl f
            | Inr (None, c) \<Rightarrow> Inr (None, set_controller c w)
            | Inr (Some d, c) \<Rightarrow> (case alloc (D_MessagePipe d) (set_controller c w) of (a, w') \<Rightarrow> Inr (Some a, w')))
      else if type = Type_code SHARED_BUFFER
      then (case SB_Deserialize pl bytes nbytes nports platform_handles nhandles of
              Inl f \<Rightarrow> Inl f
            | Inr None \<Rightarrow> Inr (None, w)
            | Inr (Some d) \<Rightarrow> (case alloc (D_SharedBuffer d) w of (a, w') \<Rightarrow> Inr (Some a, w')))
      else if type = Type_code DATA_PIPE_CONSUMER \<or> type = Type_code DATA_PIPE_PRODUCER
      then (if nports \<noteq> 1 \<or> nhandles \<noteq> 1 \<or> nbytes \<noteq> sizeof_pipe_state pl then Inr (None, w)
            else if length bytes < sizeof_pipe_state pl \<or> nms = [] then Inl OutOfBounds
            else if fst (GetPort (hd nms) (nc_node (controller w))) \<noteq> OK then Inr (None, w)
            else (case platform_handles of
                    None \<Rightarrow> Inl NullPointer
                  | Some [] \<Rightarrow> Inl OutOfBounds
                  | Some (h # _) \<Rightarrow>
                      (case read_pipe_state pl bytes of
                         (options, pipe_id, closed, offset, amount) \<Rightarrow>
                           if type = Type_code DATA_PIPE_CONSUMER
                           then (case C_Deserialize (\<lambda>n. pl_CreateSharedBufferFromHandle pl (ucast n)) (pl_Map pl) (core_next w)
                                        (Some \<lparr>cs_options = options, cs_pipe_id = pipe_id, cs_peer_closed = closed,
                                               cs_read_offset = offset, cs_bytes_available = amount\<rparr>)
                                        [hd nms] [h] (core_env w) of
                                   (None, e) \<Rightarrow> Inr (None, w\<lparr>core_env := e\<rparr>)
                                 | (Some d, e) \<Rightarrow> (case alloc (D_Consumer d) (w\<lparr>core_env := e\<rparr>) of (a, w') \<Rightarrow> Inr (Some a, w')))
                           else (case P_Deserialize (\<lambda>n. pl_CreateSharedBufferFromHandle pl (ucast n)) (pl_Map pl) (core_next w)
                                        (Some \<lparr>ps_options = options, ps_pipe_id = pipe_id, ps_peer_closed = closed,
                                               ps_write_offset = offset, ps_available_capacity = amount\<rparr>)
                                        [hd nms] [h] (core_env w) of
                                   (None, e) \<Rightarrow> Inr (None, w\<lparr>core_env := e\<rparr>)
                                 | (Some d, e) \<Rightarrow> (case alloc (D_Producer d) (w\<lparr>core_env := e\<rparr>) of (a, w') \<Rightarrow> Inr (Some a, w'))))))
      else if type = Type_code PLATFORM_HANDLE
      then (case PH_Deserialize nbytes nports platform_handles nhandles of
              Inl f \<Rightarrow> Inl f
            | Inr None \<Rightarrow> Inr (None, w)
            | Inr (Some d) \<Rightarrow> (case alloc (D_PlatformHandle d) w of (a, w') \<Rightarrow> Inr (Some a, w')))
      else Inr (None, w))"

end
