(* ===== verification/Core_Messages.thy ===== *)
theory Core_Messages
  imports Dispatchers
begin

text \<open>
  Messages of a message pipe (\<open>MessagePipeDispatcher::WriteMessage\<close> and \<open>ReadMessage\<close> in
  \<open>message_pipe_dispatcher.cc\<close>).  The payload of a message starts with a header, one header for each
  dispatcher that travels with it, and the serialised state of these dispatchers; the bytes that the
  caller wrote follow.
\<close>

section \<open>Writing\<close>

record DispatcherHeader =
  dh_type :: uint32_t
  dh_num_bytes :: uint32_t
  dh_num_ports :: uint32_t
  dh_num_platform_handles :: uint32_t

definition write_DispatcherHeader :: "DispatcherHeader \<Rightarrow> uint8_t list" where
  "write_DispatcherHeader dh =
     write_u32 (dh_type dh) @ write_u32 (dh_num_bytes dh) @ write_u32 (dh_num_ports dh) @ write_u32 (dh_num_platform_handles dh)"

definition read_DispatcherHeader :: "uint8_t list \<Rightarrow> DispatcherHeader" where
  "read_DispatcherHeader bs =
     \<lparr>dh_type = read_u32 bs, dh_num_bytes = read_u32 (drop 4 bs), dh_num_ports = read_u32 (drop 8 bs),
      dh_num_platform_handles = read_u32 (drop 12 bs)\<rparr>"

text \<open>The first loop: what each dispatcher needs.\<close>

fun start_serialize :: "platform \<Rightarrow> nat list \<Rightarrow> Core \<Rightarrow> fault + DispatcherHeader list" where
  "start_serialize pl [] w = Inr []"
| "start_serialize pl (a # as) w =
     (case core_objects w a of
        None \<Rightarrow> Inl NullPointer
      | Some d \<Rightarrow>
          (case start_serialize pl as w of
             Inl f \<Rightarrow> Inl f
           | Inr dhs \<Rightarrow>
               (case V_StartSerialize pl d of
                  (nb, np, nh) \<Rightarrow>
                    Inr (\<lparr>dh_type = Type_code (GetType d), dh_num_bytes = nb, dh_num_ports = np, dh_num_platform_handles = nh\<rparr> # dhs))))"

definition data_size :: "DispatcherHeader list \<Rightarrow> nat" where
  "data_size dhs = sum_list (map (unat \<circ> dh_num_bytes) dhs)"

definition header_size :: "DispatcherHeader list \<Rightarrow> nat" where
  "header_size dhs = 8 + length dhs * 16 + data_size dhs"

text \<open>
  The second loop: each dispatcher fills in its part of the message, which is not initialised before,
  starting at \<open>off\<close>.  The first one that rejects ends it (\<open>None\<close>).
\<close>

fun end_serialize ::
  "platform \<Rightarrow> nat \<Rightarrow> (nat \<times> DispatcherHeader) list \<Rightarrow> Core \<Rightarrow>
     fault + (uint8_t list \<times> PortName list \<times> PlatformHandle list) option \<times> Core" where
  "end_serialize pl off [] w = Inr (Some ([], [], []), w)"
| "end_serialize pl off ((a, dh) # xs) w =
     (case core_objects w a of
        None \<Rightarrow> Inl NullPointer
      | Some d \<Rightarrow>
          (case V_EndSerialize pl (map (pl_garbage pl) [off..<off + unat (dh_num_bytes dh)]) d of
             Inl f \<Rightarrow> Inl f
           | Inr ((ok, bytes, nms, hs), d') \<Rightarrow>
               if \<not> ok then Inr (None, put_object a d' w)
               else (case end_serialize pl (off + unat (dh_num_bytes dh)) xs (put_object a d' w) of
                       Inl f \<Rightarrow> Inl f
                     | Inr (None, w') \<Rightarrow> Inr (None, w')
                     | Inr (Some (bytes2, nms2, hs2), w') \<Rightarrow> Inr (Some (bytes @ bytes2, nms @ nms2, hs @ hs2), w'))))"

text \<open>
  \<open>PortsMessage::SetHandles\<close> checks the number of handles against the header of the channel message,
  which has sixteen bits for it.
\<close>

definition PortsMessage_SetHandles :: "PlatformHandle list \<Rightarrow> Message \<Rightarrow> fault + Message" where
  "PortsMessage_SetHandles hs m =
     (if unat (of_nat (length hs) :: uint16_t) \<noteq> length hs then Inl CheckFailure else Inr (m\<lparr>msg_handles := hs\<rparr>))"

definition pipe_payload :: "DispatcherHeader list \<Rightarrow> uint8_t list \<Rightarrow> uint8_t list \<Rightarrow> uint8_t list" where
  "pipe_payload dhs data bytes =
     write_u32 (of_nat (length dhs)) @ write_u32 (of_nat (header_size dhs)) @
     write_array write_DispatcherHeader dhs @ data @ bytes"

text \<open>What becomes of the result of \<open>NodeController::SendMessage\<close>.\<close>

definition MP_send_result :: "node_rv \<Rightarrow> nat \<Rightarrow> MessagePipe \<Rightarrow> Core \<Rightarrow> (MojoResult \<times> Core) outcome" where
  "MP_send_result rv a d w =
     (if rv = OK then Some (Inr (MOJO_RESULT_OK, w))
      else if rv = ERROR_PORT_UNKNOWN \<or> rv = ERROR_PORT_STATE_UNEXPECTED \<or> rv = ERROR_PORT_CANNOT_SEND_PEER
      then Some (Inr (MOJO_RESULT_INVALID_ARGUMENT, w))
      else if rv = ERROR_PORT_PEER_CLOSED
      then and_then (Some (MP_AwakeForStateChange d (nc_node (controller w))))
             (\<lambda>d'. Some (Inr (MOJO_RESULT_FAILED_PRECONDITION, put_object a (D_MessagePipe d') w)))
      else Some (Inr (MOJO_RESULT_UNKNOWN, w)))"

text \<open>The result is \<open>MOJO_RESULT_OK\<close>, as initialised, when a dispatcher has rejected its serialisation.\<close>

definition MP_WriteMessage ::
  "nat \<Rightarrow> platform \<Rightarrow> uint8_t list \<Rightarrow> nat list \<Rightarrow> nat \<Rightarrow> MessagePipe \<Rightarrow> Core \<Rightarrow> (MojoResult \<times> Core) outcome" where
  "MP_WriteMessage fuel pl bytes dispatchers a d w =
     (if mp_port_closed d \<or> mp_in_transit d then Some (Inr (MOJO_RESULT_INVALID_ARGUMENT, w))
      else and_then (Some (start_serialize pl dispatchers w)) (\<lambda>dhs.
           and_then (Some (end_serialize pl (8 + length dhs * 16) (zip dispatchers dhs) w)) (\<lambda>(ser, w1).
             case ser of
               None \<Rightarrow> Some (Inr (MOJO_RESULT_OK, w1))
             | Some (data, nms, hs) \<Rightarrow>
                 and_then (Some (PortsMessage_SetHandles hs (NewUserMessage nms (pipe_payload dhs data bytes)))) (\<lambda>m.
                 and_then (NC_SendMessage fuel (mp_port d) m (controller w1)) (\<lambda>(rv, _, c).
                   MP_send_result rv a d (set_controller c w1))))))"

definition V_WriteMessage ::
  "nat \<Rightarrow> platform \<Rightarrow> uint8_t list \<Rightarrow> nat list \<Rightarrow> nat \<Rightarrow> Core \<Rightarrow> (MojoResult \<times> Core) outcome" where
  "V_WriteMessage fuel pl bytes dispatchers a w =
     (case core_objects w a of
        None \<Rightarrow> Some (Inl NullPointer)
      | Some (D_MessagePipe d) \<Rightarrow> MP_WriteMessage fuel pl bytes dispatchers a d w
      | Some _ \<Rightarrow> Some (Inr (MOJO_RESULT_INVALID_ARGUMENT, w)))"

section \<open>Reading\<close>

text \<open>The message that \<open>GetMessageIf\<close> shows to its selector.\<close>

definition next_message :: "PortRef \<Rightarrow> Node \<Rightarrow> Message option" where
  "next_message port_ref n =
     (let port = port_at n (ref_port port_ref)
      in if state port = kReceiving \<and> CanAcceptMoreMessages port \<and> HasNextMessage (message_queue port)
         then Some (mq_heap (message_queue port) ! 0) else None)"

definition bytes_available :: "Message \<Rightarrow> uint32_t" where
  "bytes_available m = of_nat (length (msg_payload m)) - read_u32 (drop 4 (msg_payload m))"

definition handles_available :: "Message \<Rightarrow> uint32_t" where
  "handles_available m = read_u32 (msg_payload m)"

text \<open>Whether the caller's buffers are large enough; a pointer that is null stands for no room.\<close>

definition has_space :: "uint32_t option \<Rightarrow> uint32_t option \<Rightarrow> Message \<Rightarrow> bool" where
  "has_space nbytes nhandles m =
     (let bytes_to_read = (case nbytes of None \<Rightarrow> 0 | Some k \<Rightarrow> min k (bytes_available m));
          handles_to_read = (case nhandles of None \<Rightarrow> 0 | Some k \<Rightarrow> min k (handles_available m))
      in \<not> (bytes_to_read < bytes_available m \<or> handles_to_read < handles_available m))"

text \<open>
  The loop over the dispatchers of a message: \<open>k\<close> of them are left, the next is number \<open>i\<close>, its data,
  ports and handles start at the three indices.
\<close>

fun deserialize_all ::
  "platform \<Rightarrow> Message \<Rightarrow> nat \<Rightarrow> nat \<Rightarrow> nat \<Rightarrow> nat \<Rightarrow> nat \<Rightarrow> Core \<Rightarrow> fault + nat list option \<times> Core" where
  "deserialize_all pl m 0 i data_index port_index handle_index w = Inr (Some [], w)"
| "deserialize_all pl m (Suc k) i data_index port_index handle_index w =
     (if length (msg_payload m) < 8 + Suc i * 16 then Inl OutOfBounds
      else let dh = read_DispatcherHeader (drop (8 + i * 16) (msg_payload m))
           in (case D_Deserialize pl (dh_type dh) (drop data_index (msg_payload m)) (unat (dh_num_bytes dh))
                      (drop port_index (msg_ports m)) (unat (dh_num_ports dh))
                      (if msg_handles m = [] then None else Some (drop handle_index (msg_handles m)))
                      (unat (dh_num_platform_handles dh)) w of
                 Inl f \<Rightarrow> Inl f
               | Inr (None, w') \<Rightarrow> Inr (None, w')
               | Inr (Some a, w') \<Rightarrow>
                   (case deserialize_all pl m k (Suc i) (data_index + unat (dh_num_bytes dh))
                           (port_index + unat (dh_num_ports dh)) (handle_index + unat (dh_num_platform_handles dh)) w' of
                      Inl f \<Rightarrow> Inl f
                    | Inr (None, w'') \<Rightarrow> Inr (None, w'')
                    | Inr (Some as, w'') \<Rightarrow> Inr (Some (a # as), w''))))"

fun close_all :: "nat \<Rightarrow> nat list \<Rightarrow> Core \<Rightarrow> Core outcome" where
  "close_all fuel [] w = Some (Inr w)"
| "close_all fuel (a # as) w = and_then (V_Close fuel a w) (\<lambda>(_, w'). close_all fuel as w')"

definition Core_AddDispatchersFromTransit :: "nat \<Rightarrow> nat list \<Rightarrow> Core \<Rightarrow> (bool \<times> MojoHandle list \<times> Core) outcome" where
  "Core_AddDispatchersFromTransit fuel dispatchers w =
     (case AddDispatchersFromTransit (map (\<lambda>a. \<lparr>dit_dispatcher = a, local_handle = 0\<rparr>) dispatchers) (core_handles w) of
        (ok, hs, t) \<Rightarrow>
          if ok then Some (Inr (True, hs, w\<lparr>core_handles := t\<rparr>))
          else and_then (close_all fuel dispatchers (w\<lparr>core_handles := t\<rparr>)) (\<lambda>w'. Some (Inr (False, [], w'))))"

text \<open>
  The outcome of a read: the result, the two counts that the caller's variables hold afterwards, the
  bytes and the handles.
\<close>

type_synonym read_outcome = "MojoResult \<times> uint32_t option \<times> uint32_t option \<times> uint8_t list \<times> MojoHandle list"

text \<open>What is done with a message that was taken; \<open>has_handles\<close> says that the array for handles is not null.\<close>

definition MP_receive ::
  "nat \<Rightarrow> platform \<Rightarrow> bool \<Rightarrow> Message \<Rightarrow> Core \<Rightarrow> (MojoResult \<times> uint8_t list \<times> MojoHandle list \<times> Core) outcome" where
  "MP_receive fuel pl has_handles m w =
     (let n = unat (handles_available m); hsize = unat (read_u32 (drop 4 (msg_payload m)));
          copy = (\<lambda>hs w. if length (msg_payload m) < hsize then Some (Inl OutOfBounds)
                          else Some (Inr (MOJO_RESULT_OK, drop hsize (msg_payload m), hs, w)))
      in if n > 0
         then if \<not> has_handles then Some (Inl CheckFailure)
              else and_then (Some (deserialize_all pl m n 0 (8 + n * 16) 0 0 w)) (\<lambda>(ds, w1).
                case ds of
                  None \<Rightarrow> Some (Inr (MOJO_RESULT_UNKNOWN, [], [], w1))
                | Some as \<Rightarrow>
                    and_then (Core_AddDispatchersFromTransit fuel as w1) (\<lambda>(ok, hs, w2).
                      if \<not> ok then Some (Inr (MOJO_RESULT_UNKNOWN, [], [], w2)) else copy hs w2))
         else copy [] w)"

definition MP_ReadMessage ::
  "nat \<Rightarrow> platform \<Rightarrow> uint32_t option \<Rightarrow> uint32_t option \<Rightarrow> bool \<Rightarrow> bool \<Rightarrow> nat \<Rightarrow> MessagePipe \<Rightarrow> Core \<Rightarrow>
     (read_outcome \<times> Core) outcome" where
  "MP_ReadMessage fuel pl nbytes nhandles has_handles may_discard a d w =
     (let n = nc_node (controller w)
      in if mp_port_closed d \<or> mp_in_transit d
         then Some (Inr ((MOJO_RESULT_INVALID_ARGUMENT, nbytes, nhandles, [], []), w))
         else and_then (case next_message (mp_port d) n of
                 Some m \<Rightarrow> if length (msg_payload m) < 8 then Some (Inl OutOfBounds) else Some (Inr (Some m))
               | None \<Rightarrow> Some (Inr None)) (\<lambda>seen.
           let nbytes' = (case seen of None \<Rightarrow> nbytes | Some m \<Rightarrow> map_option (\<lambda>_. bytes_available m) nbytes);
               nhandles' = (case seen of None \<Rightarrow> nhandles | Some m \<Rightarrow> map_option (\<lambda>_. handles_available m) nhandles);
               no_space = (case seen of None \<Rightarrow> False | Some m \<Rightarrow> \<not> has_space nbytes nhandles m)
           in and_then (Some (GetMessageIf (mp_port d) (Some (\<lambda>m. has_space nbytes nhandles m \<or> may_discard)) n))
                (\<lambda>(rv, message, n').
                  let w1 = set_controller (set_node n' (controller w)) w
                  in if rv \<noteq> OK \<and> rv \<noteq> ERROR_PORT_PEER_CLOSED
                     then Some (Inr ((if rv = ERROR_PORT_UNKNOWN \<or> rv = ERROR_PORT_STATE_UNEXPECTED
                                      then MOJO_RESULT_INVALID_ARGUMENT else MOJO_RESULT_UNKNOWN, nbytes', nhandles', [], []), w1))
                     else if no_space then Some (Inr ((MOJO_RESULT_RESOURCE_EXHAUSTED, nbytes', nhandles', [], []), w1))
                     else (case message of
                             None \<Rightarrow>
                               if rv = OK then Some (Inr ((MOJO_RESULT_SHOULD_WAIT, nbytes', nhandles', [], []), w1))
                               else and_then (Some (MP_AwakeForStateChange d n')) (\<lambda>d'.
                                 Some (Inr ((MOJO_RESULT_FAILED_PRECONDITION, nbytes', nhandles', [], []),
                                            put_object a (D_MessagePipe d') w1)))
                           | Some m \<Rightarrow>
                               and_then (MP_receive fuel pl has_handles m w1) (\<lambda>(result, bytes, hs, w2).
                                 Some (Inr ((result, nbytes', nhandles', bytes, hs), w2)))))))"

definition V_ReadMessage ::
  "nat \<Rightarrow> platform \<Rightarrow> uint32_t option \<Rightarrow> uint32_t option \<Rightarrow> bool \<Rightarrow> bool \<Rightarrow> nat \<Rightarrow> Core \<Rightarrow> (read_outcome \<times> Core) outcome" where
  "V_ReadMessage fuel pl nbytes nhandles has_handles may_discard a w =
     (case core_objects w a of
        None \<Rightarrow> Some (Inl NullPointer)
      | Some (D_MessagePipe d) \<Rightarrow> MP_ReadMessage fuel pl nbytes nhandles has_handles may_discard a d w
      | Some _ \<Rightarrow> Some (Inr ((MOJO_RESULT_INVALID_ARGUMENT, nbytes, nhandles, [], []), w)))"

end
