(* ===== verification/Core_System.thy ===== *)
theory Core_System
  imports Core_Messages
begin

text \<open>
  The system calls (\<open>core.h\<close>, \<open>core.cc\<close>): every operation finds the dispatcher of a handle, calls it
  and keeps the table of handles.  Identities of pipes are random in the code and arguments here; the
  mapping table, the waiter of a thread and closures are outside the repository and parameters.
\<close>

section \<open>Handles\<close>

definition Core_init :: "NodeController \<Rightarrow> (buffer_ref \<Rightarrow> uint8_t list) \<Rightarrow> Core" where
  "Core_init c mem = \<lparr>core_env = \<lparr>pe_controller = c, pe_memory = mem\<rparr>, core_objects = (\<lambda>_. None), core_next = 0,
                      core_handles = HandleTable_init\<rparr>"

definition Core_GetDispatcher :: "MojoHandle \<Rightarrow> Core \<Rightarrow> nat option" where
  "Core_GetDispatcher handle w = GetDispatcher handle (core_handles w)"

definition Core_AddDispatcher :: "nat \<Rightarrow> Core \<Rightarrow> MojoHandle \<times> Core" where
  "Core_AddDispatcher a w = (case AddDispatcher a (core_handles w) of (h, t) \<Rightarrow> (h, w\<lparr>core_handles := t\<rparr>))"

definition Core_Close :: "nat \<Rightarrow> MojoHandle \<Rightarrow> Core \<Rightarrow> (MojoResult \<times> Core) outcome" where
  "Core_Close fuel handle w =
     (case GetAndRemoveDispatcher handle (core_handles w) of
        (rv, Some a, t) \<Rightarrow> and_then (V_Close fuel a (w\<lparr>core_handles := t\<rparr>)) (\<lambda>(_, w'). Some (Inr (MOJO_RESULT_OK, w')))
      | (rv, None, t) \<Rightarrow> Some (Inr (rv, w\<lparr>core_handles := t\<rparr>)))"

definition CreatePlatformHandleWrapper :: "PlatformHandle option \<Rightarrow> Core \<Rightarrow> MojoResult \<times> MojoHandle option \<times> Core" where
  "CreatePlatformHandleWrapper platform_handle w =
     (let (a, w1) = alloc (D_PlatformHandle (PH_Create platform_handle)) w;
          (h, w2) = Core_AddDispatcher a w1
      in if h = MOJO_HANDLE_INVALID then (MOJO_RESULT_RESOURCE_EXHAUSTED, None, w2) else (MOJO_RESULT_OK, Some h, w2))"

text \<open>
  The dispatcher is cast to the class of wrappers without a look at its type: on any other object the
  call is undefined.
\<close>

definition PassWrappedPlatformHandle ::
  "MojoHandle \<Rightarrow> Core \<Rightarrow> fault + MojoResult \<times> PlatformHandle option \<times> Core" where
  "PassWrappedPlatformHandle wrapper_handle w =
     (case GetAndRemoveDispatcher wrapper_handle (core_handles w) of
        (rv, None, t) \<Rightarrow> Inr (rv, None, w\<lparr>core_handles := t\<rparr>)
      | (rv, Some a, t) \<Rightarrow>
          (case core_objects w a of
             Some (D_PlatformHandle d) \<Rightarrow>
               (case PassPlatformHandle d of
                  (h, d1) \<Rightarrow> Inr (MOJO_RESULT_OK, h, put_object a (D_PlatformHandle (snd (PH_Close d1))) (w\<lparr>core_handles := t\<rparr>)))
           | _ \<Rightarrow> Inl NullPointer))"

definition Core_RequestShutdown :: "callback \<Rightarrow> Core \<Rightarrow> Core" where
  "Core_RequestShutdown cb w = set_controller (RequestShutdown cb (controller w)) w"

text \<open>
  The children and the parent of the process; the process handles matter on Windows only, and the platform
  handle of a channel is the new channel of the controller.
\<close>

definition Core_AddChild :: "Core \<Rightarrow> Core" where
  "Core_AddChild w = set_controller (ConnectToChildOnIOThread (controller w)) w"

definition Core_InitChild :: "Core \<Rightarrow> Core" where
  "Core_InitChild w = set_controller (ConnectToParentOnIOThread (controller w)) w"

definition Core_GetActiveHandlesForTest :: "Core \<Rightarrow> MojoHandle list" where
  "Core_GetActiveHandlesForTest w = GetActiveHandlesForTest (core_handles w)"

section \<open>Message pipes\<close>

text \<open>\<open>new MessagePipeDispatcher\<close>: the observer of the port is the new object.\<close>

definition new_MessagePipe :: "PortRef \<Rightarrow> uint64_t \<Rightarrow> int \<Rightarrow> Core \<Rightarrow> nat \<times> Core" where
  "new_MessagePipe port pipe_id endpoint w =
     (case MessagePipeDispatcher (core_next w) port pipe_id endpoint (controller w) of
        (d, c) \<Rightarrow> alloc (D_MessagePipe d) (set_controller c w))"

text \<open>The callback of a port that was connected gets the handle.\<close>

definition OnPortConnected :: "int \<Rightarrow> PortRef \<Rightarrow> Core \<Rightarrow> MojoHandle \<times> Core" where
  "OnPortConnected endpoint port w =
     (case new_MessagePipe port 0x7f7f7f7f7f7f7f7f endpoint w of (a, w1) \<Rightarrow> Core_AddDispatcher a w1)"

definition CreateParentMessagePipe :: "token \<Rightarrow> callback \<Rightarrow> Core \<Rightarrow> fault + Core" where
  "CreateParentMessagePipe token cb w =
     (case ReservePort token cb (controller w) of Inl f \<Rightarrow> Inl f | Inr c \<Rightarrow> Inr (set_controller c w))"

definition CreateChildMessagePipe :: "token \<Rightarrow> callback \<Rightarrow> Core \<Rightarrow> fault + Core" where
  "CreateChildMessagePipe token cb w =
     (case CreateUninitializedPort (nc_node (controller w)) of
        Inl f \<Rightarrow> Inl f
      | Inr (port, n) \<Rightarrow>
          Inr (set_controller (RequestParentPortConnectionOnIOThread port token cb (set_node n (controller w))) w))"

text \<open>
  When the second handle cannot be added, the code calls a method of a null pointer before it removes
  the first handle.
\<close>

definition CreateMessagePipe ::
  "uint64_t \<Rightarrow> Core \<Rightarrow> fault + MojoResult \<times> (MojoHandle \<times> MojoHandle) \<times> Core" where
  "CreateMessagePipe pipe_id w =
     (case CreatePortPair (nc_node (controller w)) of
        Inl f \<Rightarrow> Inl f
      | Inr (_, port0, port1, n) \<Rightarrow>
          let w0 = set_controller (run_delegate n (controller w)) w;
              (a0, w1) = new_MessagePipe port0 pipe_id 0 w0;
              (h0, w2) = Core_AddDispatcher a0 w1
          in if h0 = MOJO_HANDLE_INVALID then Inr (MOJO_RESULT_RESOURCE_EXHAUSTED, (h0, 0), w2)
             else let (a1, w3) = new_MessagePipe port1 pipe_id 1 w2;
                      (h1, w4) = Core_AddDispatcher a1 w3
                  in if h1 = MOJO_HANDLE_INVALID then Inl NullPointer
                     else Inr (MOJO_RESULT_OK, (h0, h1), w4))"

definition kMaxHandlesPerMessage :: nat where
  "kMaxHandlesPerMessage = 1024 * 1024"

text \<open>The parts of a transfer, carried out by the table on the dispatchers themselves.\<close>

definition Core_CancelTransit :: "platform \<Rightarrow> nat DispatcherInTransit list \<Rightarrow> Core \<Rightarrow> Core outcome" where
  "Core_CancelTransit pl ds w =
     (case CancelTransit (\<lambda>a s. and_then s (V_CancelTransit pl a)) ds (core_handles w) (Some (Inr w)) of
        (t, s) \<Rightarrow> and_then s (\<lambda>w'. Some (Inr (w'\<lparr>core_handles := t\<rparr>))))"

definition Core_CompleteTransitAndClose :: "nat \<Rightarrow> nat DispatcherInTransit list \<Rightarrow> Core \<Rightarrow> Core outcome" where
  "Core_CompleteTransitAndClose fuel ds w =
     (case CompleteTransitAndClose (\<lambda>a s. and_then s (V_CompleteTransitAndClose fuel a)) ds (core_handles w) (Some (Inr w)) of
        (t, s) \<Rightarrow> and_then s (\<lambda>w'. Some (Inr (w'\<lparr>core_handles := t\<rparr>))))"

definition Core_BeginTransit :: "MojoHandle list \<Rightarrow> Core \<Rightarrow> MojoResult \<times> nat DispatcherInTransit list \<times> Core" where
  "Core_BeginTransit hs w =
     (case BeginTransit V_BeginTransit hs (core_handles w) w of (rv, ds, t, w') \<Rightarrow> (rv, ds, w'\<lparr>core_handles := t\<rparr>))"

definition Core_WriteMessage ::
  "nat \<Rightarrow> platform \<Rightarrow> MojoHandle \<Rightarrow> uint8_t list \<Rightarrow> MojoHandle list \<Rightarrow> Core \<Rightarrow> (MojoResult \<times> Core) outcome" where
  "Core_WriteMessage fuel pl message_pipe_handle bytes hs w =
     (case Core_GetDispatcher message_pipe_handle w of
        None \<Rightarrow> Some (Inr (MOJO_RESULT_INVALID_ARGUMENT, w))
      | Some a \<Rightarrow>
          if hs = [] then V_WriteMessage fuel pl bytes [] a w
          else if length hs > kMaxHandlesPerMessage then Some (Inr (MOJO_RESULT_RESOURCE_EXHAUSTED, w))
          else if message_pipe_handle \<in> set hs then Some (Inr (MOJO_RESULT_BUSY, w))
          else (case Core_BeginTransit hs w of
                  (rv, ds, w1) \<Rightarrow>
                    if rv \<noteq> MOJO_RESULT_OK
                    then and_then (Core_CancelTransit pl ds w1) (\<lambda>w2. Some (Inr (rv, w2)))
                    else and_then (V_WriteMessage fuel pl bytes (map dit_dispatcher ds) a w1) (\<lambda>(rv2, w2).
                      and_then (if rv2 = MOJO_RESULT_OK then Core_CompleteTransitAndClose fuel ds w2
                                else Core_CancelTransit pl ds w2)
                        (\<lambda>w3. Some (Inr (rv2, w3))))))"

text \<open>The check at the start of \<open>ReadMessage\<close>: room that is claimed has a buffer.\<close>

definition Core_ReadMessage ::
  "nat \<Rightarrow> platform \<Rightarrow> MojoHandle \<Rightarrow> bool \<Rightarrow> uint32_t option \<Rightarrow> bool \<Rightarrow> uint32_t option \<Rightarrow> bool \<Rightarrow> Core \<Rightarrow>
     (read_outcome \<times> Core) outcome" where
  "Core_ReadMessage fuel pl message_pipe_handle has_bytes nbytes has_handles nhandles may_discard w =
     (if \<not> ((nhandles = None \<or> nhandles = Some 0 \<or> has_handles) \<and> (nbytes = None \<or> nbytes = Some 0 \<or> has_bytes))
      then Some (Inl CheckFailure)
      else (case Core_GetDispatcher message_pipe_handle w of
              None \<Rightarrow> Some (Inr ((MOJO_RESULT_INVALID_ARGUMENT, nbytes, nhandles, [], []), w))
            | Some a \<Rightarrow> V_ReadMessage fuel pl nbytes nhandles has_handles may_discard a w))"

section \<open>Data pipes\<close>

text \<open>The public options: the size of the structure must be the known one, a capacity of zero is the default.\<close>

record user_pipe_options =
  up_struct_size_ok :: bool
  up_element_num_bytes :: uint32_t
  up_capacity_num_bytes :: uint32_t

definition create_options :: "user_pipe_options option \<Rightarrow> MojoCreateDataPipeOptions" where
  "create_options options =
     \<lparr>element_num_bytes = (case options of None \<Rightarrow> 1 | Some u \<Rightarrow> up_element_num_bytes u),
      capacity_num_bytes = (case options of None \<Rightarrow> 64 * 1024
                            | Some u \<Rightarrow> if up_capacity_num_bytes u \<noteq> 0 then up_capacity_num_bytes u else 64 * 1024)\<rparr>"

definition new_Producer ::
  "platform \<Rightarrow> PortRef \<Rightarrow> buffer_ref \<Rightarrow> MojoCreateDataPipeOptions \<Rightarrow> uint64_t \<Rightarrow> Core \<Rightarrow> nat \<times> Core" where
  "new_Producer pl port b options pipe_id w =
     (case DataPipeProducerDispatcher (pl_Map pl) (core_next w) port (Some b) options True pipe_id (core_env w) of
        (d, e) \<Rightarrow> alloc (D_Producer d) (w\<lparr>core_env := e\<rparr>))"

definition new_Consumer ::
  "platform \<Rightarrow> PortRef \<Rightarrow> buffer_ref \<Rightarrow> MojoCreateDataPipeOptions \<Rightarrow> uint64_t \<Rightarrow> Core \<Rightarrow> nat \<times> Core" where
  "new_Consumer pl port b options pipe_id w =
     (case DataPipeConsumerDispatcher (pl_Map pl) (core_next w) port (Some b) options True pipe_id (core_env w) of
        (d, e) \<Rightarrow> alloc (D_Consumer d) (w\<lparr>core_env := e\<rparr>))"

definition CreateDataPipe ::
  "nat \<Rightarrow> platform \<Rightarrow> uint64_t \<Rightarrow> user_pipe_options option \<Rightarrow> Core \<Rightarrow>
     (MojoResult \<times> (MojoHandle \<times> MojoHandle) option \<times> Core) outcome" where
  "CreateDataPipe fuel pl pipe_id options w =
     (if (case options of None \<Rightarrow> False | Some u \<Rightarrow> \<not> up_struct_size_ok u)
      then Some (Inr (MOJO_RESULT_INVALID_ARGUMENT, None, w))
      else let co = create_options options
           in (case pl_CreateSharedBuffer pl (ucast (capacity_num_bytes co)) (core_env w) of
                 None \<Rightarrow> Some (Inr (MOJO_RESULT_RESOURCE_EXHAUSTED, None, w))
               | Some (b, e) \<Rightarrow>
                   let w0 = w\<lparr>core_env := e\<rparr>
                   in and_then (Some (CreatePortPair (nc_node (controller w0)))) (\<lambda>(_, port0, port1, n).
                     let w1 = set_controller (run_delegate n (controller w0)) w0;
                         (producer, w2) = new_Producer pl port0 b co pipe_id w1;
                         (consumer, w3) = new_Consumer pl port1 b co pipe_id w2;
                         (h0, w4) = Core_AddDispatcher producer w3;
                         (h1, w5) = Core_AddDispatcher consumer w4
                     in if h0 = MOJO_HANDLE_INVALID \<or> h1 = MOJO_HANDLE_INVALID
                        then let w6 = (if h0 \<noteq> MOJO_HANDLE_INVALID
                                       then w5\<lparr>core_handles := snd (snd (GetAndRemoveDispatcher h0 (core_handles w5)))\<rparr>
                                       else w5)
                             in and_then (V_Close fuel producer w6) (\<lambda>(_, w7).
                                and_then (V_Close fuel consumer w7) (\<lambda>(_, w8).
                                  Some (Inr (MOJO_RESULT_RESOURCE_EXHAUSTED, Some (h0, h1), w8))))
                        else Some (Inr (MOJO_RESULT_OK, Some (h0, h1), w5)))))"

definition Core_WriteData ::
  "nat \<Rightarrow> platform \<Rightarrow> MojoHandle \<Rightarrow> uint8_t list option \<Rightarrow> uint32_t \<Rightarrow> write_flag set \<Rightarrow> Core \<Rightarrow>
     (MojoResult \<times> uint32_t \<times> Core) outcome" where
  "Core_WriteData fuel pl handle elements nbytes flags w =
     (case Core_GetDispatcher handle w of
        None \<Rightarrow> Some (Inr (MOJO_RESULT_INVALID_ARGUMENT, nbytes, w))
      | Some a \<Rightarrow>
          (case core_objects w a of
             None \<Rightarrow> Some (Inl NullPointer)
           | Some (D_Producer d) \<Rightarrow>
               and_then (WriteData fuel (pl_signals pl) elements nbytes flags d (core_env w)) (\<lambda>(rv, k, d', e).
                 Some (Inr (rv, k, put_object a (D_Producer d') (w\<lparr>core_env := e\<rparr>))))
           | Some _ \<Rightarrow> Some (Inr (MOJO_RESULT_INVALID_ARGUMENT, nbytes, w))))"

definition Core_BeginWriteData ::
  "MojoHandle \<Rightarrow> Core \<Rightarrow> fault + MojoResult \<times> (buffer_ref \<times> uint32_t \<times> uint32_t) option \<times> Core" where
  "Core_BeginWriteData handle w =
     (case Core_GetDispatcher handle w of
        None \<Rightarrow> Inr (MOJO_RESULT_INVALID_ARGUMENT, None, w)
      | Some a \<Rightarrow>
          (case core_objects w a of
             None \<Rightarrow> Inl NullPointer
           | Some (D_Producer d) \<Rightarrow>
               (case BeginWriteData d of Inl f \<Rightarrow> Inl f | Inr (rv, buf, d') \<Rightarrow> Inr (rv, buf, put_object a (D_Producer d') w))
           | Some _ \<Rightarrow> Inr (MOJO_RESULT_INVALID_ARGUMENT, None, w)))"

definition Core_EndWriteData :: "nat \<Rightarrow> platform \<Rightarrow> MojoHandle \<Rightarrow> uint32_t \<Rightarrow> Core \<Rightarrow> (MojoResult \<times> Core) outcome" where
  "Core_EndWriteData fuel pl handle num_bytes_written w =
     (case Core_GetDispatcher handle w of
        None \<Rightarrow> Some (Inr (MOJO_RESULT_INVALID_ARGUMENT, w))
      | Some a \<Rightarrow>
          (case core_objects w a of
             None \<Rightarrow> Some (Inl NullPointer)
           | Some (D_Producer d) \<Rightarrow>
               and_then (EndWriteData fuel (pl_signals pl) num_bytes_written d (core_env w)) (\<lambda>(rv, d', e).
                 Some (Inr (rv, put_object a (D_Producer d') (w\<lparr>core_env := e\<rparr>))))
           | Some _ \<Rightarrow> Some (Inr (MOJO_RESULT_INVALID_ARGUMENT, w))))"

definition Core_ReadData ::
  "nat \<Rightarrow> MojoHandle \<Rightarrow> bool \<Rightarrow> uint32_t \<Rightarrow> read_flag set \<Rightarrow> Core \<Rightarrow> (MojoResult \<times> uint32_t \<times> uint8_t list \<times> Core) outcome" where
  "Core_ReadData fuel handle elements nbytes flags w =
     (case Core_GetDispatcher handle w of
        None \<Rightarrow> Some (Inr (MOJO_RESULT_INVALID_ARGUMENT, nbytes, [], w))
      | Some a \<Rightarrow>
          (case core_objects w a of
             None \<Rightarrow> Some (Inl NullPointer)
           | Some (D_Consumer d) \<Rightarrow>
               and_then (ReadData fuel elements nbytes flags d (core_env w)) (\<lambda>(rv, k, bytes, d', e).
                 Some (Inr (rv, k, bytes, put_object a (D_Consumer d') (w\<lparr>core_env := e\<rparr>))))
           | Some _ \<Rightarrow> Some (Inr (MOJO_RESULT_INVALID_ARGUMENT, nbytes, [], w))))"

definition Core_BeginReadData ::
  "MojoHandle \<Rightarrow> read_flag set \<Rightarrow> Core \<Rightarrow> fault + MojoResult \<times> (buffer_ref \<times> uint32_t \<times> uint32_t) option \<times> Core" where
  "Core_BeginReadData handle flags w =
     (case Core_GetDispatcher handle w of
        None \<Rightarrow> Inr (MOJO_RESULT_INVALID_ARGUMENT, None, w)
      | Some a \<Rightarrow>
          (case core_objects w a of
             None \<Rightarrow> Inl NullPointer
           | Some (D_Consumer d) \<Rightarrow>
               (case BeginReadData flags d of Inl f \<Rightarrow> Inl f | Inr (rv, buf, d') \<Rightarrow> Inr (rv, buf, put_object a (D_Consumer d') w))
           | Some _ \<Rightarrow> Inr (MOJO_RESULT_INVALID_ARGUMENT, None, w)))"

definition Core_EndReadData :: "nat \<Rightarrow> platform \<Rightarrow> MojoHandle \<Rightarrow> uint32_t \<Rightarrow> Core \<Rightarrow> (MojoResult \<times> Core) outcome" where
  "Core_EndReadData fuel pl handle num_bytes_read w =
     (case Core_GetDispatcher handle w of
        None \<Rightarrow> Some (Inr (MOJO_RESULT_INVALID_ARGUMENT, w))
      | Some a \<Rightarrow>
          (case core_objects w a of
             None \<Rightarrow> Some (Inl NullPointer)
           | Some (D_Consumer d) \<Rightarrow>
               and_then (EndReadData fuel (pl_signals pl) num_bytes_read d (core_env w)) (\<lambda>(rv, d', e).
                 Some (Inr (rv, put_object a (D_Consumer d') (w\<lparr>core_env := e\<rparr>))))
           | Some _ \<Rightarrow> Some (Inr (MOJO_RESULT_INVALID_ARGUMENT, w))))"

section \<open>Shared buffers\<close>

definition Core_CreateSharedBuffer ::
  "nat \<Rightarrow> platform \<Rightarrow> user_options option \<Rightarrow> uint64_t \<Rightarrow> Core \<Rightarrow> (MojoResult \<times> MojoHandle option \<times> Core) outcome" where
  "Core_CreateSharedBuffer fuel pl options nbytes w =
     (let result = fst (ValidateCreateOptions options)
      in if result \<noteq> MOJO_RESULT_OK then Some (Inr (result, None, w))
         else (case SB_Create pl nbytes (core_env w) of
                 (rv, None, e) \<Rightarrow> Some (Inr (rv, None, w\<lparr>core_env := e\<rparr>))
               | (rv, Some d, e) \<Rightarrow>
                   let (a, w1) = alloc (D_SharedBuffer d) (w\<lparr>core_env := e\<rparr>);
                       (h, w2) = Core_AddDispatcher a w1
                   in if h = MOJO_HANDLE_INVALID
                      then and_then (V_Close fuel a w2) (\<lambda>(_, w3). Some (Inr (MOJO_RESULT_RESOURCE_EXHAUSTED, Some h, w3)))
                      else Some (Inr (MOJO_RESULT_OK, Some h, w2))))"

text \<open>When the table is full, it is the original that the code closes, not the new duplicate.\<close>

definition DuplicateBufferHandle ::
  "nat \<Rightarrow> MojoHandle \<Rightarrow> user_options option \<Rightarrow> Core \<Rightarrow> (MojoResult \<times> MojoHandle option \<times> Core) outcome" where
  "DuplicateBufferHandle fuel buffer_handle options w =
     (case Core_GetDispatcher buffer_handle w of
        None \<Rightarrow> Some (Inr (MOJO_RESULT_INVALID_ARGUMENT, None, w))
      | Some a \<Rightarrow>
          (case core_objects w a of
             None \<Rightarrow> Some (Inl NullPointer)
           | Some (D_SharedBuffer d) \<Rightarrow>
               (case SB_DuplicateBufferHandle options d of
                  (rv, None) \<Rightarrow> Some (Inr (rv, None, w))
                | (rv, Some d2) \<Rightarrow>
                    let (a2, w1) = alloc (D_SharedBuffer d2) w;
                        (h, w2) = Core_AddDispatcher a2 w1
                    in if h = MOJO_HANDLE_INVALID
                       then and_then (V_Close fuel a w2) (\<lambda>(_, w3). Some (Inr (MOJO_RESULT_RESOURCE_EXHAUSTED, Some h, w3)))
                       else Some (Inr (MOJO_RESULT_OK, Some h, w2)))
           | Some _ \<Rightarrow> Some (Inr (MOJO_RESULT_INVALID_ARGUMENT, None, w))))"

text \<open>The mapping table \<open>'m\<close> and its operations are outside.\<close>

definition MapBuffer ::
  "platform \<Rightarrow> (nat \<Rightarrow> 'm \<Rightarrow> MojoResult \<times> 'm) \<Rightarrow> MojoHandle \<Rightarrow> uint64_t \<Rightarrow> uint64_t \<Rightarrow> Core \<Rightarrow> 'm \<Rightarrow>
     fault + MojoResult \<times> nat option \<times> 'm" where
  "MapBuffer pl AddMapping buffer_handle offset nbytes w table =
     (case Core_GetDispatcher buffer_handle w of
        None \<Rightarrow> Inr (MOJO_RESULT_INVALID_ARGUMENT, None, table)
      | Some a \<Rightarrow>
          (case core_objects w a of
             None \<Rightarrow> Inl NullPointer
           | Some (D_SharedBuffer d) \<Rightarrow>
               (case SB_MapBuffer pl offset nbytes d of
                  Inl f \<Rightarrow> Inl f
                | Inr (rv, None) \<Rightarrow> Inr (rv, None, table)
                | Inr (rv, Some mapping) \<Rightarrow>
                    (case AddMapping mapping table of
                       (rv2, table') \<Rightarrow>
                         Inr (rv2, if rv2 = MOJO_RESULT_OK then Some mapping else None, table')))
           | Some _ \<Rightarrow> Inr (MOJO_RESULT_INVALID_ARGUMENT, None, table)))"

definition UnmapBuffer :: "(nat \<Rightarrow> 'm \<Rightarrow> MojoResult \<times> 'm) \<Rightarrow> nat \<Rightarrow> 'm \<Rightarrow> MojoResult \<times> 'm" where
  "UnmapBuffer RemoveMapping buffer table = RemoveMapping buffer table"

section \<open>Waiting\<close>

definition CreateWaitSet :: "nat \<Rightarrow> Core \<Rightarrow> (MojoResult \<times> MojoHandle option \<times> Core) outcome" where
  "CreateWaitSet fuel w =
     (let (a, w1) = alloc (D_WaitSet WaitSet_new) w;
          (h, w2) = Core_AddDispatcher a w1
      in if h = MOJO_HANDLE_INVALID
         then and_then (V_Close fuel a w2) (\<lambda>(_, w3). Some (Inr (MOJO_RESULT_RESOURCE_EXHAUSTED, None, w3)))
         else Some (Inr (MOJO_RESULT_OK, Some h, w2)))"

definition AddHandle :: "platform \<Rightarrow> MojoHandle \<Rightarrow> MojoHandle \<Rightarrow> signal set \<Rightarrow> Core \<Rightarrow> fault + MojoResult \<times> Core" where
  "AddHandle pl wait_set_handle handle signals w =
     (case (Core_GetDispatcher wait_set_handle w, Core_GetDispatcher handle w) of
        (Some a, Some d) \<Rightarrow>
          (case core_objects w a of
             None \<Rightarrow> Inl NullPointer
           | Some (D_WaitSet ws) \<Rightarrow>
               (case WS_AddWaitingDispatcher (add_waiter pl a) a d signals (unat handle) ws w of
                  Inl f \<Rightarrow> Inl f
                | Inr (rv, ws', w') \<Rightarrow> Inr (rv, put_object a (D_WaitSet ws') w'))
           | Some _ \<Rightarrow> Inr (MOJO_RESULT_INVALID_ARGUMENT, w))
      | _ \<Rightarrow> Inr (MOJO_RESULT_INVALID_ARGUMENT, w))"

definition RemoveHandle :: "MojoHandle \<Rightarrow> MojoHandle \<Rightarrow> Core \<Rightarrow> fault + MojoResult \<times> Core" where
  "RemoveHandle wait_set_handle handle w =
     (case (Core_GetDispatcher wait_set_handle w, Core_GetDispatcher handle w) of
        (Some a, Some d) \<Rightarrow>
          (case core_objects w a of
             None \<Rightarrow> Inl NullPointer
           | Some (D_WaitSet ws) \<Rightarrow>
               (case WS_RemoveWaitingDispatcher (remove_waiter a) d ws w of
                  Inl f \<Rightarrow> Inl f
                | Inr (rv, ws', w') \<Rightarrow> Inr (rv, put_object a (D_WaitSet ws') w'))
           | Some _ \<Rightarrow> Inr (MOJO_RESULT_INVALID_ARGUMENT, w))
      | _ \<Rightarrow> Inr (MOJO_RESULT_INVALID_ARGUMENT, w))"

text \<open>The signals of the dispatchers that are ready, in order.\<close>

fun signals_of :: "nat list \<Rightarrow> Core \<Rightarrow> fault + HandleSignalsState list" where
  "signals_of [] w = Inr []"
| "signals_of (a # as) w =
     (case V_GetHandleSignalsState a w of
        Inl f \<Rightarrow> Inl f
      | Inr st \<Rightarrow> (case signals_of as w of Inl f \<Rightarrow> Inl f | Inr sts \<Rightarrow> Inr (st # sts)))"

text \<open>The handles, the results and, for a caller that wants them, the signals.\<close>

definition GetReadyHandles ::
  "platform \<Rightarrow> MojoHandle \<Rightarrow> uint32_t \<Rightarrow> bool \<Rightarrow> Core \<Rightarrow>
     fault + MojoResult \<times> (MojoHandle \<times> MojoResult) list \<times> HandleSignalsState list \<times> Core" where
  "GetReadyHandles pl wait_set_handle max_handles wants_states w =
     (if max_handles = 0 then Inr (MOJO_RESULT_INVALID_ARGUMENT, [], [], w)
      else (case Core_GetDispatcher wait_set_handle w of
              None \<Rightarrow> Inr (MOJO_RESULT_INVALID_ARGUMENT, [], [], w)
            | Some a \<Rightarrow>
                (case core_objects w a of
                   None \<Rightarrow> Inl NullPointer
                 | Some (D_WaitSet ws) \<Rightarrow>
                     (case WS_GetReadyDispatchers (add_waiter pl a) max_handles ws w of
                        Inl f \<Rightarrow> Inl f
                      | Inr (rv, out, ws', w') \<Rightarrow>
                          let w'' = put_object a (D_WaitSet ws') w'
                          in if rv \<noteq> MOJO_RESULT_OK then Inr (rv, [], [], w'')
                             else (case (if wants_states then signals_of (map fst out) w'' else Inr []) of
                                     Inl f \<Rightarrow> Inl f
                                   | Inr sts \<Rightarrow> Inr (rv, map (\<lambda>(_, result, context). (of_nat context, result)) out, sts, w'')))
                 | Some _ \<Rightarrow> Inr (MOJO_RESULT_INVALID_ARGUMENT, [], [], w))))"

definition AsyncWait :: "platform \<Rightarrow> nat \<Rightarrow> MojoHandle \<Rightarrow> signal set \<Rightarrow> Core \<Rightarrow> fault + MojoResult \<times> Core" where
  "AsyncWait pl waiter handle signals w =
     (case Core_GetDispatcher handle w of
        None \<Rightarrow> Inl NullPointer
      | Some a \<Rightarrow> (case V_AddAwakable pl waiter signals 0 a w of Inl f \<Rightarrow> Inl f | Inr (rv, _, w') \<Rightarrow> Inr (rv, w')))"

text \<open>
  \<open>WaitManyInternal\<close>.  The first loop looks up the dispatchers (the index of a bad handle is
  reported), the second adds the waiter to them until one refuses.  \<open>Wait\<close> is the blocking call of the
  waiter: other threads act on the process before it returns a result and the index of the dispatcher
  that woke it, if one did.
\<close>

fun lookup_all :: "MojoHandle list \<Rightarrow> nat \<Rightarrow> Core \<Rightarrow> nat + nat list" where
  "lookup_all [] i w = Inr []"
| "lookup_all (h # hs) i w =
     (case Core_GetDispatcher h w of
        None \<Rightarrow> Inl i
      | Some a \<Rightarrow> (case lookup_all hs (Suc i) w of Inl j \<Rightarrow> Inl j | Inr as \<Rightarrow> Inr (a # as)))"

fun add_all_awakables ::
  "platform \<Rightarrow> nat \<Rightarrow> (nat \<times> signal set) list \<Rightarrow> nat \<Rightarrow> Core \<Rightarrow> fault + MojoResult \<times> nat \<times> Core" where
  "add_all_awakables pl waiter [] i w = Inr (MOJO_RESULT_OK, i, w)"
| "add_all_awakables pl waiter ((a, sg) # xs) i w =
     (case V_AddAwakable pl waiter sg i a w of
        Inl f \<Rightarrow> Inl f
      | Inr (rv, _, w') \<Rightarrow> if rv \<noteq> MOJO_RESULT_OK then Inr (rv, i, w') else add_all_awakables pl waiter xs (Suc i) w')"

fun remove_all_awakables :: "nat \<Rightarrow> bool \<Rightarrow> nat list \<Rightarrow> Core \<Rightarrow> fault + HandleSignalsState list \<times> Core" where
  "remove_all_awakables waiter wants [] w = Inr ([], w)"
| "remove_all_awakables waiter wants (a # as) w =
     (case V_RemoveAwakable waiter wants a w of
        Inl f \<Rightarrow> Inl f
      | Inr (st, w') \<Rightarrow>
          (case remove_all_awakables waiter wants as w' of Inl f \<Rightarrow> Inl f | Inr (sts, w'') \<Rightarrow> Inr (st # sts, w'')))"

definition WaitManyInternal ::
  "platform \<Rightarrow> nat \<Rightarrow> (Core \<Rightarrow> MojoResult \<times> nat option \<times> Core) \<Rightarrow> (MojoHandle \<times> signal set) list \<Rightarrow> bool \<Rightarrow> Core \<Rightarrow>
     fault + MojoResult \<times> nat option \<times> HandleSignalsState list \<times> Core" where
  "WaitManyInternal pl waiter Wait hs wants w =
     (case lookup_all (map fst hs) 0 w of
        Inl i \<Rightarrow> Inr (MOJO_RESULT_INVALID_ARGUMENT, Some i, [], w)
      | Inr dispatchers \<Rightarrow>
          (case add_all_awakables pl waiter (zip dispatchers (map snd hs)) 0 w of
             Inl f \<Rightarrow> Inl f
           | Inr (rv, num_added, w1) \<Rightarrow>
               (case (if rv = MOJO_RESULT_OK then Wait w1
                      else (if rv = MOJO_RESULT_ALREADY_EXISTS then MOJO_RESULT_OK else rv, Some num_added, w1)) of
                  (rv2, index, w2) \<Rightarrow>
                    (case remove_all_awakables waiter wants (take num_added dispatchers) w2 of
                       Inl f \<Rightarrow> Inl f
                     | Inr (sts, w3) \<Rightarrow>
                         (case (if wants then signals_of (drop num_added dispatchers) w3 else Inr []) of
                            Inl f \<Rightarrow> Inl f
                          | Inr sts2 \<Rightarrow> Inr (rv2, index, (if wants then sts @ sts2 else []), w3))))))"

definition WaitMany ::
  "platform \<Rightarrow> nat \<Rightarrow> (Core \<Rightarrow> MojoResult \<times> nat option \<times> Core) \<Rightarrow> (MojoHandle \<times> signal set) list \<Rightarrow> bool \<Rightarrow> Core \<Rightarrow>
     fault + MojoResult \<times> nat option \<times> HandleSignalsState list \<times> Core" where
  "WaitMany pl waiter Wait hs wants w =
     (if hs = [] then Inr (MOJO_RESULT_INVALID_ARGUMENT, None, [], w)
      else if length hs > unat (pl_max_wait_many_num_handles pl) then Inr (MOJO_RESULT_RESOURCE_EXHAUSTED, None, [], w)
      else WaitManyInternal pl waiter Wait hs wants w)"

definition Core_Wait ::
  "platform \<Rightarrow> nat \<Rightarrow> (Core \<Rightarrow> MojoResult \<times> nat option \<times> Core) \<Rightarrow> MojoHandle \<Rightarrow> signal set \<Rightarrow> bool \<Rightarrow> Core \<Rightarrow>
     fault + MojoResult \<times> HandleSignalsState option \<times> Core" where
  "Core_Wait pl waiter Wait handle signals wants w =
     (case WaitManyInternal pl waiter Wait [(handle, signals)] wants w of
        Inl f \<Rightarrow> Inl f
      | Inr (rv, _, sts, w') \<Rightarrow>
          Inr (rv, if rv \<noteq> MOJO_RESULT_INVALID_ARGUMENT \<and> wants then (case sts of [] \<Rightarrow> None | st # _ \<Rightarrow> Some st) else None, w'))"

end
