(* ===== verification/Data_Pipe_Ring.thy ===== *)
theory Data_Pipe_Ring
  imports Data_Pipe
begin

text \<open>
  The ring buffer of a data pipe: what the two-part copies of the dispatchers write and read, as a view of
  the ring from an offset.
\<close>

section \<open>The ring\<close>

text \<open>The \<open>k\<close> bytes of the ring that start at an offset, going round at the end.\<close>

definition ring_view :: "uint8_t list \<Rightarrow> nat \<Rightarrow> nat \<Rightarrow> uint8_t list" where
  "ring_view mem off k = map (\<lambda>i. mem ! ((off + i) mod length mem)) [0..<k]"

lemma length_ring_view [simp]: "length (ring_view mem off k) = k"
  by (simp add: ring_view_def)

lemma nth_ring_view: "i < k \<Longrightarrow> ring_view mem off k ! i = mem ! ((off + i) mod length mem)"
  by (simp add: ring_view_def)

lemma take_ring_view: "n \<le> k \<Longrightarrow> take n (ring_view mem off k) = ring_view mem off n"
  by (simp add: ring_view_def take_map)

lemma drop_ring_view: "n \<le> k \<Longrightarrow> drop n (ring_view mem off k) = ring_view mem ((off + n) mod length mem) (k - n)"
  by (rule nth_equalityI) (simp_all add: nth_ring_view mod_add_left_eq add.assoc)

lemma unat_min: "unat (min a b) = min (unat a) (unat b)" for a b :: "'a::len word"
  by (simp add: min_def word_le_nat_alt)

lemma unat_diff: "b \<le> a \<Longrightarrow> unat (a - b) = unat a - unat b" for a b :: "'a::len word"
  by (rule unat_sub)

lemma wrap_mod: "(x::nat) < 2 * c \<Longrightarrow> x mod c = (if x < c then x else x - c)"
  by (simp add: mod_if)

lemma ring_write_ok:
  assumes "length mem = unat cap" "wo < cap" "n \<le> cap" "unat n \<le> length src"
  shows "\<exists>mem'. ring_write wo cap src n mem = Inr mem' \<and> length mem' = unat cap \<and>
    (\<forall>j < unat cap. mem' ! j = (if unat wo \<le> j \<and> j < unat wo + unat n then src ! (j - unat wo)
       else if j + unat cap < unat wo + unat n then src ! (j + unat cap - unat wo) else mem ! j))"
proof -
  define W C N where d: "W = unat wo" "C = unat cap" "N = unat n"
  define T where "T = min (C - W) N"
  have a: "W < C" "N \<le> C" "N \<le> length src" "length mem = C" using assms by (auto simp: d word_less_nat_alt word_le_nat_alt)
  have T: "unat (min (cap - wo) n) = T" using assms(2) by (simp add: T_def d unat_min unat_diff order.strict_implies_order)
  have H: "unat (n - min (cap - wo) n) = N - T" using T by (simp add: unat_diff d)
  then have H0: "0 < n - min (cap - wo) n \<longleftrightarrow> T < N" by (simp add: word_less_nat_alt)
  have T_le: "W + T \<le> C" "T \<le> N" "T < N \<Longrightarrow> W + T = C" using a by (auto simp: T_def)
  define m1 where "m1 = take W mem @ take T src @ drop (W + T) mem"
  have m1: "length m1 = C" "\<And>j. j < C \<Longrightarrow> m1 ! j = (if W \<le> j \<and> j < W + T then src ! (j - W) else mem ! j)"
    using a T_le by (auto simp: m1_def nth_append)
  define h where "h = take (N - T) (drop T src)"
  have h: "length h = N - T" "\<And>j. j < N - T \<Longrightarrow> h ! j = src ! (T + j)" using a T_le by (auto simp: h_def)
  define m2 where "m2 = (if T < N then h @ drop (N - T) m1 else m1)"
  have "ring_write wo cap src n mem = Inr m2"
    unfolding ring_write_def Let_def T H H0 copy_out_def copy_in_def d(1) [symmetric]
    using a T_le m1(1) h(1) by (cases "N - T \<le> C") (simp_all add: m2_def m1_def h_def)
  moreover have "length m2 = C" using m1(1) h(1) a by (simp add: m2_def)
  moreover have "m2 ! j = (if W \<le> j \<and> j < W + N then src ! (j - W)
      else if j + C < W + N then src ! (j + C - W) else mem ! j)" if "j < C" for j
  proof -
    have "T < N \<Longrightarrow> j + C - W = T + j" using T_le(3) by simp
    then show ?thesis using a T_le that m1 h by (auto simp: m2_def nth_append)
  qed
  ultimately show ?thesis unfolding d by blast
qed

lemma ring_view_write:
  assumes "length mem = unat cap" "unat wo = (ro + k) mod unat cap" "ro < unat cap" "k + unat n \<le> unat cap"
    and "unat n \<le> length src"
  shows "\<exists>mem'. ring_write wo cap src n mem = Inr mem' \<and> length mem' = unat cap \<and>
    ring_view mem' ro (k + unat n) = ring_view mem ro k @ take (unat n) src"
proof -
  define C N where d: "C = unat cap" "N = unat n"
  have wo: "wo < cap" using assms(2,3) by (simp add: word_less_nat_alt)
  have n: "n \<le> cap" using assms(4) by (simp add: word_le_nat_alt)
  obtain mem' where m: "ring_write wo cap src n mem = Inr mem'" "length mem' = C"
    "\<And>j. j < C \<Longrightarrow> mem' ! j = (if unat wo \<le> j \<and> j < unat wo + N then src ! (j - unat wo)
       else if j + C < unat wo + N then src ! (j + C - unat wo) else mem ! j)"
    using ring_write_ok [OF assms(1) wo n assms(5)] unfolding d by blast
  have wo': "unat wo = (if ro + k < C then ro + k else ro + k - C)" using assms(2-4) by (simp add: wrap_mod d)
  have "ring_view mem' ro (k + N) ! i = (ring_view mem ro k @ take N src) ! i" if i: "i < k + N" for i
  proof -
    let ?j = "(ro + i) mod C"
    have j: "?j = (if ro + i < C then ro + i else ro + i - C)" "?j < C"
      using i assms(3,4) by (auto simp: wrap_mod d)
    have "ring_view mem' ro (k + N) ! i = mem' ! ?j" using i m(2) by (simp add: nth_ring_view)
    also have "\<dots> = (if i < k then mem ! ?j else src ! (i - k))"
      unfolding m(3) [OF j(2)] unfolding j(1) wo' using i assms(3,4) by (auto simp: d)
    finally show ?thesis using i assms(1,5) by (simp add: nth_append nth_ring_view d)
  qed
  then have "ring_view mem' ro (k + N) = ring_view mem ro k @ take N src"
    using assms(5) by (intro nth_equalityI) (simp_all add: d)
  then show ?thesis using m(1,2) unfolding d by blast
qed

lemma ring_read_ok:
  assumes "length mem = unat cap" "ro < cap" "n \<le> cap"
  shows "ring_read ro cap n mem = Inr (ring_view mem (unat ro) (unat n))"
proof -
  define R C N where d: "R = unat ro" "C = unat cap" "N = unat n"
  define T where "T = min (C - R) N"
  have a: "R < C" "N \<le> C" "length mem = C" using assms by (auto simp: d word_less_nat_alt word_le_nat_alt)
  have T: "unat (min (cap - ro) n) = T" using assms(2) by (simp add: T_def d unat_min unat_diff order.strict_implies_order)
  have H: "unat (n - min (cap - ro) n) = N - T" using T by (simp add: unat_diff d)
  have T0: "0 < min (cap - ro) n \<longleftrightarrow> 0 < T" "0 < n - min (cap - ro) n \<longleftrightarrow> T < N"
    using T H by (simp_all only: word_less_nat_alt) simp_all
  have "ring_read ro cap n mem = Inr (take T (drop R mem) @ take (N - T) mem)"
    unfolding ring_read_def Let_def T0 T H copy_out_def d(1) [symmetric] using a by (auto simp: T_def)
  moreover have "take T (drop R mem) @ take (N - T) mem = ring_view mem R N"
  proof (rule nth_equalityI)
    show len: "length (take T (drop R mem) @ take (N - T) mem) = length (ring_view mem R N)" using a by (simp add: T_def)
    fix i assume "i < length (take T (drop R mem) @ take (N - T) mem)"
    then have i: "i < N" using len by simp
    have "(R + i) mod C = (if R + i < C then R + i else i + R - C)" using a i by (simp add: wrap_mod add.commute)
    then show "(take T (drop R mem) @ take (N - T) mem) ! i = ring_view mem R N ! i"
      using a i by (auto simp: T_def nth_append nth_ring_view)
  qed
  ultimately show ?thesis by (simp add: d)
qed

end
