(* ===== verification/Local_Pair.thy ===== *)
theory Local_Pair
  imports Node_Props
begin

text \<open>
  A pair of ports on one node is a pair of first-in first-out streams.  The state of one direction is
  abstracted to the list of payloads that were sent and not yet read, and every interleaving of
  sends and reads refines the operations of a plain queue.
\<close>

section \<open>The abstract queue and the concrete runs\<close>

datatype stream_op = Put "uint8_t list" | Take

fun fifo_run :: "stream_op list \<Rightarrow> uint8_t list list \<Rightarrow> uint8_t list option list \<times> uint8_t list list" where
  "fifo_run [] ws = ([], ws)"
| "fifo_run (Put w # ops) ws = fifo_run ops (ws @ [w])"
| "fifo_run (Take # ops) [] = (let (os, ws') = fifo_run ops [] in (None # os, ws'))"
| "fifo_run (Take # ops) (w # ws) = (let (os, ws') = fifo_run ops ws in (Some w # os, ws'))"

fun puts :: "stream_op list \<Rightarrow> nat" where
  "puts [] = 0"
| "puts (Put _ # ops) = Suc (puts ops)"
| "puts (Take # ops) = puts ops"

text \<open>Send on one reference, read on the other; the payloads that were read are the result.\<close>

fun pair_run ::
  "PortRef \<Rightarrow> PortRef \<Rightarrow> stream_op list \<Rightarrow> Node \<Rightarrow> (fault + node_rv) + uint8_t list option list \<times> Node" where
  "pair_run r0 r1 [] n = Inr ([], n)"
| "pair_run r0 r1 (Put w # ops) n =
     (case SendMessage r0 (NewUserMessage [] w) n of
        Inl f \<Rightarrow> Inl (Inl f)
      | Inr (rv, _, n') \<Rightarrow> if rv \<noteq> OK then Inl (Inr rv) else pair_run r0 r1 ops n')"
| "pair_run r0 r1 (Take # ops) n =
     (case GetMessage r1 n of
        Inl f \<Rightarrow> Inl (Inl f)
      | Inr (rv, m, n') \<Rightarrow>
          if rv \<noteq> OK then Inl (Inr rv)
          else (case pair_run r0 r1 ops n' of
                  Inl e \<Rightarrow> Inl e
                | Inr (os, n'') \<Rightarrow> Inr (map_option msg_payload m # os, n'')))"

section \<open>The abstraction relation\<close>

definition in_flight :: "MessageQueue \<Rightarrow> Message list \<Rightarrow> bool" where
  "in_flight q ms \<longleftrightarrow> mq_inv q \<and> pending q = mset ms \<and>
     map GetSequenceNum ms = seq_from (mq_next_sequence_num q) (length ms) \<and>
     (\<forall>m \<in> set ms. msg_ports m = [])"

text \<open>The messages under way with their handles; \<open>linked\<close> is the view of a client that sends no handles.\<close>

definition linkedh :: "PortRef \<Rightarrow> PortRef \<Rightarrow> Node \<Rightarrow> (uint8_t list \<times> PlatformHandle list) list \<Rightarrow> bool" where
  "linkedh r0 r1 n xs \<longleftrightarrow>
     (let p0 = port_at n (ref_port r0); p1 = port_at n (ref_port r1)
      in ref_port r0 \<noteq> ref_port r1 \<and> state p0 = kReceiving \<and> state p1 = kReceiving \<and>
         \<not> peer_closed p0 \<and> \<not> peer_closed p1 \<and> \<not> remove_proxy_on_last_message p1 \<and>
         peer_node_name p0 = node_name n \<and> peer_port_name p0 = ref_name r1 \<and>
         map_of (ports n) (ref_name r1) = Some (ref_port r1) \<and>
         (\<exists>ms. in_flight (message_queue p1) ms \<and> map (\<lambda>m. (msg_payload m, msg_handles m)) ms = xs) \<and>
         next_sequence_num_to_send p0 = mq_next_sequence_num (message_queue p1) + of_nat (length xs))"

definition linked :: "PortRef \<Rightarrow> PortRef \<Rightarrow> Node \<Rightarrow> uint8_t list list \<Rightarrow> bool" where
  "linked r0 r1 n ws \<longleftrightarrow>
     (let p0 = port_at n (ref_port r0); p1 = port_at n (ref_port r1)
      in ref_port r0 \<noteq> ref_port r1 \<and> state p0 = kReceiving \<and> state p1 = kReceiving \<and>
         \<not> peer_closed p0 \<and> \<not> peer_closed p1 \<and> \<not> remove_proxy_on_last_message p1 \<and>
         peer_node_name p0 = node_name n \<and> peer_port_name p0 = ref_name r1 \<and>
         map_of (ports n) (ref_name r1) = Some (ref_port r1) \<and>
         (\<exists>ms. in_flight (message_queue p1) ms \<and> map msg_payload ms = ws) \<and>
         next_sequence_num_to_send p0 = mq_next_sequence_num (message_queue p1) + of_nat (length ws))"

lemma linked_iff: "linked r0 r1 n ws \<longleftrightarrow> (\<exists>xs. linkedh r0 r1 n xs \<and> map fst xs = ws)"
proof
  assume l: "linked r0 r1 n ws"
  then obtain ms where "in_flight (message_queue (port_at n (ref_port r1))) ms" "map msg_payload ms = ws"
    by (auto simp: linked_def Let_def)
  with l show "\<exists>xs. linkedh r0 r1 n xs \<and> map fst xs = ws"
    by (intro exI [of _ "map (\<lambda>m. (msg_payload m, msg_handles m)) ms"]) (auto simp: linked_def linkedh_def Let_def)
next
  assume "\<exists>xs. linkedh r0 r1 n xs \<and> map fst xs = ws"
  then show "linked r0 r1 n ws" by (auto simp: linked_def linkedh_def Let_def comp_def)
qed

definition read_so_far :: "PortRef \<Rightarrow> Node \<Rightarrow> nat" where
  "read_so_far r1 n = unat (mq_next_sequence_num (message_queue (port_at n (ref_port r1))))"

lemma in_flight_accept:
  assumes "in_flight q ms" "AcceptMessage_queue m q = (b, q')" "msg_ports m = []"
    and "GetSequenceNum m = mq_next_sequence_num q + of_nat (length ms)"
  shows "in_flight q' (ms @ [m])" "mq_next_sequence_num q' = mq_next_sequence_num q"
  using assms AcceptMessage_queue_inv [OF _ assms(2)] AcceptMessage_queue_frame [OF assms(2)]
    seq_from_append [of "mq_next_sequence_num q" "length ms" 1]
  by (auto simp: in_flight_def)

lemma SendMessage_linkedh:
  assumes "linkedh r0 r1 n xs" "m0 = (NewUserMessage [] w)\<lparr>msg_handles := hs\<rparr>"
  shows "\<exists>n'. SendMessage r0 m0 n = Inr (OK, None, n') \<and> linkedh r0 r1 n' (xs @ [(w, hs)]) \<and>
    read_so_far r1 n' = read_so_far r1 n \<and>
    (\<forall>vs. linkedh r1 r0 n vs \<longrightarrow> linkedh r1 r0 n' vs) \<and> read_so_far r0 n' = read_so_far r0 n \<and>
    set (delegate_calls n') \<subseteq> set (delegate_calls n) \<union> range PortStatusChanged"
proof -
  let ?a = "ref_port r0" and ?b = "ref_port r1"
  let ?s = "next_sequence_num_to_send (port_at n ?a)"
  let ?m = "set_header_port_name (ref_name r1) (set_sequence_num ?s m0)"
  let ?n1 = "modify_port ?a (\<lambda>p. p\<lparr>next_sequence_num_to_send := next_sequence_num_to_send p + 1\<rparr>) n"
  from assms(1) obtain ms where l: "?a \<noteq> ?b" "state (port_at n ?a) = kReceiving" "state (port_at n ?b) = kReceiving"
    "\<not> peer_closed (port_at n ?a)" "\<not> peer_closed (port_at n ?b)"
    "\<not> remove_proxy_on_last_message (port_at n ?b)" "peer_node_name (port_at n ?a) = node_name n"
    "peer_port_name (port_at n ?a) = ref_name r1" "map_of (ports n) (ref_name r1) = Some ?b"
    "in_flight (message_queue (port_at n ?b)) ms" "map (\<lambda>m. (msg_payload m, msg_handles m)) ms = xs"
    "?s = mq_next_sequence_num (message_queue (port_at n ?b)) + of_nat (length xs)"
    by (auto simp: linkedh_def Let_def)
  obtain b q where q: "AcceptMessage_queue ?m (message_queue (port_at n ?b)) = (b, q)" by fastforce
  have m: "msg_ports ?m = []" "GetSequenceNum ?m = ?s" "msg_payload ?m = w" "msg_handles ?m = hs" "header_port_name ?m = ref_name r1"
    "event_data ?m = UserEvent ?s []"
    by (simp_all add: assms(2) set_header_port_name_def set_sequence_num_def NewUserMessage_def GetSequenceNum_def)
  note fl = in_flight_accept [OF l(10) q m(1)]
  let ?n2 = "modify_port ?b (\<lambda>p. p\<lparr>message_queue := q\<rparr>) ?n1"
  let ?n' = "if b then status_changed \<lparr>ref_name = ref_name r1, ref_port = ?b\<rparr> ?n2 else ?n2"
  have w: "WillSendMessage_Locked ?a m0 n = Inr (OK, ?m, ?n1)"
    using l(8) assms(2) by (simp add: GetSequenceNum_def NewUserMessage_def WillSendMessage_Locked_def num_ports_def Let_def)
  have acc: "AcceptMessage ?m ?n1 = Inr (OK, ?n')"
    using l q m by (simp add: AcceptMessage_def OnUserMessage_def descriptors_def GetPort_Locked_def
        CanAcceptMoreMessages_def Let_def)
  have "SendMessage r0 m0 n = Inr (OK, None, ?n')"
    using l(2,4,7) w acc assms(2) by (simp add: SendMessage_def Let_def)
  moreover have "\<exists>ms. in_flight q ms \<and> map (\<lambda>m. (msg_payload m, msg_handles m)) ms = xs @ [(w, hs)]"
    using fl(1) m(2,3,4) l(11,12) by (intro exI [of _ "ms @ [?m]"]) auto
  then have "linkedh r0 r1 ?n' (xs @ [(w, hs)])"
    using l fl(2) m(2) unfolding linkedh_def Let_def by auto
  moreover have "read_so_far r1 ?n' = read_so_far r1 n"
    using fl(2) m(2) l(1,11,12) by (auto simp: read_so_far_def)
  moreover have "linkedh r1 r0 n vs \<Longrightarrow> linkedh r1 r0 ?n' vs" for vs
    using l unfolding linkedh_def Let_def by auto
  moreover have "read_so_far r0 ?n' = read_so_far r0 n" using l(1) by (auto simp: read_so_far_def)
  moreover have "set (delegate_calls ?n') \<subseteq> set (delegate_calls n) \<union> range PortStatusChanged"
    by (auto simp: status_changed_def)
  ultimately show ?thesis by blast
qed

lemma SendMessage_local:
  assumes "linked r0 r1 n ws"
  shows "\<exists>n'. SendMessage r0 (NewUserMessage [] w) n = Inr (OK, None, n') \<and> linked r0 r1 n' (ws @ [w]) \<and>
    read_so_far r1 n' = read_so_far r1 n \<and>
    (\<forall>vs. linked r1 r0 n vs \<longrightarrow> linked r1 r0 n' vs) \<and> read_so_far r0 n' = read_so_far r0 n \<and>
    set (delegate_calls n') \<subseteq> set (delegate_calls n) \<union> range PortStatusChanged"
proof -
  obtain xs where xs: "linkedh r0 r1 n xs" "map fst xs = ws" using assms by (auto simp: linked_iff)
  have "NewUserMessage [] w = (NewUserMessage [] w)\<lparr>msg_handles := []\<rparr>" by simp
  from SendMessage_linkedh [OF xs(1) this] obtain n' where n':
    "SendMessage r0 (NewUserMessage [] w) n = Inr (OK, None, n')" "linkedh r0 r1 n' (xs @ [(w, [])])"
    "read_so_far r1 n' = read_so_far r1 n" "\<forall>vs. linkedh r1 r0 n vs \<longrightarrow> linkedh r1 r0 n' vs"
    "read_so_far r0 n' = read_so_far r0 n" "set (delegate_calls n') \<subseteq> set (delegate_calls n) \<union> range PortStatusChanged"
    by blast
  have "linked r0 r1 n' (ws @ [w])" unfolding linked_iff using n'(2) xs(2) by (intro exI [of _ "xs @ [(w, [])]"]) simp
  then show ?thesis using n' by (auto simp: linked_iff)
qed

lemma linked_HasNextMessage:
  assumes "linked r0 r1 n ws" "read_so_far r1 n + length ws < 2 ^ 64"
  shows "HasNextMessage (message_queue (port_at n (ref_port r1))) \<longleftrightarrow> ws \<noteq> []"
proof -
  let ?q = "message_queue (port_at n (ref_port r1))"
  obtain ms where ms: "in_flight ?q ms" "map msg_payload ms = ws" using assms(1) by (auto simp: linked_def Let_def)
  show ?thesis
  proof (cases ms)
    case Nil
    then show ?thesis using ms by (auto simp: in_flight_def HasNextMessage_def)
  next
    case (Cons m ms')
    then obtain q where "GetNextMessageIf None ?q = (Some m, q)"
      using mq.get_head [of ?q m ms'] ms assms(2) by (auto simp: in_flight_def read_so_far_def)
    then show ?thesis using Cons ms(2) by (auto simp: GetNextMessageIf_def split: if_splits)
  qed
qed

lemma GetMessage_local_empty:
  assumes "linked r0 r1 n []"
  shows "\<exists>n'. GetMessage r1 n = Inr (OK, None, n') \<and> linked r0 r1 n' [] \<and> read_so_far r1 n' = read_so_far r1 n \<and>
    (\<forall>vs. linked r1 r0 n vs \<longrightarrow> linked r1 r0 n' vs) \<and> read_so_far r0 n' = read_so_far r0 n \<and>
    delegate_calls n' = delegate_calls n"
proof -
  have ne: "ref_port r0 \<noteq> ref_port r1" using assms by (simp add: linked_def Let_def)
  have e: "mq_heap (message_queue (port_at n (ref_port r1))) = []"
    using assms by (auto simp: linked_def Let_def in_flight_def)
  then have g: "GetNextMessageIf None (message_queue (port_at n (ref_port r1))) =
      (None, message_queue (port_at n (ref_port r1)))"
    by (simp add: GetNextMessageIf_def HasNextMessage_def)
  then have "GetMessage r1 n = Inr (OK, None, modify_port (ref_port r1) (\<lambda>p. p\<lparr>message_queue :=
      message_queue (port_at n (ref_port r1))\<rparr>) n)"
    using assms by (auto simp: GetMessage_def GetMessageIf_def linked_def Let_def CanAcceptMoreMessages_def)
  then show ?thesis using assms ne by (auto simp: linked_def Let_def read_so_far_def)
qed

text \<open>The head of the queue, as a selector sees it and as it is taken.\<close>

lemma GetMessageIf_linkedh:
  assumes "linkedh r0 r1 n ((w, hs) # xs)" "read_so_far r1 n + length ((w, hs) # xs) < 2 ^ 64"
  obtains m n' where "msg_payload m = w" "msg_handles m = hs" "msg_ports m = []"
    "HasNextMessage (message_queue (port_at n (ref_port r1)))" "mq_heap (message_queue (port_at n (ref_port r1))) ! 0 = m"
    "\<And>f. f m \<Longrightarrow> GetMessageIf r1 (Some f) n = Inr (OK, Some m, n')" "\<And>f. \<not> f m \<Longrightarrow> GetMessageIf r1 (Some f) n = Inr (OK, None, n)"
    "GetMessage r1 n = Inr (OK, Some m, n')" "linkedh r0 r1 n' xs" "read_so_far r1 n' = Suc (read_so_far r1 n)"
    "\<And>vs. linkedh r1 r0 n vs \<Longrightarrow> linkedh r1 r0 n' vs" "read_so_far r0 n' = read_so_far r0 n"
    "delegate_calls n' = delegate_calls n"
proof -
  let ?b = "ref_port r1" and ?q = "message_queue (port_at n (ref_port r1))"
  from assms(1) obtain m ms where fl: "in_flight ?q (m # ms)" and ws: "msg_payload m = w" "msg_handles m = hs"
    "map (\<lambda>m. (msg_payload m, msg_handles m)) ms = xs"
    by (auto simp: linkedh_def Let_def map_eq_Cons_conv)
  have len: "length ms = length xs" using ws(3) by auto
  obtain q where q: "GetNextMessageIf None ?q = (Some m, q)" "mq_inv q" "pending q = mset ms"
    "mq_next_sequence_num q = mq_next_sequence_num ?q + 1"
    using mq.get_head [of ?q m ms] fl assms(2) len by (auto simp: in_flight_def read_so_far_def)
  have has: "HasNextMessage ?q" "m = last (pop_heap GetSequenceNum (mq_heap ?q))"
    using q(1) by (auto simp: GetNextMessageIf_def Let_def split: if_splits)
  have hd: "mq_heap ?q ! 0 = m"
    using has fl array_heap.last_pop [of GetSequenceNum "mq_heap ?q"] by (auto simp: in_flight_def mq_inv_def HasNextMessage_def hd_conv_nth)
  have sel: "GetNextMessageIf (Some f) ?q = (if f m then (Some m, q) else (None, ?q))" for f
    using q(1) has(1) hd by (auto simp: GetNextMessageIf_def)
  have fl': "in_flight q ms" using fl q by (auto simp: in_flight_def)
  have np: "msg_ports m = []" using fl by (simp add: in_flight_def)
  have su: "unat (mq_next_sequence_num ?q + 1) = Suc (unat (mq_next_sequence_num ?q))"
    using assms(2) by (intro unat_Suc_word) (simp add: read_so_far_def)
  let ?n' = "modify_port ?b (\<lambda>p. p\<lparr>message_queue := q\<rparr>) n"
  have taken: "GetMessageIf r1 (Some f) n = Inr (OK, Some m, ?n')" "GetMessage r1 n = Inr (OK, Some m, ?n')" if "f m" for f
    using assms(1) that q(1) sel np
    by (auto simp: GetMessage_def GetMessageIf_def linkedh_def Let_def CanAcceptMoreMessages_def)
  have "modify_port ?b (\<lambda>p. p\<lparr>message_queue := ?q\<rparr>) n = n" by (simp add: modify_port_def)
  then have kept: "GetMessageIf r1 (Some f) n = Inr (OK, None, n)" if "\<not> f m" for f
    using assms(1) that sel by (auto simp: GetMessageIf_def linkedh_def Let_def CanAcceptMoreMessages_def)
  have l: "linkedh r0 r1 ?n' xs"
    using assms(1) fl' q(4) ws(3) by (auto simp: linkedh_def Let_def algebra_simps)
  have rev: "linkedh r1 r0 n vs \<Longrightarrow> linkedh r1 r0 ?n' vs" for vs
    using assms(1) by (auto simp: linkedh_def Let_def)
  have rs: "read_so_far r1 ?n' = Suc (read_so_far r1 n)" "read_so_far r0 ?n' = read_so_far r0 n" "delegate_calls ?n' = delegate_calls n"
    using su q(4) assms(1) by (auto simp: read_so_far_def linkedh_def Let_def)
  show thesis by (rule that [OF ws(1,2) np has(1) hd taken(1) kept taken(2) [of "\<lambda>_. True"] l rs(1) rev rs(2,3)]) simp_all
qed

lemma GetMessage_local:
  assumes "linked r0 r1 n (w # ws)" "read_so_far r1 n + length (w # ws) < 2 ^ 64"
  shows "\<exists>n' m. GetMessage r1 n = Inr (OK, Some m, n') \<and> msg_payload m = w \<and> linked r0 r1 n' ws \<and>
    read_so_far r1 n' = Suc (read_so_far r1 n) \<and>
    (\<forall>vs. linked r1 r0 n vs \<longrightarrow> linked r1 r0 n' vs) \<and> read_so_far r0 n' = read_so_far r0 n \<and>
    delegate_calls n' = delegate_calls n"
proof -
  obtain hs xs where xs: "linkedh r0 r1 n ((w, hs) # xs)" "map fst xs = ws" using assms(1) by (auto simp: linked_iff map_eq_Cons_conv)
  then have "read_so_far r1 n + length ((w, hs) # xs) < 2 ^ 64" using assms(2) by auto
  show ?thesis
  proof (rule GetMessageIf_linkedh [OF xs(1) \<open>read_so_far r1 n + length ((w, hs) # xs) < 2 ^ 64\<close>])
    fix m n'
    assume "msg_payload m = w" "GetMessage r1 n = Inr (OK, Some m, n')" "linkedh r0 r1 n' xs" "read_so_far r1 n' = Suc (read_so_far r1 n)"
      "\<And>vs. linkedh r1 r0 n vs \<Longrightarrow> linkedh r1 r0 n' vs" "read_so_far r0 n' = read_so_far r0 n" "delegate_calls n' = delegate_calls n"
    then show ?thesis using xs(2) by (auto simp: linked_iff)
  qed
qed

text \<open>
  C1: Two ports of one node that are each other's peer carry a first-in first-out stream: for every
  interleaving of sends on one and reads on the other, every send succeeds and the reads return
  exactly what a plain queue returns, the payloads in the order they were sent, each once, and
  nothing when all have been read (as long as the 64-bit sequence numbers do not wrap).
\<close>

theorem local_pair_refines_fifo:
  assumes "linked r0 r1 n ws" "read_so_far r1 n + length ws + puts ops < 2 ^ 64"
  shows "\<exists>n'. pair_run r0 r1 ops n = Inr (fst (fifo_run ops ws), n') \<and> linked r0 r1 n' (snd (fifo_run ops ws))"
  using assms
proof (induction ops ws arbitrary: n rule: fifo_run.induct)
  case (1 ws)
  then show ?case by simp
next
  case (2 w ops ws)
  obtain n1 where n1: "SendMessage r0 (NewUserMessage [] w) n = Inr (OK, None, n1)"
    "linked r0 r1 n1 (ws @ [w])" "read_so_far r1 n1 = read_so_far r1 n"
    using SendMessage_local [OF "2.prems"(1)] by blast
  show ?case using "2.IH" [OF n1(2)] "2.prems"(2) n1 by simp
next
  case (3 ops)
  obtain n1 where n1: "GetMessage r1 n = Inr (OK, None, n1)" "linked r0 r1 n1 []" "read_so_far r1 n1 = read_so_far r1 n"
    using GetMessage_local_empty [OF "3.prems"(1)] by blast
  show ?case using "3.IH" [OF n1(2)] "3.prems"(2) n1 by (auto split: prod.splits)
next
  case (4 ops w ws)
  obtain n1 m where n1: "GetMessage r1 n = Inr (OK, Some m, n1)" "msg_payload m = w" "linked r0 r1 n1 ws"
    "read_so_far r1 n1 = Suc (read_so_far r1 n)"
    using GetMessage_local [OF "4.prems"(1)] "4.prems"(2) by auto
  show ?case using "4.IH" [OF n1(3)] "4.prems"(2) n1 by (auto split: prod.splits)
qed

lemma CreatePortPair_linked:
  assumes "node_inv n" "CreatePortPair n = Inr (rv, r0, r1, n')"
  shows "linked r0 r1 n' []" "linked r1 r0 n' []" "read_so_far r0 n' = 1" "read_so_far r1 n' = 1"
  using CreatePortPair_new [OF assms] mq_inv_init
  by (auto simp: linked_def Let_def Port_init_def in_flight_def MessageQueue_init_def read_so_far_def
      kInitialSequenceNum_def)

theorem local_pair_refines_fifo_witness:
  "case example_pair of (r0, r1, n) \<Rightarrow>
     \<exists>n'. pair_run r0 r1 [Put [1], Put [2], Take, Put [3], Take, Take, Take] n =
       Inr ([Some [1], Some [2], Some [3], None], n')"
proof -
  obtain r0 r1 n where e: "example_pair = (r0, r1, n)" using prod_cases3 by blast
  have "node_inv example_node" unfolding example_node_def by (rule node_inv_init)
  then have "linked r0 r1 n []" "read_so_far r1 n = 1"
    using CreatePortPair_linked [of example_node OK r0 r1 n] example_pair_eval(1) e by auto
  then show ?thesis
    using local_pair_refines_fifo [of r0 r1 n "[]" "[Put [1], Put [2], Take, Put [3], Take, Take, Take]"]
    unfolding e prod.case by auto
qed

end
