(* ===== verification/Controller_Props.thy ===== *)
theory Controller_Props
  imports Node_Controller Local_Pair
begin

text \<open>
  Properties of the node controller: the consistency of its routing tables under every message of other
  nodes, in-order delivery to peers that connect late, delivery from one controller to another through
  the encodings of the lower layers, and the local notification of a closed port.
\<close>

section \<open>Routing invariant\<close>

text \<open>The channels the controller still uses: of peers, of children that have not answered, to the parent.\<close>

definition used_channels :: "NodeController \<Rightarrow> channel_ref list" where
  "used_channels c = map snd (peers c) @ map snd (pending_children c) @
     (case bootstrap_parent_channel c of None \<Rightarrow> [] | Some ch \<Rightarrow> [ch])"

definition routing_inv :: "NodeController \<Rightarrow> bool" where
  "routing_inv c \<longleftrightarrow>
     distinct (used_channels c) \<and> (\<forall>ch \<in> set (used_channels c). ch < channel_count c) \<and>
     distinct (map fst (peers c)) \<and>
     (\<forall>(nm, ch) \<in> set (peers c). remote_node_name (channels c ch) = nm) \<and>
     (\<forall>(nm, ch) \<in> set (pending_children c). remote_node_name (channels c ch) = nm) \<and>
     (\<forall>nm. map_of (peers c) nm = None \<or> map_of (pending_peer_messages c) nm = None)"

lemma routing_inv_init: "routing_inv (NodeController_init nm rand toks prs)"
  by (simp add: routing_inv_def used_channels_def NodeController_init_def)

text \<open>Updates that touch neither the tables nor the names of the channels.\<close>

definition same_routes :: "NodeController \<Rightarrow> NodeController \<Rightarrow> bool" where
  "same_routes c c' \<longleftrightarrow> peers c' = peers c \<and> pending_children c' = pending_children c \<and>
     bootstrap_parent_channel c' = bootstrap_parent_channel c \<and> channel_count c' = channel_count c \<and>
     (\<forall>ch. remote_node_name (channels c' ch) = remote_node_name (channels c ch)) \<and>
     (\<forall>nm. map_of (peers c) nm \<noteq> None \<and> map_of (pending_peer_messages c) nm = None \<longrightarrow> map_of (pending_peer_messages c') nm = None)"

lemma same_routes_inv:
  assumes "routing_inv c" "same_routes c c'"
  shows "routing_inv c'"
proof -
  have u: "used_channels c' = used_channels c" using assms(2) by (simp add: used_channels_def same_routes_def)
  have "map_of (peers c) nm = None \<or> map_of (pending_peer_messages c') nm = None" for nm
    using assms unfolding routing_inv_def same_routes_def by metis
  then show ?thesis using assms unfolding routing_inv_def u same_routes_def by simp
qed

lemma same_routes_refl [simp]: "same_routes c c"
  by (simp add: same_routes_def)

lemma same_routes_trans: "same_routes a b \<Longrightarrow> same_routes b c \<Longrightarrow> same_routes a c"
  by (auto simp: same_routes_def)

lemma same_routes_fold: "(\<And>x c. same_routes c (f x c)) \<Longrightarrow> same_routes c (fold f xs c)"
proof (induction xs arbitrary: c)
  case (Cons x xs)
  then show ?case using same_routes_trans [of c "f x c"] by auto
qed simp

lemma same_routes_channel:
  "(\<And>n. remote_node_name (f n) = remote_node_name n) \<Longrightarrow> same_routes c (modify_channel ch f c)"
  by (simp add: same_routes_def modify_channel_def)

lemma remote_name_kept [simp]:
  "remote_node_name (WriteChannelMessage m n) = remote_node_name n"
  "remote_node_name (PortsMessage_write m n) = remote_node_name n"
  "remote_node_name (RequestIntroduction nm n) = remote_node_name n"
  "remote_node_name (RequestPortConnection p t n) = remote_node_name n"
  "remote_node_name (ConnectToPort p q n) = remote_node_name n"
  "remote_node_name (AcceptParent nm nm' n) = remote_node_name n"
  "remote_node_name (AcceptChild nm nm' n) = remote_node_name n"
  "remote_node_name (NodeChannel_ShutDown n) = remote_node_name n"
  by (simp_all add: WriteChannelMessage_def PortsMessage_write_def RequestIntroduction_def RequestPortConnection_def
      ConnectToPort_def AcceptParent_def AcceptChild_def NodeChannel_ShutDown_def)

lemma same_routes_SendPeerMessage: "same_routes c (SendPeerMessage nm m c)"
  by (auto simp: same_routes_def SendPeerMessage_def modify_channel_def GetPeerChannel_def Let_def
      split: option.splits)

lemma same_routes_delegate: "same_routes c (run_delegate n c)"
proof -
  have "same_routes c (delegate_step x c)" for x and c :: "NodeController"
  proof (cases x)
    case (ForwardMessage nd m)
    then show ?thesis using same_routes_SendPeerMessage [of c]
      by (auto simp: NC_ForwardMessage_def) (simp add: same_routes_def)
  next
    case (PortStatusChanged r)
    then show ?thesis by (auto simp: NC_PortStatusChanged_def run_callback_def same_routes_def split: prod.splits option.splits)
  qed
  then have "same_routes (set_node (n\<lparr>delegate_calls := []\<rparr>) c) (run_delegate n c)"
    unfolding run_delegate_def by (rule same_routes_fold)
  then show ?thesis by (simp add: same_routes_def set_node_def)
qed

lemma same_routes_shutdown: "same_routes c (AttemptShutdownIfRequested c)"
  by (simp add: AttemptShutdownIfRequested_def run_callback_def same_routes_def split: option.splits)

lemma accept_batch_routes: "accept_batch ms c = Inr c' \<Longrightarrow> same_routes c c'"
proof (induction ms c rule: accept_batch.induct)
  case (2 m ms c)
  then obtain rv n where "AcceptMessage m (nc_node c) = Inr (rv, n)" "accept_batch ms (run_delegate n c) = Inr c'"
    by (auto split: sum.splits)
  then show ?case using 2 same_routes_delegate same_routes_trans by fastforce
qed simp

lemma pump_routes: "pump fuel c = Some (Inr c') \<Longrightarrow> same_routes c c'"
proof (induction fuel c rule: pump.induct)
  case (1 fuel c)
  show ?case
  proof (cases "incoming_messages c = []")
    case True
    then show ?thesis using "1.prems" by (simp add: pump.simps)
  next
    case False
    then obtain fuel' c1 where f: "fuel = Suc fuel'" "accept_batch (incoming_messages c) (c\<lparr>incoming_messages := []\<rparr>) = Inr c1"
      "pump fuel' c1 = Some (Inr c')"
      using "1.prems" by (auto simp: pump.simps [of fuel] split: nat.splits sum.splits)
    have "same_routes c (c\<lparr>incoming_messages := []\<rparr>)" by (simp add: same_routes_def)
    then show ?thesis using "1.IH" [OF False f(1,2,3)] accept_batch_routes [OF f(2)] same_routes_trans by blast
  qed
qed

lemma AcceptIncoming_routes: "AcceptIncomingMessages fuel c = Some (Inr c') \<Longrightarrow> same_routes c c'"
  using pump_routes same_routes_shutdown same_routes_trans
  by (fastforce simp: AcceptIncomingMessages_def split: option.splits sum.splits)

section \<open>The handlers keep the routes\<close>

lemma fold_PortsMessage_name [simp]:
  "remote_node_name (fold (\<lambda>m. PortsMessage_write (TakeChannelMessage m)) ms n) = remote_node_name n"
  by (induction ms arbitrary: n) auto

lemma AddPeer_inv:
  assumes "routing_inv c" "ch \<notin> set (used_channels c)" "ch < channel_count c"
  shows "routing_inv (AddPeer nm ch c)"
proof -
  have names: "remote_node_name (channels (AddPeer nm ch c) k) = (if k = ch then nm else remote_node_name (channels c k))" for k
    by (simp add: AddPeer_def modify_channel_def SetRemoteNodeName_def Let_def)
  have used: "ch \<notin> snd ` set (peers c)" "ch \<notin> snd ` set (pending_children c)"
    using assms(2) by (simp_all add: used_channels_def)
  have same: "remote_node_name (channels (AddPeer nm ch c) k) = x"
    if "(x, k) \<in> set (peers c) \<or> (x, k) \<in> set (pending_children c)" for x k
  proof -
    have "k \<noteq> ch" using that used by force
    then show ?thesis using that assms(1) unfolding names routing_inv_def by auto
  qed
  show ?thesis
  proof (cases "map_of (peers c) nm")
    case (Some a)
    then have t: "peers (AddPeer nm ch c) = peers c" "pending_children (AddPeer nm ch c) = pending_children c"
      "bootstrap_parent_channel (AddPeer nm ch c) = bootstrap_parent_channel c" "channel_count (AddPeer nm ch c) = channel_count c"
      "pending_peer_messages (AddPeer nm ch c) = pending_peer_messages c"
      by (simp_all add: AddPeer_def modify_channel_def Let_def)
    show ?thesis using assms(1) same unfolding routing_inv_def used_channels_def t by auto
  next
    case None
    then have t: "peers (AddPeer nm ch c) = peers c @ [(nm, ch)]" "pending_children (AddPeer nm ch c) = pending_children c"
      "bootstrap_parent_channel (AddPeer nm ch c) = bootstrap_parent_channel c" "channel_count (AddPeer nm ch c) = channel_count c"
      "pending_peer_messages (AddPeer nm ch c) = um_erase nm (pending_peer_messages c)"
      by (simp_all add: AddPeer_def modify_channel_def um_insert_def Let_def)
    have d: "distinct (map snd (peers c @ [(nm, ch)]) @ map snd (pending_children c) @
        (case bootstrap_parent_channel c of None \<Rightarrow> [] | Some ch \<Rightarrow> [ch]))"
      using assms(1,2) by (auto simp: routing_inv_def used_channels_def)
    have l: "\<forall>k \<in> set (map snd (peers c @ [(nm, ch)]) @ map snd (pending_children c) @
        (case bootstrap_parent_channel c of None \<Rightarrow> [] | Some ch \<Rightarrow> [ch])). k < channel_count c"
      using assms(1,3) by (auto simp: routing_inv_def used_channels_def)
    have p: "map_of (peers c @ [(nm, ch)]) x = None \<or> map_of (um_erase nm (pending_peer_messages c)) x = None" for x
    proof -
      have "peers c @ [(nm, ch)] = um_insert nm ch (peers c)" using None by (simp add: um_insert_def)
      then show ?thesis using assms(1) unfolding routing_inv_def by (metis map_of_um_erase map_of_um_insert)
    qed
    have f: "distinct (map fst (peers c @ [(nm, ch)]))"
      using assms(1) None by (auto simp: routing_inv_def map_of_eq_None_iff)
    have "\<forall>(x, k) \<in> set (peers c @ [(nm, ch)]). remote_node_name (channels (AddPeer nm ch c) k) = x"
      "\<forall>(x, k) \<in> set (pending_children c). remote_node_name (channels (AddPeer nm ch c) k) = x"
      using same names [of ch] by auto
    then show ?thesis
      unfolding routing_inv_def used_channels_def t using d l p f by (intro conjI allI) assumption+
  qed
qed

lemma DropPeer_inv: "routing_inv c \<Longrightarrow> routing_inv (DropPeer nm c)"
proof -
  assume inv: "routing_inv c"
  let ?c = "c\<lparr>peers := um_erase nm (peers c), pending_peer_messages := um_erase nm (pending_peer_messages c),
    pending_children := um_erase nm (pending_children c)\<rparr>"
  have d: "distinct (used_channels ?c)" "set (used_channels ?c) \<subseteq> set (used_channels c)"
    using inv by (auto simp: routing_inv_def used_channels_def um_erase_def distinct_map_filter)
  have "routing_inv ?c"
    using inv d by (auto simp: routing_inv_def set_um_erase)
  then show ?thesis using same_routes_inv [OF _ same_routes_delegate] unfolding DropPeer_def Let_def by blast
qed

lemma new_channel_inv:
  assumes "routing_inv c" "new_channel c = (ch, c')"
  shows "routing_inv c'" "ch \<notin> set (used_channels c')" "ch < channel_count c'" "used_channels c' = used_channels c"
proof -
  have e: "ch = channel_count c" "c' = c\<lparr>channels := (channels c)(ch := NodeChannel_Create), channel_count := Suc ch\<rparr>"
    using assms(2) by (auto simp: new_channel_def)
  show u: "used_channels c' = used_channels c" by (simp add: e used_channels_def)
  show "ch \<notin> set (used_channels c')" "ch < channel_count c'"
    using assms(1) unfolding u by (auto simp: e routing_inv_def)
  have "k \<noteq> ch" if "(x, k) \<in> set (peers c) \<or> (x, k) \<in> set (pending_children c)" for x k
  proof -
    have "k \<in> set (used_channels c)" using that by (auto simp: used_channels_def intro: rev_image_eqI)
    then show ?thesis using assms(1) by (auto simp: e routing_inv_def)
  qed
  then show "routing_inv c'" using assms(1) unfolding routing_inv_def u by (auto simp: e less_Suc_eq)
qed

lemma bootstrap_removed:
  assumes "routing_inv c" "bootstrap_parent_channel c = Some ch"
  shows "routing_inv (c\<lparr>bootstrap_parent_channel := None\<rparr>)" "ch \<notin> set (used_channels (c\<lparr>bootstrap_parent_channel := None\<rparr>))"
    "ch < channel_count c"
  using assms by (auto simp: routing_inv_def used_channels_def)

lemma child_removed:
  assumes "routing_inv c" "map_of (pending_children c) nm = Some ch"
  defines "c' \<equiv> c\<lparr>pending_children := um_erase nm (pending_children c)\<rparr>"
  shows "routing_inv c'" "ch \<notin> set (used_channels c')" "ch < channel_count c"
proof -
  have e: "(nm, ch) \<in> set (pending_children c)" using assms(2) by (rule map_of_SomeD)
  then have in_used: "ch \<in> snd ` set (pending_children c)" by force
  then show "ch < channel_count c" using assms(1) by (auto simp: routing_inv_def used_channels_def)
  have d: "distinct (map snd (pending_children c))" using assms(1) by (simp add: routing_inv_def used_channels_def)
  have gone: "ch \<notin> snd ` set (um_erase nm (pending_children c))"
  proof
    assume "ch \<in> snd ` set (um_erase nm (pending_children c))"
    then obtain x where "(x, ch) \<in> set (pending_children c)" "x \<noteq> nm" by (auto simp: set_um_erase)
    then show False using d e by (metis (no_types, lifting) distinct_map inj_onD snd_conv prod.inject)
  qed
  have sub: "snd ` set (um_erase nm (pending_children c)) \<subseteq> snd ` set (pending_children c)" by (auto simp: set_um_erase)
  show "ch \<notin> set (used_channels c')"
    using gone assms(1) in_used unfolding c'_def used_channels_def routing_inv_def by auto
  have "distinct (used_channels c')" "set (used_channels c') \<subseteq> set (used_channels c)"
    using assms(1) sub by (auto simp: c'_def routing_inv_def used_channels_def um_erase_def distinct_map_filter)
  then show "routing_inv c'" using assms(1) by (auto simp: c'_def routing_inv_def set_um_erase)
qed

lemma used_same_routes: "same_routes c c' \<Longrightarrow> used_channels c' = used_channels c"
  by (simp add: used_channels_def same_routes_def)

lemma NC_OnAcceptChild_inv: "routing_inv c \<Longrightarrow> routing_inv (NC_OnAcceptChild f p t c)"
proof -
  assume inv: "routing_inv c"
  show ?thesis
  proof (cases "bootstrap_parent_channel c")
    case None
    then show ?thesis using DropPeer_inv [OF inv] by (simp add: NC_OnAcceptChild_def)
  next
    case (Some ch)
    let ?c1 = "c\<lparr>parent_name := p, bootstrap_parent_channel := None\<rparr>"
    let ?c2 = "modify_channel ch (AcceptParent t (nc_name ?c1)) ?c1"
    let ?f = "\<lambda>request c. modify_channel ch
        (RequestPortConnection (ref_name (pr_local_port request)) (pr_token request))
        (c\<lparr>pending_port_connections := um_insert (ref_name (pr_local_port request))
            (pr_callback request) (pending_port_connections c)\<rparr>)"
    let ?c3 = "(fold ?f (pending_port_requests ?c2) ?c2)\<lparr>pending_port_requests := []\<rparr>"
    have s: "same_routes (c\<lparr>bootstrap_parent_channel := None\<rparr>) ?c2"
      by (simp add: same_routes_def modify_channel_def)
    have "same_routes ?c2 (fold ?f (pending_port_requests ?c2) ?c2)"
      by (rule same_routes_fold) (simp add: same_routes_def modify_channel_def)
    then have "same_routes (c\<lparr>bootstrap_parent_channel := None\<rparr>) (fold ?f (pending_port_requests ?c2) ?c2)"
      using same_routes_trans [OF s] by blast
    then have s3: "same_routes (c\<lparr>bootstrap_parent_channel := None\<rparr>) ?c3" unfolding same_routes_def by simp
    note b = bootstrap_removed [OF inv Some]
    have cnt: "channel_count ?c3 = channel_count c" using s3 by (simp add: same_routes_def)
    have "routing_inv (AddPeer p ch ?c3)"
      by (rule AddPeer_inv [OF same_routes_inv [OF b(1) s3]]) (use b(2,3) used_same_routes [OF s3] cnt in simp_all)
    then show ?thesis using Some DropPeer_inv [OF inv] by (simp add: NC_OnAcceptChild_def Let_def)
  qed
qed

lemma NC_OnAcceptParent_inv: "routing_inv c \<Longrightarrow> routing_inv (NC_OnAcceptParent f t nm c)"
proof -
  assume inv: "routing_inv c"
  show ?thesis
  proof (cases "map_of (pending_children c) f")
    case None
    then show ?thesis using DropPeer_inv [OF inv] by (simp add: NC_OnAcceptParent_def)
  next
    case (Some ch)
    note r = child_removed [OF inv Some]
    have "routing_inv (AddPeer nm ch (c\<lparr>pending_children := um_erase f (pending_children c)\<rparr>))"
      using AddPeer_inv [OF r(1,2)] r(3) by simp
    then show ?thesis using Some DropPeer_inv [OF inv] by (simp add: NC_OnAcceptParent_def)
  qed
qed

lemma NC_OnIntroduce_inv: "routing_inv c \<Longrightarrow> routing_inv (NC_OnIntroduce f nm h c)"
proof -
  assume inv: "routing_inv c"
  have e: "routing_inv (c\<lparr>pending_peer_messages := um_erase nm (pending_peer_messages c)\<rparr>)"
    using inv by (rule same_routes_inv) (simp add: same_routes_def)
  obtain ch c1 where n: "new_channel c = (ch, c1)" by fastforce
  have "routing_inv (AddPeer nm ch c1)" using AddPeer_inv new_channel_inv [OF inv n] by blast
  then show ?thesis using e n DropPeer_inv [OF inv] by (simp add: NC_OnIntroduce_def split: option.splits)
qed

lemma introduce_on_routes: "introduce_on ch nm h c = Inr c' \<Longrightarrow> same_routes c c'"
proof -
  assume i: "introduce_on ch nm h c = Inr c'"
  then obtain n where n: "Introduce nm h (channels c ch) = Inr n" "c' = c\<lparr>channels := (channels c)(ch := n)\<rparr>"
    by (auto simp: introduce_on_def split: sum.splits)
  then have "remote_node_name n = remote_node_name (channels c ch)" by (auto simp: Introduce_def Let_def split: sum.splits)
  then show ?thesis using n(2) by (simp add: same_routes_def)
qed

lemma NC_OnRequestIntroduction_inv:
  assumes "routing_inv c" "NC_OnRequestIntroduction f nm c = Inr c'"
  shows "routing_inv c'"
proof -
  have "c' = DropPeer f c \<or> c' = c \<or> (\<exists>ch h k c1. introduce_on ch nm h (c\<lparr>pairs_used := k\<rparr>) = Inr c1 \<and>
      (c' = c1 \<or> (\<exists>ch' h'. introduce_on ch' f h' c1 = Inr c')))"
    using assms(2) unfolding NC_OnRequestIntroduction_def Let_def
    by (auto split: option.splits if_splits prod.splits sum.splits)
      (metis NodeController.update_convs(18) NodeController.surjective)
  then consider "c' = DropPeer f c" | "c' = c" | ch h k c1 where "introduce_on ch nm h (c\<lparr>pairs_used := k\<rparr>) = Inr c1"
      "c' = c1 \<or> (\<exists>ch' h'. introduce_on ch' f h' c1 = Inr c')" by blast
  then show ?thesis
  proof cases
    case 3
    have "same_routes c (c\<lparr>pairs_used := k\<rparr>)" by (simp add: same_routes_def)
    then have "same_routes c c1" using introduce_on_routes [OF 3(1)] same_routes_trans by blast
    then have "same_routes c c'" using 3(2) introduce_on_routes same_routes_trans by blast
    then show ?thesis using same_routes_inv assms(1) by blast
  qed (use assms(1) DropPeer_inv in auto)
qed

lemma run_callback_routes: "same_routes c c' \<Longrightarrow> same_routes c (run_callback r c')"
  by (simp add: same_routes_def run_callback_def)

lemma NC_OnRequestPortConnection_routes:
  assumes "NC_OnRequestPortConnection f p t c = Inr c'"
  shows "same_routes c c'"
proof -
  let ?c = "c\<lparr>reserved_ports := um_erase t (reserved_ports c)\<rparr>"
  have r: "same_routes c ?c" by (simp add: same_routes_def)
  have "c' = c \<or> c' = ?c \<or> (\<exists>cb ch g n. c' = run_callback cb (modify_channel ch g (run_delegate n ?c)) \<and>
      (\<forall>x. remote_node_name (g x) = remote_node_name x))"
    using assms unfolding NC_OnRequestPortConnection_def Let_def
    by (auto split: option.splits prod.splits if_splits) (metis remote_name_kept(5))
  then consider "c' = c" | "c' = ?c" | cb ch g n where "c' = run_callback cb (modify_channel ch g (run_delegate n ?c))"
    "\<And>x. remote_node_name (g x) = remote_node_name x" by blast
  then show ?thesis
  proof cases
    case 3
    have "same_routes c (run_delegate n ?c)" using same_routes_trans [OF r same_routes_delegate] .
    then have "same_routes c (modify_channel ch g (run_delegate n ?c))"
      using same_routes_channel [of g] 3(2) same_routes_trans by blast
    then show ?thesis unfolding 3(1) by (rule run_callback_routes)
  qed (use r in auto)
qed

lemma NC_OnConnectToPort_routes:
  assumes "NC_OnConnectToPort f p q c = Inr c'"
  shows "same_routes c c'"
proof -
  have "c' = c \<or> (\<exists>cb n k. c' = (run_callback cb (run_delegate n c))\<lparr>pending_port_connections := k\<rparr>)"
    using assms unfolding NC_OnConnectToPort_def Let_def
    by (auto split: option.splits prod.splits if_splits node_rv.splits)
  then show ?thesis
  proof
    assume "\<exists>cb n k. c' = (run_callback cb (run_delegate n c))\<lparr>pending_port_connections := k\<rparr>"
    then obtain cb n k where "c' = (run_callback cb (run_delegate n c))\<lparr>pending_port_connections := k\<rparr>" by blast
    moreover have "same_routes c (run_callback cb (run_delegate n c))"
      using run_callback_routes [OF same_routes_delegate] .
    ultimately show ?thesis by (simp add: same_routes_def)
  qed simp
qed

text \<open>
  C18: Whatever messages other nodes send, the controller's routing stays consistent: no channel serves
  two purposes, every channel exists, each peer's channel (and each pending child's) believes to be
  talking to the node under whose name it is filed, so that messages are attributed and errors drop the
  right peer, names of peers are unique, and no messages are held back for a peer that is connected.
\<close>

theorem controller_routing_inv:
  assumes "routing_inv c" "controller_step fuel call c = Some (Inr c')"
  shows "routing_inv c'"
proof (cases call)
  case (OnPortsMessage m)
  then obtain n c1 where n: "AcceptIncomingMessages fuel (run_delegate n c) = Some (Inr c1)"
    "c' = AttemptShutdownIfRequested c1"
    using assms(2) by (auto simp: NC_OnPortsMessage_def split: sum.splits option.splits)
  have "same_routes c c'"
    unfolding n(2) using same_routes_trans [OF same_routes_trans [OF same_routes_delegate AcceptIncoming_routes [OF n(1)]]
      same_routes_shutdown] .
  then show ?thesis using same_routes_inv assms(1) by blast
next
  case (OnRequestPortConnection f p t)
  then have "NC_OnRequestPortConnection f p t c = Inr c'" using assms(2) by simp
  then show ?thesis by (rule same_routes_inv [OF assms(1) NC_OnRequestPortConnection_routes])
next
  case (OnConnectToPort f p q)
  then have "NC_OnConnectToPort f p q c = Inr c'" using assms(2) by simp
  then show ?thesis by (rule same_routes_inv [OF assms(1) NC_OnConnectToPort_routes])
qed (use assms NC_OnAcceptChild_inv NC_OnAcceptParent_inv NC_OnIntroduce_inv NC_OnRequestIntroduction_inv DropPeer_inv
     in \<open>auto simp: NC_OnChannelError_def\<close>)

definition example_controller :: "NodeController" where
  "example_controller = ConnectToChildOnIOThread (NodeController_init (Name 1 1) example_names (\<lambda>i. Name (of_nat i) 3) (\<lambda>_. (0, 1)))"

lemma example_controller_inv: "routing_inv example_controller"
  by (simp add: example_controller_def ConnectToChildOnIOThread_def NodeController_init_def new_channel_def
      modify_channel_def um_insert_def routing_inv_def used_channels_def AcceptChild_def WriteChannelMessage_def
      SetRemoteNodeName_def NodeChannel_Create_def Let_def)

theorem controller_routing_inv_witness:
  "routing_inv (NC_OnAcceptParent (Name 0 3) (Name 0 3) (Name 2 2) example_controller)"
  using controller_routing_inv [OF example_controller_inv, of 0 "OnAcceptParent (Name 0 3) (Name 0 3) (Name 2 2)"] by simp

section \<open>Delivery to peers\<close>

lemma fold_PortsMessage_written:
  "channel_open n \<Longrightarrow> nc_written (fold (\<lambda>m. PortsMessage_write (TakeChannelMessage m)) ms n) =
     nc_written n @ map TakeChannelMessage ms \<and> channel_open (fold (\<lambda>m. PortsMessage_write (TakeChannelMessage m)) ms n)"
  by (induction ms arbitrary: n) (auto simp: PortsMessage_write_def WriteChannelMessage_def)

lemma SendPeerMessage_unknown:
  assumes "map_of (peers c) nm = None"
  shows "map_of (peers (SendPeerMessage nm m c)) nm = None"
    "pending_for nm (SendPeerMessage nm m c) = pending_for nm c @ [m]"
  using assms
  by (auto simp: SendPeerMessage_def GetPeerChannel_def GetParentChannel_def modify_channel_def pending_for_def Let_def
      split: option.splits)

lemma SendPeerMessages_unknown:
  "map_of (peers c) nm = None \<Longrightarrow> map_of (peers (fold (SendPeerMessage nm) ms c)) nm = None \<and>
     pending_for nm (fold (SendPeerMessage nm) ms c) = pending_for nm c @ ms"
  by (induction ms arbitrary: c) (auto simp: SendPeerMessage_unknown)

lemma SendPeerMessages_known:
  "map_of (peers c) nm = Some ch \<Longrightarrow> channel_open (channels c ch) \<Longrightarrow>
     nc_written (channels (fold (SendPeerMessage nm) ms c) ch) = nc_written (channels c ch) @ map TakeChannelMessage ms"
proof (induction ms arbitrary: c)
  case (Cons m ms)
  have "map_of (peers (SendPeerMessage nm m c)) nm = Some ch" "channel_open (channels (SendPeerMessage nm m c) ch)"
    "nc_written (channels (SendPeerMessage nm m c) ch) = nc_written (channels c ch) @ [TakeChannelMessage m]"
    using Cons.prems by (simp_all add: SendPeerMessage_def GetPeerChannel_def modify_channel_def PortsMessage_write_def
        WriteChannelMessage_def)
  then show ?case using Cons.IH by simp
qed simp

text \<open>
  Messages for a node that is not connected yet wait and lose nothing: whatever was sent to it before
  it becomes a peer, over a channel that is open, is written to its channel first, in the order it was
  sent, followed by what is sent afterwards.
\<close>

theorem peer_messages_in_order:
  fixes c :: "NodeController" and before :: "Message list"
  assumes "map_of (peers c) nm = None" "pending_for nm c = []"
  defines "c1 \<equiv> fold (SendPeerMessage nm) before c"
  assumes "channel_open (channels c1 ch)"
  shows "nc_written (channels (fold (SendPeerMessage nm) after (AddPeer nm ch c1)) ch) =
    nc_written (channels c1 ch) @ map TakeChannelMessage (before @ after)"
proof -
  have p: "map_of (peers c1) nm = None" "pending_for nm c1 = before"
    using SendPeerMessages_unknown [OF assms(1), of before] assms(2) by (simp_all add: c1_def)
  have "map_of (peers (AddPeer nm ch c1)) nm = Some ch"
    using p(1) by (simp add: AddPeer_def modify_channel_def Let_def)
  moreover have "channel_open (channels (AddPeer nm ch c1) ch)"
    "nc_written (channels (AddPeer nm ch c1) ch) = nc_written (channels c1 ch) @ map TakeChannelMessage before"
    using p assms(4) fold_PortsMessage_written [of "SetRemoteNodeName nm (channels c1 ch)" before]
    by (simp_all add: AddPeer_def modify_channel_def pending_for_def SetRemoteNodeName_def Let_def)
  ultimately show ?thesis by (simp add: SendPeerMessages_known)
qed

theorem peer_messages_in_order_witness:
  "nc_written (channels (fold (SendPeerMessage (Name 5 5)) [plain_message 3] (AddPeer (Name 5 5) 7
      (fold (SendPeerMessage (Name 5 5)) [plain_message 1, plain_message 2] example_controller))) 7) =
     map TakeChannelMessage [plain_message 1, plain_message 2, plain_message 3]"
proof -
  let ?c = "fold (SendPeerMessage (Name 5 5)) [plain_message 1, plain_message 2] example_controller"
  have e: "peers example_controller = []" "pending_peer_messages example_controller = []"
    "channels example_controller 7 = NodeChannel_Create" "parent_name example_controller = kInvalidNodeName"
    by (simp_all add: example_controller_def ConnectToChildOnIOThread_def NodeController_init_def new_channel_def
        modify_channel_def Let_def)
  then have "channels ?c 7 = NodeChannel_Create"
    by (simp add: SendPeerMessage_def GetPeerChannel_def GetParentChannel_def pending_for_def Let_def)
  then show ?thesis
    using peer_messages_in_order [of example_controller "Name 5 5" "[plain_message 1, plain_message 2]" 7 "[plain_message 3]"] e
    by (simp add: pending_for_def NodeChannel_Create_def)
qed

text \<open>
  A node never asks for an introduction to a peer it addressed before it had a parent: the first
  message is queued without a request, and because the queue is then not empty no later message makes
  one either, even once the parent is there, so the messages stay queued.
\<close>

theorem missed_introduction:
  fixes m1 :: Message
  assumes "map_of (peers c) nm = None" "pending_for nm c = []" "GetParentChannel c = None"
  defines "c1 \<equiv> SendPeerMessage nm m1 c"
  shows "channels c1 = channels c \<and>
    (\<forall>c2 m2. map_of (peers c2) nm = None \<and> pending_for nm c2 = pending_for nm c1 \<longrightarrow>
       channels (SendPeerMessage nm m2 c2) = channels c2 \<and> pending_for nm (SendPeerMessage nm m2 c2) = [m1, m2])"
  using assms
  by (auto simp: SendPeerMessage_def GetPeerChannel_def GetParentChannel_def pending_for_def Let_def split: option.splits)

theorem missed_introduction_witness:
  "channels (SendPeerMessage (Name 5 5) (plain_message 1) example_controller) = channels example_controller"
proof -
  have e: "peers example_controller = []" "pending_peer_messages example_controller = []"
    by (simp_all add: example_controller_def ConnectToChildOnIOThread_def NodeController_init_def new_channel_def
        modify_channel_def Let_def)
  then show ?thesis
    using missed_introduction [of example_controller "Name 5 5" "plain_message 1"]
    by (auto simp: pending_for_def GetParentChannel_def GetPeerChannel_def)
qed

section \<open>From controller to controller\<close>

text \<open>
  C12: A message that a controller sends to a connected peer reaches the peer's node unchanged: the bytes
  written to the channel, decoded by the peer's node channel and parsed by its controller, make the
  peer's node accept exactly that message, its ports, payload and platform handles included.
\<close>

theorem peer_message_delivery:
  fixes a b :: "NodeController"
  assumes "wire_ok m" "map_of (peers a) nm = Some ch" "channel_open (channels a ch)" "length (msg_handles m) < 2 ^ 16"
  shows "\<exists>w m'. nc_written (channels (SendPeerMessage nm m a) ch) = nc_written (channels a ch) @ [w] \<and>
    deliver src w = Inr (OnPortsMessage m') \<and>
    NC_OnPortsMessage fuel m' b =
      (case AcceptMessage m (nc_node b) of
         Inl f \<Rightarrow> Some (Inl f)
       | Inr (_, n) \<Rightarrow>
           (case AcceptIncomingMessages fuel (run_delegate n b) of
              Some (Inr c') \<Rightarrow> Some (Inr (AttemptShutdownIfRequested c'))
            | r \<Rightarrow> r))"
proof -
  let ?w = "TakeChannelMessage m" and ?hs = "if msg_handles m = [] then None else Some (msg_handles m)"
  have n: "(of_nat (length (msg_handles m)) :: uint16_t) = 0 \<longleftrightarrow> msg_handles m = []"
    "unat (of_nat (length (msg_handles m)) :: uint16_t) = length (msg_handles m)"
    using assms(4) by (simp_all add: unat_of_nat flip: unat_eq_zero)
  then have sh: "SetHandles ?hs (CreatePortsMessage (write_Message m) (case ?hs of Some xs \<Rightarrow> length xs | None \<Rightarrow> 0)) = Inr ?w"
    by (simp add: SetHandles_def TakeChannelMessage_def CreatePortsMessage_def CreateMessage_def ChannelMessage_new_def)
  then obtain m' where m': "deliver src ?w = Inr (OnPortsMessage m')" "GetPortsMessageData m' = write_Message m"
    "(case handle_vector m' of Some xs \<Rightarrow> xs | None \<Rightarrow> []) = msg_handles m"
    using ports_message_deliver [OF sh, of src] assms(4) by (auto split: if_splits)
  have h: "(case handle_vector m' of None \<Rightarrow> [] | Some hs \<Rightarrow> hs) = msg_handles m" using m'(3) by (cases "handle_vector m'") auto
  have "nc_written (channels (SendPeerMessage nm m a) ch) = nc_written (channels a ch) @ [?w]"
    using assms(2,3) by (simp add: SendPeerMessage_def GetPeerChannel_def modify_channel_def PortsMessage_write_def
        WriteChannelMessage_def)
  then show ?thesis using m'(1,2) read_write_Message [OF assms(1)]
    by (intro exI [of _ ?w] exI [of _ m']) (simp add: NC_OnPortsMessage_def h)
qed

theorem peer_message_delivery_witness:
  "\<exists>w m'. deliver (Name 1 1) w = Inr (OnPortsMessage m') \<and>
     NC_OnPortsMessage 0 m' example_controller =
      (case AcceptMessage (NewInternalMessage (Name 4 4) (ObserveClosure 9)) (nc_node example_controller) of
         Inl f \<Rightarrow> Some (Inl f)
       | Inr (_, n) \<Rightarrow>
           (case AcceptIncomingMessages 0 (run_delegate n example_controller) of
              Some (Inr c') \<Rightarrow> Some (Inr (AttemptShutdownIfRequested c'))
            | r \<Rightarrow> r))"
proof -
  let ?m = "NewInternalMessage (Name 4 4) (ObserveClosure 9)"
  let ?a = "AddPeer (Name 5 5) 7 example_controller"
  have m: "wire_ok ?m"
    by (simp add: wire_ok_def is_user_def NewInternalMessage_def write_Message_def write_EventHeader_def write_EventData_def
        write_array_def layout_simps)
  have a: "map_of (peers ?a) (Name 5 5) = Some 7" "channel_open (channels ?a 7)"
    by (simp_all add: example_controller_def ConnectToChildOnIOThread_def NodeController_init_def new_channel_def
        modify_channel_def AddPeer_def pending_for_def SetRemoteNodeName_def NodeChannel_Create_def Let_def)
  show ?thesis using peer_message_delivery [OF m a _, of "Name 1 1" 0 example_controller] by (simp add: NewInternalMessage_def) blast
qed

section \<open>Closing a local peer\<close>

lemma run_delegate_node [simp]: "nc_node (run_delegate n c) = n\<lparr>delegate_calls := []\<rparr>"
proof -
  have "nc_node (delegate_step x c) = nc_node c" for x and c :: "NodeController"
    by (cases x) (auto simp: NC_ForwardMessage_def SendPeerMessage_def NC_PortStatusChanged_def run_callback_def
        modify_channel_def Let_def split: option.splits prod.splits)
  then have "nc_node (fold delegate_step xs c) = nc_node c" for xs and c :: "NodeController"
    by (induction xs arbitrary: c) auto
  then show ?thesis by (simp add: run_delegate_def set_node_def)
qed

lemma AttemptShutdown_node [simp]: "nc_node (AttemptShutdownIfRequested c) = nc_node c"
  by (simp add: AttemptShutdownIfRequested_def run_callback_def split: option.splits)

lemma run_delegate_one:
  "delegate_calls n = [ForwardMessage (nc_name c) m] \<Longrightarrow>
     run_delegate n c = c\<lparr>nc_node := n\<lparr>delegate_calls := []\<rparr>, incoming_messages := incoming_messages c @ [m]\<rparr>"
  "delegate_calls n = [ForwardMessage (nc_name c) m, PortStatusChanged r] \<Longrightarrow>
     incoming_messages (run_delegate n c) = incoming_messages c @ [m] \<and> nc_name (run_delegate n c) = nc_name c"
  "delegate_calls n = [] \<Longrightarrow> run_delegate n c = c\<lparr>nc_node := n\<rparr>"
  by (auto simp: run_delegate_def set_node_def NC_ForwardMessage_def NC_PortStatusChanged_def run_callback_def
      split: prod.splits option.splits)

text \<open>
  C30: Closing one port of a local pair tells the other end: the controller's pump delivers the notice
  (and the peer's answer, for a port that is gone) and comes to rest within two rounds; afterwards the
  closed port is out of the table and its peer knows that it is closed and which message was the last.
\<close>

theorem close_notifies_local_peer:
  assumes "linked r0 r1 (nc_node c) ws"
    and "map_of (ports (nc_node c)) (ref_name r0) = Some (ref_port r0)" "ref_name r0 \<noteq> ref_name r1"
    and "peer_node_name (port_at (nc_node c) (ref_port r1)) = nc_name c"
    and "peer_port_name (port_at (nc_node c) (ref_port r1)) = ref_name r0"
    and "GetReferencedPorts (message_queue (port_at (nc_node c) (ref_port r0))) = []"
    and "node_name (nc_node c) = nc_name c" "incoming_messages c = []" "delegate_calls (nc_node c) = []"
  shows "\<exists>c'. NC_ClosePort 2 r0 c = Some (Inr c') \<and> map_of (ports (nc_node c')) (ref_name r0) = None \<and>
    peer_closed (port_at (nc_node c') (ref_port r1)) \<and>
    last_sequence_num_to_receive (port_at (nc_node c') (ref_port r1)) =
      next_sequence_num_to_send (port_at (nc_node c) (ref_port r0)) - 1"
proof -
  let ?n = "nc_node c" and ?a = "ref_port r0" and ?b = "ref_port r1"
  let ?s = "next_sequence_num_to_send (port_at ?n ?a) - 1"
  let ?m1 = "NewInternalMessage (ref_name r1) (ObserveClosure ?s)"
  define n1 where "n1 = snd (SetUserData r0 None ?n)"
  define n2 where "n2 = snd (ClosePort r0 n1)"
  have l: "?a \<noteq> ?b" "state (port_at ?n ?a) = kReceiving" "state (port_at ?n ?b) = kReceiving"
    "peer_node_name (port_at ?n ?a) = nc_name c" "peer_port_name (port_at ?n ?a) = ref_name r1"
    "map_of (ports ?n) (ref_name r1) = Some ?b"
    using assms(1,7) by (auto simp: linked_def Let_def)
  have n2: "delegate_calls n2 = [ForwardMessage (nc_name c) ?m1]" "ports n2 = um_erase (ref_name r0) (ports ?n)"
    "port_at n2 ?b = port_at ?n ?b" "node_name n2 = nc_name c"
    using l assms(6,7,9) by (simp_all add: n2_def n1_def SetUserData_def ClosePort_def ClosePort_step_def Let_def)
  define c2 where "c2 = run_delegate n2 (set_node n1 c)"
  have c2: "c2 = c\<lparr>nc_node := n2\<lparr>delegate_calls := []\<rparr>, incoming_messages := [?m1]\<rparr>"
    using run_delegate_one(1) [of n2 "set_node n1 c" ?m1] n2(1) assms(8) by (simp add: c2_def set_node_def)
  let ?n2 = "n2\<lparr>delegate_calls := []\<rparr>"
  define n3 where "n3 = snd (OnObserveClosure (ref_name r1) ?s ?n2)"
  let ?m2 = "NewInternalMessage (ref_name r0) (ObserveClosure (next_sequence_num_to_send (port_at ?n ?b) - 1))"
  have n3: "OnObserveClosure (ref_name r1) ?s ?n2 = (OK, n3)" "ports n3 = ports n2"
    "port_at n3 ?b = (port_at ?n ?b)\<lparr>peer_closed := True, last_sequence_num_to_receive := ?s\<rparr>"
    "delegate_calls n3 = [ForwardMessage (nc_name c) ?m2, PortStatusChanged \<lparr>ref_name = ref_name r1, ref_port = ?b\<rparr>]"
    using l assms(3-5) n2 by (auto simp: n3_def OnObserveClosure_def GetPort_Locked_def Let_def)
  let ?c3 = "run_delegate n3 (c2\<lparr>incoming_messages := []\<rparr>)"
  have c3: "incoming_messages ?c3 = [?m2]" "nc_node ?c3 = n3\<lparr>delegate_calls := []\<rparr>"
    using run_delegate_one(2) [of n3 "c2\<lparr>incoming_messages := []\<rparr>" ?m2] n3(4) by (simp_all add: c2)
  have b1: "accept_batch [?m1] (c2\<lparr>incoming_messages := []\<rparr>) = Inr ?c3"
    using n3(1) by (simp add: c2 AcceptMessage_def)
  let ?n3 = "n3\<lparr>delegate_calls := []\<rparr>"
  let ?c4 = "?c3\<lparr>incoming_messages := [], nc_node := ?n3\<rparr>"
  have "map_of (ports n3) (ref_name r0) = None" using n3(2) n2(2) by simp
  then have "OnObserveClosure (ref_name r0) k ?n3 = (OK, ?n3)" for k
    by (simp add: OnObserveClosure_def GetPort_Locked_def)
  then have b2: "accept_batch [?m2] (?c3\<lparr>incoming_messages := []\<rparr>) = Inr ?c4"
    using run_delegate_one(3) [of ?n3] c3(2) by (simp add: AcceptMessage_def)
  have p0: "pump 0 ?c4 = Some (Inr ?c4)" by (subst pump.simps) simp
  have p1: "pump (Suc 0) ?c3 = Some (Inr ?c4)" by (subst pump.simps) (simp add: c3(1) b2 p0 del: accept_batch.simps)
  have "incoming_messages c2 = [?m1]" by (simp add: c2)
  then have "pump 2 c2 = Some (Inr ?c4)"
    by (subst pump.simps) (simp add: b1 p1 numeral_2_eq_2 del: accept_batch.simps)
  then have "NC_ClosePort 2 r0 c = Some (Inr (AttemptShutdownIfRequested ?c4))"
    by (simp add: NC_ClosePort_def SetPortObserver_def AcceptIncomingMessages_def Let_def c2_def n2_def n1_def set_node_def)
  then show ?thesis using n3(2,3) n2(2) by (intro exI [of _ "AttemptShutdownIfRequested ?c4"]) simp
qed

theorem close_notifies_local_peer_witness:
  "case example_pair of (r0, r1, n) \<Rightarrow>
     \<exists>c'. NC_ClosePort 2 r0 (set_node (n\<lparr>delegate_calls := []\<rparr>) example_controller) = Some (Inr c') \<and>
       map_of (ports (nc_node c')) (ref_name r0) = None \<and> peer_closed (port_at (nc_node c') (ref_port r1))"
proof -
  obtain r0 r1 n where e: "example_pair = (r0, r1, n)" using prod_cases3 by blast
  have inv: "node_inv example_node" unfolding example_node_def by (rule node_inv_init)
  have cp: "CreatePortPair example_node = Inr (OK, r0, r1, n)" using example_pair_eval(1) e by simp
  note new = CreatePortPair_new [OF inv cp]
  have nm: "nc_name example_controller = Name 1 1" "incoming_messages example_controller = []" "node_name n = Name 1 1"
    using new by (simp_all add: example_controller_def ConnectToChildOnIOThread_def NodeController_init_def
        new_channel_def modify_channel_def example_node_def Node_init_def Let_def)
  have "linked r0 r1 (n\<lparr>delegate_calls := []\<rparr>) []"
    using CreatePortPair_linked(1) [OF inv cp] by (simp add: linked_def Let_def)
  then show ?thesis
    using close_notifies_local_peer [of r0 r1 "set_node (n\<lparr>delegate_calls := []\<rparr>) example_controller" "[]"] new nm
    unfolding e prod.case by (auto simp: set_node_def Port_init_def MessageQueue_init_def GetReferencedPorts_def example_node_def Node_init_def)
qed

end
