(* ===== verification/Data_Pipe_Queue.thy ===== *)
theory Data_Pipe_Queue
  imports Data_Pipe_Ring Local_Pair Controller_Props
begin

text \<open>
  A data pipe whose two ends live on one node carries bytes first in, first out: the producer, the
  consumer, the ring in shared memory and the two streams of control messages refine a bounded byte
  queue whose fill level each side learns with a delay.
\<close>

section \<open>The control ports of a pipe on one node\<close>

lemma read_DataPipeControlMessage [simp]:
  "length (DataPipeControlMessage cmd k) = 8"
  "read_u32 (DataPipeControlMessage cmd k) = command_code cmd"
  "read_u32 (drop 4 (DataPipeControlMessage cmd k)) = k"
  using u32.dec_enc [of k "[]"] u32.dec_skip [of "write_u32 (command_code cmd)" 4 k "[]"]
  by (simp_all add: DataPipeControlMessage_def u32.enc_length u32.dec_enc)

lemma unat_add_le:
  fixes a b c :: "'a::len word"
  assumes "unat a + unat b \<le> unat c"
  shows "unat (a + b) = unat a + unat b"
  using order.strict_trans1 [OF assms unsigned_less] by (simp add: unat_word_ariths)

lemma control_loop_local:
  assumes "linked r0 r1 n (map (DataPipeControlMessage cmd) ns)" "read_so_far r1 n + length ns < 2 ^ 64"
    and "unat amount + sum_list (map unat ns) \<le> unat cap"
  shows "\<exists>n' amount'. control_loop cmd x cap r1 closed amount n = Inr (closed, amount', n') \<and>
    unat amount' = unat amount + sum_list (map unat ns) \<and> linked r0 r1 n' [] \<and>
    read_so_far r1 n' = read_so_far r1 n + length ns \<and>
    (\<forall>vs. linked r1 r0 n vs \<longrightarrow> linked r1 r0 n' vs) \<and> read_so_far r0 n' = read_so_far r0 n \<and>
    delegate_calls n' = delegate_calls n"
  using assms
proof (induction ns arbitrary: n amount)
  case Nil
  then obtain n' where "GetMessage r1 n = Inr (OK, None, n')" "linked r0 r1 n' []" "read_so_far r1 n' = read_so_far r1 n"
    "\<forall>vs. linked r1 r0 n vs \<longrightarrow> linked r1 r0 n' vs" "read_so_far r0 n' = read_so_far r0 n"
    "delegate_calls n' = delegate_calls n"
    using GetMessage_local_empty [of r0 r1 n] by auto
  then show ?case by (subst control_loop.simps) (simp add: GetMessage_def)
next
  case (Cons k ns)
  then obtain n1 m where n1: "GetMessage r1 n = Inr (OK, Some m, n1)" "msg_payload m = DataPipeControlMessage cmd k"
    "linked r0 r1 n1 (map (DataPipeControlMessage cmd) ns)" "read_so_far r1 n1 = Suc (read_so_far r1 n)"
    "\<forall>vs. linked r1 r0 n vs \<longrightarrow> linked r1 r0 n1 vs" "read_so_far r0 n1 = read_so_far r0 n"
    "delegate_calls n1 = delegate_calls n"
    using GetMessage_local [of r0 r1 n "DataPipeControlMessage cmd k" "map (DataPipeControlMessage cmd) ns"] by auto
  have sum: "unat (amount + k) = unat amount + unat k" using Cons.prems(3) by (intro unat_add_le [of _ _ cap]) simp
  have eq: "control_loop cmd x cap r1 closed amount n = control_loop cmd x cap r1 closed (amount + k) n1"
    using Cons.prems(3) n1(1,2) by (subst control_loop.simps) (simp add: GetMessage_def)
  show ?case using Cons.IH [OF n1(3), of "amount + k"] Cons.prems n1(4-7) sum unfolding eq by (auto simp: add.assoc)
qed

lemma read_control_port_local:
  assumes "linked r0 r1 n (map (DataPipeControlMessage cmd) ns)" "read_so_far r1 n + length ns < 2 ^ 64"
    and "unat amount + sum_list (map unat ns) \<le> unat cap"
  shows "\<exists>n' amount'. read_control_port cmd x stale cap r1 False False amount n = Inr (False, amount', n') \<and>
    unat amount' = unat amount + sum_list (map unat ns) \<and> linked r0 r1 n' [] \<and>
    read_so_far r1 n' = read_so_far r1 n + length ns \<and>
    (\<forall>vs. linked r1 r0 n vs \<longrightarrow> linked r1 r0 n' vs) \<and> read_so_far r0 n' = read_so_far r0 n \<and>
    delegate_calls n' = delegate_calls n"
proof -
  have st: "GetStatus r1 n = (OK, Some \<lparr>has_messages = (ns \<noteq> []), receiving_messages = True, status_peer_closed = False\<rparr>)"
    using assms(1) linked_HasNextMessage [OF assms(1)] assms(2)
    by (simp add: GetStatus_def linked_def Let_def CanAcceptMoreMessages_def)
  show ?thesis
  proof (cases ns)
    case Nil
    then show ?thesis using assms(1) by (simp add: read_control_port_def st)
  next
    case (Cons k ks)
    then have "read_control_port cmd x stale cap r1 False False amount n = control_loop cmd x cap r1 False amount n"
      by (simp add: read_control_port_def st)
    then show ?thesis using control_loop_local [OF assms, of x False] by simp
  qed
qed

lemma run_delegate_status:
  fixes c :: "NodeController"
  assumes "set (delegate_calls n) \<subseteq> range PortStatusChanged"
  shows "incoming_messages (run_delegate n c) = incoming_messages c"
proof -
  have "set xs \<subseteq> range PortStatusChanged \<Longrightarrow> incoming_messages (fold delegate_step xs c) = incoming_messages c"
    for xs and c :: "NodeController"
    by (induction xs arbitrary: c) (auto simp: NC_PortStatusChanged_def run_callback_def split: prod.splits option.splits)
  then show ?thesis using assms by (simp add: run_delegate_def set_node_def)
qed

lemma linked_delegate [simp]: "linked r0 r1 (n\<lparr>delegate_calls := ds\<rparr>) ws = linked r0 r1 n ws"
  by (simp add: linked_def Let_def)

lemma read_so_far_delegate [simp]: "read_so_far r (n\<lparr>delegate_calls := ds\<rparr>) = read_so_far r n"
  by (simp add: read_so_far_def)

lemma AttemptShutdown_incoming [simp]: "incoming_messages (AttemptShutdownIfRequested c) = incoming_messages c"
  by (simp add: AttemptShutdownIfRequested_def run_callback_def split: option.splits)

text \<open>Nothing is left to do on a controller.\<close>

definition quiet :: "NodeController \<Rightarrow> bool" where
  "quiet c \<longleftrightarrow> incoming_messages c = [] \<and> delegate_calls (nc_node c) = []"

lemma SendDataPipeControlMessage_local:
  assumes "linked r0 r1 (nc_node (pe_controller e)) ws" "quiet (pe_controller e)"
  shows "\<exists>c. SendDataPipeControlMessage fuel r0 cmd k e = Some (Inr (e\<lparr>pe_controller := c\<rparr>)) \<and> quiet c \<and>
    linked r0 r1 (nc_node c) (ws @ [DataPipeControlMessage cmd k]) \<and>
    (\<forall>vs. linked r1 r0 (nc_node (pe_controller e)) vs \<longrightarrow> linked r1 r0 (nc_node c) vs) \<and>
    read_so_far r1 (nc_node c) = read_so_far r1 (nc_node (pe_controller e)) \<and>
    read_so_far r0 (nc_node c) = read_so_far r0 (nc_node (pe_controller e))"
proof -
  let ?c = "pe_controller e" and ?w = "DataPipeControlMessage cmd k"
  obtain n where n: "SendMessage r0 (NewUserMessage [] ?w) (nc_node ?c) = Inr (OK, None, n)" "linked r0 r1 n (ws @ [?w])"
    "\<forall>vs. linked r1 r0 (nc_node ?c) vs \<longrightarrow> linked r1 r0 n vs" "read_so_far r1 n = read_so_far r1 (nc_node ?c)"
    "read_so_far r0 n = read_so_far r0 (nc_node ?c)" "set (delegate_calls n) \<subseteq> range PortStatusChanged"
    using SendMessage_local [OF assms(1), of ?w] assms(2) by (auto simp: quiet_def)
  have inc: "incoming_messages (run_delegate n ?c) = []" using run_delegate_status [OF n(6), of ?c] assms(2) by (simp add: quiet_def)
  let ?c1 = "AttemptShutdownIfRequested (run_delegate n ?c)"
  have "SendDataPipeControlMessage fuel r0 cmd k e = Some (Inr (e\<lparr>pe_controller := ?c1\<rparr>))"
    using n(1) inc
    by (simp add: SendDataPipeControlMessage_def NC_SendMessage_def AcceptIncomingMessages_def pump.simps)
  then show ?thesis using n inc by (intro exI [of _ ?c1]) (simp add: quiet_def)
qed

section \<open>The bounded byte queue\<close>

text \<open>
  The abstract pipe: the bytes that were written and not yet read, how many of them the consumer knows
  of, and how much room the producer knows of.
\<close>

record pipe_spec =
  sp_bytes :: "uint8_t list"
  sp_visible :: nat
  sp_free :: nat

datatype pipe_op = Write_op "uint8_t list" "write_flag set" | Read_op uint32_t "read_flag set"
  | ProducerNotified | ConsumerNotified

type_synonym pipe_out = "MojoResult \<times> nat \<times> uint8_t list"

fun spec_step :: "nat \<Rightarrow> nat \<Rightarrow> pipe_op \<Rightarrow> pipe_spec \<Rightarrow> pipe_out \<times> pipe_spec" where
  "spec_step cap el (Write_op bs flags) S =
     (let n = min (length bs) (sp_free S)
      in if length bs mod el \<noteq> 0 then ((MOJO_RESULT_INVALID_ARGUMENT, length bs, []), S)
         else if bs = [] then ((MOJO_RESULT_OK, 0, []), S)
         else if MOJO_WRITE_DATA_FLAG_ALL_OR_NONE \<in> flags \<and> length bs > cap
         then ((MOJO_RESULT_OUT_OF_RANGE, length bs, []), S)
         else if n = 0 then ((MOJO_RESULT_SHOULD_WAIT, length bs, []), S)
         else ((MOJO_RESULT_OK, n, []), S\<lparr>sp_bytes := sp_bytes S @ take n bs, sp_free := sp_free S - n\<rparr>))"
| "spec_step cap el (Read_op k flags) S =
     (let n = min (unat k) (sp_visible S);
          discard = (MOJO_READ_DATA_FLAG_DISCARD \<in> flags); peek = (MOJO_READ_DATA_FLAG_PEEK \<in> flags)
      in if MOJO_READ_DATA_FLAG_QUERY \<in> flags
         then (if peek \<or> discard then ((MOJO_RESULT_INVALID_ARGUMENT, unat k, []), S)
               else ((MOJO_RESULT_OK, sp_visible S, []), S))
         else if discard \<and> peek \<or> unat k mod el \<noteq> 0 then ((MOJO_RESULT_INVALID_ARGUMENT, unat k, []), S)
         else if MOJO_READ_DATA_FLAG_ALL_OR_NONE \<in> flags \<and> unat k > sp_visible S
         then ((MOJO_RESULT_OUT_OF_RANGE, unat k, []), S)
         else if n = 0 then ((MOJO_RESULT_SHOULD_WAIT, unat k, []), S)
         else ((MOJO_RESULT_OK, n, if discard then [] else take n (sp_bytes S)),
               if peek then S else S\<lparr>sp_bytes := drop n (sp_bytes S), sp_visible := sp_visible S - n\<rparr>))"
| "spec_step cap el ProducerNotified S = ((MOJO_RESULT_OK, 0, []), S\<lparr>sp_free := cap - length (sp_bytes S)\<rparr>)"
| "spec_step cap el ConsumerNotified S = ((MOJO_RESULT_OK, 0, []), S\<lparr>sp_visible := length (sp_bytes S)\<rparr>)"

fun spec_run :: "nat \<Rightarrow> nat \<Rightarrow> pipe_op list \<Rightarrow> pipe_spec \<Rightarrow> pipe_out list \<times> pipe_spec" where
  "spec_run cap el [] S = ([], S)"
| "spec_run cap el (x # xs) S =
     (let (out, S1) = spec_step cap el x S; (outs, S2) = spec_run cap el xs S1 in (out # outs, S2))"

text \<open>The same operations on the dispatchers.\<close>

fun pipe_step ::
  "nat \<Rightarrow> signals_ops \<Rightarrow> bool \<Rightarrow> pipe_op \<Rightarrow> Producer \<times> Consumer \<times> PipeEnv \<Rightarrow>
     (pipe_out \<times> Producer \<times> Consumer \<times> PipeEnv) outcome" where
  "pipe_step fuel hs stale (Write_op bs flags) (p, k, e) =
     and_then (WriteData fuel hs (Some bs) (of_nat (length bs)) flags p e)
       (\<lambda>(rv, n, p', e'). Some (Inr ((rv, unat n, []), p', k, e')))"
| "pipe_step fuel hs stale (Read_op n flags) (p, k, e) =
     and_then (ReadData fuel True n flags k e)
       (\<lambda>(rv, n', bs, k', e'). Some (Inr ((rv, unat n', bs), p, k', e')))"
| "pipe_step fuel hs stale ProducerNotified (p, k, e) =
     and_then (Some (P_OnPortStatusChanged stale p e)) (\<lambda>(p', e'). Some (Inr ((MOJO_RESULT_OK, 0, []), p', k, e')))"
| "pipe_step fuel hs stale ConsumerNotified (p, k, e) =
     and_then (Some (C_OnPortStatusChanged stale k e)) (\<lambda>(k', e'). Some (Inr ((MOJO_RESULT_OK, 0, []), p, k', e')))"

fun pipe_run ::
  "nat \<Rightarrow> signals_ops \<Rightarrow> bool \<Rightarrow> pipe_op list \<Rightarrow> Producer \<times> Consumer \<times> PipeEnv \<Rightarrow>
     (pipe_out list \<times> Producer \<times> Consumer \<times> PipeEnv) outcome" where
  "pipe_run fuel hs stale [] s = Some (Inr ([], s))"
| "pipe_run fuel hs stale (x # xs) s =
     and_then (pipe_step fuel hs stale x s) (\<lambda>(out, s1).
     and_then (pipe_run fuel hs stale xs s1) (\<lambda>(outs, s2). Some (Inr (out # outs, s2))))"

section \<open>The refinement relation\<close>

definition pipe_open :: "buffer_ref \<Rightarrow> Producer \<Rightarrow> Consumer \<Rightarrow> PipeEnv \<Rightarrow> bool" where
  "pipe_open b p k e \<longleftrightarrow>
     c_options k = p_options p \<and> element_num_bytes (p_options p) \<noteq> 0 \<and> unat (p_capacity p) \<le> 2 ^ 31 \<and> length (pe_memory e b) = unat (p_capacity p) \<and>
     p_shared_ring_buffer p = Some b \<and> p_ring_buffer_mapping p = Some b \<and>
     c_shared_ring_buffer k = Some b \<and> c_ring_buffer_mapping k = Some b \<and>
     \<not> p_in_transit p \<and> \<not> c_in_transit k \<and> \<not> p_peer_closed p \<and> \<not> c_peer_closed k \<and>
     \<not> p_transferred p \<and> \<not> c_transferred k \<and> \<not> p_in_two_phase_write p \<and> \<not> c_in_two_phase_read k \<and>
     quiet (pe_controller e)"

text \<open>Where the bytes are: in the ring, between the offsets.\<close>

definition ring_holds :: "uint8_t list \<Rightarrow> uint32_t \<Rightarrow> uint32_t \<Rightarrow> uint8_t list \<Rightarrow> bool" where
  "ring_holds mem read_offset write_offset bytes \<longleftrightarrow>
     unat read_offset < length mem \<and> length bytes \<le> length mem \<and>
     unat write_offset = (unat read_offset + length bytes) mod length mem \<and>
     bytes = ring_view mem (unat read_offset) (length bytes)"

text \<open>
  The notices under way make up the difference between what there is and what each side knows;
  \<open>N\<close> bounds the sequence numbers used so far.
\<close>

definition pipe_state ::
  "buffer_ref \<Rightarrow> nat \<Rightarrow> Producer \<Rightarrow> Consumer \<Rightarrow> PipeEnv \<Rightarrow> pipe_spec \<Rightarrow> uint32_t list \<Rightarrow> uint32_t list \<Rightarrow> bool" where
  "pipe_state b N p k e S ns ms \<longleftrightarrow>
     (let n = nc_node (pe_controller e); rp = p_control_port p; rk = c_control_port k
      in pipe_open b p k e \<and> ring_holds (pe_memory e b) (c_read_offset k) (p_write_offset p) (sp_bytes S) \<and>
         unat (p_available_capacity p) = sp_free S \<and> unat (c_bytes_available k) = sp_visible S \<and>
         linked rp rk n (map (DataPipeControlMessage DATA_WAS_WRITTEN) ns) \<and>
         linked rk rp n (map (DataPipeControlMessage DATA_WAS_READ) ms) \<and>
         sp_visible S + sum_list (map unat ns) = length (sp_bytes S) \<and>
         sp_free S + sum_list (map unat ms) + length (sp_bytes S) = unat (p_capacity p) \<and>
         read_so_far rk n + length ns \<le> N \<and> read_so_far rp n + length ms \<le> N)"

definition pipe_rel :: "buffer_ref \<Rightarrow> nat \<Rightarrow> Producer \<Rightarrow> Consumer \<Rightarrow> PipeEnv \<Rightarrow> pipe_spec \<Rightarrow> bool" where
  "pipe_rel b N p k e S \<longleftrightarrow> (\<exists>ns ms. pipe_state b N p k e S ns ms)"

lemma pipe_relE:
  assumes "pipe_rel b N p k e S"
  obtains ns ms where "pipe_state b N p k e S ns ms"
  using assms by (auto simp: pipe_rel_def)

lemma pipe_stateD:
  assumes "pipe_state b N p k e S ns ms"
  shows "pipe_open b p k e" "ring_holds (pe_memory e b) (c_read_offset k) (p_write_offset p) (sp_bytes S)"
    "unat (p_available_capacity p) = sp_free S" "unat (c_bytes_available k) = sp_visible S"
    "linked (p_control_port p) (c_control_port k) (nc_node (pe_controller e)) (map (DataPipeControlMessage DATA_WAS_WRITTEN) ns)"
    "linked (c_control_port k) (p_control_port p) (nc_node (pe_controller e)) (map (DataPipeControlMessage DATA_WAS_READ) ms)"
    "sp_visible S + sum_list (map unat ns) = length (sp_bytes S)"
    "sp_free S + sum_list (map unat ms) + length (sp_bytes S) = unat (p_capacity p)"
    "read_so_far (c_control_port k) (nc_node (pe_controller e)) + length ns \<le> N"
    "read_so_far (p_control_port p) (nc_node (pe_controller e)) + length ms \<le> N"
    "length (pe_memory e b) = unat (p_capacity p)" "unat (p_capacity p) \<le> 2 ^ 31" "quiet (pe_controller e)"
  using assms by (auto simp: pipe_state_def pipe_open_def Let_def)

lemma mod_0_unat: "a mod b = 0 \<longleftrightarrow> unat a mod unat b = 0" for a b :: "'a::len word"
  by (metis unat_eq_zero unat_mod_distrib)

lemma unat_add_mod:
  fixes a n cap :: uint32_t
  assumes "unat a < unat cap" "unat n \<le> unat cap" "unat cap \<le> 2 ^ 31"
  shows "unat ((a + n) mod cap) = (unat a + unat n) mod unat cap"
proof -
  have "unat a + unat n < 2 ^ LENGTH(32)" using assms by simp
  then have "unat (a + n) = unat a + unat n" by (simp add: unat_word_ariths)
  then show ?thesis by (simp add: unat_mod_distrib)
qed

lemma ring_holds_write:
  assumes "ring_holds mem ro wo bytes" "length mem = unat cap" "length bytes + unat n \<le> unat cap" "unat n \<le> length src"
    and "unat cap \<le> 2 ^ 31"
  shows "\<exists>mem'. ring_write wo cap src n mem = Inr mem' \<and> length mem' = length mem \<and>
    ring_holds mem' ro ((wo + n) mod cap) (bytes @ take (unat n) src)"
proof -
  have h: "unat ro < unat cap" "unat wo = (unat ro + length bytes) mod unat cap" "bytes = ring_view mem (unat ro) (length bytes)"
    using assms(1,2) by (auto simp: ring_holds_def)
  obtain mem' where m: "ring_write wo cap src n mem = Inr mem'" "length mem' = unat cap"
    "ring_view mem' (unat ro) (length bytes + unat n) = ring_view mem (unat ro) (length bytes) @ take (unat n) src"
    using ring_view_write [OF assms(2) h(2,1) assms(3,4)] by blast
  have "unat wo < unat cap" using h(1,2) by simp
  then have "unat ((wo + n) mod cap) = (unat ro + (length bytes + unat n)) mod unat cap"
    using assms(3,5) h(2) by (simp add: unat_add_mod mod_add_left_eq add.assoc)
  then have "ring_holds mem' ro ((wo + n) mod cap) (bytes @ take (unat n) src)"
    using m(2,3) h assms(3,4) by (simp add: ring_holds_def)
  then show ?thesis using m assms(2) by auto
qed

lemma ring_holds_read:
  assumes "ring_holds mem ro wo bytes" "length mem = unat cap" "unat n \<le> length bytes" "unat cap \<le> 2 ^ 31"
  shows "ring_read ro cap n mem = Inr (take (unat n) bytes)" "ring_holds mem ((ro + n) mod cap) wo (drop (unat n) bytes)"
proof -
  have h: "unat ro < unat cap" "length bytes \<le> unat cap" "unat wo = (unat ro + length bytes) mod unat cap"
    "bytes = ring_view mem (unat ro) (length bytes)"
    using assms(1,2) by (auto simp: ring_holds_def)
  show "ring_read ro cap n mem = Inr (take (unat n) bytes)"
    using ring_read_ok [OF assms(2), of ro n] h assms(3) take_ring_view [OF assms(3), of mem "unat ro"]
    by (simp add: word_less_nat_alt word_le_nat_alt)
  have off: "unat ((ro + n) mod cap) = (unat ro + unat n) mod unat cap"
    using h(1,2) assms(3,4) by (intro unat_add_mod) auto
  moreover have "drop (unat n) bytes = ring_view mem ((unat ro + unat n) mod unat cap) (length bytes - unat n)"
    using drop_ring_view [OF assms(3), of mem "unat ro"] h(4) assms(2) by simp
  moreover have "((unat ro + unat n) mod unat cap + (length bytes - unat n)) mod unat cap = unat wo"
  proof -
    have "unat ro + unat n + (length bytes - unat n) = unat ro + length bytes" using assms(3) by simp
    then show ?thesis using mod_add_left_eq [of "unat ro + unat n" "unat cap" "length bytes - unat n"] h(3) by (simp only:)
  qed
  ultimately show "ring_holds mem ((ro + n) mod cap) wo (drop (unat n) bytes)"
    using h assms(2) by (simp add: ring_holds_def)
qed

lemma P_awake_if: "\<exists>aw. (if c then P_awake x p else p) = p\<lparr>p_awakable_list := aw\<rparr>"
  by (cases c) (auto simp: P_awake_def intro: exI [of _ "p_awakable_list p"])

lemma C_awake_if: "\<exists>aw. (if c then C_awake x k else k) = k\<lparr>c_awakable_list := aw\<rparr>"
  by (cases c) (auto simp: C_awake_def intro: exI [of _ "c_awakable_list k"])

text \<open>The operations that only look leave the relation alone.\<close>

lemma pipe_rel_mono: "pipe_rel b N p k e S \<Longrightarrow> N \<le> M \<Longrightarrow> pipe_rel b M p k e S"
  unfolding pipe_rel_def pipe_state_def Let_def by (meson le_trans)

lemma pipe_rel_notify_write:
  assumes rel: "pipe_rel b N p k e S" and n: "unat n \<le> sp_free S" "unat n \<le> length src"
    and mem: "ring_write (p_write_offset p) (p_capacity p) src n (pe_memory e b) = Inr mem"
    and p': "p' = p\<lparr>p_available_capacity := p_available_capacity p - n,
      p_write_offset := (p_write_offset p + n) mod p_capacity p, p_awakable_list := aw\<rparr>"
  shows "\<exists>e'. NotifyWrite fuel n p' (e\<lparr>pe_memory := (pe_memory e)(b := mem)\<rparr>) = Some (Inr e') \<and>
    pipe_rel b (Suc N) p' k e' (S\<lparr>sp_bytes := sp_bytes S @ take (unat n) src, sp_free := sp_free S - unat n\<rparr>)"
proof -
  let ?n = "nc_node (pe_controller e)" and ?rp = "p_control_port p" and ?rk = "c_control_port k"
  let ?e = "e\<lparr>pe_memory := (pe_memory e)(b := mem)\<rparr>"
  obtain ns ms where r: "pipe_state b N p k e S ns ms" using rel by (rule pipe_relE)
  note r = pipe_stateD [OF r]
  note o = r(11,12,13)
  obtain mem' where m: "ring_write (p_write_offset p) (p_capacity p) src n (pe_memory e b) = Inr mem'"
    "length mem' = length (pe_memory e b)"
    "ring_holds mem' (c_read_offset k) ((p_write_offset p + n) mod p_capacity p) (sp_bytes S @ take (unat n) src)"
    using ring_holds_write [OF r(2) o(1) _ n(2) o(2)] r(8) n(1) by auto
  obtain c where c: "SendDataPipeControlMessage fuel ?rp DATA_WAS_WRITTEN n ?e = Some (Inr (?e\<lparr>pe_controller := c\<rparr>))" "quiet c"
    "linked ?rp ?rk (nc_node c) (map (DataPipeControlMessage DATA_WAS_WRITTEN) (ns @ [n]))"
    "linked ?rk ?rp (nc_node c) (map (DataPipeControlMessage DATA_WAS_READ) ms)"
    "read_so_far ?rk (nc_node c) = read_so_far ?rk ?n" "read_so_far ?rp (nc_node c) = read_so_far ?rp ?n"
    using SendDataPipeControlMessage_local [of ?rp ?rk ?e _ fuel DATA_WAS_WRITTEN n] r(5,6) o(3) by auto
  have "unat (p_available_capacity p - n) = sp_free S - unat n"
    using r(3) n(1) by (simp add: unat_diff word_le_nat_alt)
  then have "pipe_rel b (Suc N) p' k (?e\<lparr>pe_controller := c\<rparr>)
      (S\<lparr>sp_bytes := sp_bytes S @ take (unat n) src, sp_free := sp_free S - unat n\<rparr>)"
    using r m c mem n unfolding pipe_rel_def pipe_state_def Let_def p'
    by (intro exI [of _ "ns @ [n]"] exI [of _ ms] conjI) (simp_all add: pipe_open_def)
  then show ?thesis using c(1) by (auto simp: NotifyWrite_def p')
qed

lemma pipe_rel_notify_read:
  assumes rel: "pipe_rel b N p k e S" and n: "unat n \<le> sp_visible S"
    and k': "k' = k\<lparr>c_read_offset := (c_read_offset k + n) mod p_capacity p,
      c_bytes_available := c_bytes_available k - n, c_awakable_list := aw\<rparr>"
  shows "\<exists>e'. NotifyRead fuel n k' e = Some (Inr e') \<and>
    pipe_rel b (Suc N) p k' e' (S\<lparr>sp_bytes := drop (unat n) (sp_bytes S), sp_visible := sp_visible S - unat n\<rparr>)"
proof -
  let ?n = "nc_node (pe_controller e)" and ?rp = "p_control_port p" and ?rk = "c_control_port k"
  obtain ns ms where r: "pipe_state b N p k e S ns ms" using rel by (rule pipe_relE)
  note r = pipe_stateD [OF r]
  note o = r(11,12,13)
  have m: "ring_holds (pe_memory e b) ((c_read_offset k + n) mod p_capacity p) (p_write_offset p) (drop (unat n) (sp_bytes S))"
    using ring_holds_read(2) [OF r(2) o(1) _ o(2)] n r(7) by simp
  obtain c where c: "SendDataPipeControlMessage fuel ?rk DATA_WAS_READ n e = Some (Inr (e\<lparr>pe_controller := c\<rparr>))" "quiet c"
    "linked ?rk ?rp (nc_node c) (map (DataPipeControlMessage DATA_WAS_READ) (ms @ [n]))"
    "linked ?rp ?rk (nc_node c) (map (DataPipeControlMessage DATA_WAS_WRITTEN) ns)"
    "read_so_far ?rk (nc_node c) = read_so_far ?rk ?n" "read_so_far ?rp (nc_node c) = read_so_far ?rp ?n"
    using SendDataPipeControlMessage_local [of ?rk ?rp e _ fuel DATA_WAS_READ n] r(5,6) o(3) by auto
  have "unat (c_bytes_available k - n) = sp_visible S - unat n"
    using r(4) n by (simp add: unat_diff word_le_nat_alt)
  then have "pipe_rel b (Suc N) p k' (e\<lparr>pe_controller := c\<rparr>)
      (S\<lparr>sp_bytes := drop (unat n) (sp_bytes S), sp_visible := sp_visible S - unat n\<rparr>)"
    using r m c n unfolding pipe_rel_def pipe_state_def Let_def k'
    by (intro exI [of _ ns] exI [of _ "ms @ [n]"] conjI) (simp_all add: pipe_open_def)
  then show ?thesis using c(1) by (auto simp: NotifyRead_def k')
qed

text \<open>Each operation of the dispatchers does what the bounded queue does.\<close>

lemma pipe_refine_write:
  fixes flags :: "write_flag set"
  assumes rel: "pipe_rel b N p k e S" and bs: "length bs < 2 ^ 32"
  defines "r \<equiv> spec_step (unat (p_capacity p)) (unat (element_num_bytes (p_options p))) (Write_op bs flags) S"
  shows "\<exists>p' e'. pipe_step fuel hs stale (Write_op bs flags) (p, k, e) = Some (Inr (fst r, p', k, e')) \<and>
    pipe_rel b (Suc N) p' k e' (snd r) \<and> p_options p' = p_options p"
proof -
  obtain ns ms where st: "pipe_state b N p k e S ns ms" using rel by (rule pipe_relE)
  note d = pipe_stateD [OF st]
  let ?len = "of_nat (length bs) :: uint32_t" and ?n = "min (of_nat (length bs)) (p_available_capacity p)"
  have len: "unat ?len = length bs" using bs by (simp add: unat_of_nat)
  have n: "unat ?n = min (length bs) (sp_free S)" using len d(3) by (simp add: unat_min)
  have zero: "?len = 0 \<longleftrightarrow> bs = []" "?n = 0 \<longleftrightarrow> min (length bs) (sp_free S) = 0"
    using len n by (metis unat_eq_zero length_0_conv, metis unat_eq_zero)
  have big: "p_capacity p < ?len \<longleftrightarrow> unat (p_capacity p) < length bs" using len by (simp add: word_less_nat_alt)
  have el: "umod ?len (element_num_bytes (p_options p)) = Inr (?len mod element_num_bytes (p_options p))"
    "?len mod element_num_bytes (p_options p) = 0 \<longleftrightarrow> length bs mod unat (element_num_bytes (p_options p)) = 0"
    using d(1) len by (simp_all add: umod_def pipe_open_def mod_0_unat)
  have o: "p_shared_ring_buffer p = Some b" "p_ring_buffer_mapping p = Some b" "\<not> p_in_transit p" "\<not> p_peer_closed p"
    "\<not> p_in_two_phase_write p" using d(1) by (simp_all add: pipe_open_def)
  show ?thesis
  proof (cases "length bs mod unat (element_num_bytes (p_options p)) = 0 \<and> bs \<noteq> [] \<and>
      \<not> (MOJO_WRITE_DATA_FLAG_ALL_OR_NONE \<in> flags \<and> unat (p_capacity p) < length bs) \<and> min (length bs) (sp_free S) \<noteq> 0")
    case False
    then have "pipe_step fuel hs stale (Write_op bs flags) (p, k, e) = Some (Inr (fst r, p, k, e))" "snd r = S"
      using o el zero big len unfolding r_def by (auto simp: WriteData_def Let_def)
    then show ?thesis using pipe_rel_mono [OF rel, of "Suc N"] by auto
  next
    case True
    have "0 < unat (p_capacity p)" using d(2,11) by (auto simp: ring_holds_def)
    then have c0: "p_capacity p \<noteq> 0" by auto
    have fits: "length (sp_bytes S) + unat ?n \<le> unat (p_capacity p)" "unat ?n \<le> length bs" using n d(8) by linarith+
    obtain mem where mem: "ring_write (p_write_offset p) (p_capacity p) bs ?n (pe_memory e b) = Inr mem"
      using ring_holds_write [OF d(2,11) fits d(12)] by blast
    define p1 where "p1 = p\<lparr>p_available_capacity := p_available_capacity p - ?n,
      p_write_offset := (p_write_offset p + ?n) mod p_capacity p\<rparr>"
    define p' where "p' = (if \<not> hs_equals hs (P_GetHandleSignalsStateNoLock p1) (P_GetHandleSignalsStateNoLock p)
      then P_awake (AwakeForStateChange (P_GetHandleSignalsStateNoLock p1)) p1 else p1)"
    obtain aw where "p' = p1\<lparr>p_awakable_list := aw\<rparr>" using P_awake_if unfolding p'_def by blast
    then have aw: "p' = p\<lparr>p_available_capacity := p_available_capacity p - ?n,
      p_write_offset := (p_write_offset p + ?n) mod p_capacity p, p_awakable_list := aw\<rparr>" by (simp add: p1_def)
    have "unat ?n \<le> sp_free S" "unat ?n \<le> length bs" using n by simp_all
    then obtain e' where e': "NotifyWrite fuel ?n p' (e\<lparr>pe_memory := (pe_memory e)(b := mem)\<rparr>) = Some (Inr e')"
      "pipe_rel b (Suc N) p' k e' (S\<lparr>sp_bytes := sp_bytes S @ take (unat ?n) bs, sp_free := sp_free S - unat ?n\<rparr>)"
      using pipe_rel_notify_write [OF rel _ _ mem aw] by blast
    have "pipe_step fuel hs stale (Write_op bs flags) (p, k, e) = Some (Inr ((MOJO_RESULT_OK, unat ?n, []), p', k, e'))"
      using o el zero big True mem c0 e'(1) unfolding p'_def p1_def
      by (auto simp: WriteData_def Let_def umod_def)
    moreover have "r = ((MOJO_RESULT_OK, unat ?n, []),
        S\<lparr>sp_bytes := sp_bytes S @ take (unat ?n) bs, sp_free := sp_free S - unat ?n\<rparr>)"
      using True n unfolding r_def by (auto simp: Let_def)
    ultimately show ?thesis using e'(2) aw by auto
  qed
qed

lemma pipe_refine_read:
  fixes flags :: "read_flag set" and m :: uint32_t
  assumes rel: "pipe_rel b N p k e S"
  defines "r \<equiv> spec_step (unat (p_capacity p)) (unat (element_num_bytes (p_options p))) (Read_op m flags) S"
  shows "\<exists>k' e'. pipe_step fuel hs stale (Read_op m flags) (p, k, e) = Some (Inr (fst r, p, k', e')) \<and>
    pipe_rel b (Suc N) p k' e' (snd r)"
proof -
  obtain ns ms where st: "pipe_state b N p k e S ns ms" using rel by (rule pipe_relE)
  note d = pipe_stateD [OF st]
  let ?n = "min m (c_bytes_available k)"
  have n: "unat ?n = min (unat m) (sp_visible S)" using d(4) by (simp add: unat_min)
  have zero: "?n = 0 \<longleftrightarrow> min (unat m) (sp_visible S) = 0" using n by (metis unat_eq_zero)
  have big: "c_bytes_available k < m \<longleftrightarrow> sp_visible S < unat m" using d(4) by (simp add: word_less_nat_alt)
  have el: "umod m (element_num_bytes (p_options p)) = Inr (m mod element_num_bytes (p_options p))"
    "m mod element_num_bytes (p_options p) = 0 \<longleftrightarrow> unat m mod unat (element_num_bytes (p_options p)) = 0"
    using d(1) by (simp_all add: umod_def pipe_open_def mod_0_unat)
  have o: "c_shared_ring_buffer k = Some b" "c_ring_buffer_mapping k = Some b" "\<not> c_in_transit k" "\<not> c_peer_closed k"
    "\<not> c_in_two_phase_read k" "c_options k = p_options p" using d(1) by (simp_all add: pipe_open_def)
  have "0 < unat (p_capacity p)" using d(2,11) by (auto simp: ring_holds_def)
  then have c0: "p_capacity p \<noteq> 0" by auto
  have rd: "ring_read (c_read_offset k) (p_capacity p) ?n (pe_memory e b) = Inr (take (unat ?n) (sp_bytes S))"
    using ring_holds_read(1) [OF d(2,11) _ d(12), of ?n] n d(7) by simp
  show ?thesis
  proof (cases "MOJO_READ_DATA_FLAG_QUERY \<notin> flags \<and>
      \<not> (MOJO_READ_DATA_FLAG_DISCARD \<in> flags \<and> MOJO_READ_DATA_FLAG_PEEK \<in> flags) \<and>
      unat m mod unat (element_num_bytes (p_options p)) = 0 \<and>
      \<not> (MOJO_READ_DATA_FLAG_ALL_OR_NONE \<in> flags \<and> sp_visible S < unat m) \<and> min (unat m) (sp_visible S) \<noteq> 0 \<and>
      MOJO_READ_DATA_FLAG_PEEK \<notin> flags")
    case False
    then have "pipe_step fuel hs stale (Read_op m flags) (p, k, e) = Some (Inr (fst r, p, k, e))" "snd r = S"
      using o el zero big d(4) n rd unfolding r_def by (auto simp: ReadData_def Let_def)
    then show ?thesis using pipe_rel_mono [OF rel, of "Suc N"] by auto
  next
    case True
    define k' where "k' = k\<lparr>c_read_offset := (c_read_offset k + ?n) mod p_capacity p,
      c_bytes_available := c_bytes_available k - ?n\<rparr>"
    have k': "k' = k\<lparr>c_read_offset := (c_read_offset k + ?n) mod p_capacity p,
      c_bytes_available := c_bytes_available k - ?n, c_awakable_list := c_awakable_list k\<rparr>" by (simp add: k'_def)
    have "unat ?n \<le> sp_visible S" using n by simp
    then obtain e' where e': "NotifyRead fuel ?n k' e = Some (Inr e')"
      "pipe_rel b (Suc N) p k' e' (S\<lparr>sp_bytes := drop (unat ?n) (sp_bytes S), sp_visible := sp_visible S - unat ?n\<rparr>)"
      using pipe_rel_notify_read [OF rel _ k'] by blast
    let ?out = "if MOJO_READ_DATA_FLAG_DISCARD \<in> flags then [] else take (unat ?n) (sp_bytes S)"
    have "pipe_step fuel hs stale (Read_op m flags) (p, k, e) = Some (Inr ((MOJO_RESULT_OK, unat ?n, ?out), p, k', e'))"
      using o el zero big True rd c0 e'(1) unfolding k'_def
      by (cases "MOJO_READ_DATA_FLAG_DISCARD \<in> flags") (simp_all add: ReadData_def Let_def umod_def)
    moreover have "r = ((MOJO_RESULT_OK, unat ?n, ?out),
        S\<lparr>sp_bytes := drop (unat ?n) (sp_bytes S), sp_visible := sp_visible S - unat ?n\<rparr>)"
      using True n unfolding r_def by (auto simp: Let_def)
    ultimately show ?thesis using e'(2) by auto
  qed
qed

lemma pipe_refine_producer_notified:
  assumes rel: "pipe_rel b N p k e S" and N: "N < 2 ^ 64"
  shows "\<exists>p' e'. P_OnPortStatusChanged stale p e = Inr (p', e') \<and> p_options p' = p_options p \<and>
    pipe_rel b N p' k e' (S\<lparr>sp_free := unat (p_capacity p) - length (sp_bytes S)\<rparr>)"
proof -
  obtain ns ms where st: "pipe_state b N p k e S ns ms" using rel by (rule pipe_relE)
  note d = pipe_stateD [OF st]
  let ?n = "nc_node (pe_controller e)" and ?rp = "p_control_port p" and ?rk = "c_control_port k"
  have o: "\<not> p_in_transit p" "\<not> p_peer_closed p" "\<not> p_transferred p" using d(1) by (simp_all add: pipe_open_def)
  have "unat (p_available_capacity p) + sum_list (map unat ms) \<le> unat (p_capacity p)" using d(3,8) by simp
  then obtain n' a' where n': "read_control_port DATA_WAS_READ False stale (p_capacity p) ?rp False False (p_available_capacity p) ?n =
      Inr (False, a', n')" "unat a' = sp_free S + sum_list (map unat ms)" "linked ?rk ?rp n' []"
    "read_so_far ?rp n' = read_so_far ?rp ?n + length ms" "\<forall>vs. linked ?rp ?rk ?n vs \<longrightarrow> linked ?rp ?rk n' vs"
    "read_so_far ?rk n' = read_so_far ?rk ?n" "delegate_calls n' = delegate_calls ?n"
    using read_control_port_local [OF d(6), of "p_available_capacity p" "p_capacity p" False stale] d(3,10) N by auto
  let ?e' = "e\<lparr>pe_controller := set_node n' (pe_controller e)\<rparr>"
  obtain aw where p': "P_OnPortStatusChanged stale p e = Inr (p\<lparr>p_peer_closed := False, p_available_capacity := a', p_awakable_list := aw\<rparr>, ?e')"
  proof -
    let ?p = "p\<lparr>p_peer_closed := False, p_available_capacity := a'\<rparr>"
    obtain aw where "(if a' \<noteq> p_available_capacity p then P_awake (AwakeForStateChange (P_GetHandleSignalsStateNoLock ?p)) ?p
        else ?p) = ?p\<lparr>p_awakable_list := aw\<rparr>" using P_awake_if by blast
    then show ?thesis using that [of aw] o n'(1) by (simp add: P_OnPortStatusChanged_def P_UpdateSignalsStateNoLock_def Let_def)
  qed
  have free: "unat a' = unat (p_capacity p) - length (sp_bytes S)" using n'(2) d(8) by simp
  have "pipe_state b N (p\<lparr>p_peer_closed := False, p_available_capacity := a', p_awakable_list := aw\<rparr>) k ?e'
      (S\<lparr>sp_free := unat (p_capacity p) - length (sp_bytes S)\<rparr>) ns []"
    using d n' free o unfolding pipe_state_def pipe_open_def Let_def by (intro conjI) (simp_all add: set_node_def quiet_def)
  then show ?thesis using p' by (auto simp: pipe_rel_def)
qed

lemma pipe_refine_consumer_notified:
  assumes rel: "pipe_rel b N p k e S" and N: "N < 2 ^ 64"
  shows "\<exists>k' e'. C_OnPortStatusChanged stale k e = Inr (k', e') \<and>
    pipe_rel b N p k' e' (S\<lparr>sp_visible := length (sp_bytes S)\<rparr>)"
proof -
  obtain ns ms where st: "pipe_state b N p k e S ns ms" using rel by (rule pipe_relE)
  note d = pipe_stateD [OF st]
  let ?n = "nc_node (pe_controller e)" and ?rp = "p_control_port p" and ?rk = "c_control_port k"
  have o: "\<not> c_in_transit k" "\<not> c_peer_closed k" "\<not> c_transferred k" "c_options k = p_options p"
    using d(1) by (simp_all add: pipe_open_def)
  have "unat (c_bytes_available k) + sum_list (map unat ns) \<le> unat (p_capacity p)" using d(4,7,8) by simp
  then obtain n' a' where n': "read_control_port DATA_WAS_WRITTEN True stale (p_capacity p) ?rk False False (c_bytes_available k) ?n =
      Inr (False, a', n')" "unat a' = sp_visible S + sum_list (map unat ns)" "linked ?rp ?rk n' []"
    "read_so_far ?rk n' = read_so_far ?rk ?n + length ns" "\<forall>vs. linked ?rk ?rp ?n vs \<longrightarrow> linked ?rk ?rp n' vs"
    "read_so_far ?rp n' = read_so_far ?rp ?n" "delegate_calls n' = delegate_calls ?n"
    using read_control_port_local [OF d(5), of "c_bytes_available k" "p_capacity p" True stale] d(4,9) N by auto
  let ?e' = "e\<lparr>pe_controller := set_node n' (pe_controller e)\<rparr>"
  obtain aw where k': "C_OnPortStatusChanged stale k e = Inr (k\<lparr>c_peer_closed := False, c_bytes_available := a', c_awakable_list := aw\<rparr>, ?e')"
  proof -
    let ?k = "k\<lparr>c_peer_closed := False, c_bytes_available := a'\<rparr>"
    obtain aw where "(if a' \<noteq> c_bytes_available k then C_awake (AwakeForStateChange (C_GetHandleSignalsStateNoLock ?k)) ?k
        else ?k) = ?k\<lparr>c_awakable_list := aw\<rparr>" using C_awake_if by blast
    then show ?thesis using that [of aw] o n'(1) by (simp add: C_OnPortStatusChanged_def C_UpdateSignalsStateNoLock_def Let_def)
  qed
  have "pipe_state b N p (k\<lparr>c_peer_closed := False, c_bytes_available := a', c_awakable_list := aw\<rparr>) ?e'
      (S\<lparr>sp_visible := length (sp_bytes S)\<rparr>) [] ms"
    using d n' o unfolding pipe_state_def pipe_open_def Let_def by (intro conjI) (simp_all add: set_node_def quiet_def)
  then show ?thesis using k' by (auto simp: pipe_rel_def)
qed

section \<open>Runs\<close>

fun op_size_ok :: "pipe_op \<Rightarrow> bool" where
  "op_size_ok (Write_op bs flags) = (length bs < 2 ^ 32)"
| "op_size_ok _ = True"

lemma pipe_step_refines:
  assumes rel: "pipe_rel b N p k e S" and ok: "op_size_ok x" and N: "N < 2 ^ 64"
  shows "\<exists>p' k' e'. pipe_step fuel hs stale x (p, k, e) =
      Some (Inr (fst (spec_step (unat (p_capacity p)) (unat (element_num_bytes (p_options p))) x S), p', k', e')) \<and>
    pipe_rel b (Suc N) p' k' e' (snd (spec_step (unat (p_capacity p)) (unat (element_num_bytes (p_options p))) x S)) \<and>
    p_options p' = p_options p"
proof (cases x)
  case (Write_op bs flags)
  then show ?thesis using pipe_refine_write [OF rel, of bs fuel hs stale flags] ok by auto
next
  case (Read_op m flags)
  then show ?thesis using pipe_refine_read [OF rel, of fuel hs stale m flags] by auto
next
  case ProducerNotified
  then show ?thesis using pipe_refine_producer_notified [OF rel N, of stale] pipe_rel_mono [of b N _ _ _ _ "Suc N"] by fastforce
next
  case ConsumerNotified
  then show ?thesis using pipe_refine_consumer_notified [OF rel N, of stale] pipe_rel_mono [of b N _ _ _ _ "Suc N"] by fastforce
qed

lemma pipe_run_refines:
  assumes "pipe_rel b N p k e S" "\<forall>x \<in> set ops. op_size_ok x" "N + length ops < 2 ^ 64"
  shows "\<exists>p' k' e'. pipe_run fuel hs stale ops (p, k, e) =
      Some (Inr (fst (spec_run (unat (p_capacity p)) (unat (element_num_bytes (p_options p))) ops S), p', k', e')) \<and>
    pipe_rel b (N + length ops) p' k' e' (snd (spec_run (unat (p_capacity p)) (unat (element_num_bytes (p_options p))) ops S)) \<and>
    p_options p' = p_options p"
  using assms
proof (induction ops arbitrary: N p k e S)
  case Nil
  then show ?case by simp
next
  case (Cons x ops)
  let ?cap = "unat (p_capacity p)" and ?el = "unat (element_num_bytes (p_options p))"
  obtain out S1 where s: "spec_step ?cap ?el x S = (out, S1)" by fastforce
  obtain p1 k1 e1 where s1: "pipe_step fuel hs stale x (p, k, e) = Some (Inr (out, p1, k1, e1))"
    "pipe_rel b (Suc N) p1 k1 e1 S1" "p_options p1 = p_options p"
    using pipe_step_refines [OF Cons.prems(1), of x fuel hs stale] Cons.prems(2,3) s by auto
  obtain outs S2 where s2: "spec_run ?cap ?el ops S1 = (outs, S2)" by fastforce
  obtain p2 k2 e2 where "pipe_run fuel hs stale ops (p1, k1, e1) = Some (Inr (outs, p2, k2, e2))"
    "pipe_rel b (Suc N + length ops) p2 k2 e2 S2" "p_options p2 = p_options p"
    using Cons.IH [OF s1(2)] Cons.prems(2,3) s1(3) s2 by auto
  then show ?case using s s1(1) s2 by simp
qed

text \<open>
  C3: The two ends of a data pipe on one node refine a bounded byte queue: for every interleaving of
  writes and reads with any flags and of the two sides' notifications, every operation returns (without
  a fault, whatever the fuel) the result, the count and the bytes that the queue gives, partial writes,
  \<open>ALL_OR_NONE\<close>, peeks, discards, queries and element sizes included; the offsets into the shared ring and
  the control messages under way stay in step with the queue.  The capacity is at most half of the
  32-bit range, so that the offsets do not wrap around.
\<close>

theorem data_pipe_refines_queue:
  assumes "pipe_rel b N p k e S" "\<forall>x \<in> set ops. op_size_ok x" "N + length ops < 2 ^ 64"
  shows "\<exists>p' k' e'. pipe_run fuel hs stale ops (p, k, e) =
      Some (Inr (fst (spec_run (unat (p_capacity p)) (unat (element_num_bytes (p_options p))) ops S), p', k', e')) \<and>
    pipe_rel b (N + length ops) p' k' e' (snd (spec_run (unat (p_capacity p)) (unat (element_num_bytes (p_options p))) ops S))"
  using pipe_run_refines [OF assms] by blast

section \<open>A new pipe\<close>

lemma linked_SetUserData [simp]:
  "linked r0 r1 (snd (SetUserData r d n)) ws = linked r0 r1 n ws"
  by (auto simp: SetUserData_def linked_def Let_def modify_port_def)

lemma read_so_far_SetUserData [simp]: "read_so_far r1 (snd (SetUserData r d n)) = read_so_far r1 n"
  by (simp add: SetUserData_def read_so_far_def modify_port_def)

lemma delegate_SetUserData [simp]: "delegate_calls (snd (SetUserData r d n)) = delegate_calls n"
  by (simp add: SetUserData_def modify_port_def)

lemma pipe_rel_new:
  assumes "linked r0 r1 (nc_node (pe_controller e)) []" "linked r1 r0 (nc_node (pe_controller e)) []"
    and "read_so_far r0 (nc_node (pe_controller e)) \<le> N" "read_so_far r1 (nc_node (pe_controller e)) \<le> N"
    and "quiet (pe_controller e)" "Map b (capacity_num_bytes opts)" "length (pe_memory e b) = unat (capacity_num_bytes opts)"
    and "element_num_bytes opts \<noteq> 0" "capacity_num_bytes opts \<noteq> 0" "unat (capacity_num_bytes opts) \<le> 2 ^ 31"
    and "DataPipeProducerDispatcher Map ob0 r0 (Some b) opts True pipe_id e = (p, e1)"
    and "DataPipeConsumerDispatcher Map ob1 r1 (Some b) opts True pipe_id e1 = (k, e2)"
  shows "pipe_rel b N p k e2 \<lparr>sp_bytes = [], sp_visible = 0, sp_free = unat (capacity_num_bytes opts)\<rparr>"
proof -
  have "0 < unat (capacity_num_bytes opts)" using assms(9) by (simp add: unat_gt_0)
  then have "pipe_state b N p k e2 \<lparr>sp_bytes = [], sp_visible = 0, sp_free = unat (capacity_num_bytes opts)\<rparr> [] []"
    using assms
    by (auto simp: DataPipeProducerDispatcher_def DataPipeConsumerDispatcher_def P_InitializeNoLock_def
        C_InitializeNoLock_def Let_def SetPortObserver_def set_node_def pipe_state_def pipe_open_def ring_holds_def
        ring_view_def quiet_def)
  then show ?thesis by (auto simp: pipe_rel_def)
qed

definition example_options :: MojoCreateDataPipeOptions where
  "example_options = \<lparr>element_num_bytes = 1, capacity_num_bytes = 4\<rparr>"

definition example_signals :: signals_ops where
  "example_signals = \<lparr>hs_equals = (=), hs_satisfies = (\<lambda>_ _. False), hs_can_satisfy = (\<lambda>_ _. True)\<rparr>"

definition example_env :: "PipeEnv" where
  "example_env = \<lparr>pe_controller = set_node ((snd (snd example_pair))\<lparr>delegate_calls := []\<rparr>) example_controller,
     pe_memory = (\<lambda>_. [0, 0, 0, 0])\<rparr>"

definition example_pipe :: "Producer \<times> Consumer \<times> PipeEnv" where
  "example_pipe =
     (let (p, e1) = DataPipeProducerDispatcher (\<lambda>_ _. True) 1 (fst example_pair) (Some 0) example_options True 5 example_env;
          (k, e2) = DataPipeConsumerDispatcher (\<lambda>_ _. True) 2 (fst (snd example_pair)) (Some 0) example_options True 5 e1
      in (p, k, e2))"

lemma example_pipe_rel:
  obtains p k e where "example_pipe = (p, k, e)" "p_options p = example_options"
    "pipe_rel 0 1 p k e \<lparr>sp_bytes = [], sp_visible = 0, sp_free = 4\<rparr>"
proof -
  obtain r0 r1 n where pr: "example_pair = (r0, r1, n)" using prod_cases3 by blast
  have inv: "node_inv example_node" unfolding example_node_def by (rule node_inv_init)
  have cp: "CreatePortPair example_node = Inr (OK, r0, r1, n)" using example_pair_eval(1) pr by simp
  note l = CreatePortPair_linked [OF inv cp]
  have q: "quiet (pe_controller example_env)"
    by (simp add: quiet_def example_env_def set_node_def example_controller_def ConnectToChildOnIOThread_def
        NodeController_init_def new_channel_def modify_channel_def Let_def)
  obtain p e1 where p: "DataPipeProducerDispatcher (\<lambda>_ _. True) 1 r0 (Some 0) example_options True 5 example_env = (p, e1)"
    by fastforce
  obtain k e where k: "DataPipeConsumerDispatcher (\<lambda>_ _. True) 2 r1 (Some 0) example_options True 5 e1 = (k, e)"
    by fastforce
  have "pipe_rel 0 1 p k e \<lparr>sp_bytes = [], sp_visible = 0, sp_free = unat (capacity_num_bytes example_options)\<rparr>"
    using l q by (intro pipe_rel_new [OF _ _ _ _ _ _ _ _ _ _ p k]) (simp_all add: example_env_def set_node_def example_options_def pr)
  moreover have "p_options p = example_options"
    using p by (auto simp: DataPipeProducerDispatcher_def P_InitializeNoLock_def Let_def)
  moreover have "example_pipe = (p, k, e)" using p k by (simp add: example_pipe_def pr)
  ultimately show ?thesis using that by (simp add: example_options_def)
qed

theorem data_pipe_refines_queue_witness:
  "\<exists>s. pipe_run 0 example_signals False
     [Write_op [1, 2, 3] {}, Read_op 1 {}, ConsumerNotified, Read_op 2 {MOJO_READ_DATA_FLAG_PEEK}, Read_op 2 {},
      ProducerNotified, Write_op [4, 5, 6, 7] {}, ConsumerNotified, Read_op 9 {}] example_pipe =
   Some (Inr ([(MOJO_RESULT_OK, 3, []), (MOJO_RESULT_SHOULD_WAIT, 1, []), (MOJO_RESULT_OK, 0, []),
     (MOJO_RESULT_OK, 2, [1, 2]), (MOJO_RESULT_OK, 2, [1, 2]), (MOJO_RESULT_OK, 0, []), (MOJO_RESULT_OK, 3, []),
     (MOJO_RESULT_OK, 0, []), (MOJO_RESULT_OK, 4, [3, 4, 5, 6])], s))"
proof -
  obtain p k e where x: "example_pipe = (p, k, e)" "p_options p = example_options"
    "pipe_rel 0 1 p k e \<lparr>sp_bytes = [], sp_visible = 0, sp_free = 4\<rparr>" by (rule example_pipe_rel)
  show ?thesis
    using data_pipe_refines_queue [OF x(3), of
        "[Write_op [1, 2, 3] {}, Read_op 1 {}, ConsumerNotified, Read_op 2 {MOJO_READ_DATA_FLAG_PEEK}, Read_op 2 {},
          ProducerNotified, Write_op [4, 5, 6, 7] {}, ConsumerNotified, Read_op 9 {}]" 0
        example_signals False]
    unfolding x by (auto simp: example_options_def Let_def simp del: pipe_run.simps)
qed

section \<open>Bytes are conserved\<close>

text \<open>The bytes that the writes of a run have accepted.\<close>

fun accepted :: "pipe_op list \<Rightarrow> pipe_out list \<Rightarrow> uint8_t list" where
  "accepted (Write_op bs flags # ops) ((rv, n, _) # outs) =
     (if rv = MOJO_RESULT_OK then take n bs else []) @ accepted ops outs"
| "accepted (_ # ops) (_ # outs) = accepted ops outs"
| "accepted _ _ = []"

fun plain_read :: "pipe_op \<Rightarrow> bool" where
  "plain_read (Read_op k flags) = (flags \<subseteq> {MOJO_READ_DATA_FLAG_ALL_OR_NONE})"
| "plain_read _ = True"

lemma spec_run_conserves:
  assumes "\<forall>x \<in> set ops. plain_read x" "spec_run cap el ops S = (outs, S')"
  shows "sp_bytes S @ accepted ops outs = concat (map (\<lambda>out. snd (snd out)) outs) @ sp_bytes S'"
  using assms
proof (induction ops arbitrary: S outs)
  case Nil
  then show ?case by simp
next
  case (Cons x ops)
  obtain rv n bs S1 where s: "spec_step cap el x S = ((rv, n, bs), S1)" by (metis prod.collapse)
  obtain outs1 where o: "spec_run cap el ops S1 = (outs1, S')" "outs = (rv, n, bs) # outs1"
    using Cons.prems(2) s by (auto split: prod.splits)
  have IH: "sp_bytes S1 @ accepted ops outs1 = concat (map (\<lambda>out. snd (snd out)) outs1) @ sp_bytes S'"
    using Cons.IH [OF _ o(1)] Cons.prems(1) by simp
  show ?case
  proof (cases x)
    case (Write_op src flags)
    then have "sp_bytes S1 = sp_bytes S @ (if rv = MOJO_RESULT_OK then take n src else [])" "bs = []"
      using s by (auto simp: Let_def split: if_splits)
    then show ?thesis using IH o(2) Write_op by simp
  next
    case (Read_op m flags)
    then have "sp_bytes S = bs @ sp_bytes S1" using s Cons.prems(1) by (auto simp: Let_def split: if_splits)
    then show ?thesis using IH o(2) Read_op by simp
  qed (use s IH o(2) in auto)
qed

text \<open>
  C15: A data pipe loses, duplicates and reorders nothing: in every run of writes, reads (without peek,
  discard or query) and notifications, what was in the pipe followed by what the writes accepted is
  what the reads returned followed by what is still in the pipe, never more than its capacity.
\<close>

theorem data_pipe_conserves_bytes:
  assumes "pipe_rel b N p k e S" "\<forall>x \<in> set ops. op_size_ok x \<and> plain_read x" "N + length ops < 2 ^ 64"
  shows "\<exists>outs p' k' e' rest. pipe_run fuel hs stale ops (p, k, e) = Some (Inr (outs, p', k', e')) \<and>
    sp_bytes S @ accepted ops outs = concat (map (\<lambda>out. snd (snd out)) outs) @ rest \<and> length rest \<le> unat (p_capacity p)"
proof -
  let ?r = "spec_run (unat (p_capacity p)) (unat (element_num_bytes (p_options p))) ops S"
  obtain outs S' where r: "?r = (outs, S')" by fastforce
  obtain p' k' e' where run: "pipe_run fuel hs stale ops (p, k, e) = Some (Inr (outs, p', k', e'))"
    "pipe_rel b (N + length ops) p' k' e' S'" "p_options p' = p_options p"
    using pipe_run_refines [OF assms(1) _ assms(3), of fuel hs stale] assms(2) r by auto
  have "length (sp_bytes S') \<le> unat (p_capacity p)"
    using run(2,3) by (auto elim!: pipe_relE dest!: pipe_stateD(8))
  then show ?thesis using run(1) spec_run_conserves [OF _ r] assms(2) by blast
qed

theorem data_pipe_conserves_bytes_witness:
  "\<exists>outs s rest. pipe_run 0 example_signals True
     [Write_op [1, 2, 3] {}, ConsumerNotified, Read_op 2 {}, Write_op [4, 5] {}] example_pipe = Some (Inr (outs, s)) \<and>
   accepted [Write_op [1, 2, 3] {}, ConsumerNotified, Read_op 2 {}, Write_op [4, 5] {}] outs =
     concat (map (\<lambda>out. snd (snd out)) outs) @ rest"
proof -
  obtain p k e where x: "example_pipe = (p, k, e)" "p_options p = example_options"
    "pipe_rel 0 1 p k e \<lparr>sp_bytes = [], sp_visible = 0, sp_free = 4\<rparr>" by (rule example_pipe_rel)
  have ok: "\<forall>x \<in> set [Write_op [1, 2, 3] {}, ConsumerNotified, Read_op 2 {}, Write_op [4, 5] {}]. op_size_ok x \<and> plain_read x"
    by simp
  show ?thesis
    using data_pipe_conserves_bytes [OF x(3) ok, of 0
        example_signals True]
    unfolding x(1) by (simp del: pipe_run.simps accepted.simps) blast
qed

end
