(* ===== verification/Data_Pipe_Props.thy ===== *)
theory Data_Pipe_Props
  imports Data_Pipe_Queue
begin

text \<open>
  More properties of the data pipe dispatchers: they never leave their ring whatever the peer does, the
  two-phase accesses are equivalent to the one-phase ones, and a transfer of an end keeps its state.
\<close>

section \<open>An uninitialised status\<close>

lemma read_control_port_stale:
  "read_control_port cmd x True cap r t closed amount n = read_control_port cmd x False cap r t closed amount n"
proof (cases "state (port_at n (ref_port r)) = kReceiving")
  case True
  then show ?thesis by (simp add: read_control_port_def GetStatus_def Let_def)
next
  case False
  then have "control_loop cmd x cap r True amount n = Inr (True, amount, n)"
    by (subst control_loop.simps) (simp add: GetMessageIf_def Let_def)
  then show ?thesis using False by (simp add: read_control_port_def GetStatus_def Let_def)
qed

text \<open>
  Both dispatchers read a field of the port status that is uninitialised when the status could not be
  had; whatever value is found there, the outcome is the same.
\<close>

theorem uninitialised_status_harmless:
  "P_UpdateSignalsStateNoLock stale p e = P_UpdateSignalsStateNoLock stale' p e \<and>
   C_UpdateSignalsStateNoLock stale k e = C_UpdateSignalsStateNoLock stale' k e"
proof -
  have "read_control_port cmd x stale cap r t closed amount n = read_control_port cmd x stale' cap r t closed amount n"
    for cmd x cap r t closed amount n
    using read_control_port_stale by (cases stale; cases stale') auto
  then show ?thesis by (simp only: P_UpdateSignalsStateNoLock_def C_UpdateSignalsStateNoLock_def)
qed

section \<open>Two-phase accesses\<close>

lemma ring_write_straight:
  assumes "unat wo + unat n \<le> unat cap" "length bs = unat n" "length mem = unat cap"
  shows "ring_write wo cap bs n mem = Inr (take (unat wo) mem @ bs @ drop (unat wo + unat n) mem)"
proof -
  have "wo \<le> cap" using assms(1) by (simp add: word_le_nat_alt)
  then have "unat n \<le> unat (cap - wo)" using assms(1) by (simp add: unat_diff)
  then have "min (cap - wo) n = n" by (intro min.absorb2) (simp add: word_le_nat_alt)
  then show ?thesis using assms by (simp add: ring_write_def copy_out_def copy_in_def Let_def)
qed

lemma ring_read_straight:
  assumes "unat ro + unat n \<le> unat cap" "length mem = unat cap" "n \<noteq> 0"
  shows "ring_read ro cap n mem = Inr (take (unat n) (drop (unat ro) mem))"
proof -
  have "ro \<le> cap" using assms(1) by (simp add: word_le_nat_alt)
  then have "unat n \<le> unat (cap - ro)" using assms(1) by (simp add: unat_diff)
  then have "min (cap - ro) n = n" by (intro min.absorb2) (simp add: word_le_nat_alt)
  then show ?thesis using assms by (simp add: ring_read_def copy_out_def Let_def word_greater_zero_iff)
qed

text \<open>
  C35: Writing in place is the same as writing: after \<open>BeginWriteData\<close>, filling the start of the buffer it
  hands out and \<open>EndWriteData\<close> leave the producer (but for the calls on its awakables), the shared memory
  and the control port exactly as one \<open>WriteData\<close> of the same bytes does, with the same result.
\<close>

theorem two_phase_write_equivalent:
  assumes "BeginWriteData p = Inr (MOJO_RESULT_OK, Some (b, offset, room), p1)" "copy_in (unat offset) bs (pe_memory e b) = Inr mem"
    and "bs \<noteq> []" "length bs \<le> unat room" "length bs mod unat (element_num_bytes (p_options p)) = 0"
    and "length (pe_memory e b) = unat (p_capacity p)" "p_write_offset p < p_capacity p" "\<not> p_is_closed p"
  shows "and_then (EndWriteData fuel hs (of_nat (length bs)) p1 (e\<lparr>pe_memory := (pe_memory e)(b := mem)\<rparr>))
       (\<lambda>(rv, p', e'). Some (Inr (rv, p'\<lparr>p_awakable_list := []\<rparr>, e'))) =
     and_then (WriteData fuel hs (Some bs) (of_nat (length bs)) flags p e)
       (\<lambda>(rv, _, p', e'). Some (Inr (rv, p'\<lparr>p_awakable_list := []\<rparr>, e')))"
proof -
  let ?n = "of_nat (length bs) :: uint32_t" and ?el = "element_num_bytes (p_options p)"
  have bg: "\<not> p_in_transit p" "\<not> p_in_two_phase_write p" "\<not> p_peer_closed p" "p_shared_ring_buffer p \<noteq> None"
    "p_ring_buffer_mapping p = Some b" "offset = p_write_offset p"
    "room = min (p_capacity p - p_write_offset p) (p_available_capacity p)" "p1 = p\<lparr>p_in_two_phase_write := True\<rparr>"
    using assms(1) by (auto simp: BeginWriteData_def split: if_splits option.splits)
  have n: "unat ?n = length bs"
    using assms(4) order.strict_trans1 [OF assms(4) unsigned_less] by (simp add: unat_of_nat)
  have wo: "unat (p_write_offset p) < unat (p_capacity p)" using assms(7) by (simp add: word_less_nat_alt)
  have le: "length bs \<le> unat (p_available_capacity p)" "unat (p_write_offset p) + length bs \<le> unat (p_capacity p)"
    using assms(4) wo by (auto simp: bg(7) unat_min unat_diff word_le_nat_alt)
  have n0: "?n \<noteq> 0" using n assms(3) by (metis length_0_conv unat_0)
  have "?el \<noteq> 0" using assms(3,5) by auto
  then have el: "umod ?n ?el = Inr (?n mod ?el)" "?n mod ?el = 0" using assms(5) n by (simp_all add: umod_def mod_0_unat)
  have "p_capacity p \<noteq> 0" using assms(7) by auto
  then have um: "umod (p_write_offset p + ?n) (p_capacity p) = Inr ((p_write_offset p + ?n) mod p_capacity p)"
    by (simp add: umod_def)
  have mem: "ring_write (p_write_offset p) (p_capacity p) bs ?n (pe_memory e b) = Inr mem"
    using ring_write_straight [of "p_write_offset p" ?n "p_capacity p" bs "pe_memory e b"] n le assms(2,6)
    by (simp add: bg(6) copy_in_def split: if_splits)
  have sum: "\<not> p_capacity p < p_write_offset p + ?n"
    using le(2) n unat_add_le [of "p_write_offset p" ?n "p_capacity p"] by (simp add: word_less_nat_alt)
  have min: "min ?n (p_available_capacity p) = ?n" "\<not> p_available_capacity p < ?n" "\<not> p_capacity p < ?n"
    using le n by (simp_all add: min_def word_le_nat_alt word_less_nat_alt)
  let ?p = "p\<lparr>p_available_capacity := p_available_capacity p - ?n, p_write_offset := (p_write_offset p + ?n) mod p_capacity p\<rparr>"
  let ?e = "e\<lparr>pe_memory := (pe_memory e)(b := mem)\<rparr>"
  let ?r = "and_then (SendDataPipeControlMessage fuel (p_control_port p) DATA_WAS_WRITTEN ?n ?e)
    (\<lambda>e'. Some (Inr (MOJO_RESULT_OK, ?p\<lparr>p_awakable_list := []\<rparr>, e')))"
  have "and_then (WriteData fuel hs (Some bs) ?n flags p e) (\<lambda>(rv, _, p', e'). Some (Inr (rv, p'\<lparr>p_awakable_list := []\<rparr>, e'))) = ?r"
    using bg(1-5) el n0 um mem min
    by (simp add: WriteData_def NotifyWrite_def P_awake_def Let_def and_then_def split: option.splits sum.splits)
  moreover have "and_then (EndWriteData fuel hs ?n p1 ?e) (\<lambda>(rv, p', e'). Some (Inr (rv, p'\<lparr>p_awakable_list := []\<rparr>, e'))) = ?r"
    using bg(1-5,8) el um min sum assms(8)
    by (simp add: EndWriteData_def NotifyWrite_def P_awake_def Let_def and_then_def split: option.splits sum.splits)
  ultimately show ?thesis by simp
qed

text \<open>One end of a pipe of four bytes alone, for the concrete runs.\<close>

definition lone_producer :: "Producer" where
  "lone_producer = fst (DataPipeProducerDispatcher (\<lambda>_ _. True) 1 (fst example_pair) (Some 0) example_options True 5 example_env)"

definition lone_consumer :: "Consumer" where
  "lone_consumer = (fst (DataPipeConsumerDispatcher (\<lambda>_ _. True) 2 (fst (snd example_pair)) (Some 0) example_options True 5 example_env))
     \<lparr>c_bytes_available := 3, c_read_offset := 1\<rparr>"

lemmas lone_defs = lone_producer_def lone_consumer_def DataPipeProducerDispatcher_def DataPipeConsumerDispatcher_def
  P_InitializeNoLock_def C_InitializeNoLock_def example_options_def

theorem two_phase_write_equivalent_witness:
  "and_then (EndWriteData 0 example_signals 2 (snd (snd (projr (BeginWriteData lone_producer))))
         (example_env\<lparr>pe_memory := (pe_memory example_env)(0 := [7, 8, 0, 0])\<rparr>))
       (\<lambda>(rv, p', e'). Some (Inr (rv, p'\<lparr>p_awakable_list := []\<rparr>, e'))) =
     and_then (WriteData 0 example_signals (Some [7, 8]) 2 {} lone_producer example_env)
       (\<lambda>(rv, _, p', e'). Some (Inr (rv, p'\<lparr>p_awakable_list := []\<rparr>, e')))"
proof -
  have "BeginWriteData lone_producer = Inr (MOJO_RESULT_OK, Some (0, 0, 4), lone_producer\<lparr>p_in_two_phase_write := True\<rparr>)"
    by (simp add: BeginWriteData_def lone_defs)
  then show ?thesis
    using two_phase_write_equivalent [of lone_producer 0 0 4 "lone_producer\<lparr>p_in_two_phase_write := True\<rparr>" "[7, 8]"
        example_env "[7, 8, 0, 0]" 0 example_signals "{}"]
    by (simp add: copy_in_def example_env_def lone_defs)
qed

text \<open>
  Reading in place is the same as reading: the bytes that \<open>BeginReadData\<close> exposes are those that
  \<open>ReadData\<close> copies, and \<open>EndReadData\<close> leaves the consumer (but for the calls on its awakables) and the
  control port as one \<open>ReadData\<close> of as many bytes does, with the same result.
\<close>

theorem two_phase_read_equivalent:
  assumes "BeginReadData {} k = Inr (MOJO_RESULT_OK, Some (b, offset, room), k1)"
    and "n \<noteq> 0" "n \<le> room" "unat n mod unat (element_num_bytes (c_options k)) = 0"
    and "length (pe_memory e b) = unat (c_capacity k)" "c_read_offset k < c_capacity k" "c_two_phase_max_bytes_read k = 0"
  shows "and_then (EndReadData fuel hs n k1 e)
       (\<lambda>(rv, k', e'). Some (Inr (rv, n, take (unat n) (drop (unat offset) (pe_memory e b)), k'\<lparr>c_awakable_list := []\<rparr>, e'))) =
     and_then (ReadData fuel True n {} k e)
       (\<lambda>(rv, m, bs, k', e'). Some (Inr (rv, m, bs, k'\<lparr>c_awakable_list := []\<rparr>, e')))"
proof -
  let ?el = "element_num_bytes (c_options k)"
  have bg: "\<not> c_in_transit k" "\<not> c_in_two_phase_read k" "c_shared_ring_buffer k \<noteq> None"
    "c_ring_buffer_mapping k = Some b" "offset = c_read_offset k"
    "room = min (c_bytes_available k) (c_capacity k - c_read_offset k)"
    "k1 = k\<lparr>c_in_two_phase_read := True, c_two_phase_max_bytes_read := room\<rparr>"
    using assms(1) by (auto simp: BeginReadData_def Let_def split: if_splits option.splits)
  obtain s where shared: "c_shared_ring_buffer k = Some s" using bg(3) by blast
  have ro: "unat (c_read_offset k) < unat (c_capacity k)" using assms(6) by (simp add: word_less_nat_alt)
  have le: "unat n \<le> unat (c_bytes_available k)" "unat (c_read_offset k) + unat n \<le> unat (c_capacity k)"
    using assms(3) ro by (auto simp: bg(6) unat_min unat_diff word_le_nat_alt)
  have "unat n \<noteq> 0" using assms(2) by (simp add: unat_eq_zero)
  then have "?el \<noteq> 0" using assms(4) by (intro notI) simp
  then have el: "umod n ?el = Inr (n mod ?el)" "n mod ?el = 0" using assms(4) by (simp_all add: umod_def mod_0_unat)
  have "c_capacity k \<noteq> 0" using assms(6) by auto
  then have um: "umod (c_read_offset k + n) (c_capacity k) = Inr ((c_read_offset k + n) mod c_capacity k)" by (simp add: umod_def)
  have rd: "ring_read (c_read_offset k) (c_capacity k) n (pe_memory e b) = Inr (take (unat n) (drop (unat offset) (pe_memory e b)))"
    using ring_read_straight [OF le(2) assms(5,2)] by (simp add: bg(5))
  have min: "min n (c_bytes_available k) = n" "\<not> room < n"
    using le assms(3) by (simp_all add: min_def word_le_nat_alt word_less_nat_alt)
  let ?k = "k\<lparr>c_read_offset := (c_read_offset k + n) mod c_capacity k, c_bytes_available := c_bytes_available k - n\<rparr>"
  let ?r = "and_then (SendDataPipeControlMessage fuel (c_control_port k) DATA_WAS_READ n e)
    (\<lambda>e'. Some (Inr (MOJO_RESULT_OK, n, take (unat n) (drop (unat offset) (pe_memory e b)), ?k\<lparr>c_awakable_list := []\<rparr>, e')))"
  have "and_then (ReadData fuel True n {} k e) (\<lambda>(rv, m, bs, k', e'). Some (Inr (rv, m, bs, k'\<lparr>c_awakable_list := []\<rparr>, e'))) = ?r"
    using bg(1-4) el um rd min(1) assms(2)
    by (simp add: ReadData_def NotifyRead_def Let_def and_then_def split: option.splits sum.splits)
  moreover have "and_then (EndReadData fuel hs n k1 e)
      (\<lambda>(rv, k', e'). Some (Inr (rv, n, take (unat n) (drop (unat offset) (pe_memory e b)), k'\<lparr>c_awakable_list := []\<rparr>, e'))) = ?r"
    using bg(1,2,7) shared el um min(2) assms(7)
    by (simp add: EndReadData_def NotifyRead_def C_awake_def Let_def and_then_def split: option.splits sum.splits)
  ultimately show ?thesis by simp
qed

theorem two_phase_read_equivalent_witness:
  "and_then (EndReadData 0 example_signals 2 (snd (snd (projr (BeginReadData {} lone_consumer)))) example_env)
       (\<lambda>(rv, k', e'). Some (Inr (rv, 2, [0, 0], k'\<lparr>c_awakable_list := []\<rparr>, e'))) =
     and_then (ReadData 0 True 2 {} lone_consumer example_env)
       (\<lambda>(rv, m, bs, k', e'). Some (Inr (rv, m, bs, k'\<lparr>c_awakable_list := []\<rparr>, e')))"
proof -
  have "BeginReadData {} lone_consumer = Inr (MOJO_RESULT_OK, Some (0, 1, 3),
      lone_consumer\<lparr>c_in_two_phase_read := True, c_two_phase_max_bytes_read := 3\<rparr>)"
    by (simp add: BeginReadData_def lone_defs)
  then show ?thesis
    using two_phase_read_equivalent [of lone_consumer 0 1 3
        "lone_consumer\<lparr>c_in_two_phase_read := True, c_two_phase_max_bytes_read := 3\<rparr>" 2 example_env 0 example_signals]
    by (simp add: example_env_def lone_defs)
qed

section \<open>Bounds against any peer\<close>

lemma control_loop_bound:
  assumes "control_loop cmd x cap r closed amount n = Inr (closed', amount', n')" "amount \<le> cap"
  shows "amount \<le> amount' \<and> amount' \<le> cap"
  using assms
proof (induction cmd x cap r closed amount n rule: control_loop.induct)
  case (1 cmd x cap r closed amount n)
  show ?case
  proof (cases "GetMessageIf r None n")
    case (Inl f)
    then show ?thesis using "1.prems"(1) by (simp add: control_loop.simps [of _ _ _ _ _ _ n])
  next
    case (Inr y)
    obtain rv mo n1 where y: "y = (rv, mo, n1)" using prod_cases3 by blast
    show ?thesis
    proof (cases mo)
      case None
      then show ?thesis using "1.prems" Inr y by (simp add: control_loop.simps [of _ _ _ _ _ _ n])
    next
      case (Some m)
      let ?k = "read_u32 (drop 4 (msg_payload m))"
      have le: "amount + ?k \<le> cap \<and> amount \<le> amount + ?k" if "\<not> unat amount + unat ?k > unat cap"
        using that unat_add_le [of amount ?k cap] by (simp add: word_le_nat_alt)
      show ?thesis using "1.prems" "1.IH" le Inr y Some
        by (auto simp: control_loop.simps [of _ _ _ _ _ _ n] Let_def split: if_splits) (meson order.trans)
    qed
  qed
qed

definition producer_inv :: "Producer \<Rightarrow> bool" where
  "producer_inv p \<longleftrightarrow> p_available_capacity p \<le> p_capacity p \<and> p_write_offset p < p_capacity p"

definition consumer_inv :: "Consumer \<Rightarrow> bool" where
  "consumer_inv k \<longleftrightarrow> c_bytes_available k \<le> c_capacity k \<and> c_read_offset k < c_capacity k \<and>
     (c_in_two_phase_read k \<longrightarrow> c_two_phase_max_bytes_read k \<le> c_bytes_available k)"

lemma read_control_port_bound:
  "read_control_port cmd x stale cap r t closed amount n = Inr (closed', amount', n') \<Longrightarrow> amount \<le> cap \<Longrightarrow>
     amount \<le> amount' \<and> amount' \<le> cap"
  using control_loop_bound by (auto simp: read_control_port_def Let_def split: if_splits prod.splits)

lemma mod_less_word: "b \<noteq> 0 \<Longrightarrow> a mod b < b" for a b :: "'a::len word"
  using mod_less_divisor [of "unat b" "unat a"] by (simp add: word_less_nat_alt unat_mod_distrib unat_gt_0)

lemma minus_le_word: "n \<le> a \<Longrightarrow> a \<le> c \<Longrightarrow> a - n \<le> c" for a n c :: "'a::len word"
  by (simp add: word_le_nat_alt unat_diff)

lemma WriteData_inv:
  "producer_inv p \<Longrightarrow> WriteData fuel hs src n flags p e = Some (Inr (rv, m, p', e')) \<Longrightarrow> producer_inv p'"
  by (auto simp: WriteData_def producer_inv_def Let_def umod_def and_then_def P_awake_def
      split: if_splits option.splits sum.splits intro!: minus_le_word mod_less_word)

lemma EndWriteData_inv:
  "producer_inv p \<Longrightarrow> EndWriteData fuel hs n p e = Some (Inr (rv, p', e')) \<Longrightarrow> producer_inv p'"
  by (auto simp: EndWriteData_def producer_inv_def Let_def umod_def and_then_def P_awake_def
      split: if_splits option.splits sum.splits intro!: minus_le_word mod_less_word)

lemma P_UpdateSignals_inv:
  "producer_inv p \<Longrightarrow> P_UpdateSignalsStateNoLock stale p e = Inr (p', e') \<Longrightarrow> producer_inv p'"
  by (auto simp: P_UpdateSignalsStateNoLock_def producer_inv_def Let_def P_awake_def
      split: if_splits sum.splits dest: read_control_port_bound)

lemma ReadData_inv:
  "consumer_inv k \<Longrightarrow> ReadData fuel buf n flags k e = Some (Inr (rv, m, bs, k', e')) \<Longrightarrow> consumer_inv k'"
  by (auto simp: ReadData_def consumer_inv_def Let_def umod_def and_then_def
      split: if_splits option.splits sum.splits intro!: minus_le_word mod_less_word)

lemma EndReadData_inv:
  assumes "consumer_inv k" "EndReadData fuel hs n k e = Some (Inr (rv, k', e'))"
  shows "consumer_inv k'"
proof -
  have "n \<le> c_two_phase_max_bytes_read k \<Longrightarrow> c_in_two_phase_read k \<Longrightarrow> n \<le> c_bytes_available k"
    using assms(1) by (auto simp: consumer_inv_def)
  then show ?thesis using assms
    by (auto simp: EndReadData_def consumer_inv_def Let_def umod_def and_then_def C_awake_def not_less
        split: if_splits option.splits sum.splits intro!: minus_le_word mod_less_word)
qed

lemma C_UpdateSignals_inv:
  "consumer_inv k \<Longrightarrow> C_UpdateSignalsStateNoLock stale k e = Inr (k', e') \<Longrightarrow> consumer_inv k'"
  by (auto simp: C_UpdateSignalsStateNoLock_def consumer_inv_def Let_def C_awake_def
      split: if_splits sum.splits dest!: read_control_port_bound)

text \<open>The life of a dispatcher: its operations in any order, in any environment, with any answers of its peer.\<close>

inductive producer_step :: "Producer \<Rightarrow> Producer \<Rightarrow> bool" where
  write_data: "WriteData fuel hs src n flags p e = Some (Inr (rv, m, p', e')) \<Longrightarrow> producer_step p p'"
| begin_write: "BeginWriteData p = Inr (rv, buf, p') \<Longrightarrow> producer_step p p'"
| end_write: "EndWriteData fuel hs n p e = Some (Inr (rv, p', e')) \<Longrightarrow> producer_step p p'"
| notified: "P_OnPortStatusChanged stale p e = Inr (p', e') \<Longrightarrow> producer_step p p'"
| add_awakable: "P_AddAwakable stale hs a s c p e = Inr (rv, st, p', e') \<Longrightarrow> producer_step p p'"
| remove_awakable: "producer_step p (snd (P_RemoveAwakable a p))"
| begin_transit: "producer_step p (snd (P_BeginTransit p))"
| end_serialize: "P_EndSerialize dup p = Inr (data, p') \<Longrightarrow> producer_step p p'"
| cancel_transit: "producer_step p (P_CancelTransit p)"
| complete_transit: "P_CompleteTransitAndClose fuel p e = Some (Inr (p', e')) \<Longrightarrow> producer_step p p'"
| close: "P_Close fuel p e = Some (Inr (rv, p', e')) \<Longrightarrow> producer_step p p'"

inductive consumer_step :: "Consumer \<Rightarrow> Consumer \<Rightarrow> bool" where
  read_data: "ReadData fuel buf n flags k e = Some (Inr (rv, m, bs, k', e')) \<Longrightarrow> consumer_step k k'"
| begin_read: "BeginReadData flags k = Inr (rv, region, k') \<Longrightarrow> consumer_step k k'"
| end_read: "EndReadData fuel hs n k e = Some (Inr (rv, k', e')) \<Longrightarrow> consumer_step k k'"
| notified: "C_OnPortStatusChanged stale k e = Inr (k', e') \<Longrightarrow> consumer_step k k'"
| add_awakable: "C_AddAwakable stale hs a s c k e = Inr (rv, st, k', e') \<Longrightarrow> consumer_step k k'"
| remove_awakable: "consumer_step k (snd (C_RemoveAwakable a k))"
| begin_transit: "consumer_step k (snd (C_BeginTransit k))"
| end_serialize: "C_EndSerialize dup k = Inr (data, k') \<Longrightarrow> consumer_step k k'"
| cancel_transit: "C_CancelTransit stale k e = Inr (k', e') \<Longrightarrow> consumer_step k k'"
| complete_transit: "C_CompleteTransitAndClose fuel k e = Some (Inr (k', e')) \<Longrightarrow> consumer_step k k'"
| close: "C_Close fuel k e = Some (Inr (rv, k', e')) \<Longrightarrow> consumer_step k k'"

lemma P_CloseNoLock_inv:
  "producer_inv p \<Longrightarrow> P_CloseNoLock fuel p e = Some (Inr (rv, p', e')) \<Longrightarrow> producer_inv p'"
  by (auto simp: P_CloseNoLock_def producer_inv_def P_awake_def and_then_def Let_def split: if_splits option.splits sum.splits)

lemma C_CloseNoLock_inv:
  "consumer_inv k \<Longrightarrow> C_CloseNoLock fuel k e = Some (Inr (rv, k', e')) \<Longrightarrow> consumer_inv k'"
  by (auto simp: C_CloseNoLock_def consumer_inv_def C_awake_def and_then_def Let_def split: if_splits option.splits sum.splits)

lemma producer_frame [simp]:
  "producer_inv (P_awake x p) = producer_inv p" "producer_inv (p\<lparr>p_in_transit := b\<rparr>) = producer_inv p"
  "producer_inv (p\<lparr>p_in_two_phase_write := b\<rparr>) = producer_inv p" "producer_inv (p\<lparr>p_transferred := b\<rparr>) = producer_inv p"
  "producer_inv (p\<lparr>p_buffer_handle_for_transit := h\<rparr>) = producer_inv p"
  by (simp_all add: producer_inv_def P_awake_def)

lemma consumer_frame [simp]:
  "consumer_inv (C_awake x k) = consumer_inv k" "consumer_inv (k\<lparr>c_in_transit := b\<rparr>) = consumer_inv k"
  "consumer_inv (k\<lparr>c_transferred := b\<rparr>) = consumer_inv k"
  "consumer_inv (k\<lparr>c_buffer_handle_for_transit := h\<rparr>) = consumer_inv k"
  by (simp_all add: consumer_inv_def C_awake_def)

lemma producer_step_inv: "producer_step p p' \<Longrightarrow> producer_inv p \<Longrightarrow> producer_inv p'"
proof (induction rule: producer_step.induct)
  case (complete_transit fuel p e p' e')
  then show ?case
    by (auto simp: P_CompleteTransitAndClose_def and_then_def Let_def split: option.splits sum.splits
        dest!: P_CloseNoLock_inv [rotated])
qed (auto simp: P_OnPortStatusChanged_def P_AddAwakable_def P_Close_def BeginWriteData_def P_RemoveAwakable_def
    P_BeginTransit_def P_EndSerialize_def P_CancelTransit_def Let_def split: if_splits option.splits sum.splits
    dest: WriteData_inv EndWriteData_inv P_UpdateSignals_inv P_CloseNoLock_inv)

lemma BeginReadData_inv: "consumer_inv k \<Longrightarrow> BeginReadData flags k = Inr (rv, region, k') \<Longrightarrow> consumer_inv k'"
  by (auto simp: BeginReadData_def consumer_inv_def Let_def split: if_splits option.splits)

lemma consumer_step_inv: "consumer_step k k' \<Longrightarrow> consumer_inv k \<Longrightarrow> consumer_inv k'"
proof (induction rule: consumer_step.induct)
  case (complete_transit fuel k e k' e')
  then show ?case
    by (auto simp: C_CompleteTransitAndClose_def and_then_def Let_def split: option.splits sum.splits
        dest!: C_CloseNoLock_inv [rotated])
next
  case (cancel_transit stale k e k' e')
  then show ?case using C_UpdateSignals_inv [of "k\<lparr>c_in_transit := False, c_buffer_handle_for_transit := None\<rparr>"]
    by (auto simp: C_CancelTransit_def)
qed (auto simp: C_OnPortStatusChanged_def C_AddAwakable_def C_Close_def C_RemoveAwakable_def
    C_BeginTransit_def C_EndSerialize_def Let_def split: if_splits option.splits sum.splits
    dest: ReadData_inv EndReadData_inv BeginReadData_inv C_UpdateSignals_inv C_CloseNoLock_inv)





section \<open>Transfer\<close>

text \<open>
  C36: An end of a data pipe that is transferred keeps its state: what \<open>EndSerialize\<close> stores and
  \<open>Deserialize\<close> reads on a node that knows the port gives a dispatcher with the same options, pipe
  identifier, offset, count and knowledge of its peer, attached to that port and to the same shared
  memory, provided the duplicated handle leads back to the buffer and the buffer can be mapped.
\<close>

theorem data_pipe_transfer:
  assumes "\<And>cap b. create cap (dup b) = Some b" "\<And>b cap. Map b cap"
    and "P_EndSerialize dup p = Inr ((pst, pnms, phs), p')" "GetPort (ref_name (p_control_port p)) (nc_node (pe_controller e)) = (OK, Some pr)"
    and "C_EndSerialize dup k = Inr ((kst, knms, khs), k')" "GetPort (ref_name (c_control_port k)) (nc_node (pe_controller e)) = (OK, Some kr)"
  shows "(\<exists>q. fst (P_Deserialize create Map ob (Some pst) pnms phs e) = Some q \<and>
       q = p\<lparr>p_control_port := pr, p_observer := ob, p_awakable_list := [], p_ring_buffer_mapping := p_shared_ring_buffer p,
           p_buffer_handle_for_transit := None, p_in_transit := False, p_is_closed := False, p_transferred := False,
           p_in_two_phase_write := False\<rparr>) \<and>
     (\<exists>q. fst (C_Deserialize create Map ob (Some kst) knms khs e) = Some q \<and>
       q = k\<lparr>c_control_port := kr, c_observer := ob, c_awakable_list := [], c_ring_buffer_mapping := c_shared_ring_buffer k,
           c_buffer_handle_for_transit := None, c_in_transit := False, c_is_closed := False, c_transferred := False,
           c_in_two_phase_read := False, c_two_phase_max_bytes_read := 0\<rparr>)"
proof -
  obtain b where b: "p_shared_ring_buffer p = Some b" "pnms = [ref_name (p_control_port p)]" "phs = [dup b]"
    "pst = \<lparr>ps_options = p_options p, ps_pipe_id = p_pipe_id p, ps_peer_closed = p_peer_closed p,
            ps_write_offset = p_write_offset p, ps_available_capacity = p_available_capacity p\<rparr>"
    using assms(3) by (auto simp: P_EndSerialize_def Let_def split: option.splits)
  obtain b' where b': "c_shared_ring_buffer k = Some b'" "knms = [ref_name (c_control_port k)]" "khs = [dup b']"
    "kst = \<lparr>cs_options = c_options k, cs_pipe_id = c_pipe_id k, cs_peer_closed = c_peer_closed k,
            cs_read_offset = c_read_offset k, cs_bytes_available = c_bytes_available k\<rparr>"
    using assms(5) by (auto simp: C_EndSerialize_def Let_def split: option.splits)
  show ?thesis using assms(1,2,4,6) b b'
    by (simp add: P_Deserialize_def C_Deserialize_def DataPipeProducerDispatcher_def DataPipeConsumerDispatcher_def
        P_InitializeNoLock_def C_InitializeNoLock_def Let_def)
qed

definition transfer_env :: "PipeEnv" where
  "transfer_env = \<lparr>pe_controller = set_node (snd (snd example_pair))
     (NodeController_init (Name 1 1) example_names (\<lambda>i. Name (of_nat i) 3) (\<lambda>_. (0, 1))), pe_memory = (\<lambda>_. [0, 0, 0, 0])\<rparr>"

theorem data_pipe_transfer_witness:
  "\<exists>p q :: Producer. p_shared_ring_buffer p = Some 3 \<and>
     fst (P_Deserialize (\<lambda>_ h. Some h) (\<lambda>_ _. True) 9 (Some (fst (fst (projr (P_EndSerialize id p))))) [Name 1 7] [3] transfer_env) = Some q \<and>
     p_available_capacity q = 4"
proof -
  define p :: "Producer" where "p = fst (DataPipeProducerDispatcher (\<lambda>_ _. True) 1 (fst example_pair) (Some 3) example_options True 5 transfer_env)"
  define k :: "Consumer" where "k = fst (DataPipeConsumerDispatcher (\<lambda>_ _. True) 2 (fst (snd example_pair)) (Some 3) example_options True 5 transfer_env)"
  have p: "p_shared_ring_buffer p = Some 3" "p_control_port p = \<lparr>ref_name = Name 1 7, ref_port = 0\<rparr>" "p_available_capacity p = 4"
    "c_shared_ring_buffer k = Some 3" "c_control_port k = \<lparr>ref_name = Name 2 7, ref_port = 1\<rparr>"
    by (simp_all add: p_def k_def lone_defs example_pair_eval)
  have g: "GetPort (ref_name (p_control_port p)) (nc_node (pe_controller transfer_env)) = (OK, Some \<lparr>ref_name = Name 1 7, ref_port = 0\<rparr>)"
    "GetPort (ref_name (c_control_port k)) (nc_node (pe_controller transfer_env)) = (OK, Some \<lparr>ref_name = Name 2 7, ref_port = 1\<rparr>)"
    using p by (simp_all add: transfer_env_def set_node_def GetPort_def GetPort_Locked_def example_pair_eval)
  obtain pst p' where ps: "P_EndSerialize id p = Inr ((pst, [Name 1 7], [3]), p')"
    using p by (simp add: P_EndSerialize_def Let_def)
  obtain kst k' where ks: "C_EndSerialize id k = Inr ((kst, [Name 2 7], [3]), k')"
    using p by (simp add: C_EndSerialize_def Let_def)
  have "\<exists>q. fst (P_Deserialize (\<lambda>_ h. Some h) (\<lambda>_ _. True) 9 (Some pst) [Name 1 7] [3] transfer_env) = Some q \<and> p_available_capacity q = 4"
    using data_pipe_transfer [of "\<lambda>_ h. Some h" id "\<lambda>_ _. True" p, OF _ _ ps g(1) ks g(2), of 9] p(3) by auto
  then show ?thesis using p(1) ps by (auto intro!: exI2 [of _ p])
qed

end
