(* ===== verification/Wait_Props.thy ===== *)
theory Wait_Props
  imports Core_System Data_Pipe_Props
begin

text \<open>
  Wait sets and waiters in the process: the contract of theory \<open>Wait_Set\<close> is met by the dispatchers, so
  that what was proved there holds of the system calls.
\<close>

section \<open>Which awakables are on the lists\<close>

text \<open>
  An awakable is on a list when it was added and not removed since.  The list itself drops an awakable
  that it wakes; that is the step \<open>WaiterWoken\<close> below.
\<close>

fun listed_after :: "nat \<Rightarrow> awakable_call \<Rightarrow> bool \<Rightarrow> bool" where
  "listed_after x (AddAwakable_call y _ _) b = (b \<or> x = y)"
| "listed_after x (RemoveAwakable_call y) b = (b \<and> x \<noteq> y)"
| "listed_after x (AwakeForStateChange _) b = b"
| "listed_after x CancelAll b = b"

definition listed :: "nat \<Rightarrow> awakable_call list \<Rightarrow> bool" where
  "listed x cs = fold (listed_after x) cs False"

lemma listed_simps [simp]:
  "\<not> listed x []" "listed x (cs @ [AwakeForStateChange st]) = listed x cs" "listed x (cs @ [CancelAll]) = listed x cs"
  "listed x (cs @ [AddAwakable_call y sg ctx]) = (listed x cs \<or> x = y)"
  "listed x (cs @ [RemoveAwakable_call y]) = (listed x cs \<and> x \<noteq> y)"
  by (auto simp: listed_def)

fun awakables_of :: "Dispatcher \<Rightarrow> awakable_call list" where
  "awakables_of (D_MessagePipe d) = mp_awakables d"
| "awakables_of (D_Producer d) = p_awakable_list d"
| "awakables_of (D_Consumer d) = c_awakable_list d"
| "awakables_of (D_SharedBuffer d) = []"
| "awakables_of (D_WaitSet d) = ws_awakable_list d"
| "awakables_of (D_PlatformHandle d) = []"

definition waits_on :: "nat \<Rightarrow> nat \<Rightarrow> Core \<Rightarrow> bool" where
  "waits_on x a w = (case core_objects w a of None \<Rightarrow> False | Some d \<Rightarrow> listed x (awakables_of d))"

definition waited_by :: "nat \<Rightarrow> Core \<Rightarrow> nat set" where
  "waited_by x w = {a. waits_on x a w}"

lemma put_object_simps [simp]:
  "core_objects (put_object a d w) = (core_objects w)(a := Some d)" "core_env (put_object a d w) = core_env w"
  "core_handles (put_object a d w) = core_handles w" "core_next (put_object a d w) = core_next w"
  by (simp_all add: put_object_def)

lemma set_controller_simps [simp]:
  "core_objects (set_controller c w) = core_objects w" "core_handles (set_controller c w) = core_handles w"
  "core_next (set_controller c w) = core_next w" "core_env (set_controller c w) = (core_env w)\<lparr>pe_controller := c\<rparr>"
  by (simp_all add: set_controller_def)

lemma waited_by_put [simp]:
  "waited_by x (put_object a d w) = (if listed x (awakables_of d) then insert a (waited_by x w) else waited_by x w - {a})"
  by (auto simp: waited_by_def waits_on_def)

lemma waited_by_frame [simp]:
  "waited_by x (set_controller c w) = waited_by x w" "waited_by x (w\<lparr>core_env := e\<rparr>) = waited_by x w"
  "waited_by x (w\<lparr>core_handles := t\<rparr>) = waited_by x w"
  by (simp_all add: waited_by_def waits_on_def)

lemma in_waited_by: "core_objects w a = Some d \<Longrightarrow> a \<in> waited_by x w \<longleftrightarrow> listed x (awakables_of d)"
  by (simp add: waited_by_def waits_on_def)

text \<open>Reading the control port of a data pipe may wake awakables but adds and removes none.\<close>

lemma P_Update_listed:
  "P_UpdateSignalsStateNoLock stale p e = Inr (p', e') \<Longrightarrow> listed x (p_awakable_list p') = listed x (p_awakable_list p)"
  by (auto simp: P_UpdateSignalsStateNoLock_def P_awake_def Let_def split: sum.splits if_splits)

lemma C_Update_listed:
  "C_UpdateSignalsStateNoLock stale p e = Inr (p', e') \<Longrightarrow> listed x (c_awakable_list p') = listed x (c_awakable_list p)"
  by (auto simp: C_UpdateSignalsStateNoLock_def C_awake_def Let_def split: sum.splits if_splits)

lemma P_AddAwakable_listed:
  assumes "P_AddAwakable stale hs y sg ctx p e = Inr (rv, st, p', e')"
  shows "listed x (p_awakable_list p') = (listed x (p_awakable_list p) \<or> rv = MOJO_RESULT_OK \<and> x = y)"
  using assms P_Update_listed
  by (auto simp: P_AddAwakable_def P_awake_def Let_def split: if_splits sum.splits prod.splits)

lemma C_AddAwakable_listed:
  assumes "C_AddAwakable stale hs y sg ctx p e = Inr (rv, st, p', e')"
  shows "listed x (c_awakable_list p') = (listed x (c_awakable_list p) \<or> rv = MOJO_RESULT_OK \<and> x = y)"
  using assms C_Update_listed
  by (auto simp: C_AddAwakable_def C_awake_def Let_def split: if_splits sum.splits prod.splits)

lemma MP_AddAwakable_listed:
  assumes "MP_AddAwakable hs y sg ctx d n = Inr (rv, st, d')"
  shows "listed x (mp_awakables d') = (listed x (mp_awakables d) \<or> rv = MOJO_RESULT_OK \<and> x = y)"
  using assms by (auto simp: MP_AddAwakable_def MP_awake_def Let_def split: if_splits sum.splits)

lemma WS_AddAwakable_listed:
  assumes "WS_AddAwakable hs y sg ctx d = (rv, st, d')"
  shows "listed x (ws_awakable_list d') = (listed x (ws_awakable_list d) \<or> rv = MOJO_RESULT_OK \<and> x = y)"
  using assms by (auto simp: WS_AddAwakable_def WS_awake_def Let_def split: if_splits)

lemmas AddAwakable_listed = P_AddAwakable_listed C_AddAwakable_listed MP_AddAwakable_listed WS_AddAwakable_listed

text \<open>The contract of \<open>AddAwakable\<close> and \<open>RemoveAwakable\<close> for every dispatcher.\<close>

lemma V_AddAwakable_waits:
  assumes "V_AddAwakable pl x sg ctx a w = Inr (rv, st, w')"
  shows "waited_by x w' = (if rv = MOJO_RESULT_OK then insert a (waited_by x w) else waited_by x w)"
    and "y \<noteq> x \<Longrightarrow> waited_by y w' = waited_by y w"
proof -
  obtain d where d: "core_objects w a = Some d" using assms by (auto simp: V_AddAwakable_def split: option.splits)
  have "waited_by z w' = (if rv = MOJO_RESULT_OK \<and> z = x then insert a (waited_by z w) else waited_by z w)" for z
    using assms d in_waited_by [OF d, of z]
    by (cases d; cases "a \<in> waited_by z w")
      (auto simp: V_AddAwakable_def insert_absorb AddAwakable_listed split: sum.splits prod.splits)
  then show "waited_by x w' = (if rv = MOJO_RESULT_OK then insert a (waited_by x w) else waited_by x w)"
    and "y \<noteq> x \<Longrightarrow> waited_by y w' = waited_by y w"
    by auto
qed

lemma V_RemoveAwakable_waits:
  assumes "V_RemoveAwakable x wants a w = Inr (st, w')"
  shows "waited_by x w' = waited_by x w - {a}" and "y \<noteq> x \<Longrightarrow> waited_by y w' = waited_by y w"
proof -
  obtain d where d: "core_objects w a = Some d" using assms by (auto simp: V_RemoveAwakable_def split: option.splits)
  have "waited_by z w' = (if z = x then waited_by z w - {a} else waited_by z w)" for z
    using assms d in_waited_by [OF d, of z]
    by (cases d; cases "a \<in> waited_by z w")
      (auto simp: V_RemoveAwakable_def insert_absorb MP_RemoveAwakable_def MP_awake_def P_RemoveAwakable_def P_awake_def
        C_RemoveAwakable_def C_awake_def WS_RemoveAwakable_def WS_awake_def split: sum.splits prod.splits if_splits)
  then show "waited_by x w' = waited_by x w - {a}" and "y \<noteq> x \<Longrightarrow> waited_by y w' = waited_by y w" by auto
qed

interpretation core_waitable: waitable "add_waiter pl x" "remove_waiter x" "waited_by x" for pl x
proof
  fix d sg ctx s rv s'
  show "add_waiter pl x d sg ctx s = Inr (MOJO_RESULT_OK, s') \<Longrightarrow> waited_by x s' = insert d (waited_by x s)"
    using V_AddAwakable_waits(1) [of pl x sg ctx d s MOJO_RESULT_OK]
    by (auto simp: add_waiter_def split: sum.splits prod.splits)
  show "add_waiter pl x d sg ctx s = Inr (rv, s') \<Longrightarrow> rv \<noteq> MOJO_RESULT_OK \<Longrightarrow> waited_by x s' = waited_by x s"
    using V_AddAwakable_waits(1) [of pl x sg ctx d s rv]
    by (auto simp: add_waiter_def split: sum.splits prod.splits)
  show "remove_waiter x d s = Inr s' \<Longrightarrow> waited_by x s' = waited_by x s - {d}"
    using V_RemoveAwakable_waits(1) [of x False d s] by (auto simp: remove_waiter_def split: sum.splits prod.splits)
qed

section \<open>Waiters of threads\<close>

lemma add_all_awakables_waits:
  assumes "add_all_awakables pl x xs i w = Inr (rv, n, w')"
  shows "i \<le> n" "n \<le> i + length xs" "waited_by x w' \<subseteq> waited_by x w \<union> set (take (n - i) (map fst xs))"
proof -
  have "i \<le> n \<and> n \<le> i + length xs \<and> waited_by x w' \<subseteq> waited_by x w \<union> set (take (n - i) (map fst xs))"
    using assms
  proof (induction xs arbitrary: i w)
    case (Cons y xs)
    obtain a sg where y: "y = (a, sg)" by fastforce
    obtain r st w1 where w1: "V_AddAwakable pl x sg i a w = Inr (r, st, w1)"
      using Cons.prems y by (auto split: sum.splits prod.splits)
    show ?case
    proof (cases "r = MOJO_RESULT_OK")
      case True
      then have "i < n \<and> n \<le> Suc i + length xs \<and> waited_by x w' \<subseteq> waited_by x w1 \<union> set (take (n - Suc i) (map fst xs))"
        using Cons.IH [of "Suc i" w1] Cons.prems y w1 by auto
      moreover have "waited_by x w1 = insert a (waited_by x w)" using V_AddAwakable_waits(1) [OF w1] True by simp
      moreover have "take (n - i) (a # map fst xs) = a # take (n - Suc i) (map fst xs)" if "i < n"
        using that by (metis Suc_diff_Suc take_Suc_Cons)
      ultimately show ?thesis using y by auto
    next
      case False
      then show ?thesis using Cons.prems y w1 V_AddAwakable_waits(1) [OF w1] by auto
    qed
  qed simp
  then show "i \<le> n" "n \<le> i + length xs" "waited_by x w' \<subseteq> waited_by x w \<union> set (take (n - i) (map fst xs))" by auto
qed

lemma remove_all_awakables_waits:
  "remove_all_awakables x wants as w = Inr (sts, w') \<Longrightarrow> waited_by x w' = waited_by x w - set as"
proof (induction as arbitrary: w sts)
  case (Cons a as)
  then obtain st sts2 w1 where "V_RemoveAwakable x wants a w = Inr (st, w1)" "remove_all_awakables x wants as w1 = Inr (sts2, w')"
    by (auto split: sum.splits prod.splits)
  then show ?case using Cons.IH V_RemoveAwakable_waits(1) by fastforce
qed simp

lemma lookup_all_length: "lookup_all hs i w = Inr as \<Longrightarrow> length as = length hs"
  by (induction hs arbitrary: i as) (auto split: option.splits sum.splits)

text \<open>
  C17: A call of \<open>MojoWaitMany\<close> leaves its waiter, which lives on the stack of the caller, on no
  dispatcher's list, whatever handles and signals it is called with, however it ends (a bad handle, signals
  that are satisfied or can never be, a deadline, a wake-up) and whatever other threads do meanwhile,
  as long as they do not add this very waiter.
\<close>

theorem WaitMany_leaves_no_waiter:
  assumes "WaitMany pl x Wait hs wants w = Inr (rv, index, sts, w')" "waited_by x w = {}"
    and "\<And>w1. waited_by x (snd (snd (Wait w1))) \<subseteq> waited_by x w1"
  shows "waited_by x w' = {}"
proof -
  consider "w' = w" | "WaitManyInternal pl x Wait hs wants w = Inr (rv, index, sts, w')"
    using assms(1) by (auto simp: WaitMany_def split: if_splits)
  then show ?thesis
  proof cases
    case 2
    then consider "w' = w" | as r n w1 r2 i2 w2 sts2 where "lookup_all (map fst hs) 0 w = Inr as"
      "add_all_awakables pl x (zip as (map snd hs)) 0 w = Inr (r, n, w1)"
      "(r2, i2, w2) = (if r = MOJO_RESULT_OK then Wait w1
         else (if r = MOJO_RESULT_ALREADY_EXISTS then MOJO_RESULT_OK else r, Some n, w1))"
      "remove_all_awakables x wants (take n as) w2 = Inr (sts2, w')"
      by (auto simp: WaitManyInternal_def split: sum.splits prod.splits)
    then show ?thesis
    proof cases
      case c: 2
      have "map fst (zip as (map snd hs)) = as" using lookup_all_length [OF c(1)] by simp
      then have "waited_by x w1 \<subseteq> set (take n as)" using add_all_awakables_waits(3) [OF c(2)] assms(2) by simp
      moreover have "waited_by x w2 \<subseteq> waited_by x w1"
        using c(3) assms(3) [of w1] by (cases "r = MOJO_RESULT_OK") (auto simp: prod_eq_iff)
      ultimately show ?thesis using remove_all_awakables_waits [OF c(4)] by auto
    qed (use assms(2) in simp)
  qed (use assms(2) in simp)
qed

section \<open>Wait sets\<close>

lemma WakeDispatcher_listed [simp]:
  "listed x (ws_awakable_list (WakeDispatcher r d ws)) = listed x (ws_awakable_list ws)"
  by (simp add: WakeDispatcher_def WS_awake_def)

lemma requeue_listed:
  "requeue add ds ws s = Inr (ws', s') \<Longrightarrow> listed x (ws_awakable_list ws') = listed x (ws_awakable_list ws) \<and>
     fst ` set (ws_waiting_dispatchers ws') \<subseteq> fst ` set (ws_waiting_dispatchers ws)"
proof (induction ds arbitrary: ws s)
  case (Cons d ds)
  then obtain r s1 where r: "requeue add ds (if r = MOJO_RESULT_INVALID_ARGUMENT
      then ws\<lparr>ws_waiting_dispatchers := om_erase d (ws_waiting_dispatchers ws)\<rparr>
      else if r \<noteq> MOJO_RESULT_OK then WakeDispatcher r d ws else ws) s1 = Inr (ws', s')"
    by (auto split: option.splits sum.splits prod.splits)
  show ?case using Cons.IH [OF r] by (auto split: if_splits)
qed simp

lemma pop_ready_listed:
  "pop_ready k q ws = Inr (out, ws') \<Longrightarrow> listed x (ws_awakable_list ws') = listed x (ws_awakable_list ws) \<and>
     fst ` set (ws_waiting_dispatchers ws') \<subseteq> fst ` set (ws_waiting_dispatchers ws)"
proof (induction k q ws arbitrary: out rule: pop_ready.induct)
  case (3 k d r q ws)
  then obtain st out2 where st: "map_of (ws_waiting_dispatchers ws) d = Some st"
    "pop_ready k q (if r \<noteq> MOJO_RESULT_CANCELLED then ws\<lparr>ws_processed_dispatchers := ws_processed_dispatchers ws @ [d]\<rparr>
       else ws\<lparr>ws_waiting_dispatchers := om_erase d (ws_waiting_dispatchers ws)\<rparr>) = Inr (out2, ws')"
    by (auto split: option.splits sum.splits prod.splits)
  show ?case using "3.IH" [OF st] by (auto split: if_splits)
qed auto

lemma get_ready_listed:
  "WS_GetReadyDispatchers add k ws s = Inr (rv, out, ws', s') \<Longrightarrow> listed x (ws_awakable_list ws') = listed x (ws_awakable_list ws) \<and>
     fst ` set (ws_waiting_dispatchers ws') \<subseteq> fst ` set (ws_waiting_dispatchers ws)"
proof -
  assume "WS_GetReadyDispatchers add k ws s = Inr (rv, out, ws', s')"
  then obtain ws1 s1 where "requeue add (ws_processed_dispatchers ws) (ws\<lparr>ws_processed_dispatchers := []\<rparr>) s = Inr (ws1, s1)"
    "pop_ready (unat k) (ws_awoken_queue ws1) ws1 = Inr (out, ws')"
    by (auto simp: WS_GetReadyDispatchers_def split: sum.splits prod.splits)
  from requeue_listed [OF this(1), of x] pop_ready_listed [OF this(2), of x] show ?thesis by (simp, blast)
qed

lemma add_listed:
  "WS_AddWaitingDispatcher add a d sg ctx ws s = Inr (rv, ws', s') \<Longrightarrow>
     listed x (ws_awakable_list ws') = listed x (ws_awakable_list ws) \<and>
     (a \<notin> fst ` set (ws_waiting_dispatchers ws) \<longrightarrow> a \<notin> fst ` set (ws_waiting_dispatchers ws'))"
  unfolding map_of_eq_None_iff [symmetric]
  by (auto simp: WS_AddWaitingDispatcher_def Let_def split: if_splits sum.splits prod.splits)

lemma remove_listed:
  "WS_RemoveWaitingDispatcher rm d ws s = Inr (rv, ws', s') \<Longrightarrow>
     listed x (ws_awakable_list ws') = listed x (ws_awakable_list ws) \<and>
     fst ` set (ws_waiting_dispatchers ws') \<subseteq> fst ` set (ws_waiting_dispatchers ws)"
  by (auto simp: WS_RemoveWaitingDispatcher_def om_erase_def split: if_splits sum.splits)

lemma close_listed:
  "WS_Close rm ws s = Inr (rv, ws', s') \<Longrightarrow>
     listed x (ws_awakable_list ws') = listed x (ws_awakable_list ws) \<and>
     fst ` set (ws_waiting_dispatchers ws') \<subseteq> fst ` set (ws_waiting_dispatchers ws)"
  by (auto simp: WS_Close_def WS_awake_def Let_def split: if_splits sum.splits)

text \<open>The state of the wait set at address \<open>a\<close>; it does not wait for itself.\<close>

definition wait_set_ok :: "nat \<Rightarrow> Core \<Rightarrow> bool" where
  "wait_set_ok a w \<longleftrightarrow> (\<exists>ws. core_objects w a = Some (D_WaitSet ws) \<and> ws_inv ws (waited_by a w) \<and>
     a \<notin> fst ` set (ws_waiting_dispatchers ws))"

lemma wait_set_ok_put:
  assumes "wait_set_ok a w" "core_objects w a = Some (D_WaitSet ws)" "ws_inv ws' (waited_by a w')"
    "listed a (ws_awakable_list ws') = listed a (ws_awakable_list ws)" "a \<notin> fst ` set (ws_waiting_dispatchers ws')"
  shows "wait_set_ok a (put_object a (D_WaitSet ws') w')"
proof -
  have "a \<notin> waited_by a w" using assms(1,2) by (auto simp: wait_set_ok_def ws_inv_def)
  then have "\<not> listed a (ws_awakable_list ws')" using in_waited_by [OF assms(2)] assms(4) by simp
  moreover have "a \<notin> waited_by a w'" using assms(3,5) by (auto simp: ws_inv_def)
  ultimately show ?thesis using assms(3,5) by (simp add: wait_set_ok_def)
qed

text \<open>
  The steps of the process as the wait set sees them: the calls on it, its waiter being woken by the list
  of a dispatcher, which drops the waiter, and anything else that neither touches the set nor adds or
  removes its waiter.
\<close>

inductive wait_set_step :: "platform \<Rightarrow> nat \<Rightarrow> Core \<Rightarrow> Core \<Rightarrow> bool" for pl a where
  AddHandle_step: "AddHandle pl s h sg w = Inr (rv, w') \<Longrightarrow> Core_GetDispatcher s w = Some a \<Longrightarrow> wait_set_step pl a w w'"
| RemoveHandle_step: "RemoveHandle s h w = Inr (rv, w') \<Longrightarrow> Core_GetDispatcher s w = Some a \<Longrightarrow> wait_set_step pl a w w'"
| GetReadyHandles_step: "GetReadyHandles pl s k wants w = Inr (rv, out, sts, w') \<Longrightarrow> Core_GetDispatcher s w = Some a \<Longrightarrow>
    wait_set_step pl a w w'"
| Close_step: "V_Close fuel a w = Some (Inr (rv, w')) \<Longrightarrow> wait_set_step pl a w w'"
| WaiterWoken: "d \<in> waited_by a w \<Longrightarrow> core_objects w a = Some (D_WaitSet ws) \<Longrightarrow> remove_waiter a d w = Inr w1 \<Longrightarrow>
    wait_set_step pl a w (put_object a (D_WaitSet (WakeDispatcher r d ws)) w1)"
| Elsewhere: "core_objects w' a = core_objects w a \<Longrightarrow> waited_by a w' = waited_by a w \<Longrightarrow> wait_set_step pl a w w'"

lemma AddHandle_ok:
  assumes "AddHandle pl s h sg w = Inr (rv, w')" "Core_GetDispatcher s w = Some a" "wait_set_ok a w"
  shows "wait_set_ok a w'"
proof -
  obtain ws where ws: "core_objects w a = Some (D_WaitSet ws)" "ws_inv ws (waited_by a w)" "a \<notin> fst ` set (ws_waiting_dispatchers ws)"
    using assms(3) by (auto simp: wait_set_ok_def)
  from assms(1,2) consider "w' = w" | d ws' w1 rv' where "WS_AddWaitingDispatcher (add_waiter pl a) a d sg (unat h) ws w = Inr (rv', ws', w1)"
    "w' = put_object a (D_WaitSet ws') w1"
    using ws(1) by (auto simp: AddHandle_def split: option.splits sum.splits prod.splits)
  then show ?thesis
  proof cases
    case 2
    then show ?thesis
      using core_waitable.add_inv [OF ws(2) 2(1)] wait_set_ok_put [OF assms(3) ws(1)] add_listed [OF 2(1)] ws(3) by blast
  qed (use assms(3) in simp)
qed

lemma RemoveHandle_ok:
  assumes "RemoveHandle s h w = Inr (rv, w')" "Core_GetDispatcher s w = Some a" "wait_set_ok a w"
  shows "wait_set_ok a w'"
proof -
  obtain ws where ws: "core_objects w a = Some (D_WaitSet ws)" "ws_inv ws (waited_by a w)" "a \<notin> fst ` set (ws_waiting_dispatchers ws)"
    using assms(3) by (auto simp: wait_set_ok_def)
  from assms(1,2) consider "w' = w" | d ws' w1 rv' where "WS_RemoveWaitingDispatcher (remove_waiter a) d ws w = Inr (rv', ws', w1)"
    "w' = put_object a (D_WaitSet ws') w1"
    using ws(1) by (auto simp: RemoveHandle_def split: option.splits sum.splits prod.splits)
  then show ?thesis
  proof cases
    case 2
    then show ?thesis
      using core_waitable.remove_inv [OF ws(2) 2(1)] wait_set_ok_put [OF assms(3) ws(1)] remove_listed [OF 2(1)] ws(3) by blast
  qed (use assms(3) in simp)
qed

lemma GetReadyHandles_ok:
  assumes "GetReadyHandles pl s k wants w = Inr (rv, out, sts, w')" "Core_GetDispatcher s w = Some a" "wait_set_ok a w"
  shows "wait_set_ok a w'"
proof -
  obtain ws where ws: "core_objects w a = Some (D_WaitSet ws)" "ws_inv ws (waited_by a w)" "a \<notin> fst ` set (ws_waiting_dispatchers ws)"
    using assms(3) by (auto simp: wait_set_ok_def)
  from assms(1,2) consider "w' = w" | rv' out' ws' w1 where "WS_GetReadyDispatchers (add_waiter pl a) k ws w = Inr (rv', out', ws', w1)"
    "w' = put_object a (D_WaitSet ws') w1"
    using ws(1) by (auto simp: GetReadyHandles_def Let_def split: option.splits sum.splits prod.splits if_splits)
  then show ?thesis
  proof cases
    case 2
    have "ws_inv ws' (waited_by a w1)" using core_waitable.get_ready_spec [OF ws(2), of pl k] 2(1) by simp
    then show ?thesis using 2 wait_set_ok_put [OF assms(3) ws(1)] get_ready_listed [OF 2(1)] ws(3) by blast
  qed (use assms(3) in simp)
qed

lemma wait_set_step_ok:
  assumes "wait_set_step pl a w w'" "wait_set_ok a w"
  shows "wait_set_ok a w'"
proof -
  obtain ws where ws: "core_objects w a = Some (D_WaitSet ws)" "ws_inv ws (waited_by a w)" "a \<notin> fst ` set (ws_waiting_dispatchers ws)"
    using assms(2) by (auto simp: wait_set_ok_def)
  show ?thesis
    using assms(1)
  proof cases
    case (Close_step fuel rv)
    then obtain rv' ws' w1 where c: "WS_Close (remove_waiter a) ws w = Inr (rv', ws', w1)" "w' = put_object a (D_WaitSet ws') w1"
      using ws(1) by (auto simp: V_Close_def and_then_def split: sum.splits prod.splits)
    then show ?thesis
      using core_waitable.close_inv(1) [OF ws(2) c(1)] wait_set_ok_put [OF assms(2) ws(1)] close_listed [OF c(1)] ws(3) by blast
  next
    case (WaiterWoken d ws0 w1 r)
    then have "ws0 = ws" using ws(1) by simp
    moreover have "waited_by a w1 = waited_by a w - {d}" using core_waitable.remove_armed [OF WaiterWoken(4)] .
    ultimately show ?thesis
      using WaiterWoken ws_inv_wake [OF ws(2)] wait_set_ok_put [OF assms(2) ws(1)] ws(3) by simp
  next
    case Elsewhere
    then show ?thesis using assms(2) by (auto simp: wait_set_ok_def)
  qed (auto intro: AddHandle_ok RemoveHandle_ok GetReadyHandles_ok assms(2))
qed

text \<open>
  C6: However a wait set is used, every dispatcher in it is in exactly one place: the set's waiter is on
  the dispatcher's list of awakables, or the dispatcher is queued once as woken, or the last call
  returned it; and nothing else is in those places.  So no wake-up is lost and no dispatcher is
  reported twice, and a set that was closed has left its waiter nowhere.
\<close>

theorem wait_set_partition:
  assumes "(wait_set_step pl a)\<^sup>*\<^sup>* w w'" "core_objects w a = Some (D_WaitSet WaitSet_new)" "waited_by a w = {}"
  shows "\<exists>ws. core_objects w' a = Some (D_WaitSet ws) \<and> ws_inv ws (waited_by a w')"
proof -
  have "wait_set_ok a w" using assms(2,3) ws_inv_new by (auto simp: wait_set_ok_def WaitSet_new_def)
  with assms(1) have "wait_set_ok a w'" by (induction rule: rtranclp_induct) (blast intro: wait_set_step_ok)+
  then show ?thesis by (auto simp: wait_set_ok_def)
qed

text \<open>
  \<open>GetReadyDispatchers\<close> on a wait set that is in order reports woken dispatchers first come, first
  served: what it returns, followed by what stays queued, is the old queue followed by dispatchers that the
  last call returned and that are still ready.  It returns at most as many as asked for, leaves none
  queued while there is room, says \<open>MOJO_RESULT_SHOULD_WAIT\<close> exactly when there is none, and never
  looks up a dispatcher that is not in the set.
\<close>

theorem wait_set_reports_in_order:
  assumes "wait_set_ok a w" "core_objects w a = Some (D_WaitSet ws)"
  shows "case WS_GetReadyDispatchers (add_waiter pl a) k ws w of
      Inl f \<Rightarrow> \<exists>d sg ctx w0. add_waiter pl a d sg ctx w0 = Inl f
    | Inr (rv, out, ws', w') \<Rightarrow> ws_inv ws' (waited_by a w') \<and> length out \<le> unat k \<and>
        (rv = MOJO_RESULT_OK \<longleftrightarrow> out \<noteq> []) \<and> (length out < unat k \<longrightarrow> ws_awoken_queue ws' = []) \<and>
        (\<exists>re. map (\<lambda>(d, r, _). (d, r)) out @ ws_awoken_queue ws' = ws_awoken_queue ws @ re \<and>
              fst ` set re \<subseteq> set (ws_processed_dispatchers ws))"
  using core_waitable.get_ready_spec [of ws a w pl k] assms by (simp add: wait_set_ok_def)

text \<open>
  C16: Waiting is level triggered: a dispatcher that the last call of \<open>GetReadyDispatchers\<close> returned and that
  still satisfies its signals is returned again by the next call that has room left, with
  \<open>MOJO_RESULT_OK\<close>, although nothing has happened to it in between.  (\<open>ready\<close> is a condition under which the
  dispatcher satisfies its signals and which adding the waiter to the others does not disturb.)
\<close>

theorem wait_set_level_triggered:
  assumes "wait_set_ok a w" "core_objects w a = Some (D_WaitSet ws)" "d \<in> set (ws_processed_dispatchers ws)"
    and "\<And>d' sg ctx w1 rv w2. ready w1 \<Longrightarrow> d' \<noteq> d \<Longrightarrow> add_waiter pl a d' sg ctx w1 = Inr (rv, w2) \<Longrightarrow> ready w2"
    and "\<And>w1 rv w2. ready w1 \<Longrightarrow> add_waiter pl a d (wst_signals st) d w1 = Inr (rv, w2) \<Longrightarrow> rv = MOJO_RESULT_ALREADY_EXISTS"
    and "map_of (ws_waiting_dispatchers ws) d = Some st" "ready w" "WS_GetReadyDispatchers (add_waiter pl a) k ws w = Inr (rv, out, ws', w')" "length out < unat k"
  shows "\<exists>ctx. (d, MOJO_RESULT_OK, ctx) \<in> set out"
  using core_waitable.get_ready_level_triggered [of ws a w d ready pl st k rv out ws' w'] assms by (simp add: wait_set_ok_def)

section \<open>An example process\<close>

text \<open>A platform with the documented behaviour of signals, whose handles are the numbers of the buffers.\<close>

definition example_platform :: platform where
  "example_platform =
     \<lparr>pl_signals = \<lparr>hs_equals = (=), hs_satisfies = (\<lambda>st sg. satisfied_signals st \<inter> sg \<noteq> {}),
                    hs_can_satisfy = (\<lambda>st sg. satisfiable_signals st \<inter> sg \<noteq> {})\<rparr>,
      pl_CreateSharedBuffer = (\<lambda>n e. Some (1, e\<lparr>pe_memory := (pe_memory e)(1 := replicate (unat n) 0)\<rparr>)),
      pl_CreateSharedBufferFromHandle = (\<lambda>n h. Some h), pl_DuplicatePlatformHandle = (\<lambda>b. b), pl_is_valid = (\<lambda>h. h \<noteq> 0),
      pl_invalid_handle = 0, pl_GetNumBytes = (\<lambda>b. 4), pl_Map = (\<lambda>_ _. True), pl_IsValidMap = (\<lambda>_ _ _. True),
      pl_MapNoCheck = (\<lambda>_ _ _. Some 0),
      pl_write_options = (\<lambda>o'. write_u32 (element_num_bytes o') @ write_u32 (capacity_num_bytes o')),
      pl_read_options = (\<lambda>bs. \<lparr>element_num_bytes = read_u32 bs, capacity_num_bytes = read_u32 (drop 4 bs)\<rparr>),
      pl_sizeof_options = 8, pl_max_shared_memory_num_bytes = 1000, pl_max_wait_many_num_handles = 10,
      pl_stale = False, pl_garbage = (\<lambda>_. 0)\<rparr>"

definition example_core :: Core where
  "example_core = Core_init (NodeController_init (Name 1 1) example_names (\<lambda>i. Name (of_nat i) 3) (\<lambda>_. (0, 1))) (\<lambda>_. [])"

text \<open>Two wait sets, with the handles 1 and 2.\<close>

definition two_wait_sets :: Core where
  "two_wait_sets = (case CreateWaitSet 0 example_core of
     Some (Inr (_, _, w)) \<Rightarrow> (case CreateWaitSet 0 w of Some (Inr (_, _, w')) \<Rightarrow> w' | _ \<Rightarrow> w) | _ \<Rightarrow> example_core)"

lemma two_wait_sets_eval:
  "core_objects two_wait_sets = [0 \<mapsto> D_WaitSet WaitSet_new, 1 \<mapsto> D_WaitSet WaitSet_new]"
  "Core_GetDispatcher 1 two_wait_sets = Some 0" "Core_GetDispatcher 2 two_wait_sets = Some 1"
  by (simp_all add: two_wait_sets_def CreateWaitSet_def example_core_def Core_init_def alloc_def put_object_def Core_AddDispatcher_def
      AddDispatcher_def HandleTable_init_def um_insert_def Entry_init_def Core_GetDispatcher_def GetDispatcher_def Let_def)

lemma two_wait_sets_waits: "waited_by x two_wait_sets = {}"
  by (auto simp: waited_by_def waits_on_def two_wait_sets_eval WaitSet_new_def split: if_splits)

theorem WaitMany_leaves_no_waiter_witness:
  "\<exists>w'. WaitMany example_platform 7 (\<lambda>w. (MOJO_RESULT_CANCELLED, None, w))
       [(1, {MOJO_HANDLE_SIGNAL_READABLE}), (2, {MOJO_HANDLE_SIGNAL_WRITABLE})] False two_wait_sets =
     Inr (MOJO_RESULT_FAILED_PRECONDITION, Some 1, [], w') \<and> waited_by 7 w' = {}"
proof -
  let ?hs = "[(1 :: MojoHandle, {MOJO_HANDLE_SIGNAL_READABLE}), (2, {MOJO_HANDLE_SIGNAL_WRITABLE})]"
  obtain w' where w': "WaitMany example_platform 7 (\<lambda>w. (MOJO_RESULT_CANCELLED, None, w)) ?hs False two_wait_sets =
      Inr (MOJO_RESULT_FAILED_PRECONDITION, Some 1, [], w')"
    by (simp add: WaitMany_def WaitManyInternal_def two_wait_sets_eval V_AddAwakable_def V_RemoveAwakable_def WS_AddAwakable_def
        WS_GetHandleSignalsState_def WaitSet_new_def WS_RemoveAwakable_def WS_awake_def Let_def example_platform_def)
  then show ?thesis using WaitMany_leaves_no_waiter [OF w' two_wait_sets_waits] by auto
qed

text \<open>The second set is added to the first, and woken.\<close>

definition woken_set :: Core where
  "woken_set =
     put_object 0 (D_WaitSet (WakeDispatcher MOJO_RESULT_OK 1
        (WaitSet_new\<lparr>ws_waiting_dispatchers :=
           [(1, \<lparr>wst_dispatcher = 1, wst_signals = {MOJO_HANDLE_SIGNAL_READABLE}, wst_context = 2\<rparr>)]\<rparr>)))
       (put_object 1 (D_WaitSet (WaitSet_new\<lparr>ws_awakable_list :=
           [AddAwakable_call 0 {MOJO_HANDLE_SIGNAL_READABLE} 1, RemoveAwakable_call 0]\<rparr>)) two_wait_sets)"

lemma woken_set_reached: "(wait_set_step example_platform 0)\<^sup>*\<^sup>* two_wait_sets woken_set"
proof -
  let ?ws = "WaitSet_new\<lparr>ws_waiting_dispatchers :=
           [(1, \<lparr>wst_dispatcher = 1, wst_signals = {MOJO_HANDLE_SIGNAL_READABLE}, wst_context = 2\<rparr>)]\<rparr>"
  let ?w1 = "put_object 0 (D_WaitSet ?ws)
       (put_object 1 (D_WaitSet (WaitSet_new\<lparr>ws_awakable_list := [AddAwakable_call 0 {MOJO_HANDLE_SIGNAL_READABLE} 1]\<rparr>)) two_wait_sets)"
  let ?w2 = "put_object 1 (D_WaitSet (WaitSet_new\<lparr>ws_awakable_list :=
           [AddAwakable_call 0 {MOJO_HANDLE_SIGNAL_READABLE} 1, RemoveAwakable_call 0]\<rparr>)) ?w1"
  have "AddHandle example_platform 1 2 {MOJO_HANDLE_SIGNAL_READABLE} two_wait_sets = Inr (MOJO_RESULT_OK, ?w1)"
    by (simp add: AddHandle_def two_wait_sets_eval WS_AddWaitingDispatcher_def add_waiter_def V_AddAwakable_def WS_AddAwakable_def
        WS_GetHandleSignalsState_def WaitSet_new_def WS_awake_def Let_def example_platform_def om_insert_def)
  then have "wait_set_step example_platform 0 two_wait_sets ?w1"
    by (rule AddHandle_step) (rule two_wait_sets_eval)
  moreover have "remove_waiter 0 1 ?w1 = Inr ?w2"
    by (simp add: remove_waiter_def V_RemoveAwakable_def WS_RemoveAwakable_def WS_awake_def WS_GetHandleSignalsState_def WaitSet_new_def)
  then have "wait_set_step example_platform 0 ?w1 (put_object 0 (D_WaitSet (WakeDispatcher MOJO_RESULT_OK 1 ?ws)) ?w2)"
    by (intro WaiterWoken) (simp_all add: waited_by_def waits_on_def listed_def)
  moreover have "put_object 0 (D_WaitSet (WakeDispatcher MOJO_RESULT_OK 1 ?ws)) ?w2 = woken_set"
    by (simp add: woken_set_def put_object_def fun_upd_twist)
  ultimately show ?thesis by simp
qed

theorem wait_set_partition_witness:
  "\<exists>ws. core_objects woken_set 0 = Some (D_WaitSet ws) \<and> ws_inv ws (waited_by 0 woken_set) \<and> map fst (ws_awoken_queue ws) = [1]"
  using wait_set_partition [OF woken_set_reached] two_wait_sets_waits
  by (auto simp: two_wait_sets_eval woken_set_def WakeDispatcher_def WS_awake_def WaitSet_new_def)

lemma woken_set_ok: "wait_set_ok 0 woken_set"
proof -
  have "wait_set_ok 0 two_wait_sets"
    using ws_inv_new two_wait_sets_waits by (simp add: wait_set_ok_def two_wait_sets_eval) (simp add: WaitSet_new_def)
  with woken_set_reached show ?thesis by (induction rule: rtranclp_induct) (blast intro: wait_set_step_ok)+
qed

theorem wait_set_reports_in_order_witness:
  "case core_objects woken_set 0 of
     Some (D_WaitSet ws) \<Rightarrow>
       (case WS_GetReadyDispatchers (add_waiter example_platform 0) 5 ws woken_set of
          Inr (rv, out, ws', _) \<Rightarrow> rv = MOJO_RESULT_OK \<and> out = [(1, MOJO_RESULT_OK, 2)] \<and> ws_awoken_queue ws' = []
        | _ \<Rightarrow> False)
   | _ \<Rightarrow> False"
proof -
  define ws where "ws = WakeDispatcher MOJO_RESULT_OK 1
        (WaitSet_new\<lparr>ws_waiting_dispatchers :=
           [(1, \<lparr>wst_dispatcher = 1, wst_signals = {MOJO_HANDLE_SIGNAL_READABLE}, wst_context = 2\<rparr>)]\<rparr>)"
  have o: "core_objects woken_set 0 = Some (D_WaitSet ws)" by (simp add: woken_set_def ws_def)
  have e: "WS_GetReadyDispatchers (add_waiter example_platform 0) 5 ws woken_set =
      Inr (MOJO_RESULT_OK, [(1, MOJO_RESULT_OK, 2)], ws\<lparr>ws_awoken_queue := [], ws_processed_dispatchers := [1]\<rparr>, woken_set)"
    by (simp add: WS_GetReadyDispatchers_def ws_def WakeDispatcher_def WS_awake_def WaitSet_new_def)
  show ?thesis using wait_set_reports_in_order [OF woken_set_ok o, of example_platform 5] by (simp add: o e)
qed


text \<open>The first set has returned the second, which has a dispatcher queued.\<close>

definition returned_set :: Core where
  "returned_set =
     put_object 0 (D_WaitSet (WaitSet_new\<lparr>ws_waiting_dispatchers :=
           [(1, \<lparr>wst_dispatcher = 1, wst_signals = {MOJO_HANDLE_SIGNAL_READABLE}, wst_context = 2\<rparr>)],
           ws_processed_dispatchers := [1]\<rparr>))
       (put_object 1 (D_WaitSet (WaitSet_new\<lparr>ws_awoken_queue := [(9, MOJO_RESULT_OK)]\<rparr>)) two_wait_sets)"

theorem wait_set_level_triggered_witness:
  "case core_objects returned_set 0 of
     Some (D_WaitSet ws) \<Rightarrow>
       (case WS_GetReadyDispatchers (add_waiter example_platform 0) 5 ws returned_set of
          Inr (rv, out, ws', _) \<Rightarrow> \<exists>ctx. (1, MOJO_RESULT_OK, ctx) \<in> set out
        | _ \<Rightarrow> False)
   | _ \<Rightarrow> False"
proof -
  define ws where "ws = WaitSet_new\<lparr>ws_waiting_dispatchers :=
           [(1, \<lparr>wst_dispatcher = 1, wst_signals = {MOJO_HANDLE_SIGNAL_READABLE}, wst_context = 2\<rparr>)],
           ws_processed_dispatchers := [1]\<rparr>"
  define ready where "ready w \<longleftrightarrow> (\<exists>s. core_objects w 1 = Some (D_WaitSet s) \<and> ws_awoken_queue s \<noteq> [])" for w :: Core
  have o: "core_objects returned_set 0 = Some (D_WaitSet ws)" by (simp add: returned_set_def ws_def)
  have wb: "waited_by 0 returned_set = {}" using two_wait_sets_waits by (simp add: returned_set_def WaitSet_new_def)
  have ok: "wait_set_ok 0 returned_set"
    unfolding wait_set_ok_def o wb by (simp add: ws_def WaitSet_new_def ws_inv_def filed_def)
  have r0: "ready returned_set" by (simp add: ready_def returned_set_def)
  have r1: "ready w2" if "ready w1" "d' \<noteq> 1" "add_waiter example_platform 0 d' sg ctx w1 = Inr (rv, w2)" for d' sg ctx w1 rv w2
    using that unfolding ready_def add_waiter_def V_AddAwakable_def
    by (auto split: option.splits Dispatcher.splits sum.splits prod.splits)
  obtain rv out ws' w' where g: "WS_GetReadyDispatchers (add_waiter example_platform 0) 5 ws returned_set = Inr (rv, out, ws', w')"
    "length out = 1"
    by (simp add: WS_GetReadyDispatchers_def ws_def add_waiter_def V_AddAwakable_def WS_AddAwakable_def WS_GetHandleSignalsState_def
        WakeDispatcher_def WS_awake_def WaitSet_new_def returned_set_def example_platform_def Let_def)
  define st where "st = \<lparr>wst_dispatcher = 1, wst_signals = {MOJO_HANDLE_SIGNAL_READABLE}, wst_context = 2\<rparr>"
  have r2: "rv = MOJO_RESULT_ALREADY_EXISTS" if "ready w1" "add_waiter example_platform 0 1 (wst_signals st) 1 w1 = Inr (rv, w2)"
    for w1 rv w2
    using that by (auto simp: ready_def add_waiter_def V_AddAwakable_def WS_AddAwakable_def WS_GetHandleSignalsState_def st_def
        example_platform_def Let_def split: if_splits)
  have d: "1 \<in> set (ws_processed_dispatchers ws)" "map_of (ws_waiting_dispatchers ws) 1 = Some st" "length out < unat (5 :: uint32_t)"
    using g(2) by (simp_all add: ws_def st_def)
  show ?thesis
    using wait_set_level_triggered [where ready = ready, OF ok o d(1) r1 r2 d(2) r0 g(1) d(3)] by (simp add: o g(1))
qed

end
