(* ===== verification/Pipe_Refinement.thy ===== *)
theory Pipe_Refinement
  imports Wait_Props
begin

text \<open>
  A message pipe whose two ends live in one process is a pair of queues of messages: the system calls on
  the two handles refine the operations of two plain queues, under every interleaving.
\<close>

section \<open>The controller under a pipe\<close>

lemma linkedh_delegate [simp]: "linkedh r0 r1 (n\<lparr>delegate_calls := ds\<rparr>) xs = linkedh r0 r1 n xs"
  by (simp add: linkedh_def Let_def)

lemma NC_SendMessage_linkedh:
  assumes "linkedh r0 r1 (nc_node c) xs" "quiet c" "m = (NewUserMessage [] w)\<lparr>msg_handles := hs\<rparr>"
  obtains c' where "NC_SendMessage fuel r0 m c = Some (Inr (OK, None, c'))" "quiet c'"
    "linkedh r0 r1 (nc_node c') (xs @ [(w, hs)])"
    "\<And>vs. linkedh r1 r0 (nc_node c) vs \<Longrightarrow> linkedh r1 r0 (nc_node c') vs"
    "read_so_far r1 (nc_node c') = read_so_far r1 (nc_node c)" "read_so_far r0 (nc_node c') = read_so_far r0 (nc_node c)"
proof -
  obtain n where n: "SendMessage r0 m (nc_node c) = Inr (OK, None, n)" "linkedh r0 r1 n (xs @ [(w, hs)])"
    "\<forall>vs. linkedh r1 r0 (nc_node c) vs \<longrightarrow> linkedh r1 r0 n vs" "read_so_far r1 n = read_so_far r1 (nc_node c)"
    "read_so_far r0 n = read_so_far r0 (nc_node c)" "set (delegate_calls n) \<subseteq> range PortStatusChanged"
    using SendMessage_linkedh [OF assms(1,3)] assms(2) by (auto simp: quiet_def)
  have inc: "incoming_messages (run_delegate n c) = []" using run_delegate_status [OF n(6), of c] assms(2) by (simp add: quiet_def)
  let ?c1 = "AttemptShutdownIfRequested (run_delegate n c)"
  have "NC_SendMessage fuel r0 m c = Some (Inr (OK, None, ?c1))"
    using n(1) inc by (simp add: NC_SendMessage_def AcceptIncomingMessages_def pump.simps)
  then show thesis using n inc by (intro that [of ?c1]) (simp_all add: quiet_def)
qed

section \<open>Frames\<close>

text \<open>The payload of a message that carries no dispatchers.\<close>

definition pipe_frame :: "uint8_t list \<Rightarrow> uint8_t list" where
  "pipe_frame w = pipe_payload [] [] w"

lemma pipe_frame_simps [simp]:
  "length (pipe_frame w) = 8 + length w" "read_u32 (pipe_frame w) = 0" "read_u32 (drop 4 (pipe_frame w)) = 8"
  "drop 8 (pipe_frame w) = w"
  using u32.dec_skip [of "write_u32 0" 4 8 w] u32.dec_enc [of 0 "write_u32 8 @ w"]
  by (simp_all add: pipe_frame_def pipe_payload_def header_size_def data_size_def write_array_def u32.enc_length)

lemma frame_available:
  assumes "msg_payload m = pipe_frame w"
  shows "bytes_available m = of_nat (length w)" "handles_available m = 0"
  using assms by (simp_all add: bytes_available_def handles_available_def)

lemma frame_has_space:
  assumes "msg_payload m = pipe_frame w" "length w < 2 ^ 32"
  shows "has_space nb nh m \<longleftrightarrow> length w \<le> (case nb of None \<Rightarrow> 0 | Some k \<Rightarrow> unat k)"
proof -
  have u: "unat (of_nat (length w) :: uint32_t) = length w" using assms(2) by (simp add: unat_of_nat)
  show ?thesis
    using frame_available [OF assms(1)] u
    by (cases nb; cases nh) (auto simp: has_space_def Let_def word_le_nat_alt word_less_nat_alt min_def not_less)
qed

section \<open>Two queues\<close>

datatype mp_op = Send bool "uint8_t list" | Receive bool "uint32_t option" "uint32_t option" bool

fun spec_receive ::
  "uint32_t option \<Rightarrow> uint32_t option \<Rightarrow> bool \<Rightarrow> uint8_t list list \<Rightarrow> read_outcome \<times> uint8_t list list" where
  "spec_receive nb nh discard [] = ((MOJO_RESULT_SHOULD_WAIT, nb, nh, [], []), [])"
| "spec_receive nb nh discard (w # ws) =
     (let nb' = map_option (\<lambda>_. of_nat (length w)) nb; nh' = map_option (\<lambda>_. 0) nh
      in if length w \<le> (case nb of None \<Rightarrow> 0 | Some k \<Rightarrow> unat k) then ((MOJO_RESULT_OK, nb', nh', w, []), ws)
         else ((MOJO_RESULT_RESOURCE_EXHAUSTED, nb', nh', [], []), if discard then ws else w # ws))"

text \<open>
  The state of the specification is the messages under way to the second end and to the first; a flag
  in an operation says that it is on the second end.
\<close>

type_synonym mp_spec = "uint8_t list list \<times> uint8_t list list"

fun mp_spec_step :: "mp_op \<Rightarrow> mp_spec \<Rightarrow> read_outcome \<times> mp_spec" where
  "mp_spec_step (Send False w) (q0, q1) = ((MOJO_RESULT_OK, None, None, [], []), (q0 @ [w], q1))"
| "mp_spec_step (Send True w) (q0, q1) = ((MOJO_RESULT_OK, None, None, [], []), (q0, q1 @ [w]))"
| "mp_spec_step (Receive False nb nh discard) (q0, q1) = (let (out, q1') = spec_receive nb nh discard q1 in (out, (q0, q1')))"
| "mp_spec_step (Receive True nb nh discard) (q0, q1) = (let (out, q0') = spec_receive nb nh discard q0 in (out, (q0', q1)))"

fun mp_spec_run :: "mp_op list \<Rightarrow> mp_spec \<Rightarrow> read_outcome list \<times> mp_spec" where
  "mp_spec_run [] S = ([], S)"
| "mp_spec_run (x # xs) S = (let (out, S1) = mp_spec_step x S; (outs, S2) = mp_spec_run xs S1 in (out # outs, S2))"

text \<open>The same on the handles of the two ends.\<close>

fun mp_step ::
  "nat \<Rightarrow> platform \<Rightarrow> MojoHandle \<Rightarrow> MojoHandle \<Rightarrow> mp_op \<Rightarrow> Core \<Rightarrow> (read_outcome \<times> Core) outcome" where
  "mp_step fuel pl h0 h1 (Send b w) c =
     and_then (Core_WriteMessage fuel pl (if b then h1 else h0) w [] c)
       (\<lambda>(rv, c'). Some (Inr ((rv, None, None, [], []), c')))"
| "mp_step fuel pl h0 h1 (Receive b nb nh discard) c =
     Core_ReadMessage fuel pl (if b then h1 else h0) True nb True nh discard c"

fun mp_run ::
  "nat \<Rightarrow> platform \<Rightarrow> MojoHandle \<Rightarrow> MojoHandle \<Rightarrow> mp_op list \<Rightarrow> Core \<Rightarrow> (read_outcome list \<times> Core) outcome" where
  "mp_run fuel pl h0 h1 [] c = Some (Inr ([], c))"
| "mp_run fuel pl h0 h1 (x # xs) c =
     and_then (mp_step fuel pl h0 h1 x c) (\<lambda>(out, c1).
     and_then (mp_run fuel pl h0 h1 xs c1) (\<lambda>(outs, c2). Some (Inr (out # outs, c2))))"

section \<open>The refinement relation\<close>

text \<open>A handle that names an open end of a pipe over a port.\<close>

definition pipe_end :: "MojoHandle \<Rightarrow> PortRef \<Rightarrow> Core \<Rightarrow> bool" where
  "pipe_end h r w \<longleftrightarrow> (\<exists>a d. Core_GetDispatcher h w = Some a \<and> core_objects w a = Some (D_MessagePipe d) \<and>
     mp_port d = r \<and> \<not> mp_port_closed d \<and> \<not> mp_in_transit d)"

definition frames :: "uint8_t list list \<Rightarrow> (uint8_t list \<times> PlatformHandle list) list" where
  "frames q = map (\<lambda>w. (pipe_frame w, [])) q"

definition mp_state :: "nat \<Rightarrow> MojoHandle \<Rightarrow> MojoHandle \<Rightarrow> PortRef \<Rightarrow> PortRef \<Rightarrow> Core \<Rightarrow> mp_spec \<Rightarrow> bool" where
  "mp_state N h0 h1 r0 r1 w S \<longleftrightarrow>
     pipe_end h0 r0 w \<and> pipe_end h1 r1 w \<and> quiet (controller w) \<and>
     linkedh r0 r1 (nc_node (controller w)) (frames (fst S)) \<and> linkedh r1 r0 (nc_node (controller w)) (frames (snd S)) \<and>
     read_so_far r1 (nc_node (controller w)) + length (fst S) \<le> N \<and>
     read_so_far r0 (nc_node (controller w)) + length (snd S) \<le> N \<and>
     (\<forall>m \<in> set (fst S) \<union> set (snd S). length m < 2 ^ 32)"

definition mp_rel :: "nat \<Rightarrow> MojoHandle \<Rightarrow> MojoHandle \<Rightarrow> Core \<Rightarrow> mp_spec \<Rightarrow> bool" where
  "mp_rel N h0 h1 w S \<longleftrightarrow> (\<exists>r0 r1. mp_state N h0 h1 r0 r1 w S)"

lemma mp_state_swap: "mp_state N h0 h1 r0 r1 w (q0, q1) = mp_state N h1 h0 r1 r0 w (q1, q0)"
  by (auto simp: mp_state_def)

lemma mp_rel_swap: "mp_rel N h0 h1 w (q0, q1) = mp_rel N h1 h0 w (q1, q0)"
  unfolding mp_rel_def by (metis mp_state_swap)

lemma pipe_end_controller [simp]: "pipe_end h r (set_controller c w) = pipe_end h r w"
  by (simp add: pipe_end_def Core_GetDispatcher_def)

lemma write_refines:
  assumes "mp_rel N h0 h1 w (q0, q1)" "length bytes < 2 ^ 32"
  shows "\<exists>w'. Core_WriteMessage fuel pl h0 bytes [] w = Some (Inr (MOJO_RESULT_OK, w')) \<and> mp_rel (Suc N) h0 h1 w' (q0 @ [bytes], q1)"
proof -
  obtain r0 r1 where r: "mp_state N h0 h1 r0 r1 w (q0, q1)" using assms(1) by (auto simp: mp_rel_def)
  then obtain a d where d: "Core_GetDispatcher h0 w = Some a" "core_objects w a = Some (D_MessagePipe d)" "mp_port d = r0"
    "\<not> mp_port_closed d" "\<not> mp_in_transit d"
    by (auto simp: mp_state_def pipe_end_def)
  define m where "m = (NewUserMessage [] (pipe_frame bytes))\<lparr>msg_handles := []\<rparr>"
  have l: "linkedh r0 r1 (nc_node (controller w)) (frames q0)" "quiet (controller w)" using r by (auto simp: mp_state_def)
  obtain c' where c: "NC_SendMessage fuel r0 m (controller w) = Some (Inr (OK, None, c'))" "quiet c'"
    "linkedh r0 r1 (nc_node c') (frames q0 @ [(pipe_frame bytes, [])])"
    "\<And>vs. linkedh r1 r0 (nc_node (controller w)) vs \<Longrightarrow> linkedh r1 r0 (nc_node c') vs"
    "read_so_far r1 (nc_node c') = read_so_far r1 (nc_node (controller w))"
    "read_so_far r0 (nc_node c') = read_so_far r0 (nc_node (controller w))"
    using NC_SendMessage_linkedh [OF l m_def] by metis
  have "Core_WriteMessage fuel pl h0 bytes [] w = Some (Inr (MOJO_RESULT_OK, set_controller c' w))"
    using d c(1) by (simp add: Core_WriteMessage_def V_WriteMessage_def MP_WriteMessage_def PortsMessage_SetHandles_def pipe_frame_def m_def
        MP_send_result_def)
  moreover have "mp_state (Suc N) h0 h1 r0 r1 (set_controller c' w) (q0 @ [bytes], q1)"
    using r c(2-6) assms(2) by (auto simp: mp_state_def frames_def)
  ultimately show ?thesis by (auto simp: mp_rel_def)
qed

text \<open>What the selector of \<open>ReadMessage\<close> sees.\<close>

lemma linkedh_next_message:
  assumes "linkedh r0 r1 n xs"
  shows "next_message r1 n = (if HasNextMessage (message_queue (port_at n (ref_port r1)))
           then Some (mq_heap (message_queue (port_at n (ref_port r1))) ! 0) else None)"
  using assms by (simp add: next_message_def linkedh_def CanAcceptMoreMessages_def Let_def)

lemma linkedh_empty:
  assumes "linkedh r0 r1 n []"
  shows "next_message r1 n = None" "GetMessageIf r1 sel n = Inr (OK, None, n)"
proof -
  let ?q = "message_queue (port_at n (ref_port r1))"
  have e: "\<not> HasNextMessage ?q" using assms by (auto simp: linkedh_def Let_def in_flight_def HasNextMessage_def)
  then show "next_message r1 n = None" using linkedh_next_message [OF assms] by simp
  have "modify_port (ref_port r1) (\<lambda>p. p\<lparr>message_queue := ?q\<rparr>) n = n" by (simp add: modify_port_def)
  then show "GetMessageIf r1 sel n = Inr (OK, None, n)"
    using assms e by (auto simp: GetMessageIf_def GetNextMessageIf_def linkedh_def Let_def CanAcceptMoreMessages_def)
qed

lemma set_node_same [simp]: "set_node (nc_node c) c = c" "set_controller (controller w) w = w"
  by (simp_all add: set_node_def set_controller_def)

lemma read_refines:
  assumes "mp_rel N h0 h1 w (q0, q1)" "N < 2 ^ 64"
  shows "\<exists>w'. Core_ReadMessage fuel pl h1 True nb True nh discard w = Some (Inr (fst (spec_receive nb nh discard q0), w')) \<and>
    mp_rel N h0 h1 w' (snd (spec_receive nb nh discard q0), q1)"
proof -
  obtain r0 r1 where r: "mp_state N h0 h1 r0 r1 w (q0, q1)" using assms(1) by (auto simp: mp_rel_def)
  then obtain a d where d: "Core_GetDispatcher h1 w = Some a" "core_objects w a = Some (D_MessagePipe d)" "mp_port d = r1"
    "\<not> mp_port_closed d" "\<not> mp_in_transit d"
    by (auto simp: mp_state_def pipe_end_def)
  let ?n = "nc_node (controller w)"
  show ?thesis
  proof (cases q0)
    case Nil
    then have "linkedh r0 r1 ?n []" using r by (simp add: mp_state_def frames_def)
    from linkedh_empty [OF this] have "Core_ReadMessage fuel pl h1 True nb True nh discard w =
        Some (Inr ((MOJO_RESULT_SHOULD_WAIT, nb, nh, [], []), w))"
      using d by (simp add: Core_ReadMessage_def V_ReadMessage_def MP_ReadMessage_def Let_def)
    then show ?thesis using Nil assms(1) by simp
  next
    case (Cons v vs)
    have l: "linkedh r0 r1 ?n ((pipe_frame v, []) # frames vs)" and len: "length v < 2 ^ 32"
      and b: "read_so_far r1 ?n + length ((pipe_frame v, []) # frames vs) < 2 ^ 64"
      using r Cons assms(2) by (auto simp: mp_state_def frames_def)
    show ?thesis
    proof (rule GetMessageIf_linkedh [OF l b])
      fix m n'
      assume m: "msg_payload m = pipe_frame v" "msg_handles m = []" "msg_ports m = []"
        "HasNextMessage (message_queue (port_at ?n (ref_port r1)))" "mq_heap (message_queue (port_at ?n (ref_port r1))) ! 0 = m"
        and take: "\<And>f. f m \<Longrightarrow> GetMessageIf r1 (Some f) ?n = Inr (OK, Some m, n')"
        and keep: "\<And>f. \<not> f m \<Longrightarrow> GetMessageIf r1 (Some f) ?n = Inr (OK, None, ?n)"
        and n': "linkedh r0 r1 n' (frames vs)" "read_so_far r1 n' = Suc (read_so_far r1 ?n)"
        "\<And>vs. linkedh r1 r0 ?n vs \<Longrightarrow> linkedh r1 r0 n' vs" "read_so_far r0 n' = read_so_far r0 ?n"
        "delegate_calls n' = delegate_calls ?n"
      have nm: "next_message r1 ?n = Some m" using linkedh_next_message [OF l] m(4,5) by simp
      note av = frame_available [OF m(1)] and sp = frame_has_space [OF m(1) len, of nb nh]
      let ?w' = "set_controller (set_node n' (controller w)) w"
      have rel': "mp_rel N h0 h1 ?w' (vs, q1)"
        unfolding mp_rel_def using r n' Cons
        by (intro exI [of _ r0] exI [of _ r1]) (auto simp: mp_state_def quiet_def set_node_def)
      show ?thesis
      proof (cases "has_space nb nh m")
        case True
        then have "Core_ReadMessage fuel pl h1 True nb True nh discard w =
            Some (Inr ((MOJO_RESULT_OK, map_option (\<lambda>_. of_nat (length v)) nb, map_option (\<lambda>_. 0) nh, v, []), ?w'))"
          using d nm take av m(1) by (simp add: Core_ReadMessage_def V_ReadMessage_def MP_ReadMessage_def MP_receive_def Let_def)
        then show ?thesis using Cons True sp rel' by (simp add: Let_def)
      next
        case False
        then have "Core_ReadMessage fuel pl h1 True nb True nh discard w =
            Some (Inr ((MOJO_RESULT_RESOURCE_EXHAUSTED, map_option (\<lambda>_. of_nat (length v)) nb, map_option (\<lambda>_. 0) nh, [], []),
              if discard then ?w' else w))"
          using d nm take keep av m(1) by (simp add: Core_ReadMessage_def V_ReadMessage_def MP_ReadMessage_def Let_def)
        then show ?thesis using Cons False sp rel' assms(1) by (simp add: Let_def)
      qed
    qed
  qed
qed

lemma mp_rel_mono: "mp_rel N h0 h1 w S \<Longrightarrow> N \<le> M \<Longrightarrow> mp_rel M h0 h1 w S"
  unfolding mp_rel_def mp_state_def by (meson le_trans)

fun op_ok :: "mp_op \<Rightarrow> bool" where
  "op_ok (Send _ w) = (length w < 2 ^ 32)"
| "op_ok (Receive _ _ _ _) = True"

lemma mp_step_refines:
  assumes "mp_rel N h0 h1 w S" "Suc N < 2 ^ 64" "op_ok x"
  shows "\<exists>w'. mp_step fuel pl h0 h1 x w = Some (Inr (fst (mp_spec_step x S), w')) \<and>
    mp_rel (Suc N) h0 h1 w' (snd (mp_spec_step x S))"
proof -
  obtain q0 q1 where S: "S = (q0, q1)" by fastforce
  have rel: "mp_rel N h0 h1 w (q0, q1)" and rel2: "mp_rel N h1 h0 w (q1, q0)" using assms(1) S mp_rel_swap by auto
  have N: "N < 2 ^ 64" using assms(2) by simp
  show ?thesis
  proof (cases x)
    case (Send b bytes)
    then have "length bytes < 2 ^ 32" using assms(3) by simp
    then show ?thesis
      using Send S write_refines [OF rel, of bytes fuel pl] write_refines [OF rel2, of bytes fuel pl] mp_rel_swap by (cases b) auto
  next
    case (Receive b nb nh discard)
    then show ?thesis
      using S read_refines [OF rel N, of fuel pl nb nh discard] read_refines [OF rel2 N, of fuel pl nb nh discard] mp_rel_swap
        mp_rel_mono [of N _ _ _ _ "Suc N"]
      by (cases b) (fastforce split: prod.splits)+
  qed
qed

text \<open>
  C2: A message pipe between two handles of one process is two queues of messages: whatever is written and
  read on the two handles, in whatever order, every call returns, and returns what the two plain queues
  return.  A message is received whole and in order; a read whose buffer is too small reports the size and
  leaves the message, unless the caller allows it to be discarded; a read of an empty queue says so
  (as long as the 64-bit sequence numbers do not wrap).
\<close>

theorem message_pipe_refines_queues:
  assumes "mp_rel N h0 h1 w S" "N + length ops < 2 ^ 64" "\<forall>x \<in> set ops. op_ok x"
  shows "\<exists>w'. mp_run fuel pl h0 h1 ops w = Some (Inr (fst (mp_spec_run ops S), w')) \<and>
    mp_rel (N + length ops) h0 h1 w' (snd (mp_spec_run ops S))"
  using assms
proof (induction ops arbitrary: N w S)
  case Nil
  then show ?case by simp
next
  case (Cons x ops)
  obtain w1 where w1: "mp_step fuel pl h0 h1 x w = Some (Inr (fst (mp_spec_step x S), w1))" "mp_rel (Suc N) h0 h1 w1 (snd (mp_spec_step x S))"
    using mp_step_refines [OF Cons.prems(1), of x fuel pl] Cons.prems(2,3) by auto
  obtain w2 where "mp_run fuel pl h0 h1 ops w1 = Some (Inr (fst (mp_spec_run ops (snd (mp_spec_step x S))), w2))"
    "mp_rel (Suc N + length ops) h0 h1 w2 (snd (mp_spec_run ops (snd (mp_spec_step x S))))"
    using Cons.IH [OF w1(2)] Cons.prems(2,3) by auto
  then show ?case using w1(1) by (auto split: prod.splits)
qed

section \<open>A new pipe\<close>

lemma linkedh_Nil: "linkedh r0 r1 n [] \<longleftrightarrow> linked r0 r1 n []"
  by (auto simp: linked_iff)

lemma linkedh_SetUserData [simp]: "linkedh r0 r1 (snd (SetUserData r d n)) xs = linkedh r0 r1 n xs"
  by (auto simp: SetUserData_def linkedh_def Let_def modify_port_def)

lemma CreatePortPair_calls:
  assumes "CreatePortPair n = Inr (rv, r0, r1, n')"
  shows "set (delegate_calls n') \<subseteq> set (delegate_calls n) \<union> range PortStatusChanged"
proof -
  have u: "delegate_calls b = delegate_calls a" if "CreateUninitializedPort a = Inr (r, b)" for a r b
    using that by (auto simp: CreateUninitializedPort_def GenerateRandomPortName_def new_port_def AddPortWithName_def Let_def
        split: if_splits)
  have i: "set (delegate_calls b) \<subseteq> set (delegate_calls a) \<union> range PortStatusChanged" if "InitializePort r nd nm a = (rv, b)"
    for a b r nd nm rv
    using that by (auto simp: InitializePort_def status_changed_def modify_port_def split: if_splits)
  obtain n1 n2 rv3 n3 where "CreateUninitializedPort n = Inr (r0, n1)" "CreateUninitializedPort n1 = Inr (r1, n2)"
    "InitializePort r0 (node_name n2) (ref_name r1) n2 = (rv3, n3)"
    "n' = n3 \<or> (\<exists>rv4. InitializePort r1 (node_name n3) (ref_name r0) n3 = (rv4, n'))"
    using assms by (auto simp: CreatePortPair_def split: sum.splits prod.splits if_splits)
  moreover from this have "set (delegate_calls n3) \<subseteq> set (delegate_calls n) \<union> range PortStatusChanged" using u i by metis
  ultimately show ?thesis using i [of r1 "node_name n3" "ref_name r0" n3 _ n'] by blast
qed

lemma CreateMessagePipe_rel:
  assumes "node_inv (nc_node (controller w))" "quiet (controller w)" "table_inv (core_handles w)"
    and "next_available_handle (core_handles w) \<noteq> 0" "next_available_handle (core_handles w) + 1 \<noteq> 0"
    and "CreatePortPair (nc_node (controller w)) = Inr (rv, p0, p1, n)"
  obtains h0 h1 w' where "CreateMessagePipe pipe_id w = Inr (MOJO_RESULT_OK, (h0, h1), w')" "mp_rel 1 h0 h1 w' ([], [])"
proof -
  let ?c = "controller w" and ?t = "core_handles w"
  define h where "h = next_available_handle ?t"
  note l = CreatePortPair_linked [OF assms(1,6)]
  have ca: "set (delegate_calls n) \<subseteq> range PortStatusChanged" using CreatePortPair_calls [OF assms(6)] assms(2) by (simp add: quiet_def)
  define c0 where "c0 = run_delegate n ?c"
  have c0: "quiet c0" "nc_node c0 = n\<lparr>delegate_calls := []\<rparr>"
    using run_delegate_status [OF ca, of ?c] assms(2) by (simp_all add: c0_def quiet_def)
  let ?a = "core_next w"
  obtain d0 c1 where m0: "MessagePipeDispatcher ?a p0 pipe_id 0 c0 = (d0, c1)" by fastforce
  obtain d1 c2 where m1: "MessagePipeDispatcher (Suc ?a) p1 pipe_id 1 c1 = (d1, c2)" by fastforce
  obtain t1 where t1: "AddDispatcher ?a ?t = (h, t1)" "map_of (handles t1) = (map_of (handles ?t))(h \<mapsto> Entry_init ?a)"
    "next_available_handle t1 = h + 1" "table_inv t1"
    using AddDispatcher_next [OF assms(3,4), of ?a] unfolding h_def by metis
  have "next_available_handle t1 \<noteq> 0" using t1(3) assms(5) by (simp add: h_def)
  then obtain t2 where a2: "AddDispatcher (Suc ?a) t1 = (h + 1, t2)" "map_of (handles t2) = (map_of (handles t1))(h + 1 \<mapsto> Entry_init (Suc ?a))"
    using AddDispatcher_next [OF t1(4), of "Suc ?a"] t1(3) by metis
  then have t2: "AddDispatcher (Suc ?a) t1 = (h + 1, t2)" "GetDispatcher (h + 1) t2 = Some (Suc ?a)" "GetDispatcher h t2 = Some ?a"
    using t1(2) by (simp_all add: GetDispatcher_def Entry_init_def)
  let ?w' = "\<lparr>core_env = (core_env w)\<lparr>pe_controller := c2\<rparr>, core_objects = (core_objects w)(?a := Some (D_MessagePipe d0),
      Suc ?a := Some (D_MessagePipe d1)), core_next = Suc (Suc ?a), core_handles = t2\<rparr>"
  have "CreateMessagePipe pipe_id w = Inr (MOJO_RESULT_OK, (h, h + 1), ?w')"
    using assms(4,5,6) m0 m1 t1 t2
    by (simp add: CreateMessagePipe_def new_MessagePipe_def alloc_def put_object_def set_controller_def Core_AddDispatcher_def
        c0_def h_def Let_def)
  moreover have "mp_state 1 h (h + 1) p0 p1 ?w' ([], [])"
    using l c0 m0 m1 t2
    by (auto simp: mp_state_def pipe_end_def Core_GetDispatcher_def MessagePipeDispatcher_def frames_def linkedh_Nil SetPortObserver_def
        set_node_def quiet_def)
  ultimately show thesis using that by (auto simp: mp_rel_def)
qed

text \<open>A pipe with the handles 1 and 2.\<close>

definition example_message_pipe :: Core where
  "example_message_pipe = (case CreateMessagePipe 5 example_core of Inr (_, _, w) \<Rightarrow> w | Inl _ \<Rightarrow> example_core)"

lemma example_message_pipe_eval:
  "CreateMessagePipe 5 example_core = Inr (MOJO_RESULT_OK, (1, 2), example_message_pipe)"
  "core_handles example_message_pipe = \<lparr>handles = [(1, Entry_init 0), (2, Entry_init 1)], next_available_handle = 3\<rparr>"
  "core_next example_message_pipe = 2"
proof -
  have n: "nc_node (controller example_core) = example_node"
    by (simp add: example_core_def Core_init_def NodeController_init_def example_node_def)
  obtain r0 r1 m where e: "example_pair = (r0, r1, m)" using prod_cases3 by blast
  have h: "core_handles example_core = \<lparr>handles = [], next_available_handle = 1\<rparr>" "core_next example_core = 0"
    by (simp_all add: example_core_def Core_init_def HandleTable_init_def)
  have "\<exists>w. CreateMessagePipe 5 example_core = Inr (MOJO_RESULT_OK, (1, 2), w) \<and>
      core_handles w = \<lparr>handles = [(1, Entry_init 0), (2, Entry_init 1)], next_available_handle = 3\<rparr> \<and> core_next w = 2"
    using example_pair_eval(1) h
    by (simp add: CreateMessagePipe_def n e new_MessagePipe_def MessagePipeDispatcher_def alloc_def put_object_def set_controller_def
        Core_AddDispatcher_def AddDispatcher_def um_insert_def Let_def)
  then show "CreateMessagePipe 5 example_core = Inr (MOJO_RESULT_OK, (1, 2), example_message_pipe)"
    "core_handles example_message_pipe = \<lparr>handles = [(1, Entry_init 0), (2, Entry_init 1)], next_available_handle = 3\<rparr>"
    "core_next example_message_pipe = 2"
    by (auto simp: example_message_pipe_def)
qed

lemma example_message_pipe_rel: "mp_rel 1 1 2 example_message_pipe ([], [])"
proof -
  have n: "nc_node (controller example_core) = example_node"
    by (simp add: example_core_def Core_init_def NodeController_init_def example_node_def)
  have "node_inv (nc_node (controller example_core))" unfolding n example_node_def by (rule node_inv_init)
  moreover have "quiet (controller example_core)"
    by (simp add: quiet_def n example_node_def Node_init_def) (simp add: example_core_def Core_init_def NodeController_init_def)
  moreover have "table_inv (core_handles example_core)" "next_available_handle (core_handles example_core) = 1"
    using table_inv_init by (simp_all add: example_core_def Core_init_def HandleTable_init_def)
  moreover obtain p0 p1 m where "CreatePortPair (nc_node (controller example_core)) = Inr (OK, p0, p1, m)"
    unfolding n using example_pair_eval(1) by (metis prod_cases3)
  ultimately show ?thesis using CreateMessagePipe_rel [of example_core OK p0 p1 m 5] example_message_pipe_eval(1) by auto
qed

theorem message_pipe_refines_queues_witness:
  "\<exists>w'. mp_run 0 example_platform 1 2
       [Send False [1, 2], Send True [3], Receive True (Some 1) None False, Receive True (Some 2) None False,
        Receive False (Some 9) (Some 9) False, Receive False (Some 9) None False] example_message_pipe =
     Some (Inr ([(MOJO_RESULT_OK, None, None, [], []), (MOJO_RESULT_OK, None, None, [], []),
                 (MOJO_RESULT_RESOURCE_EXHAUSTED, Some 2, None, [], []), (MOJO_RESULT_OK, Some 2, None, [1, 2], []),
                 (MOJO_RESULT_OK, Some 1, Some 0, [3], []), (MOJO_RESULT_SHOULD_WAIT, Some 9, None, [], [])], w'))"
  using message_pipe_refines_queues [OF example_message_pipe_rel, of "[Send False [1, 2], Send True [3], Receive True (Some 1) None False,
        Receive True (Some 2) None False, Receive False (Some 9) (Some 9) False, Receive False (Some 9) None False]" 0 example_platform]
  by (auto simp: Let_def)

end
