(* ===== verification/Core_Props.thy ===== *)
theory Core_Props
  imports Pipe_Refinement
begin

text \<open>
  What the system calls do to handles: sending them is all or nothing, and the cases in which the code
  loses them.
\<close>

section \<open>Sending handles is all or nothing\<close>

lemma end_serialize_handles:
  "end_serialize pl off xs w = Inr (ser, w') \<Longrightarrow> core_handles w' = core_handles w \<and> core_env w' = core_env w"
proof (induction xs arbitrary: off w ser)
  case (Cons x xs)
  obtain a dh where x: "x = (a, dh)" by fastforce
  obtain d ok bytes nms hs d' where d: "core_objects w a = Some d"
    "V_EndSerialize pl (map (pl_garbage pl) [off..<off + unat (dh_num_bytes dh)]) d = Inr ((ok, bytes, nms, hs), d')"
    using Cons.prems x by (auto split: option.splits sum.splits prod.splits)
  show ?case
  proof (cases ok)
    case True
    then obtain s2 where "end_serialize pl (off + unat (dh_num_bytes dh)) xs (put_object a d' w) = Inr (s2, w')"
      using Cons.prems x d by (auto split: sum.splits prod.splits option.splits)
    from Cons.IH [OF this] show ?thesis by simp
  next
    case False
    then show ?thesis using Cons.prems x d by auto
  qed
qed simp

lemma V_WriteMessage_handles:
  assumes "V_WriteMessage fuel pl bytes ds a w = Some (Inr (rv, w'))"
  shows "core_handles w' = core_handles w"
proof -
  have r: "core_handles w2 = core_handles w1" if "MP_send_result rv0 a d w1 = Some (Inr (rv1, w2))" for rv0 d w1 rv1 w2
    using that by (auto simp: MP_send_result_def and_then_OK split: if_splits)
  show ?thesis
    using assms end_serialize_handles r
    by (fastforce simp: V_WriteMessage_def MP_WriteMessage_def and_then_OK split: option.splits Dispatcher.splits if_splits)
qed

text \<open>The ways in which a write that sends handles ends.\<close>

lemma Core_WriteMessage_cases:
  assumes "Core_WriteMessage fuel pl h bytes hs w = Some (Inr (rv, w'))" "hs \<noteq> []"
    and "BeginTransit V_BeginTransit hs (core_handles w) w = (rv1, ds, t1, w1)"
  obtains (rejected) "w' = w" "rv \<noteq> MOJO_RESULT_OK"
    | (cancelled) "rv1 \<noteq> MOJO_RESULT_OK" "rv = rv1" "Core_CancelTransit pl ds (w1\<lparr>core_handles := t1\<rparr>) = Some (Inr w')"
    | (written) a w2 where "rv1 = MOJO_RESULT_OK" "Core_GetDispatcher h w = Some a"
      "V_WriteMessage fuel pl bytes (map dit_dispatcher ds) a (w1\<lparr>core_handles := t1\<rparr>) = Some (Inr (rv, w2))"
      "(if rv = MOJO_RESULT_OK then Core_CompleteTransitAndClose fuel ds w2 else Core_CancelTransit pl ds w2) = Some (Inr w')"
proof -
  have "Core_BeginTransit hs w = (rv1, ds, w1\<lparr>core_handles := t1\<rparr>)" using assms(3) by (simp add: Core_BeginTransit_def)
  then show ?thesis
    using assms(1,2) rejected cancelled written
    by (auto simp: Core_WriteMessage_def and_then_OK split: option.splits if_splits)
qed

text \<open>
  C8: Sending handles in a message is all or nothing: when the call reports success, exactly the handles
  that were sent, which are pairwise distinct, are gone from the table; when it reports anything else, the
  table of handles is what it was, and none of them is busy that was not before.
\<close>

theorem write_all_or_nothing:
  assumes "table_inv (core_handles w)" "Core_WriteMessage fuel pl h bytes hs w = Some (Inr (rv, w'))"
  shows "if rv = MOJO_RESULT_OK
         then distinct hs \<and> (\<forall>k. map_of (handles (core_handles w')) k =
                               (if k \<in> set hs then None else map_of (handles (core_handles w)) k))
         else core_handles w' = core_handles w"
proof (cases "hs = []")
  case True
  then have "core_handles w' = core_handles w"
    using assms(2) V_WriteMessage_handles by (auto simp: Core_WriteMessage_def split: option.splits)
  then show ?thesis using True by simp
next
  case False
  obtain rv1 ds t1 w1 where b: "BeginTransit V_BeginTransit hs (core_handles w) w = (rv1, ds, t1, w1)" by (metis prod_cases4)
  note cancel = BeginTransit_CancelTransit [OF assms(1) b]
  have cn: "core_handles w3 = core_handles w" if "Core_CancelTransit pl ds w2 = Some (Inr w3)" "core_handles w2 = t1" for w2 w3
    using that by (auto simp: Core_CancelTransit_def case_prod_beta and_then_OK cancel)
  consider "w' = w" "rv \<noteq> MOJO_RESULT_OK"
    | "rv1 \<noteq> MOJO_RESULT_OK" "rv = rv1" "Core_CancelTransit pl ds (w1\<lparr>core_handles := t1\<rparr>) = Some (Inr w')"
    | a w2 where "rv1 = MOJO_RESULT_OK" "V_WriteMessage fuel pl bytes (map dit_dispatcher ds) a (w1\<lparr>core_handles := t1\<rparr>) = Some (Inr (rv, w2))"
      "(if rv = MOJO_RESULT_OK then Core_CompleteTransitAndClose fuel ds w2 else Core_CancelTransit pl ds w2) = Some (Inr w')"
    using Core_WriteMessage_cases [OF assms(2) False b] by blast
  then show ?thesis
  proof cases
    case 3
    have w2: "core_handles w2 = t1" using V_WriteMessage_handles [OF 3(2)] by simp
    show ?thesis
    proof (cases "rv = MOJO_RESULT_OK")
      case True
      then obtain t2 s2 where c: "CompleteTransitAndClose (\<lambda>a s. and_then s (V_CompleteTransitAndClose fuel a)) ds t1 (Some (Inr w2)) = (t2, s2)"
        "core_handles w' = t2"
        using 3(3) w2 by (auto simp: Core_CompleteTransitAndClose_def and_then_OK split: prod.splits)
      then show ?thesis using transit_removes_exactly [OF b [unfolded 3(1)] c(1)] True by simp
    next
      case False
      then show ?thesis using cn [OF _ w2] 3(3) by simp
    qed
  qed (use cn in auto)
qed

section \<open>Handles that are lost\<close>

lemma BeginTransit_one:
  assumes "map_of (handles t) h = Some e" "\<not> entry_busy e" "b (entry_dispatcher e) s = (True, s1)"
  shows "BeginTransit b [h] t s = (MOJO_RESULT_OK, [\<lparr>dit_dispatcher = entry_dispatcher e, local_handle = h\<rparr>], set_busy True h t, s1)"
  using assms by simp

text \<open>
  A shared buffer whose platform handle cannot be duplicated makes its serialisation fail.  The call that
  wanted to send it reports success all the same: nothing has been sent, the node is untouched, and the
  handle of the buffer is gone.
\<close>

theorem rejected_serialisation_reports_ok:
  assumes "Core_GetDispatcher h w = Some a" "core_objects w a = Some (D_MessagePipe d)" "\<not> mp_port_closed d" "\<not> mp_in_transit d"
    and "map_of (handles (core_handles w)) hb = Some e" "\<not> entry_busy e" "h \<noteq> hb"
    and "core_objects w (entry_dispatcher e) = Some (D_SharedBuffer s)" "sb_shared_buffer s = Some b" "\<not> sb_in_transit s"
    and "\<not> pl_is_valid pl (pl_DuplicatePlatformHandle pl b)"
  shows "\<exists>w'. Core_WriteMessage fuel pl h bytes [hb] w = Some (Inr (MOJO_RESULT_OK, w')) \<and>
    controller w' = controller w \<and> Core_GetDispatcher hb w' = None"
proof -
  let ?x = "entry_dispatcher e"
  have ne: "a \<noteq> ?x" using assms(2,8) by auto
  let ?w1 = "(put_object ?x (D_SharedBuffer (s\<lparr>sb_in_transit := True\<rparr>)) w)\<lparr>core_handles := set_busy True hb (core_handles w)\<rparr>"
  have "V_BeginTransit ?x w = (True, put_object ?x (D_SharedBuffer (s\<lparr>sb_in_transit := True\<rparr>)) w)"
    using assms(8,9,10) by (simp add: V_BeginTransit_def SB_BeginTransit_def)
  from BeginTransit_one [where b = V_BeginTransit, OF assms(5,6) this]
  have b: "Core_BeginTransit [hb] w = (MOJO_RESULT_OK, [\<lparr>dit_dispatcher = ?x, local_handle = hb\<rparr>], ?w1)"
    by (simp add: Core_BeginTransit_def)
  obtain w2 where w2: "V_WriteMessage fuel pl bytes [?x] a ?w1 = Some (Inr (MOJO_RESULT_OK, w2))" "core_env w2 = core_env w"
    "core_handles w2 = core_handles ?w1" "\<exists>s'. core_objects w2 ?x = Some (D_SharedBuffer s')"
    using assms(2,3,4,8,9,11) ne
    by (simp add: V_WriteMessage_def MP_WriteMessage_def SB_StartSerialize_def SB_EndSerialize_def Let_def)
  then obtain s' where s': "core_objects w2 ?x = Some (D_SharedBuffer s')" by blast
  let ?w3 = "(put_object ?x (D_SharedBuffer (SB_CompleteTransitAndClose s')) w2)
    \<lparr>core_handles := (core_handles w2)\<lparr>handles := um_erase hb (handles (core_handles w2))\<rparr>\<rparr>"
  have "Core_WriteMessage fuel pl h bytes [hb] w = Some (Inr (MOJO_RESULT_OK, ?w3))"
    using assms(1,7) b w2(1) s'
    by (simp add: Core_WriteMessage_def Core_CompleteTransitAndClose_def V_CompleteTransitAndClose_def kMaxHandlesPerMessage_def)
  then show ?thesis using w2(2) by (simp add: Core_GetDispatcher_def GetDispatcher_def)
qed

text \<open>
  When the table of handles is full, \<open>DuplicateBufferHandle\<close> fails and closes the buffer that was to be
  duplicated instead of the duplicate: the caller's handle is still there and its buffer is gone.
\<close>

theorem failed_duplicate_closes_original:
  assumes "next_available_handle (core_handles w) = MOJO_HANDLE_INVALID" "Core_GetDispatcher h w = Some a"
    and "core_objects w a = Some (D_SharedBuffer s)" "\<not> sb_in_transit s" "sb_shared_buffer s \<noteq> None" "a < core_next w"
  shows "\<exists>w'. DuplicateBufferHandle fuel h None w = Some (Inr (MOJO_RESULT_RESOURCE_EXHAUSTED, Some MOJO_HANDLE_INVALID, w')) \<and>
    Core_GetDispatcher h w' = Some a \<and> core_objects w' a = Some (D_SharedBuffer (s\<lparr>sb_shared_buffer := None\<rparr>)) \<and>
    core_objects w' (core_next w) = Some (D_SharedBuffer (SharedBuffer_new (sb_shared_buffer s)))"
  using assms
  by (simp add: DuplicateBufferHandle_def SB_DuplicateBufferHandle_def ValidateDuplicateOptions_def alloc_def Core_AddDispatcher_def
      AddDispatcher_def V_Close_def SB_Close_def Core_GetDispatcher_def put_object_def Let_def)

section \<open>Examples\<close>

text \<open>
  A core with an end of a message pipe, a shared buffer whose platform handle is not valid, a wrapped platform handle and a
  wait set, under the handles 1 to 4.
\<close>

definition lossy_core :: Core where
  "lossy_core = example_core
     \<lparr>core_objects := [0 \<mapsto> D_MessagePipe (fst (MessagePipeDispatcher 0 \<lparr>ref_name = Name 1 2, ref_port = 0\<rparr> 5 0 (controller example_core))),
                       1 \<mapsto> D_SharedBuffer (SharedBuffer_new (Some 0)), 2 \<mapsto> D_PlatformHandle (PH_Create (Some 7)),
                       3 \<mapsto> D_WaitSet WaitSet_new],
      core_next := 4,
      core_handles := \<lparr>handles = [(1, Entry_init 0), (2, Entry_init 1), (3, Entry_init 2), (4, Entry_init 3)], next_available_handle = 5\<rparr>\<rparr>"

lemma lossy_core_table: "table_inv (core_handles lossy_core)"
  by (auto simp: table_inv_def lossy_core_def Entry_init_def word_less_nat_alt)

theorem write_all_or_nothing_witness:
  "\<exists>w'. Core_WriteMessage 0 example_platform 1 [1, 2] [3, 4] lossy_core = Some (Inr (MOJO_RESULT_BUSY, w')) \<and>
     core_handles w' = core_handles lossy_core"
proof -
  obtain w' where w': "Core_WriteMessage 0 example_platform 1 [1, 2] [3, 4] lossy_core = Some (Inr (MOJO_RESULT_BUSY, w'))"
    by (simp add: Core_WriteMessage_def Core_GetDispatcher_def GetDispatcher_def lossy_core_def Entry_init_def kMaxHandlesPerMessage_def
        Core_BeginTransit_def V_BeginTransit_def PH_BeginTransit_def PH_Create_def WS_BeginTransit_def Core_CancelTransit_def
        V_CancelTransit_def PH_CancelTransit_def)
  with write_all_or_nothing [OF lossy_core_table w'] show ?thesis by simp
qed

theorem rejected_serialisation_reports_ok_witness:
  "\<exists>w'. Core_WriteMessage 0 example_platform 1 [1, 2] [2] lossy_core = Some (Inr (MOJO_RESULT_OK, w')) \<and>
     controller w' = controller lossy_core \<and> Core_GetDispatcher 2 w' = None"
proof (rule rejected_serialisation_reports_ok)
  show "Core_GetDispatcher 1 lossy_core = Some 0"
    by (simp add: Core_GetDispatcher_def GetDispatcher_def lossy_core_def Entry_init_def)
  show "map_of (handles (core_handles lossy_core)) 2 = Some (Entry_init 1)" by (simp add: lossy_core_def)
  show "core_objects lossy_core (entry_dispatcher (Entry_init 1)) = Some (D_SharedBuffer (SharedBuffer_new (Some 0)))"
    by (simp add: lossy_core_def Entry_init_def)
  show "core_objects lossy_core 0 =
      Some (D_MessagePipe (fst (MessagePipeDispatcher 0 \<lparr>ref_name = Name 1 2, ref_port = 0\<rparr> 5 0 (controller example_core))))"
    by (simp add: lossy_core_def)
  show "sb_shared_buffer (SharedBuffer_new (Some 0)) = Some 0" by (simp add: SharedBuffer_new_def)
qed (simp_all add: MessagePipeDispatcher_def Entry_init_def SharedBuffer_new_def example_platform_def)

text \<open>The same core when the last handle has been given out.\<close>

definition full_core :: Core where
  "full_core = lossy_core\<lparr>core_handles := (core_handles lossy_core)\<lparr>next_available_handle := MOJO_HANDLE_INVALID\<rparr>\<rparr>"

theorem failed_duplicate_closes_original_witness:
  "\<exists>w'. DuplicateBufferHandle 0 2 None full_core = Some (Inr (MOJO_RESULT_RESOURCE_EXHAUSTED, Some MOJO_HANDLE_INVALID, w')) \<and>
    Core_GetDispatcher 2 w' = Some 1 \<and>
    core_objects w' 1 = Some (D_SharedBuffer ((SharedBuffer_new (Some 0))\<lparr>sb_shared_buffer := None\<rparr>)) \<and>
    core_objects w' (core_next full_core) = Some (D_SharedBuffer (SharedBuffer_new (sb_shared_buffer (SharedBuffer_new (Some 0)))))"
  by (rule failed_duplicate_closes_original)
     (simp_all add: full_core_def lossy_core_def Core_GetDispatcher_def GetDispatcher_def Entry_init_def SharedBuffer_new_def)

end
