(* ===== verification/Bootstrap.thy ===== *)
theory Bootstrap
  imports Core_Props
begin

text \<open>
  The exchange of a token over a channel of its own (\<open>remote_message_pipe_bootstrap.h\<close>,
  \<open>remote_message_pipe_bootstrap.cc\<close>), by which \<open>Core\<close> connects a message pipe across processes, and the
  system calls that start it.  The writes on the channel are recorded; posted tasks are calls, except for the
  deletion of the object, which is a step of its own because messages may arrive before it.
\<close>

section \<open>The two ends\<close>

definition kMaxTokenSize :: nat where "kMaxTokenSize = 256"

text \<open>The members of the two classes; the callback of the child is null once it has been taken.\<close>

datatype bootstrap_end =
  ParentEnd (be_token: token)
| ChildEnd (be_port: PortRef) (be_callback: "callback option")

record RemoteMessagePipeBootstrap =
  bs_end :: bootstrap_end
  bs_shutting_down :: bool
  bs_written :: "PlatformHandle ChannelMessage list"

definition RemoteMessagePipeBootstrap_new :: "bootstrap_end \<Rightarrow> RemoteMessagePipeBootstrap" where
  "RemoteMessagePipeBootstrap_new e = \<lparr>bs_end = e, bs_shutting_down = False, bs_written = []\<rparr>"

definition ParentBootstrap :: "token \<Rightarrow> RemoteMessagePipeBootstrap" where
  "ParentBootstrap token =
     (let b = RemoteMessagePipeBootstrap_new (ParentEnd token)
      in b\<lparr>bs_written := bs_written b @ [ChannelMessage_new token 0]\<rparr>)"

definition ChildBootstrap :: "PortRef \<Rightarrow> callback \<Rightarrow> RemoteMessagePipeBootstrap" where
  "ChildBootstrap port cb = RemoteMessagePipeBootstrap_new (ChildEnd port (Some cb))"

text \<open>The deletion is posted once.\<close>

definition BS_ShutDown :: "RemoteMessagePipeBootstrap \<Rightarrow> RemoteMessagePipeBootstrap" where
  "BS_ShutDown b = (if bs_shutting_down b then b else b\<lparr>bs_shutting_down := True\<rparr>)"

definition Parent_OnTokenReceived :: "token \<Rightarrow> token \<Rightarrow> NodeController \<Rightarrow> NodeController" where
  "Parent_OnTokenReceived own token c = ConnectReservedPorts own token c"

definition Child_OnTokenReceived ::
  "PortRef \<Rightarrow> callback option \<Rightarrow> token \<Rightarrow> NodeController \<Rightarrow> fault + callback option \<times> NodeController" where
  "Child_OnTokenReceived port cb token c =
     (case cb of None \<Rightarrow> Inl CheckFailure | Some f \<Rightarrow> Inr (None, RequestParentPortConnectionOnIOThread port token f c))"

fun OnTokenReceived ::
  "token \<Rightarrow> bootstrap_end \<Rightarrow> NodeController \<Rightarrow> fault + bootstrap_end \<times> NodeController" where
  "OnTokenReceived token (ParentEnd own) c = Inr (ParentEnd own, Parent_OnTokenReceived own token c)"
| "OnTokenReceived token (ChildEnd port cb) c =
     (case Child_OnTokenReceived port cb token c of Inl f \<Rightarrow> Inl f | Inr (cb', c') \<Rightarrow> Inr (ChildEnd port cb', c'))"

definition BS_OnChannelMessage ::
  "uint8_t list \<Rightarrow> RemoteMessagePipeBootstrap \<Rightarrow> NodeController \<Rightarrow> fault + RemoteMessagePipeBootstrap \<times> NodeController" where
  "BS_OnChannelMessage payload b c =
     (if length payload > kMaxTokenSize then Inr (BS_ShutDown b, c)
      else (case OnTokenReceived payload (bs_end b) c of
              Inl f \<Rightarrow> Inl f
            | Inr (e, c') \<Rightarrow> Inr (BS_ShutDown (b\<lparr>bs_end := e\<rparr>), c')))"

definition BS_OnChannelError :: "RemoteMessagePipeBootstrap \<Rightarrow> RemoteMessagePipeBootstrap" where
  "BS_OnChannelError b = BS_ShutDown b"

section \<open>The calls that start it\<close>

definition CreateParentMessagePipe_channel ::
  "token \<Rightarrow> callback \<Rightarrow> Core \<Rightarrow> fault + RemoteMessagePipeBootstrap \<times> Core" where
  "CreateParentMessagePipe_channel token cb w =
     (case CreateParentMessagePipe token cb w of Inl f \<Rightarrow> Inl f | Inr w' \<Rightarrow> Inr (ParentBootstrap token, w'))"

definition CreateChildMessagePipe_channel :: "callback \<Rightarrow> Core \<Rightarrow> fault + RemoteMessagePipeBootstrap \<times> Core" where
  "CreateChildMessagePipe_channel cb w =
     (case CreateUninitializedPort (nc_node (controller w)) of
        Inl f \<Rightarrow> Inl f
      | Inr (port, n) \<Rightarrow> Inr (ChildBootstrap port cb, set_controller (set_node n (controller w)) w))"

section \<open>Later tokens\<close>

text \<open>Messages that arrive before the object is deleted.\<close>

fun BS_receive ::
  "uint8_t list list \<Rightarrow> RemoteMessagePipeBootstrap \<Rightarrow> NodeController \<Rightarrow> fault + RemoteMessagePipeBootstrap \<times> NodeController" where
  "BS_receive [] b c = Inr (b, c)"
| "BS_receive (p # ps) b c =
     (case BS_OnChannelMessage p b c of Inl f \<Rightarrow> Inl f | Inr (b', c') \<Rightarrow> BS_receive ps b' c')"

lemma BS_receive_append:
  "BS_receive (ps @ qs) b c = (case BS_receive ps b c of Inl f \<Rightarrow> Inl f | Inr (b', c') \<Rightarrow> BS_receive qs b' c')"
  by (induction ps arbitrary: b c) (auto split: sum.splits)

lemma BS_receive_long:
  assumes "\<forall>p \<in> set ps. kMaxTokenSize < length p"
  shows "BS_receive ps b c = Inr (if ps = [] then b else b\<lparr>bs_shutting_down := True\<rparr>, c)"
  using assms by (induction ps arbitrary: b) (auto simp: BS_OnChannelMessage_def BS_ShutDown_def)

lemma child_token:
  assumes "length p \<le> kMaxTokenSize" "bs_end b = ChildEnd port (Some cb)"
  shows "BS_OnChannelMessage p b c =
    Inr (b\<lparr>bs_end := ChildEnd port None, bs_shutting_down := True\<rparr>, RequestParentPortConnectionOnIOThread port p cb c)"
  using assms by (simp add: BS_OnChannelMessage_def BS_ShutDown_def Child_OnTokenReceived_def)

lemma child_token_again:
  assumes "length p \<le> kMaxTokenSize" "bs_end b = ChildEnd port None"
  shows "BS_OnChannelMessage p b c = Inl CheckFailure"
  using assms by (simp add: BS_OnChannelMessage_def Child_OnTokenReceived_def)

text \<open>
  A child takes the first message of at most 256 bytes that arrives on the channel as its token, requests the
  connection once with it and is about to be deleted, also when longer messages, which are dropped, come before
  or after; but a second message of at most 256 bytes that arrives before the deletion makes it fail a check,
  which ends the process.
\<close>

theorem child_bootstrap_first_token:
  assumes "\<forall>p \<in> set ps \<union> set qs. kMaxTokenSize < length p" "length t \<le> kMaxTokenSize" "length t' \<le> kMaxTokenSize"
  shows "BS_receive (ps @ t # qs) (ChildBootstrap port cb) c =
      Inr (\<lparr>bs_end = ChildEnd port None, bs_shutting_down = True, bs_written = []\<rparr>,
           RequestParentPortConnectionOnIOThread port t cb c) \<and>
    BS_receive (ps @ t # qs @ t' # rs) (ChildBootstrap port cb) c = Inl CheckFailure"
proof -
  have l: "\<forall>p \<in> set ps. kMaxTokenSize < length p" "\<forall>p \<in> set qs. kMaxTokenSize < length p" using assms(1) by auto
  let ?b = "\<lparr>bs_end = ChildEnd port None, bs_shutting_down = True, bs_written = []\<rparr>"
  have first: "BS_receive (ps @ t # qs) (ChildBootstrap port cb) c = Inr (?b, RequestParentPortConnectionOnIOThread port t cb c)"
    using BS_receive_long [OF l(1)] BS_receive_long [OF l(2)]
    by (simp add: BS_receive_append child_token [OF assms(2)] ChildBootstrap_def RemoteMessagePipeBootstrap_new_def)
  moreover have "BS_receive ((ps @ t # qs) @ t' # rs) (ChildBootstrap port cb) c = Inl CheckFailure"
    unfolding BS_receive_append [of "ps @ t # qs"] first using child_token_again [OF assms(3), of ?b port] by simp
  ultimately show ?thesis by simp
qed

theorem child_bootstrap_first_token_witness:
  "BS_receive [replicate 300 7, [1, 2], replicate 257 0] (ChildBootstrap \<lparr>ref_name = Name 1 2, ref_port = 0\<rparr> 5) (controller example_core) =
     Inr (\<lparr>bs_end = ChildEnd \<lparr>ref_name = Name 1 2, ref_port = 0\<rparr> None, bs_shutting_down = True, bs_written = []\<rparr>,
          RequestParentPortConnectionOnIOThread \<lparr>ref_name = Name 1 2, ref_port = 0\<rparr> [1, 2] 5 (controller example_core)) \<and>
   BS_receive [replicate 300 7, [1, 2], replicate 257 0, [3]] (ChildBootstrap \<lparr>ref_name = Name 1 2, ref_port = 0\<rparr> 5) (controller example_core) =
     Inl CheckFailure"
  using child_bootstrap_first_token [of "[replicate 300 7]" "[replicate 257 0]" "[1, 2]" "[3]" "\<lparr>ref_name = Name 1 2, ref_port = 0\<rparr>" 5
      "controller example_core" "[]"]
  by (simp add: kMaxTokenSize_def)

section \<open>Connecting two processes\<close>

lemma deliver_RequestPortConnection:
  "channel_open c \<Longrightarrow>
     deliver nm (last (nc_written (RequestPortConnection p token c))) = Inr (OnRequestPortConnection nm p token)"
  by (simp add: RequestPortConnection_def write_open deliver_def OnChannelMessage_def CreateMessage_read CreateMessage_payload(2)
      need_def layout_simps SetRemoteNodeName_def Let_def)

lemma deliver_ConnectToPort:
  "channel_open c \<Longrightarrow> deliver nm (last (nc_written (ConnectToPort p q c))) = Inr (OnConnectToPort nm p q)"
  by (simp add: ConnectToPort_def write_open deliver_def OnChannelMessage_def CreateMessage_read CreateMessage_payload(2)
      need_def layout_simps SetRemoteNodeName_def name.dec_enc [of _ "[]", simplified] Let_def)

text \<open>A port that is connected to the port \<open>r'\<close> of the node \<open>nm\<close>.\<close>

definition connected :: "PortRef \<Rightarrow> NodeController \<Rightarrow> NodeName \<Rightarrow> PortRef \<Rightarrow> bool" where
  "connected r c nm r' \<longleftrightarrow> GetPort (ref_name r) (nc_node c) = (OK, Some r) \<and>
     state (port_at (nc_node c) (ref_port r)) = kReceiving \<and>
     peer_node_name (port_at (nc_node c) (ref_port r)) = nm \<and> peer_port_name (port_at (nc_node c) (ref_port r)) = ref_name r'"

lemma CreateUninitializedPort_new:
  assumes "CreateUninitializedPort n = Inr (r, n')"
  shows "GetPort (ref_name r) n' = (OK, Some r)" "state (port_at n' (ref_port r)) = kUninitialized"
    "delegate_calls n' = delegate_calls n"
  using assms
  by (auto simp: CreateUninitializedPort_def GenerateRandomPortName_def new_port_def AddPortWithName_def GetPort_def GetPort_Locked_def
      Port_init_def Let_def split: if_splits)

lemma status_changed_callbacks:
  obtains cbs where "NC_PortStatusChanged r c = c\<lparr>callbacks := callbacks c @ cbs\<rparr>"
proof (cases "snd (GetUserData r (nc_node c))")
  case None
  then show ?thesis using that [of "[]"] by (cases "GetUserData r (nc_node c)") (simp add: NC_PortStatusChanged_def)
next
  case (Some observer)
  then show ?thesis using that [of "[RunObserver observer]"]
    by (cases "GetUserData r (nc_node c)") (simp add: NC_PortStatusChanged_def run_callback_def)
qed

lemma InitializePort_connects:
  assumes "GetPort (ref_name r) (nc_node c) = (OK, Some r)" "state (port_at (nc_node c) (ref_port r)) = kUninitialized"
    and "delegate_calls (nc_node c) = []"
  obtains n cbs where "InitializePort r nm p (nc_node c) = (OK, n)"
    "run_delegate n c = c\<lparr>nc_node := n\<lparr>delegate_calls := []\<rparr>, callbacks := callbacks c @ cbs\<rparr>"
    "\<And>c'. nc_node c' = n\<lparr>delegate_calls := []\<rparr> \<Longrightarrow> ref_name r' = p \<Longrightarrow> connected r c' nm r'"
proof -
  let ?n = "status_changed r (modify_port (ref_port r)
     (\<lambda>q. q\<lparr>state := kReceiving, peer_node_name := nm, peer_port_name := p\<rparr>) (nc_node c))"
  let ?c = "set_node (?n\<lparr>delegate_calls := []\<rparr>) c"
  have d: "delegate_calls ?n = [PortStatusChanged r]" using assms(3) by (simp add: status_changed_def modify_port_def)
  obtain cbs where "NC_PortStatusChanged r ?c = ?c\<lparr>callbacks := callbacks ?c @ cbs\<rparr>"
    by (rule status_changed_callbacks)
  then have "run_delegate ?n c = c\<lparr>nc_node := ?n\<lparr>delegate_calls := []\<rparr>, callbacks := callbacks c @ cbs\<rparr>"
    unfolding run_delegate_def d by (simp add: set_node_def)
  moreover have "InitializePort r nm p (nc_node c) = (OK, ?n)" using assms(2) by (simp add: InitializePort_def)
  ultimately show thesis
    using assms(1) by (intro that [of ?n cbs])
      (auto simp: connected_def GetPort_def GetPort_Locked_def status_changed_def modify_port_def split: option.splits)
qed

lemma OnRequestPortConnection_connects:
  assumes "map_of (reserved_ports c) token = Some rp" "GetPeerChannel nm c = Some ch" "channel_open (channels c ch)"
    and "GetPort (ref_name (rp_local_port rp)) (nc_node c) = (OK, Some (rp_local_port rp))"
    and "state (port_at (nc_node c) (ref_port (rp_local_port rp))) = kUninitialized" "delegate_calls (nc_node c) = []"
  obtains c' where "NC_OnRequestPortConnection nm (ref_name r) token c = Inr c'" "connected (rp_local_port rp) c' nm r"
    "RunReserved (rp_callback rp) (rp_local_port rp) \<in> set (callbacks c')"
    "nc_written (channels c' ch) = nc_written (ConnectToPort (ref_name (rp_local_port rp)) (ref_name r) (channels c ch))"
proof -
  let ?c1 = "c\<lparr>reserved_ports := um_erase token (reserved_ports c)\<rparr>"
  obtain n cbs where n: "InitializePort (rp_local_port rp) nm (ref_name r) (nc_node ?c1) = (OK, n)"
    "run_delegate n ?c1 = ?c1\<lparr>nc_node := n\<lparr>delegate_calls := []\<rparr>, callbacks := callbacks ?c1 @ cbs\<rparr>"
    "\<And>c'. nc_node c' = n\<lparr>delegate_calls := []\<rparr> \<Longrightarrow> connected (rp_local_port rp) c' nm r"
    using InitializePort_connects [of "rp_local_port rp" ?c1 nm "ref_name r" r] assms(4-6) by auto
  let ?c' = "run_callback (RunReserved (rp_callback rp) (rp_local_port rp))
      (modify_channel ch (ConnectToPort (ref_name (rp_local_port rp)) (ref_name r)) (run_delegate n ?c1))"
  have "NC_OnRequestPortConnection nm (ref_name r) token c = Inr ?c'"
    using assms(1,2) n(1) by (simp add: NC_OnRequestPortConnection_def GetPeerChannel_def)
  moreover have "connected (rp_local_port rp) ?c' nm r" by (rule n(3)) (simp add: run_callback_def modify_channel_def)
  ultimately show thesis
    by (rule that) (simp_all add: run_callback_def modify_channel_def n(2))
qed

lemma OnConnectToPort_connects:
  assumes "map_of (pending_port_connections c) (ref_name r) = Some cb" "GetPort (ref_name r) (nc_node c) = (OK, Some r)"
    and "state (port_at (nc_node c) (ref_port r)) = kUninitialized" "delegate_calls (nc_node c) = []"
  obtains c' where "NC_OnConnectToPort nm (ref_name r') (ref_name r) c = Inr c'" "connected r c' nm r'"
    "RunConnected cb \<in> set (callbacks c')"
proof -
  obtain n cbs where n: "InitializePort r nm (ref_name r') (nc_node c) = (OK, n)"
    "run_delegate n c = c\<lparr>nc_node := n\<lparr>delegate_calls := []\<rparr>, callbacks := callbacks c @ cbs\<rparr>"
    "\<And>c'. nc_node c' = n\<lparr>delegate_calls := []\<rparr> \<Longrightarrow> connected r c' nm r'"
    using InitializePort_connects [OF assms(2-4), of nm "ref_name r'" r'] by auto
  let ?c1 = "run_callback (RunConnected cb) (run_delegate n c)"
  let ?c' = "?c1\<lparr>pending_port_connections := um_erase (ref_name r) (pending_port_connections ?c1)\<rparr>"
  have "NC_OnConnectToPort nm (ref_name r') (ref_name r) c = Inr ?c'"
    using assms n(1) by (simp add: NC_OnConnectToPort_def GetStatus_def Let_def)
  moreover have "connected r ?c' nm r'" by (rule n(3)) (simp add: run_callback_def)
  ultimately show thesis by (rule that) (simp add: run_callback_def)
qed

text \<open>
  C13: A message pipe is set up between a parent process and its child over a separate platform channel: the
  parent's token arrives as the first message, the child's request for a connection reaches the parent, and the
  parent's answer the child.  Then both ports are in the tables of their nodes, receive messages, and are each
  other's peers, and the callbacks of both sides have run.
\<close>

theorem bootstrap_connects_processes:
  assumes "CreateParentMessagePipe_channel token cb wp = Inr (bp, wp')" "CreateChildMessagePipe_channel cb' wc = Inr (bc, wc')"
    and "length token \<le> kMaxTokenSize" "map_of (reserved_ports (controller wp)) token = None"
    and "fst ` set (pending_port_connections (controller wc)) \<subseteq> fst ` set (ports (nc_node (controller wc)))"
    and "delegate_calls (nc_node (controller wp)) = []" "delegate_calls (nc_node (controller wc)) = []"
    and "GetPeerChannel (nc_name (controller wc)) (controller wp) = Some chp" "channel_open (channels (controller wp) chp)"
    and "GetParentChannel (controller wc) = Some chc" "channel_open (channels (controller wc) chc)"
  shows "\<exists>b c1 call1 p1 call2 c2 r0 r1.
    BS_OnChannelMessage (cm_payload (last (bs_written bp))) bc (controller wc') = Inr (b, c1) \<and>
    deliver (nc_name (controller wc)) (last (nc_written (channels c1 chc))) = Inr call1 \<and>
    controller_step fuel call1 (controller wp') = Some (Inr p1) \<and>
    deliver (nc_name (controller wp)) (last (nc_written (channels p1 chp))) = Inr call2 \<and>
    controller_step fuel call2 c1 = Some (Inr c2) \<and>
    connected r0 p1 (nc_name (controller wc)) r1 \<and> connected r1 c2 (nc_name (controller wp)) r0 \<and>
    RunReserved cb r0 \<in> set (callbacks p1) \<and> RunConnected cb' \<in> set (callbacks c2)"
proof -
  let ?p = "controller wp" and ?c = "controller wc"
  obtain r0 np where p: "CreateUninitializedPort (nc_node ?p) = Inr (r0, np)" "bp = ParentBootstrap token"
    "controller wp' = (set_node np ?p)\<lparr>reserved_ports := um_insert token \<lparr>rp_local_port = r0, rp_callback = cb\<rparr> (reserved_ports ?p)\<rparr>"
    using assms(1) by (auto simp: CreateParentMessagePipe_channel_def CreateParentMessagePipe_def ReservePort_def split: sum.splits)
  obtain r1 nc where c: "CreateUninitializedPort (nc_node ?c) = Inr (r1, nc)" "bc = ChildBootstrap r1 cb'"
    "controller wc' = set_node nc ?c"
    using assms(2) by (auto simp: CreateChildMessagePipe_channel_def split: sum.splits)
  have t: "cm_payload (last (bs_written bp)) = token"
    by (simp add: p(2) ParentBootstrap_def RemoteMessagePipeBootstrap_new_def ChannelMessage_new_def)
  let ?c1 = "RequestParentPortConnectionOnIOThread r1 token cb' (controller wc')"
  have b: "BS_OnChannelMessage (cm_payload (last (bs_written bp))) bc (controller wc') =
      Inr (bc\<lparr>bs_end := ChildEnd r1 None, bs_shutting_down := True\<rparr>, ?c1)"
    unfolding t by (rule child_token [OF assms(3)]) (simp add: c(2) ChildBootstrap_def RemoteMessagePipeBootstrap_new_def)
  have "map_of (pending_port_connections ?c) (ref_name r1) = None"
    using CreateUninitializedPort_adds [OF c(1)] assms(5) by (auto simp: map_of_eq_None_iff)
  then have c1: "nc_node ?c1 = nc" "map_of (pending_port_connections ?c1) (ref_name r1) = Some cb'"
    "channels ?c1 chc = RequestPortConnection (ref_name r1) token (channels ?c chc)"
    using assms(10)
    by (simp_all add: RequestParentPortConnectionOnIOThread_def c(3) set_node_def GetParentChannel_def GetPeerChannel_def
        modify_channel_def)
  have d1: "deliver (nc_name ?c) (last (nc_written (channels ?c1 chc))) = Inr (OnRequestPortConnection (nc_name ?c) (ref_name r1) token)"
    unfolding c1(3) by (rule deliver_RequestPortConnection [OF assms(11)])
  obtain p1 where p1: "NC_OnRequestPortConnection (nc_name ?c) (ref_name r1) token (controller wp') = Inr p1"
    "connected r0 p1 (nc_name ?c) r1" "RunReserved cb r0 \<in> set (callbacks p1)"
    "nc_written (channels p1 chp) = nc_written (ConnectToPort (ref_name r0) (ref_name r1) (channels ?p chp))"
    using OnRequestPortConnection_connects [of "controller wp'" token "\<lparr>rp_local_port = r0, rp_callback = cb\<rparr>" "nc_name ?c" chp r1]
      CreateUninitializedPort_new [OF p(1)] assms(4,6,8,9)
    by (auto simp: p(3) set_node_def GetPeerChannel_def)
  have d2: "deliver (nc_name ?p) (last (nc_written (channels p1 chp))) = Inr (OnConnectToPort (nc_name ?p) (ref_name r0) (ref_name r1))"
    unfolding p1(4) by (rule deliver_ConnectToPort [OF assms(9)])
  obtain c2 where c2: "NC_OnConnectToPort (nc_name ?p) (ref_name r0) (ref_name r1) ?c1 = Inr c2" "connected r1 c2 (nc_name ?p) r0"
    "RunConnected cb' \<in> set (callbacks c2)"
    using OnConnectToPort_connects [OF c1(2), of "nc_name ?p" r0] CreateUninitializedPort_new [OF c(1)] assms(7)
    by (auto simp: c1(1))
  show ?thesis using b d1 p1 d2 c2 by (intro exI conjI) (assumption | simp)+
qed

text \<open>A parent and a child that know each other.\<close>

definition example_parent :: Core where
  "example_parent = set_controller ((controller example_core)\<lparr>peers := [(Name 2 2, 0)], channel_count := 1\<rparr>) example_core"

definition example_child :: Core where
  "example_child = Core_init ((NodeController_init (Name 2 2) example_names (\<lambda>i. Name (of_nat i) 4) (\<lambda>_. (0, 1)))
     \<lparr>parent_name := Name 1 1, peers := [(Name 1 1, 0)], channel_count := 1\<rparr>) (\<lambda>_. [])"

theorem bootstrap_connects_processes_witness:
  "\<exists>bp wp' bc wc' b c1 call1 p1 call2 c2 r0 r1.
    CreateParentMessagePipe_channel [1, 2, 3] 7 example_parent = Inr (bp, wp') \<and>
    CreateChildMessagePipe_channel 8 example_child = Inr (bc, wc') \<and>
    BS_OnChannelMessage (cm_payload (last (bs_written bp))) bc (controller wc') = Inr (b, c1) \<and>
    deliver (Name 2 2) (last (nc_written (channels c1 0))) = Inr call1 \<and>
    controller_step 0 call1 (controller wp') = Some (Inr p1) \<and>
    deliver (Name 1 1) (last (nc_written (channels p1 0))) = Inr call2 \<and>
    controller_step 0 call2 c1 = Some (Inr c2) \<and>
    connected r0 p1 (Name 2 2) r1 \<and> connected r1 c2 (Name 1 1) r0"
proof -
  note defs = example_parent_def example_child_def example_core_def Core_init_def NodeController_init_def Node_init_def
  have n: "nc_name (controller example_parent) = Name 1 1" "nc_name (controller example_child) = Name 2 2"
    by (simp_all add: defs)
  obtain bp wp' where p: "CreateParentMessagePipe_channel [1, 2, 3] 7 example_parent = Inr (bp, wp')"
    by (simp add: CreateParentMessagePipe_channel_def CreateParentMessagePipe_def ReservePort_def CreateUninitializedPort_def
        GenerateRandomPortName_def new_port_def AddPortWithName_def defs)
  obtain bc wc' where c: "CreateChildMessagePipe_channel 8 example_child = Inr (bc, wc')"
    by (simp add: CreateChildMessagePipe_channel_def CreateUninitializedPort_def GenerateRandomPortName_def new_port_def
        AddPortWithName_def defs)
  have "map_of (reserved_ports (controller example_parent)) [1, 2, 3] = None"
    "fst ` set (pending_port_connections (controller example_child)) \<subseteq> fst ` set (ports (nc_node (controller example_child)))"
    "delegate_calls (nc_node (controller example_parent)) = []" "delegate_calls (nc_node (controller example_child)) = []"
    "GetPeerChannel (nc_name (controller example_child)) (controller example_parent) = Some 0"
    "channel_open (channels (controller example_parent) 0)"
    "GetParentChannel (controller example_child) = Some 0" "channel_open (channels (controller example_child) 0)"
    by (simp_all add: defs GetPeerChannel_def GetParentChannel_def NodeChannel_Create_def)
  from bootstrap_connects_processes [OF p c _ this, of 0, unfolded n] show ?thesis using p c by (simp add: kMaxTokenSize_def) blast
qed

end
