(* ===== verification/Core_Transfer.thy ===== *)
theory Core_Transfer
  imports Core_Props
begin

text \<open>
  Handles that travel in messages: what is written for the dispatchers of a message is read back as the
  dispatchers that arrive, and through the system calls the receiver gets new handles to them.
\<close>

section \<open>One dispatcher\<close>

text \<open>
  The dispatcher that arrives for one that was sent (for those that have no port), and what travels for
  it: bytes and platform handles.
\<close>

fun received :: "platform \<Rightarrow> Dispatcher \<Rightarrow> Dispatcher option" where
  "received pl (D_PlatformHandle x) =
     (if ph_is_closed x then None
      else Some (D_PlatformHandle (PH_Create (Some (case ph_platform_handle x of None \<Rightarrow> pl_invalid_handle pl | Some h \<Rightarrow> h)))))"
| "received pl (D_SharedBuffer x) =
     (case sb_shared_buffer x of
        None \<Rightarrow> None
      | Some b \<Rightarrow>
          if pl_GetNumBytes pl b = 0 \<or> \<not> pl_is_valid pl (pl_DuplicatePlatformHandle pl b) then None
          else map_option (\<lambda>b'. D_SharedBuffer (SharedBuffer_new (Some b')))
                 (pl_CreateSharedBufferFromHandle pl (pl_GetNumBytes pl b) (pl_DuplicatePlatformHandle pl b)))"
| "received pl _ = None"

fun wire_data :: "platform \<Rightarrow> Dispatcher \<Rightarrow> uint8_t list" where
  "wire_data pl (D_SharedBuffer x) = (case sb_shared_buffer x of None \<Rightarrow> [] | Some b \<Rightarrow> write_u64 (pl_GetNumBytes pl b))"
| "wire_data pl _ = []"

fun wire_handle :: "platform \<Rightarrow> Dispatcher \<Rightarrow> PlatformHandle" where
  "wire_handle pl (D_PlatformHandle x) = (case ph_platform_handle x of None \<Rightarrow> pl_invalid_handle pl | Some h \<Rightarrow> h)"
| "wire_handle pl (D_SharedBuffer x) = (case sb_shared_buffer x of None \<Rightarrow> 0 | Some b \<Rightarrow> pl_DuplicatePlatformHandle pl b)"
| "wire_handle pl _ = 0"

text \<open>Everything about a dispatcher that a transfer depends on.\<close>

record parcel =
  pc_type :: Type
  pc_data :: "uint8_t list"
  pc_handle :: PlatformHandle
  pc_received :: "Dispatcher option"

definition parcel_of :: "platform \<Rightarrow> Dispatcher \<Rightarrow> parcel" where
  "parcel_of pl d = \<lparr>pc_type = GetType d, pc_data = wire_data pl d, pc_handle = wire_handle pl d, pc_received = received pl d\<rparr>"

definition header_of :: "parcel \<Rightarrow> DispatcherHeader" where
  "header_of p = \<lparr>dh_type = Type_code (pc_type p), dh_num_bytes = of_nat (length (pc_data p)), dh_num_ports = 0,
                  dh_num_platform_handles = 1\<rparr>"

lemma received_kinds:
  assumes "pc_received (parcel_of pl d) \<noteq> None"
  obtains (wrapper) x where "d = D_PlatformHandle x" "\<not> ph_is_closed x"
    | (buffer) x b where "d = D_SharedBuffer x" "sb_shared_buffer x = Some b" "pl_GetNumBytes pl b \<noteq> 0"
      "pl_is_valid pl (pl_DuplicatePlatformHandle pl b)"
      "pl_CreateSharedBufferFromHandle pl (pl_GetNumBytes pl b) (pl_DuplicatePlatformHandle pl b) \<noteq> None"
  using assms by (cases d) (auto simp: parcel_of_def split: if_splits option.splits)

lemma parcel_length:
  assumes "pc_received (parcel_of pl d) \<noteq> None"
  shows "length (pc_data (parcel_of pl d)) \<le> 8"
  using assms by (cases rule: received_kinds) (auto simp: parcel_of_def u64.enc_length)

lemma StartSerialize_parcel:
  assumes "pc_received (parcel_of pl d) \<noteq> None"
  shows "V_StartSerialize pl d = (of_nat (length (pc_data (parcel_of pl d))), 0, 1)"
  using assms by (cases rule: received_kinds)
    (auto simp: parcel_of_def PH_StartSerialize_def SB_StartSerialize_def u64.enc_length)

lemma EndSerialize_parcel:
  assumes "pc_received (parcel_of pl d) \<noteq> None" "length dest = length (pc_data (parcel_of pl d))"
  obtains d2 where "V_EndSerialize pl dest d = Inr ((True, pc_data (parcel_of pl d), [], [pc_handle (parcel_of pl d)]), d2)"
    "parcel_of pl d2 = parcel_of pl d"
  using assms(1)
proof (cases rule: received_kinds)
  case (buffer x b)
  let ?d2 = "D_SharedBuffer (x\<lparr>sb_handle_for_transit := Some (pl_DuplicatePlatformHandle pl b)\<rparr>)"
  have "overwrite 0 (write_u64 (pl_GetNumBytes pl b)) dest = write_u64 (pl_GetNumBytes pl b)"
    using assms(2) buffer by (simp add: overwrite_def parcel_of_def u64.enc_length)
  then show thesis using buffer by (intro that [of ?d2]) (simp_all add: SB_EndSerialize_def parcel_of_def Let_def)
qed (use assms that in \<open>auto simp: PH_EndSerialize_def parcel_of_def\<close>)

lemma Deserialize_parcel:
  assumes "pc_received p = Some d'" "p = parcel_of pl d"
  shows "D_Deserialize pl (Type_code (pc_type p)) (pc_data p @ rest) (length (pc_data p)) nms 0 (Some (pc_handle p # hs)) 1 w =
    Inr (Some (core_next w), snd (alloc d' w))"
proof -
  have "pc_received (parcel_of pl d) \<noteq> None" using assms by simp
  then show ?thesis
  proof (cases rule: received_kinds)
  case (buffer x b)
  then show ?thesis
    using assms u64.dec_enc [of "pl_GetNumBytes pl b" rest]
    by (auto simp: parcel_of_def D_Deserialize_def SB_Deserialize_def alloc_def u64.enc_length split: option.splits)
  qed (use assms in \<open>auto simp: parcel_of_def D_Deserialize_def PH_Deserialize_def alloc_def\<close>)
qed

section \<open>The dispatchers of a message\<close>

text \<open>The parcels at some addresses; a transfer leaves them as they are.\<close>

definition parcel_at :: "platform \<Rightarrow> Core \<Rightarrow> nat \<Rightarrow> parcel option" where
  "parcel_at pl w a = map_option (parcel_of pl) (core_objects w a)"

definition sendable :: "parcel \<Rightarrow> bool" where
  "sendable p \<longleftrightarrow> pc_received p \<noteq> None"

text \<open>What serialising some objects may change.\<close>

definition repacked :: "platform \<Rightarrow> nat list \<Rightarrow> Core \<Rightarrow> Core \<Rightarrow> bool" where
  "repacked pl as w w' \<longleftrightarrow> parcel_at pl w' = parcel_at pl w \<and> core_env w' = core_env w \<and> core_handles w' = core_handles w \<and>
     core_next w' = core_next w \<and> (\<forall>x. x \<notin> set as \<longrightarrow> core_objects w' x = core_objects w x)"

lemma start_serialize_parcels:
  assumes "map (parcel_at pl w) as = map Some ps" "list_all sendable ps"
  shows "start_serialize pl as w = Inr (map header_of ps)"
  using assms
proof (induction as arbitrary: ps)
  case (Cons a as)
  then obtain p ps' where ps: "ps = p # ps'" by (cases ps) auto
  then obtain d where d: "core_objects w a = Some d" "p = parcel_of pl d" using Cons.prems(1) by (auto simp: parcel_at_def)
  have "V_StartSerialize pl d = (of_nat (length (pc_data p)), 0, 1)"
    using Cons.prems(2) StartSerialize_parcel d(2) ps by (simp add: sendable_def)
  then show ?case using Cons ps d by (simp add: header_of_def parcel_of_def)
qed simp

lemma end_serialize_parcels:
  assumes "map (parcel_at pl w) as = map Some ps" "list_all sendable ps" "\<forall>p \<in> set ps. length (pc_data p) \<le> 8"
  shows "\<exists>w'. end_serialize pl off (zip as (map header_of ps)) w = Inr (Some (concat (map pc_data ps), [], map pc_handle ps), w') \<and>
    repacked pl as w w'"
  using assms
proof (induction as arbitrary: ps off w)
  case Nil
  then show ?case by (simp add: repacked_def)
next
  case (Cons a as)
  then obtain p ps' where ps: "ps = p # ps'" by (cases ps) auto
  then obtain d where d: "core_objects w a = Some d" "p = parcel_of pl d" using Cons.prems(1) by (auto simp: parcel_at_def)
  have l: "unat (dh_num_bytes (header_of p)) = length (pc_data p)" using Cons.prems(3) ps by (simp add: header_of_def unat_of_nat)
  let ?dest = "map (pl_garbage pl) [off..<off + length (pc_data p)]"
  have "pc_received (parcel_of pl d) \<noteq> None" "length ?dest = length (pc_data (parcel_of pl d))"
    using Cons.prems(2) d(2) ps by (simp_all add: sendable_def)
  then obtain d2 where d2: "V_EndSerialize pl ?dest d = Inr ((True, pc_data p, [], [pc_handle p]), d2)" "parcel_of pl d2 = p"
    unfolding d(2) by (rule EndSerialize_parcel)
  let ?w = "put_object a d2 w"
  have same: "parcel_at pl ?w = parcel_at pl w" using d d2(2) by (auto simp: parcel_at_def put_object_def)
  then obtain w' where w': "end_serialize pl (off + length (pc_data p)) (zip as (map header_of ps')) ?w =
      Inr (Some (concat (map pc_data ps'), [], map pc_handle ps'), w')" "repacked pl as ?w w'"
    using Cons.IH [of ?w ps' "off + length (pc_data p)"] Cons.prems ps by auto
  then show ?case using d d2 l same by (auto simp: ps repacked_def put_object_def)
qed

text \<open>The objects that arrive get the next addresses.\<close>

fun alloc_all :: "Dispatcher list \<Rightarrow> Core \<Rightarrow> Core" where
  "alloc_all [] w = w"
| "alloc_all (d # ds) w = alloc_all ds (snd (alloc d w))"

lemma alloc_all_simps [simp]:
  "core_next (alloc_all ds w) = core_next w + length ds" "core_env (alloc_all ds w) = core_env w"
  "core_handles (alloc_all ds w) = core_handles w"
  by (induction ds arbitrary: w) (simp_all add: alloc_def put_object_def)

lemma alloc_all_objects:
  "core_objects (alloc_all ds w) x =
     (if core_next w \<le> x \<and> x < core_next w + length ds then Some (ds ! (x - core_next w)) else core_objects w x)"
proof (induction ds arbitrary: w)
  case (Cons d ds)
  show ?case
    unfolding alloc_all.simps Cons.IH
    by (auto simp: alloc_def put_object_def nth_Cons' Suc_diff_le)
qed auto

interpretation dispatcher_header: codec write_DispatcherHeader read_DispatcherHeader 16
proof unfold_locales
  fix x bs
  show "length (write_DispatcherHeader x) = 16" by (simp add: write_DispatcherHeader_def u32.enc_length)
  show "read_DispatcherHeader (write_DispatcherHeader x @ bs) = x"
    by (simp add: write_DispatcherHeader_def read_DispatcherHeader_def layout_simps)
qed

lemma deserialize_parcels:
  assumes "drop (8 + i * 16) (msg_payload m) = concat (map (write_DispatcherHeader \<circ> header_of) ps) @ r1"
    and "drop di (msg_payload m) = concat (map pc_data ps) @ r2" "drop hi (msg_handles m) = map pc_handle ps @ r3"
    and "\<forall>p \<in> set ps. (\<exists>d. p = parcel_of pl d) \<and> sendable p \<and> length (pc_data p) \<le> 8"
  shows "deserialize_all pl m (length ps) i di 0 hi w =
    Inr (Some [core_next w..<core_next w + length ps], alloc_all (map (the \<circ> pc_received) ps) w)"
  using assms
proof (induction ps arbitrary: i di hi w)
  case Nil
  then show ?case by simp
next
  case (Cons p ps)
  obtain d d' where p: "p = parcel_of pl d" "pc_received p = Some d'" "length (pc_data p) \<le> 8"
    using Cons.prems(4) by (auto simp: sendable_def)
  have h: "drop (8 + i * 16) (msg_payload m) = write_DispatcherHeader (header_of p) @ concat (map (write_DispatcherHeader \<circ> header_of) ps) @ r1"
    using Cons.prems(1) by (simp add: comp_def)
  have len: "\<not> length (msg_payload m) < 8 + Suc i * 16"
  proof -
    have "16 \<le> length (drop (8 + i * 16) (msg_payload m))" unfolding h by (simp add: dispatcher_header.enc_length)
    then show ?thesis by simp
  qed
  have dh: "read_DispatcherHeader (drop (8 + i * 16) (msg_payload m)) = header_of p"
    unfolding h by (rule dispatcher_header.dec_enc)
  have n: "unat (dh_num_bytes (header_of p)) = length (pc_data p)" using p(3) by (simp add: header_of_def unat_of_nat)
  have ne: "msg_handles m \<noteq> []" using Cons.prems(3) by auto
  have one: "D_Deserialize pl (dh_type (header_of p)) (drop di (msg_payload m)) (length (pc_data p)) (msg_ports m) 0
      (Some (drop hi (msg_handles m))) 1 w = Inr (Some (core_next w), snd (alloc d' w))"
    using Deserialize_parcel [OF p(2,1), of "concat (map pc_data ps) @ r2" "msg_ports m" "map pc_handle ps @ r3" w] Cons.prems(2,3)
    by (simp add: header_of_def)
  have rest: "drop (8 + Suc i * 16) (msg_payload m) = concat (map (write_DispatcherHeader \<circ> header_of) ps) @ r1"
    "drop (di + length (pc_data p)) (msg_payload m) = concat (map pc_data ps) @ r2"
    "drop (Suc hi) (msg_handles m) = map pc_handle ps @ r3"
  proof -
    have "drop 16 (drop (8 + i * 16) (msg_payload m)) = concat (map (write_DispatcherHeader \<circ> header_of) ps) @ r1"
      unfolding h by (simp add: dispatcher_header.enc_length)
    then show "drop (8 + Suc i * 16) (msg_payload m) = concat (map (write_DispatcherHeader \<circ> header_of) ps) @ r1"
      by (simp add: algebra_simps)
    have "drop (length (pc_data p)) (drop di (msg_payload m)) = concat (map pc_data ps) @ r2" unfolding Cons.prems(2) by simp
    then show "drop (di + length (pc_data p)) (msg_payload m) = concat (map pc_data ps) @ r2" by (simp add: add.commute)
    have "drop 1 (drop hi (msg_handles m)) = map pc_handle ps @ r3" unfolding Cons.prems(3) by simp
    then show "drop (Suc hi) (msg_handles m) = map pc_handle ps @ r3" by simp
  qed
  have "deserialize_all pl m (length ps) (Suc i) (di + length (pc_data p)) 0 (Suc hi) (snd (alloc d' w)) =
      Inr (Some [Suc (core_next w)..<Suc (core_next w) + length ps], alloc_all (map (the \<circ> pc_received) ps) (snd (alloc d' w)))"
    using Cons.IH [OF rest] Cons.prems(4) by (simp add: alloc_def put_object_def comp_def)
  then show ?case
    using len dh n ne one p(2)
    by (simp add: Let_def upt_conv_Cons header_of_def comp_def del: upt_Suc)
qed

section \<open>The payload of a message\<close>

lemma payload_layout:
  assumes "P = pipe_payload (map header_of ps) (concat (map pc_data ps)) bytes" "length ps < 2 ^ 16"
    and "\<forall>p \<in> set ps. length (pc_data p) \<le> 8"
  shows "unat (read_u32 P) = length ps" "unat (read_u32 (drop 4 P)) = header_size (map header_of ps)"
    "drop 8 P = concat (map (write_DispatcherHeader \<circ> header_of) ps) @ concat (map pc_data ps) @ bytes"
    "drop (8 + length ps * 16) P = concat (map pc_data ps) @ bytes" "drop (header_size (map header_of ps)) P = bytes"
    "length P = header_size (map header_of ps) + length bytes"
proof -
  have l: "unat (dh_num_bytes (header_of p)) = length (pc_data p)" if "p \<in> set ps" for p
  proof -
    have "length (pc_data p) < 2 ^ 32" using assms(3) that by fastforce
    then show ?thesis by (simp add: header_of_def unat_of_nat)
  qed
  have ds: "data_size (map header_of ps) = length (concat (map pc_data ps))"
    unfolding data_size_def length_concat using l by (simp add: comp_def cong: map_cong)
  have "length (concat (map pc_data ps)) \<le> length ps * 8"
    using assms(3) by (induction ps) auto
  then have h: "header_size (map header_of ps) < 2 ^ 32" using assms(2) ds by (simp add: header_size_def)
  note simps = assms(1) pipe_payload_def layout_simps dispatcher_header.array_length
  show "unat (read_u32 P) = length ps" using assms(2) by (simp add: simps unat_of_nat)
  show "unat (read_u32 (drop 4 P)) = header_size (map header_of ps)" using h by (simp add: simps unat_of_nat)
  have d8: "drop 8 P = write_array write_DispatcherHeader (map header_of ps) @ concat (map pc_data ps) @ bytes"
    by (simp add: simps)
  then show "drop 8 P = concat (map (write_DispatcherHeader \<circ> header_of) ps) @ concat (map pc_data ps) @ bytes"
    by (simp add: write_array_def)
  have "drop (length ps * 16) (drop 8 P) = concat (map pc_data ps) @ bytes"
    unfolding d8 by (simp add: dispatcher_header.array_length)
  then show d: "drop (8 + length ps * 16) P = concat (map pc_data ps) @ bytes" by (simp add: add.commute)
  have "drop (length (concat (map pc_data ps))) (drop (8 + length ps * 16) P) = bytes" unfolding d by simp
  then show "drop (header_size (map header_of ps)) P = bytes" by (simp add: header_size_def ds algebra_simps)
  show "length P = header_size (map header_of ps) + length bytes" by (simp add: simps header_size_def ds)
qed

section \<open>New handles\<close>

lemma add_all_handles:
  assumes "table_inv t" "next_available_handle t \<noteq> 0" "unat (next_available_handle t) + length ds \<le> 2 ^ 32"
  shows "\<exists>t'. add_all ds t = (seq_from (next_available_handle t) (length ds), t') \<and>
    (\<forall>i < length ds. GetDispatcher (next_available_handle t + of_nat i) t' = Some (ds ! i)) \<and>
    (\<forall>k < next_available_handle t. map_of (handles t') k = map_of (handles t) k)"
  using assms
proof (induction ds arbitrary: t)
  case Nil
  then show ?case by simp
next
  case (Cons d ds)
  let ?h = "next_available_handle t"
  obtain t1 where t1: "AddDispatcher d t = (?h, t1)" "map_of (handles t1) = (map_of (handles t))(?h \<mapsto> Entry_init d)"
    "next_available_handle t1 = ?h + 1" "table_inv t1"
    using AddDispatcher_next [OF Cons.prems(1,2), of d] by metis
  have step: "add_all (d # ds) t = (?h # fst (add_all ds t1), snd (add_all ds t1))"
    using t1(1) Cons.prems(2) by (auto simp: AddDispatcher_def Let_def split: prod.splits)
  show ?case
  proof (cases ds)
    case Nil
    then show ?thesis using step t1(2) by (auto simp: GetDispatcher_def Entry_init_def)
  next
    case (Cons e es)
    then have "unat ?h + 1 < 2 ^ 32" using Cons.prems(3) by simp
    then have u: "unat (?h + 1) = Suc (unat ?h)" by (simp add: unat_word_ariths)
    then have "next_available_handle t1 \<noteq> 0" "unat (next_available_handle t1) + length ds \<le> 2 ^ 32"
      using t1(3) Cons.prems(3) by (auto simp: unat_eq_zero [symmetric])
    then obtain t' where t': "add_all ds t1 = (seq_from (?h + 1) (length ds), t')"
      "\<forall>i < length ds. GetDispatcher (?h + 1 + of_nat i) t' = Some (ds ! i)"
      "\<forall>k < ?h + 1. map_of (handles t') k = map_of (handles t1) k"
      using Cons.IH [OF t1(4)] t1(3) by auto
    have less: "?h < ?h + 1" "k < ?h + 1" if "k < ?h" for k using u that by (auto simp: word_less_nat_alt)
    have "GetDispatcher ?h t' = Some d" using t'(3) u t1(2) by (simp add: GetDispatcher_def Entry_init_def word_less_nat_alt)
    then have "GetDispatcher (?h + of_nat i) t' = Some ((d # ds) ! i)" if "i < length (d # ds)" for i
      using that t'(2) by (cases i) (auto simp: algebra_simps)
    moreover have "\<forall>k < ?h. map_of (handles t') k = map_of (handles t) k" using t'(3) t1(2) less by auto
    ultimately show ?thesis using step t'(1) by simp
  qed
qed

lemma AddDispatchersFromTransit_handles:
  assumes "table_inv t" "next_available_handle t \<noteq> 0" "unat (next_available_handle t) + length ds \<le> 2 ^ 32"
  shows "\<exists>t'. AddDispatchersFromTransit ds t = (True, seq_from (next_available_handle t) (length ds), t') \<and>
    (\<forall>i < length ds. GetDispatcher (next_available_handle t + of_nat i) t' = Some (dit_dispatcher (ds ! i))) \<and>
    (\<forall>k < next_available_handle t. map_of (handles t') k = map_of (handles t) k)"
proof -
  let ?n = "next_available_handle t"
  have n: "unat ?n < 2 ^ 32" using unsigned_less [of ?n] by simp
  then have "unat ((ucast ?n :: size_t) + of_nat (length ds)) = unat ?n + length ds"
    using assms(3) by (simp add: unat_word_ariths unat_of_nat unsigned_ucast_eq take_bit_eq_mod)
  then have "\<not> (ucast ?n :: size_t) + of_nat (length ds) < ucast ?n"
    using n by (simp add: word_less_nat_alt unsigned_ucast_eq take_bit_eq_mod)
  then show ?thesis
    using add_all_handles [OF assms(1,2), of "map dit_dispatcher ds"] assms(2,3) by (auto simp: AddDispatchersFromTransit_def)
qed

text \<open>Parcels that a message can carry, and the two sides of their transfer.\<close>

definition parcels_ok :: "platform \<Rightarrow> parcel list \<Rightarrow> bool" where
  "parcels_ok pl ps \<longleftrightarrow> length ps < 2 ^ 16 \<and> (\<forall>p \<in> set ps. (\<exists>d. p = parcel_of pl d) \<and> sendable p \<and> length (pc_data p) \<le> 8)"

definition packed :: "parcel list \<Rightarrow> uint8_t list \<Rightarrow> uint8_t list" where
  "packed ps bytes = pipe_payload (map header_of ps) (concat (map pc_data ps)) bytes"

lemma parcels_okI:
  assumes "map (parcel_at pl w) as = map Some ps" "list_all sendable ps" "length ps < 2 ^ 16"
  shows "parcels_ok pl ps"
proof -
  have "(\<exists>d. p = parcel_of pl d) \<and> sendable p \<and> length (pc_data p) \<le> 8" if "p \<in> set ps" for p
  proof -
    have "Some p \<in> set (map (parcel_at pl w) as)" unfolding assms(1) using that by simp
    then obtain a where "parcel_at pl w a = Some p" by (metis (no_types, lifting) ex_map_conv in_set_conv_nth nth_map)
    then obtain d where d: "p = parcel_of pl d" by (auto simp: parcel_at_def)
    moreover have "sendable p" using assms(2) that by (auto simp: list_all_iff)
    ultimately show ?thesis using parcel_length by (auto simp: sendable_def)
  qed
  then show ?thesis using assms(3) by (simp add: parcels_ok_def)
qed

lemma receive_parcels:
  assumes "parcels_ok pl ps" "ps \<noteq> []" "msg_payload m = packed ps bytes" "msg_handles m = map pc_handle ps"
    and "table_inv (core_handles w)" "next_available_handle (core_handles w) \<noteq> 0"
    and "unat (next_available_handle (core_handles w)) + length ps \<le> 2 ^ 32"
  obtains t' where "MP_receive fuel pl True m w = Some (Inr (MOJO_RESULT_OK, bytes, seq_from (next_available_handle (core_handles w)) (length ps),
      (alloc_all (map (the \<circ> pc_received) ps) w)\<lparr>core_handles := t'\<rparr>))"
    "\<And>i. i < length ps \<Longrightarrow> GetDispatcher (next_available_handle (core_handles w) + of_nat i) t' = Some (core_next w + i)"
    "\<And>k. k < next_available_handle (core_handles w) \<Longrightarrow> map_of (handles t') k = map_of (handles (core_handles w)) k"
proof -
  let ?P = "msg_payload m" and ?h = "next_available_handle (core_handles w)"
  have ok: "length ps < 2 ^ 16" "\<forall>p \<in> set ps. length (pc_data p) \<le> 8" using assms(1) by (auto simp: parcels_ok_def)
  note P = payload_layout [OF assms(3) [unfolded packed_def] ok]
  have d: "deserialize_all pl m (length ps) 0 (8 + length ps * 16) 0 0 w =
      Inr (Some [core_next w..<core_next w + length ps], alloc_all (map (the \<circ> pc_received) ps) w)"
  proof (rule deserialize_parcels)
    show "drop (8 + 0 * 16) ?P = concat (map (write_DispatcherHeader \<circ> header_of) ps) @ concat (map pc_data ps) @ bytes"
      using P(3) by simp
    show "drop 0 (msg_handles m) = map pc_handle ps @ []" using assms(4) by simp
  qed (use P(4) assms(1) in \<open>auto simp: parcels_ok_def\<close>)
  let ?ds = "map (\<lambda>a. \<lparr>dit_dispatcher = a, local_handle = 0\<rparr>) [core_next w..<core_next w + length ps]"
  let ?w = "alloc_all (map (the \<circ> pc_received) ps) w"
  obtain t' where t': "AddDispatchersFromTransit ?ds (core_handles w) = (True, seq_from ?h (length ?ds), t')"
    "\<forall>i < length ?ds. GetDispatcher (?h + of_nat i) t' = Some (dit_dispatcher (?ds ! i))"
    "\<forall>k < ?h. map_of (handles t') k = map_of (handles (core_handles w)) k"
    using AddDispatchersFromTransit_handles [OF assms(5,6), of ?ds] assms(7) by auto
  have add: "Core_AddDispatchersFromTransit fuel [core_next w..<core_next w + length ps] ?w =
      Some (Inr (True, seq_from ?h (length ps), ?w\<lparr>core_handles := t'\<rparr>))"
    using t'(1) by (simp add: Core_AddDispatchersFromTransit_def)
  have "MP_receive fuel pl True m w = Some (Inr (MOJO_RESULT_OK, bytes, seq_from ?h (length ps), ?w\<lparr>core_handles := t'\<rparr>))"
    using d add P assms(2) by (simp add: MP_receive_def handles_available_def Let_def)
  then show thesis using t'(2,3) by (intro that [of t']) auto
qed

section \<open>Beginning and completing a transfer\<close>

lemma repacked_trans: "repacked pl as w w1 \<Longrightarrow> repacked pl bs w1 w2 \<Longrightarrow> repacked pl (as @ bs) w w2"
  by (simp add: repacked_def)

lemma repacked_put:
  "core_objects w a = Some d \<Longrightarrow> parcel_of pl d' = parcel_of pl d \<Longrightarrow> repacked pl [a] w (put_object a d' w)"
  by (auto simp: repacked_def parcel_at_def put_object_def)

lemma V_BeginTransit_repacked: "V_BeginTransit a w = (ok, w1) \<Longrightarrow> repacked pl [a] w w1"
  by (auto simp: V_BeginTransit_def MP_BeginTransit_def P_BeginTransit_def C_BeginTransit_def SB_BeginTransit_def PH_BeginTransit_def
      parcel_of_def intro!: repacked_put split: option.splits Dispatcher.splits prod.splits if_splits) (simp_all add: repacked_def)

lemma BeginTransit_repacked:
  assumes "BeginTransit V_BeginTransit hs t w = (MOJO_RESULT_OK, ds, t1, w1)"
  shows "repacked pl (map dit_dispatcher ds) w w1 \<and> map (Some \<circ> dit_dispatcher) ds = map (\<lambda>h. GetDispatcher h t) hs \<and>
    (\<forall>k. GetDispatcher k t1 = GetDispatcher k t) \<and> map fst (handles t1) = map fst (handles t) \<and>
    next_available_handle t1 = next_available_handle t"
  using assms
proof (induction hs arbitrary: t w ds)
  case Nil
  then show ?case by (simp add: repacked_def)
next
  case (Cons h hs)
  obtain e w2 ds2 where st: "map_of (handles t) h = Some e" "V_BeginTransit (entry_dispatcher e) w = (True, w2)"
    "BeginTransit V_BeginTransit hs (set_busy True h t) w2 = (MOJO_RESULT_OK, ds2, t1, w1)"
    "ds = \<lparr>dit_dispatcher = entry_dispatcher e, local_handle = h\<rparr> # ds2"
    by (rule BeginTransit_step [OF Cons.prems]) blast+
  have g: "GetDispatcher k (set_busy True h t) = GetDispatcher k t" for k by (simp add: GetDispatcher_def option.map_comp comp_def)
  note ih = Cons.IH [OF st(3)]
  have "repacked pl ([entry_dispatcher e] @ map dit_dispatcher ds2) w w1"
    using repacked_trans V_BeginTransit_repacked [OF st(2)] ih by blast
  then show ?case using ih st(1,4) by (auto simp: g) (simp add: GetDispatcher_def)
qed

text \<open>Handles that are idle, with dispatchers of their own, can all be put in transit.\<close>

definition idle_handle :: "Core \<Rightarrow> MojoHandle \<Rightarrow> bool" where
  "idle_handle w h \<longleftrightarrow> (\<exists>e. map_of (handles (core_handles w)) h = Some e \<and> \<not> entry_busy e \<and> fst (V_BeginTransit (entry_dispatcher e) w))"

lemma V_BeginTransit_cong: "core_objects w' a = core_objects w a \<Longrightarrow> fst (V_BeginTransit a w') = fst (V_BeginTransit a w)"
  by (simp add: V_BeginTransit_def split: option.splits Dispatcher.splits prod.splits)

lemma BeginTransit_idle:
  assumes "\<forall>h \<in> set hs. \<exists>e. map_of (handles t) h = Some e \<and> \<not> entry_busy e \<and> fst (V_BeginTransit (entry_dispatcher e) w)"
    and "distinct (map (\<lambda>h. GetDispatcher h t) hs)"
  shows "fst (BeginTransit V_BeginTransit hs t w) = MOJO_RESULT_OK"
  using assms
proof (induction hs arbitrary: t w)
  case (Cons h hs)
  obtain e w1 where e: "map_of (handles t) h = Some e" "\<not> entry_busy e" "V_BeginTransit (entry_dispatcher e) w = (True, w1)"
    using Cons.prems(1) by (metis list.set_intros(1) prod.collapse)
  have rp: "\<forall>x. x \<noteq> entry_dispatcher e \<longrightarrow> core_objects w1 x = core_objects w x"
    using V_BeginTransit_repacked [OF e(3), of pl] by (simp add: repacked_def)
  have ne: "GetDispatcher h' t \<noteq> Some (entry_dispatcher e)" if "h' \<in> set hs" for h'
  proof -
    have "GetDispatcher h t = Some (entry_dispatcher e)" using e(1) by (simp add: GetDispatcher_def)
    then show ?thesis using Cons.prems(2) that by (metis (no_types, lifting) distinct.simps(2) imageI list.simps(9) set_map)
  qed
  have step: "\<exists>e'. map_of (handles (set_busy True h t)) h' = Some e' \<and> \<not> entry_busy e' \<and> fst (V_BeginTransit (entry_dispatcher e') w1)"
    if h': "h' \<in> set hs" for h'
  proof -
    obtain e' where e': "map_of (handles t) h' = Some e'" "\<not> entry_busy e'" "fst (V_BeginTransit (entry_dispatcher e') w)"
      using Cons.prems(1) h' by auto
    have d: "entry_dispatcher e' \<noteq> entry_dispatcher e" "h' \<noteq> h" using ne [OF h'] e'(1) e(1) by (auto simp: GetDispatcher_def)
    then show ?thesis using e' V_BeginTransit_cong [of w1 "entry_dispatcher e'" w] rp by simp
  qed
  have "GetDispatcher k (set_busy True h t) = GetDispatcher k t" for k by (simp add: GetDispatcher_def option.map_comp comp_def)
  then have "fst (BeginTransit V_BeginTransit hs (set_busy True h t) w1) = MOJO_RESULT_OK"
    using Cons.IH [of "set_busy True h t" w1] step Cons.prems(2) by simp
  then show ?case using e by (auto split: prod.splits)
qed simp

lemma idle_handles_begin:
  assumes "\<forall>h \<in> set hs. idle_handle w h" "distinct (map (\<lambda>h. Core_GetDispatcher h w) hs)"
  obtains ds t1 w1 where "BeginTransit V_BeginTransit hs (core_handles w) w = (MOJO_RESULT_OK, ds, t1, w1)"
proof -
  have "fst (BeginTransit V_BeginTransit hs (core_handles w) w) = MOJO_RESULT_OK"
    by (rule BeginTransit_idle) (use assms in \<open>auto simp: idle_handle_def Core_GetDispatcher_def\<close>)
  then show thesis using that by (cases "BeginTransit V_BeginTransit hs (core_handles w) w") auto
qed

text \<open>Dispatchers without ports are closed on their own.\<close>

definition portless :: "Core \<Rightarrow> nat \<Rightarrow> bool" where
  "portless w a \<longleftrightarrow> (\<exists>d. core_objects w a = Some d \<and> GetType d \<in> {SHARED_BUFFER, PLATFORM_HANDLE})"

lemma sendable_portless: "parcel_at pl w a = Some p \<Longrightarrow> sendable p \<Longrightarrow> portless w a"
  by (auto simp: parcel_at_def parcel_of_def sendable_def portless_def elim!: received.elims)

lemma V_Complete_portless:
  assumes "portless w a"
  shows "\<exists>d. V_CompleteTransitAndClose fuel a w = Some (Inr (put_object a d w)) \<and> (\<forall>x. portless w x \<longrightarrow> portless (put_object a d w) x)"
  using assms unfolding portless_def V_CompleteTransitAndClose_def
  by (auto simp: put_object_def split: Dispatcher.splits elim!: GetType.elims)

lemma Complete_portless:
  assumes "\<forall>d \<in> set ds. portless w (dit_dispatcher d)"
  shows "\<exists>w'. snd (CompleteTransitAndClose (\<lambda>a s. and_then s (V_CompleteTransitAndClose fuel a)) ds t (Some (Inr w))) = Some (Inr w') \<and>
    core_env w' = core_env w \<and> core_next w' = core_next w \<and>
    (\<forall>x. x \<notin> dit_dispatcher ` set ds \<longrightarrow> core_objects w' x = core_objects w x)"
  using assms
proof (induction ds arbitrary: t w)
  case (Cons d ds)
  obtain x where x: "V_CompleteTransitAndClose fuel (dit_dispatcher d) w = Some (Inr (put_object (dit_dispatcher d) x w))"
    "\<forall>y. portless w y \<longrightarrow> portless (put_object (dit_dispatcher d) x w) y"
    using V_Complete_portless [of w "dit_dispatcher d" fuel] Cons.prems by auto
  from x(2) Cons.prems have "\<forall>d' \<in> set ds. portless (put_object (dit_dispatcher d) x w) (dit_dispatcher d')" by auto
  from Cons.IH [OF this, of "t\<lparr>handles := um_erase (local_handle d) (handles t)\<rparr>"]
  obtain w' where "snd (CompleteTransitAndClose (\<lambda>a s. and_then s (V_CompleteTransitAndClose fuel a)) ds
      (t\<lparr>handles := um_erase (local_handle d) (handles t)\<rparr>) (Some (Inr (put_object (dit_dispatcher d) x w)))) = Some (Inr w')"
    "core_env w' = core_env w" "core_next w' = core_next w"
    "\<forall>y. y \<notin> dit_dispatcher ` set ds \<longrightarrow> core_objects w' y = core_objects (put_object (dit_dispatcher d) x w) y"
    by (auto simp: put_object_def)
  then show ?case using x(1) by (intro exI [of _ w']) (simp add: put_object_def)
qed simp

lemma Complete_table:
  "next_available_handle (fst (CompleteTransitAndClose c ds t s)) = next_available_handle t \<and>
   (table_inv t \<longrightarrow> table_inv (fst (CompleteTransitAndClose c ds t s)))"
  by (induction ds arbitrary: t s) (simp_all add: table_inv_erase)

section \<open>Sending\<close>

text \<open>The parcel behind a handle.\<close>

definition parcel_under :: "platform \<Rightarrow> Core \<Rightarrow> MojoHandle \<Rightarrow> parcel option" where
  "parcel_under pl w h = Option.bind (Core_GetDispatcher h w) (parcel_at pl w)"

lemma parcels_under_addresses:
  assumes "map (parcel_under pl w) hs = map Some ps" "map (Some \<circ> dit_dispatcher) ds = map (\<lambda>h. GetDispatcher h (core_handles w)) hs"
  shows "map (parcel_at pl w) (map dit_dispatcher ds) = map Some ps"
proof -
  have "map (\<lambda>x. Option.bind x (parcel_at pl w)) (map (Some \<circ> dit_dispatcher) ds) = map Some ps"
    unfolding assms(2) using assms(1) by (simp add: parcel_under_def [abs_def] Core_GetDispatcher_def comp_def)
  then show ?thesis by (simp add: comp_def)
qed

lemma sendable_not_pipe:
  assumes "map (parcel_at pl w) as = map Some ps" "list_all sendable ps" "a \<in> set as"
  shows "portless w a"
proof -
  have "parcel_at pl w a \<in> set (map Some ps)" using assms(3) unfolding assms(1) [symmetric] by simp
  then show ?thesis using assms(2) sendable_portless by (auto simp: list_all_iff)
qed

lemma MP_WriteMessage_sends:
  assumes "\<not> mp_port_closed d" "\<not> mp_in_transit d" "linkedh (mp_port d) r1 (nc_node (controller w)) xs" "quiet (controller w)"
    and "map (parcel_at pl w) as = map Some ps" "list_all sendable ps" "length ps < 2 ^ 16"
  obtains c' w3 where "MP_WriteMessage fuel pl bytes as a d w = Some (Inr (MOJO_RESULT_OK, set_controller c' w3))"
    "repacked pl as w w3" "quiet c'" "linkedh (mp_port d) r1 (nc_node c') (xs @ [(packed ps bytes, map pc_handle ps)])"
    "read_so_far r1 (nc_node c') = read_so_far r1 (nc_node (controller w))"
proof -
  have ok: "\<forall>p \<in> set ps. length (pc_data p) \<le> 8" using parcels_okI [OF assms(5-7)] by (simp add: parcels_ok_def)
  note start = start_serialize_parcels [OF assms(5,6)]
  obtain w3 where w3: "end_serialize pl (8 + length (map header_of ps) * 16) (zip as (map header_of ps)) w =
      Inr (Some (concat (map pc_data ps), [], map pc_handle ps), w3)" "repacked pl as w w3"
    using end_serialize_parcels [OF assms(5,6) ok] by blast
  have sh: "PortsMessage_SetHandles (map pc_handle ps) (NewUserMessage [] (packed ps bytes)) =
      Inr ((NewUserMessage [] (packed ps bytes))\<lparr>msg_handles := map pc_handle ps\<rparr>)"
    using assms(7) by (simp add: PortsMessage_SetHandles_def unat_of_nat)
  have c3: "controller w3 = controller w" using w3(2) by (simp add: repacked_def)
  define m where "m = (NewUserMessage [] (packed ps bytes))\<lparr>msg_handles := map pc_handle ps\<rparr>"
  obtain c' where c': "NC_SendMessage fuel (mp_port d) m (controller w) = Some (Inr (OK, None, c'))" "quiet c'"
    "linkedh (mp_port d) r1 (nc_node c') (xs @ [(packed ps bytes, map pc_handle ps)])"
    "read_so_far r1 (nc_node c') = read_so_far r1 (nc_node (controller w))"
    using NC_SendMessage_linkedh [OF assms(3,4) m_def] by metis
  have "MP_WriteMessage fuel pl bytes as a d w = Some (Inr (MOJO_RESULT_OK, set_controller c' w3))"
    using assms(1,2) start w3(1) sh c'(1) c3
    by (simp add: MP_WriteMessage_def MP_send_result_def packed_def [symmetric] m_def [symmetric])
  then show thesis using w3(2) c' that by blast
qed

lemma Core_WriteMessage_sends:
  assumes "BeginTransit V_BeginTransit hs (core_handles w) w = (MOJO_RESULT_OK, ds, t1, w1)" "hs \<noteq> []" "pipe_end h r0 w" "h \<notin> set hs"
    and "linkedh r0 r1 (nc_node (controller w)) xs" "quiet (controller w)" "table_inv (core_handles w)"
    and "map (parcel_under pl w) hs = map Some ps" "list_all sendable ps" "length ps < 2 ^ 16"
  obtains w' where "Core_WriteMessage fuel pl h bytes hs w = Some (Inr (MOJO_RESULT_OK, w'))"
    "quiet (controller w')" "linkedh r0 r1 (nc_node (controller w')) (xs @ [(packed ps bytes, map pc_handle ps)])"
    "read_so_far r1 (nc_node (controller w')) = read_so_far r1 (nc_node (controller w))"
    "table_inv (core_handles w')" "next_available_handle (core_handles w') = next_available_handle (core_handles w)"
    "\<forall>k. map_of (handles (core_handles w')) k = (if k \<in> set hs then None else map_of (handles (core_handles w)) k)"
    "\<forall>x. \<not> portless w x \<longrightarrow> core_objects w' x = core_objects w x"
proof -
  obtain a d where ad: "Core_GetDispatcher h w = Some a" "core_objects w a = Some (D_MessagePipe d)" "mp_port d = r0"
    "\<not> mp_port_closed d" "\<not> mp_in_transit d"
    using assms(3) by (auto simp: pipe_end_def)
  let ?as = "map dit_dispatcher ds" and ?w1 = "w1\<lparr>core_handles := t1\<rparr>"
  note bt = BeginTransit_repacked [OF assms(1), of pl]
  have under: "map (parcel_at pl w) ?as = map Some ps" using parcels_under_addresses [OF assms(8)] bt by blast
  then have under1: "map (parcel_at pl ?w1) ?as = map Some ps" using bt by (simp add: repacked_def parcel_at_def [abs_def])
  have pw: "portless w y" if "y \<in> set ?as" for y using sendable_not_pipe [OF under assms(9) that] .
  then have "a \<notin> set ?as" using ad(2) by (force simp: portless_def)
  then have a1: "core_objects ?w1 a = Some (D_MessagePipe d)" using bt ad(2) by (simp add: repacked_def)
  have c1: "controller ?w1 = controller w" using bt by (simp add: repacked_def)
  obtain c' w3 where send: "MP_WriteMessage fuel pl bytes ?as a d ?w1 = Some (Inr (MOJO_RESULT_OK, set_controller c' w3))"
    "repacked pl ?as ?w1 w3" "quiet c'" "linkedh r0 r1 (nc_node c') (xs @ [(packed ps bytes, map pc_handle ps)])"
    "read_so_far r1 (nc_node c') = read_so_far r1 (nc_node (controller w))"
    using MP_WriteMessage_sends [OF ad(4,5) _ _ under1 assms(9,10), of r1 xs] assms(5,6) unfolding c1 ad(3) by metis
  define w2 where "w2 = set_controller c' w3"
  have pw2: "map (parcel_at pl w2) ?as = map Some ps"
    using under1 send(2) by (simp add: w2_def repacked_def parcel_at_def [abs_def])
  then have "\<forall>d \<in> set ds. portless w2 (dit_dispatcher d)" using sendable_not_pipe [OF pw2 assms(9)] by simp
  from Complete_portless [OF this, of fuel t1] obtain w4 where
    w4: "snd (CompleteTransitAndClose (\<lambda>a s. and_then s (V_CompleteTransitAndClose fuel a)) ds t1 (Some (Inr w2))) = Some (Inr w4)"
    "core_env w4 = core_env w2" "\<forall>x. x \<notin> set ?as \<longrightarrow> core_objects w4 x = core_objects w2 x"
    by auto
  obtain t2 where t2: "CompleteTransitAndClose (\<lambda>a s. and_then s (V_CompleteTransitAndClose fuel a)) ds t1 (Some (Inr w2)) = (t2, Some (Inr w4))"
    using w4(1) by (metis prod.collapse)
  have "core_handles w2 = t1" using send(2) by (simp add: w2_def repacked_def)
  then have complete: "Core_CompleteTransitAndClose fuel ds w2 = Some (Inr (w4\<lparr>core_handles := t2\<rparr>))"
    using t2 by (simp add: Core_CompleteTransitAndClose_def)
  have "length hs = length ps" using assms(8) by (metis length_map)
  then have "Core_WriteMessage fuel pl h bytes hs w = Some (Inr (MOJO_RESULT_OK, w4\<lparr>core_handles := t2\<rparr>))"
    using assms(1,2,4,10) ad(1) a1 send(1) complete
    by (simp add: Core_WriteMessage_def Core_BeginTransit_def V_WriteMessage_def kMaxHandlesPerMessage_def w2_def)
  moreover have "table_inv t1" using table_inv_keys [OF assms(7)] bt by auto
  then have "table_inv t2" "next_available_handle t2 = next_available_handle (core_handles w)"
    using Complete_table [of "\<lambda>a s. and_then s (V_CompleteTransitAndClose fuel a)" ds t1 "Some (Inr w2)"] t2 bt by auto
  moreover have "\<forall>k. map_of (handles t2) k = (if k \<in> set hs then None else map_of (handles (core_handles w)) k)"
    using transit_removes_exactly [OF assms(1) t2] by simp
  moreover have "core_objects w4 x = core_objects w x" if "\<not> portless w x" for x
  proof -
    have "x \<notin> set ?as" using pw that by blast
    then show ?thesis using w4(3) send(2) bt by (simp add: w2_def repacked_def)
  qed
  ultimately show thesis using send(3-5) w4(2) by (intro that [of "w4\<lparr>core_handles := t2\<rparr>"]) (simp_all add: w2_def)
qed

section \<open>Receiving\<close>

text \<open>A message with handles at the head of the queue of a pipe is received whole.\<close>

lemma Core_ReadMessage_receives:
  assumes "pipe_end h r1 w" "linkedh r0 r1 (nc_node (controller w)) ((packed ps bytes, map pc_handle ps) # xs)"
    and "read_so_far r1 (nc_node (controller w)) + Suc (length xs) < 2 ^ 64" "parcels_ok pl ps" "ps \<noteq> []"
    and "table_inv (core_handles w)" "next_available_handle (core_handles w) \<noteq> 0"
    and "unat (next_available_handle (core_handles w)) + length ps \<le> 2 ^ 32"
    and "length bytes \<le> unat nb" "length ps \<le> unat nh"
  obtains w' where "Core_ReadMessage fuel pl h True (Some nb) True (Some nh) discard w =
      Some (Inr ((MOJO_RESULT_OK, Some (of_nat (length bytes)), Some (of_nat (length ps)), bytes,
        seq_from (next_available_handle (core_handles w)) (length ps)), w'))"
    "\<And>i. i < length ps \<Longrightarrow> \<exists>a. Core_GetDispatcher (next_available_handle (core_handles w) + of_nat i) w' = Some a \<and>
       core_objects w' a = pc_received (ps ! i)"
    "\<And>k. k < next_available_handle (core_handles w) \<Longrightarrow> map_of (handles (core_handles w')) k = map_of (handles (core_handles w)) k"
proof -
  let ?n = "nc_node (controller w)" and ?h = "next_available_handle (core_handles w)"
  obtain a d where ad: "Core_GetDispatcher h w = Some a" "core_objects w a = Some (D_MessagePipe d)" "mp_port d = r1"
    "\<not> mp_port_closed d" "\<not> mp_in_transit d"
    using assms(1) by (auto simp: pipe_end_def)
  have bound: "read_so_far r1 ?n + length ((packed ps bytes, map pc_handle ps) # xs) < 2 ^ 64" using assms(3) by simp
  show thesis
  proof (rule GetMessageIf_linkedh [OF assms(2) bound])
    fix m n'
    assume m: "msg_payload m = packed ps bytes" "msg_handles m = map pc_handle ps"
      "HasNextMessage (message_queue (port_at ?n (ref_port r1)))" "mq_heap (message_queue (port_at ?n (ref_port r1))) ! 0 = m"
      and take: "\<And>f. f m \<Longrightarrow> GetMessageIf r1 (Some f) ?n = Inr (OK, Some m, n')"
    have nm: "next_message r1 ?n = Some m" using linkedh_next_message [OF assms(2)] m(3,4) by simp
    have lens: "length ps < 2 ^ 16" "\<forall>p \<in> set ps. length (pc_data p) \<le> 8" using assms(4) by (auto simp: parcels_ok_def)
    note P = payload_layout [OF m(1) [unfolded packed_def] lens]
    have ha: "handles_available m = of_nat (length ps)" unfolding handles_available_def P(1) [symmetric] by simp
    have hs: "read_u32 (drop 4 (msg_payload m)) = of_nat (header_size (map header_of ps))"
      unfolding P(2) [symmetric] by simp
    have ba: "bytes_available m = of_nat (length bytes)" using P(6) hs by (simp add: bytes_available_def)
    have sp: "has_space (Some nb) (Some nh) m"
    proof -
      have "unat (of_nat (length bytes) :: uint32_t) \<le> unat nb" "unat (of_nat (length ps) :: uint32_t) \<le> unat nh"
        using assms(9,10) by (simp_all add: unat_of_nat)
      then show ?thesis by (simp add: has_space_def ba ha word_le_nat_alt word_less_nat_alt min_def)
    qed
    let ?w1 = "set_controller (set_node n' (controller w)) w"
    have h1: "core_handles ?w1 = core_handles w" "core_next ?w1 = core_next w" by simp_all
    show thesis
    proof (rule receive_parcels [OF assms(4,5) m(1,2) assms(6,7,8) [folded h1(1)]])
      fix t'
      let ?w2 = "(alloc_all (map (the \<circ> pc_received) ps) ?w1)\<lparr>core_handles := t'\<rparr>"
      assume r: "MP_receive fuel pl True m ?w1 = Some (Inr (MOJO_RESULT_OK, bytes, seq_from (next_available_handle (core_handles ?w1)) (length ps), ?w2))"
        "\<And>i. i < length ps \<Longrightarrow> GetDispatcher (next_available_handle (core_handles ?w1) + of_nat i) t' = Some (core_next ?w1 + i)"
        "\<And>k. k < next_available_handle (core_handles ?w1) \<Longrightarrow> map_of (handles t') k = map_of (handles (core_handles ?w1)) k"
      have long: "\<not> length (msg_payload m) < 8" using P(6) by (simp add: header_size_def)
      have "Core_ReadMessage fuel pl h True (Some nb) True (Some nh) discard w =
          Some (Inr ((MOJO_RESULT_OK, Some (of_nat (length bytes)), Some (of_nat (length ps)), bytes, seq_from ?h (length ps)), ?w2))"
        using ad nm take sp long r(1)
        by (simp add: Core_ReadMessage_def V_ReadMessage_def MP_ReadMessage_def ba ha Let_def)
      moreover have "\<exists>b. Core_GetDispatcher (?h + of_nat i) ?w2 = Some b \<and> core_objects ?w2 b = pc_received (ps ! i)" if "i < length ps" for i
        using r(2) [OF that] that assms(4) by (force simp: Core_GetDispatcher_def alloc_all_objects parcels_ok_def sendable_def)
      ultimately show thesis using r(3) by (intro that [of ?w2]) simp_all
    qed
  qed
qed

lemma pipe_handle_not_sent:
  assumes "pipe_end h r w" "\<forall>h' \<in> set hs. \<exists>p. parcel_under pl w h' = Some p \<and> sendable p"
  shows "h \<notin> set hs"
  using assms sendable_portless by (fastforce simp: pipe_end_def portless_def parcel_under_def)

lemma pipe_end_after_write:
  assumes "pipe_end h r w" "\<forall>h' \<in> set hs. \<exists>p. parcel_under pl w h' = Some p \<and> sendable p"
    and "\<forall>k. map_of (handles (core_handles w')) k = (if k \<in> set hs then None else map_of (handles (core_handles w)) k)"
    and "\<forall>x. \<not> portless w x \<longrightarrow> core_objects w' x = core_objects w x"
  shows "pipe_end h r w'"
proof -
  have "\<not> portless w a" if "core_objects w a = Some (D_MessagePipe d)" for a d using that by (simp add: portless_def)
  then show ?thesis
    using assms(1,3,4) pipe_handle_not_sent [OF assms(1,2)] by (auto simp: pipe_end_def Core_GetDispatcher_def GetDispatcher_def)
qed

lemma parcels_of_handles:
  assumes "\<forall>h \<in> set hs. \<exists>a d. Core_GetDispatcher h w = Some a \<and> core_objects w a = Some d \<and> received pl d \<noteq> None"
    and "length hs < 2 ^ 16"
  obtains ps where "map (parcel_under pl w) hs = map Some ps" "list_all sendable ps" "length ps = length hs" "parcels_ok pl ps"
    "\<And>i. i < length hs \<Longrightarrow> \<exists>a d. Core_GetDispatcher (hs ! i) w = Some a \<and> core_objects w a = Some d \<and> pc_received (ps ! i) = received pl d"
proof -
  define ps where "ps = map (the \<circ> parcel_under pl w) hs"
  have u: "\<exists>a d. Core_GetDispatcher h w = Some a \<and> core_objects w a = Some d \<and> parcel_under pl w h = Some (parcel_of pl d) \<and>
      sendable (parcel_of pl d)" if "h \<in> set hs" for h
    using assms(1) that by (fastforce simp: parcel_under_def parcel_at_def sendable_def parcel_of_def)
  then have ps: "map (parcel_under pl w) hs = map Some ps" "list_all sendable ps" "length ps = length hs"
    by (fastforce simp: ps_def list_all_iff)+
  have "parcel_at pl w (the (Core_GetDispatcher h w)) = parcel_under pl w h" if "h \<in> set hs" for h
    using u [OF that] by (auto simp: parcel_under_def)
  then have "map (parcel_at pl w) (map (\<lambda>h. the (Core_GetDispatcher h w)) hs) = map Some ps" using ps(1) by (simp cong: map_cong)
  from parcels_okI [OF this ps(2)] have "parcels_ok pl ps" using ps(3) assms(2) by simp
  moreover have "\<exists>a d. Core_GetDispatcher (hs ! i) w = Some a \<and> core_objects w a = Some d \<and> pc_received (ps ! i) = received pl d"
    if "i < length hs" for i
    using u [of "hs ! i"] that by (auto simp: ps_def parcel_of_def)
  ultimately show thesis using that ps by blast
qed

lemma parcels_sendable:
  assumes "map (parcel_under pl w) hs = map Some ps" "list_all sendable ps" "h \<in> set hs"
  shows "\<exists>p. parcel_under pl w h = Some p \<and> sendable p"
proof -
  have "parcel_under pl w h \<in> set (map Some ps)" unfolding assms(1) [symmetric] using assms(3) by simp
  then show ?thesis using assms(2) by (auto simp: list_all_iff)
qed

lemma parcel_below_next:
  assumes "table_inv (core_handles w)" "next_available_handle (core_handles w) \<noteq> 0" "parcel_under pl w h = Some p"
  shows "h < next_available_handle (core_handles w)"
proof -
  have "h \<in> fst ` set (handles (core_handles w))"
    using assms(3) by (force simp: parcel_under_def Core_GetDispatcher_def GetDispatcher_def bind_eq_Some_conv dest: map_of_SomeD)
  then show ?thesis using assms(1,2) by (auto simp: table_inv_def)
qed

text \<open>
  C7: Platform handles and shared buffers sent over a message pipe arrive: when the write reports success, a read
  on the other end with enough room returns the bytes and as many new handles as were sent, in the same
  order, each naming a fresh dispatcher that is what the sender's dispatcher serialises to (the same platform
  handle, or the buffer made from the duplicate of the platform handle); the sender's handles are gone.
\<close>

theorem handles_arrive:
  assumes "mp_rel N h0 h1 w ([], q1)" "Suc N < 2 ^ 64" "table_inv (core_handles w)" "hs \<noteq> []" "length hs < 2 ^ 16"
    and "next_available_handle (core_handles w) \<noteq> 0" "unat (next_available_handle (core_handles w)) + length hs \<le> 2 ^ 32"
    and "\<forall>h \<in> set hs. \<exists>a d. Core_GetDispatcher h w = Some a \<and> core_objects w a = Some d \<and> received pl d \<noteq> None"
    and "\<forall>h \<in> set hs. idle_handle w h" "distinct (map (\<lambda>h. Core_GetDispatcher h w) hs)"
    and "length bytes \<le> unat nb" "length hs \<le> unat nh"
  shows "\<exists>w1 new_handles w2.
    Core_WriteMessage fuel pl h0 bytes hs w = Some (Inr (MOJO_RESULT_OK, w1)) \<and>
    Core_ReadMessage fuel pl h1 True (Some nb) True (Some nh) discard w1 =
      Some (Inr ((MOJO_RESULT_OK, Some (of_nat (length bytes)), Some (of_nat (length hs)), bytes, new_handles), w2)) \<and>
    length new_handles = length hs \<and>
    (\<forall>i < length hs. \<exists>a d a'. Core_GetDispatcher (hs ! i) w = Some a \<and> core_objects w a = Some d \<and>
       Core_GetDispatcher (new_handles ! i) w2 = Some a' \<and> core_objects w2 a' = received pl d) \<and>
    (\<forall>h \<in> set hs. Core_GetDispatcher h w2 = None)"
proof -
  obtain r0 r1 where r: "mp_state N h0 h1 r0 r1 w ([], q1)" using assms(1) by (auto simp: mp_rel_def)
  then have s: "pipe_end h0 r0 w" "pipe_end h1 r1 w" "quiet (controller w)" "linkedh r0 r1 (nc_node (controller w)) []"
    "read_so_far r1 (nc_node (controller w)) \<le> N"
    by (auto simp: mp_state_def frames_def)
  obtain ps where ps: "map (parcel_under pl w) hs = map Some ps" "list_all sendable ps" "length ps = length hs" "parcels_ok pl ps"
    "\<And>i. i < length hs \<Longrightarrow> \<exists>a d. Core_GetDispatcher (hs ! i) w = Some a \<and> core_objects w a = Some d \<and> pc_received (ps ! i) = received pl d"
    using parcels_of_handles [OF assms(8,5)] by metis
  note u = parcels_sendable [OF ps(1,2)]
  let ?h = "next_available_handle (core_handles w)"
  obtain ds t1 w0 where b: "BeginTransit V_BeginTransit hs (core_handles w) w = (MOJO_RESULT_OK, ds, t1, w0)"
    by (rule idle_handles_begin [OF assms(9,10)])
  have len: "length ps < 2 ^ 16" using ps(3) assms(5) by simp
  obtain w1 where w1: "Core_WriteMessage fuel pl h0 bytes hs w = Some (Inr (MOJO_RESULT_OK, w1))"
    "quiet (controller w1)" "linkedh r0 r1 (nc_node (controller w1)) ([] @ [(packed ps bytes, map pc_handle ps)])"
    "read_so_far r1 (nc_node (controller w1)) = read_so_far r1 (nc_node (controller w))"
    "table_inv (core_handles w1)" "next_available_handle (core_handles w1) = ?h"
    "\<forall>k. map_of (handles (core_handles w1)) k = (if k \<in> set hs then None else map_of (handles (core_handles w)) k)"
    "\<forall>x. \<not> portless w x \<longrightarrow> core_objects w1 x = core_objects w x"
    by (rule Core_WriteMessage_sends [OF b assms(4) s(1) pipe_handle_not_sent [OF s(1)] s(4,3) assms(3) ps(1,2) len])
       (use u in blast)
  have end1: "pipe_end h1 r1 w1" by (rule pipe_end_after_write [OF s(2) _ w1(7,8)]) (use u in blast)
  obtain w2 where w2: "Core_ReadMessage fuel pl h1 True (Some nb) True (Some nh) discard w1 =
      Some (Inr ((MOJO_RESULT_OK, Some (of_nat (length bytes)), Some (of_nat (length ps)), bytes, seq_from ?h (length ps)), w2))"
    "\<And>i. i < length ps \<Longrightarrow> \<exists>a. Core_GetDispatcher (?h + of_nat i) w2 = Some a \<and> core_objects w2 a = pc_received (ps ! i)"
    "\<And>k. k < ?h \<Longrightarrow> map_of (handles (core_handles w2)) k = map_of (handles (core_handles w1)) k"
    by (rule Core_ReadMessage_receives [where fuel = fuel and discard = discard and ps = ps and bytes = bytes and xs = "[]" and
          h = h1 and ?r0.0 = r0 and ?r1.0 = r1 and w = w1 and pl = pl and nb = nb and nh = nh])
       (use w1 end1 assms s(5) ps(3,4) in auto)
  have "\<exists>a d a'. Core_GetDispatcher (hs ! i) w = Some a \<and> core_objects w a = Some d \<and>
      Core_GetDispatcher (seq_from ?h (length ps) ! i) w2 = Some a' \<and> core_objects w2 a' = received pl d" if "i < length hs" for i
    using ps(5) [OF that] w2(2) [of i] that ps(3) seq_from_nth [of i "length ps" ?h] by auto
  moreover have "Core_GetDispatcher h w2 = None" if "h \<in> set hs" for h
    using w2(3) [of h] w1(7) that u [OF that] parcel_below_next [OF assms(3,6)] by (auto simp: Core_GetDispatcher_def GetDispatcher_def)
  ultimately show ?thesis using w1(1) w2(1) ps(3) by auto
qed

text \<open>A pipe with the handles 1 and 2, a wrapped platform handle and a shared buffer.\<close>

definition loaded_core :: Core where
  "loaded_core = (case CreatePlatformHandleWrapper (Some 7) example_message_pipe of
     (_, _, w) \<Rightarrow> (case Core_CreateSharedBuffer 0 example_platform None 4 w of Some (Inr (_, _, w')) \<Rightarrow> w' | _ \<Rightarrow> w))"

lemma loaded_core_eval:
  "core_handles loaded_core =
     \<lparr>handles = [(1, Entry_init 0), (2, Entry_init 1), (3, Entry_init 2), (4, Entry_init 3)], next_available_handle = 5\<rparr>"
  "core_objects loaded_core = (core_objects example_message_pipe)
     (2 \<mapsto> D_PlatformHandle (PH_Create (Some 7)), 3 \<mapsto> D_SharedBuffer (SharedBuffer_new (Some 1)))"
  "controller loaded_core = controller example_message_pipe"
  using example_message_pipe_eval(2,3)
  by (simp_all add: loaded_core_def CreatePlatformHandleWrapper_def Core_CreateSharedBuffer_def ValidateCreateOptions_def SB_Create_def
      example_platform_def alloc_def put_object_def Core_AddDispatcher_def AddDispatcher_def um_insert_def Let_def)

lemma loaded_core_rel: "mp_rel 1 1 2 loaded_core ([], [])"
proof -
  have "pipe_end h r loaded_core" if "pipe_end h r example_message_pipe" for h r
    using that by (auto simp: pipe_end_def loaded_core_eval Core_GetDispatcher_def GetDispatcher_def example_message_pipe_eval(2) Entry_init_def
        split: if_splits)
  then show ?thesis using example_message_pipe_rel by (auto simp: mp_rel_def mp_state_def loaded_core_eval(3))
qed

theorem handles_arrive_witness:
  "\<exists>w1 w2 x a3 a4. Core_WriteMessage 0 example_platform 1 [9, 8] [4, 3] loaded_core = Some (Inr (MOJO_RESULT_OK, w1)) \<and>
     Core_ReadMessage 0 example_platform 2 True (Some 10) True (Some 2) False w1 =
       Some (Inr ((MOJO_RESULT_OK, Some 2, Some 2, [9, 8], x), w2)) \<and>
     Core_GetDispatcher (x ! 0) w2 = Some a3 \<and> core_objects w2 a3 = Some (D_SharedBuffer (SharedBuffer_new (Some 1))) \<and>
     Core_GetDispatcher (x ! 1) w2 = Some a4 \<and> core_objects w2 a4 = Some (D_PlatformHandle (PH_Create (Some 7))) \<and>
     Core_GetDispatcher 3 w2 = None \<and> Core_GetDispatcher 4 w2 = None"
proof -
  have g: "Core_GetDispatcher 3 loaded_core = Some 2" "Core_GetDispatcher 4 loaded_core = Some 3"
    by (simp_all add: Core_GetDispatcher_def GetDispatcher_def loaded_core_eval(1) Entry_init_def)
  have o: "core_objects loaded_core 2 = Some (D_PlatformHandle (PH_Create (Some 7)))"
    "core_objects loaded_core 3 = Some (D_SharedBuffer (SharedBuffer_new (Some 1)))"
    by (simp_all add: loaded_core_eval(2))
  have r: "received example_platform (D_PlatformHandle (PH_Create (Some 7))) = Some (D_PlatformHandle (PH_Create (Some 7)))"
    "received example_platform (D_SharedBuffer (SharedBuffer_new (Some 1))) = Some (D_SharedBuffer (SharedBuffer_new (Some 1)))"
    by (simp_all add: PH_Create_def SharedBuffer_new_def example_platform_def)
  have t: "table_inv (core_handles loaded_core)"
    by (auto simp: table_inv_def loaded_core_eval(1) Entry_init_def word_less_nat_alt)
  have i: "idle_handle loaded_core 3" "idle_handle loaded_core 4"
    by (simp_all add: idle_handle_def loaded_core_eval Entry_init_def V_BeginTransit_def PH_BeginTransit_def PH_Create_def SB_BeginTransit_def
        SharedBuffer_new_def)
  have n: "next_available_handle (core_handles loaded_core) = 5" by (simp add: loaded_core_eval(1))
  obtain w1 x w2 where w: "Core_WriteMessage 0 example_platform 1 [9, 8] [4, 3] loaded_core = Some (Inr (MOJO_RESULT_OK, w1))"
    "Core_ReadMessage 0 example_platform 2 True (Some 10) True (Some 2) False w1 =
       Some (Inr ((MOJO_RESULT_OK, Some (of_nat (length [9 :: uint8_t, 8])), Some (of_nat (length [4 :: MojoHandle, 3])), [9, 8], x), w2))"
    "\<forall>i < length [4 :: MojoHandle, 3]. \<exists>a d a'. Core_GetDispatcher ([4, 3] ! i) loaded_core = Some a \<and> core_objects loaded_core a = Some d \<and>
       Core_GetDispatcher (x ! i) w2 = Some a' \<and> core_objects w2 a' = received example_platform d"
    "\<forall>h \<in> set [4, 3]. Core_GetDispatcher h w2 = None"
    using handles_arrive [OF loaded_core_rel _ t, of "[4, 3]" example_platform "[9, 8]" 10 2 0 False] g o r i n by auto
  from w(3) [rule_format, of 0] w(3) [rule_format, of 1] show ?thesis using w(1,2,4) g o r by auto
qed

end
