(* ===== verification/Core_Types.thy ===== *)
theory Core_Types
  imports Wait_Props
begin

text \<open>
  The types of a process (\<open>core.cc\<close>, \<open>handle_table.cc\<close>, \<open>dispatcher.cc\<close>): every handle in the table names a dispatcher that
  exists, and a dispatcher keeps its class whatever system calls run.  The proofs follow the calls: each of them
  extends the store, as heap extension does in a proof of type soundness.
\<close>

section \<open>Conformance\<close>

named_theorems typed_intros \<open>steps that keep the types of a process\<close>

definition table_objects :: "nat HandleTable \<Rightarrow> nat set" where
  "table_objects t = entry_dispatcher ` snd ` set (handles t)"

definition object_type :: "Core \<Rightarrow> nat \<Rightarrow> Type option" where
  "object_type w a = map_option GetType (core_objects w a)"

definition core_ok :: "Core \<Rightarrow> bool" where
  "core_ok w \<longleftrightarrow> (\<forall>a. object_type w a \<noteq> None \<longleftrightarrow> a < core_next w) \<and> table_objects (core_handles w) \<subseteq> {..<core_next w}"

text \<open>The store grows, and what is in it keeps its class.\<close>

definition extends :: "Core \<Rightarrow> Core \<Rightarrow> bool" where
  "extends w w' \<longleftrightarrow> core_next w \<le> core_next w' \<and> (\<forall>a < core_next w. object_type w' a = object_type w a)"

definition typed :: "Core \<Rightarrow> Core \<Rightarrow> bool" where
  "typed w w' \<longleftrightarrow> (core_ok w \<longrightarrow> core_ok w' \<and> extends w w')"

lemma typed_refl [simp, intro]: "typed w w"
  by (simp add: typed_def extends_def)

lemma typed_trans [trans]: "typed w w1 \<Longrightarrow> typed w1 w2 \<Longrightarrow> typed w w2"
  by (auto simp: typed_def extends_def)

lemma object_type_simps [simp]:
  "object_type (w\<lparr>core_env := e\<rparr>) = object_type w" "object_type (w\<lparr>core_handles := t\<rparr>) = object_type w"
  "object_type (set_controller c w) = object_type w" "object_type (put_object a d w) = (object_type w)(a := Some (GetType d))"
  "object_type (w\<lparr>core_next := k\<rparr>) = object_type w"
  by (auto simp: object_type_def set_controller_def put_object_def)

lemma core_next_simps [simp]:
  "core_next (set_controller c w) = core_next w" "core_next (put_object a d w) = core_next w"
  "core_handles (set_controller c w) = core_handles w" "core_handles (put_object a d w) = core_handles w"
  by (simp_all add: set_controller_def put_object_def)

lemma typed_env [simp, intro]: "typed w w' \<Longrightarrow> typed w (w'\<lparr>core_env := e\<rparr>)" "typed w w' \<Longrightarrow> typed w (set_controller c w')"
  by (simp_all add: typed_def extends_def core_ok_def)

lemma typed_put [typed_intros]:
  assumes "core_objects w a = Some d" "GetType d' = GetType d" "typed w w'"
  shows "typed w (put_object a d' w')"
proof -
  have a: "object_type w a = Some (GetType d')" using assms(1,2) by (simp add: object_type_def)
  show ?thesis
  proof (cases "core_ok w")
    case True
    then have "a < core_next w" using a by (auto simp: core_ok_def)
    moreover have w': "core_ok w'" "extends w w'" using True assms(3) by (simp_all add: typed_def)
    ultimately have "object_type (put_object a d' w') = object_type w'" using a by (auto simp: extends_def)
    then show ?thesis using w' by (simp add: typed_def core_ok_def extends_def)
  qed (simp add: typed_def)
qed

lemma typed_alloc:
  assumes "alloc d w = (a, w')"
  shows "typed w w'" "a < core_next w'" "core_next w \<le> core_next w'"
proof -
  have w': "a = core_next w" "w' = put_object a d (w\<lparr>core_next := Suc a\<rparr>)" using assms by (auto simp: alloc_def)
  then show "a < core_next w'" "core_next w \<le> core_next w'" by simp_all
  show "typed w w'"
    unfolding typed_def
  proof
    assume ok: "core_ok w"
    then have "core_ok w'" unfolding core_ok_def w' by (simp add: less_Suc_eq) (use less_SucI in blast)
    then show "core_ok w' \<and> extends w w'" unfolding extends_def w' by simp
  qed
qed

lemma typed_table:
  "typed w w' \<Longrightarrow> (core_ok w \<Longrightarrow> core_ok w' \<Longrightarrow> table_objects t \<subseteq> {..<core_next w'}) \<Longrightarrow> typed w (w'\<lparr>core_handles := t\<rparr>)"
  by (simp add: typed_def extends_def core_ok_def)

lemma core_ok_table: "core_ok w \<Longrightarrow> typed w w' \<Longrightarrow> table_objects (core_handles w) \<subseteq> {..<core_next w'}"
  by (auto simp: typed_def core_ok_def extends_def)

section \<open>The table of handles\<close>

lemma table_objects_erase: "table_objects ((t :: nat HandleTable)\<lparr>handles := um_erase h (handles t)\<rparr>) \<subseteq> table_objects t"
  by (auto simp: table_objects_def um_erase_def)

lemma table_objects_busy [simp]: "table_objects (set_busy b h t) = table_objects t"
  by (force simp: table_objects_def set_busy_def image_def split: if_splits)

lemma table_objects_lookup: "map_of (handles t) h = Some e \<Longrightarrow> entry_dispatcher e \<in> table_objects t"
  unfolding table_objects_def by (metis imageI map_of_SomeD snd_conv)

lemma table_objects_insert:
  "table_objects ((t :: nat HandleTable)\<lparr>next_available_handle := k, handles := um_insert h (Entry_init d) (handles t)\<rparr>) \<subseteq> insert d (table_objects t)"
  by (auto simp: table_objects_def um_insert_def Entry_init_def split: option.splits)

lemma table_objects_add_all: "add_all ds t = (hs, t') \<Longrightarrow> table_objects t' \<subseteq> set ds \<union> table_objects t"
proof (induction ds arbitrary: t hs t')
  case (Cons d ds)
  let ?t1 = "t\<lparr>next_available_handle := next_available_handle t + 1, handles := um_insert (next_available_handle t) (Entry_init d) (handles t)\<rparr>"
  from Cons.prems obtain hs' where "add_all ds ?t1 = (hs', t')" by (auto simp: Let_def split: prod.splits)
  then show ?case using Cons.IH table_objects_insert [where t = t] by fastforce
qed simp

lemma Core_GetDispatcher_ok: "core_ok w \<Longrightarrow> Core_GetDispatcher h w = Some a \<Longrightarrow> a < core_next w"
  using table_objects_lookup [of "core_handles w" h] by (auto simp: core_ok_def Core_GetDispatcher_def GetDispatcher_def)

lemma typed_AddDispatcher:
  assumes "Core_AddDispatcher a w = (h, w')" "core_ok w \<Longrightarrow> a < core_next w"
  shows "typed w w'" "core_next w' = core_next w"
proof -
  let ?t = "snd (AddDispatcher a (core_handles w))"
  have w': "w' = w\<lparr>core_handles := ?t\<rparr>" using assms(1) by (auto simp: Core_AddDispatcher_def split: prod.splits)
  have "table_objects ?t \<subseteq> insert a (table_objects (core_handles w))"
    using table_objects_insert [where t = "core_handles w"] by (auto simp: AddDispatcher_def Let_def)
  then show "typed w w'" unfolding w' using assms(2) by (intro typed_table) (auto simp: core_ok_def)
  show "core_next w' = core_next w" using w' by simp
qed

lemma typed_GetAndRemove:
  assumes "GetAndRemoveDispatcher h (core_handles w) = (rv, d, t)"
  shows "typed w (w\<lparr>core_handles := t\<rparr>)"
proof -
  have "table_objects t \<subseteq> table_objects (core_handles w)"
    using assms table_objects_erase [of h "core_handles w"] by (auto simp: GetAndRemoveDispatcher_def split: option.splits if_splits)
  then show ?thesis by (intro typed_table) (auto simp: core_ok_def)
qed

section \<open>Virtual calls\<close>

lemma typed_V_AddAwakable [typed_intros]: "V_AddAwakable pl x sg ctx a w = Inr (rv, st, w') \<Longrightarrow> typed w w'"
  by (auto simp: V_AddAwakable_def intro!: typed_put split: option.splits Dispatcher.splits sum.splits prod.splits)

lemma typed_V_RemoveAwakable [typed_intros]: "V_RemoveAwakable x b a w = Inr (st, w') \<Longrightarrow> typed w w'"
  by (auto simp: V_RemoveAwakable_def intro!: typed_put split: option.splits Dispatcher.splits sum.splits prod.splits)

lemma typed_waiters [typed_intros]:
  "add_waiter pl this d sg ctx w = Inr (rv, w') \<Longrightarrow> typed w w'" "remove_waiter this d w = Inr w' \<Longrightarrow> typed w w'"
  by (auto simp: add_waiter_def remove_waiter_def intro: typed_intros split: sum.splits prod.splits)

lemma typed_remove_all [typed_intros]: "remove_all (remove_waiter this) ds w = Inr w' \<Longrightarrow> typed w w'"
proof (induction ds arbitrary: w)
  case (Cons d ds)
  then obtain w1 where "remove_waiter this d w = Inr w1" "remove_all (remove_waiter this) ds w1 = Inr w'" by (auto split: sum.splits)
  then show ?case using Cons.IH typed_waiters(2) typed_trans by blast
qed simp

lemma typed_requeue [typed_intros]: "requeue (add_waiter pl this) ds ws w = Inr (ws', w') \<Longrightarrow> typed w w'"
proof (induction ds arbitrary: ws w)
  case (Cons d ds)
  obtain st where "map_of (ws_waiting_dispatchers ws) d = Some st" using Cons.prems by (cases "map_of (ws_waiting_dispatchers ws) d") simp_all
  with Cons.prems obtain r w1 where "add_waiter pl this (wst_dispatcher st) (wst_signals st) d w = Inr (r, w1)"
    by (cases "add_waiter pl this (wst_dispatcher st) (wst_signals st) d w") auto
  moreover from this \<open>map_of _ d = Some st\<close> have "typed w1 w'" using Cons by auto
  ultimately show ?case using typed_waiters(1) typed_trans by blast
qed simp

lemma typed_wait_set [typed_intros]:
  "WS_Close (remove_waiter this) ws w = Inr (rv, ws', w') \<Longrightarrow> typed w w'"
  "WS_AddWaitingDispatcher (add_waiter pl this) this d sg ctx ws w = Inr (rv, ws', w') \<Longrightarrow> typed w w'"
  "WS_RemoveWaitingDispatcher (remove_waiter this) d ws w = Inr (rv, ws', w') \<Longrightarrow> typed w w'"
  "WS_GetReadyDispatchers (add_waiter pl this) k ws w = Inr (rv, out, ws', w') \<Longrightarrow> typed w w'"
  by (auto simp: WS_Close_def WS_AddWaitingDispatcher_def WS_RemoveWaitingDispatcher_def WS_GetReadyDispatchers_def Let_def
      intro: typed_intros split: if_splits sum.splits prod.splits)

lemma typed_V_Close [typed_intros]: "V_Close fuel a w = Some (Inr (rv, w')) \<Longrightarrow> typed w w'"
  by (auto simp: V_Close_def and_then_OK intro!: typed_put intro: typed_intros split: option.splits Dispatcher.splits prod.splits)

lemma typed_V_OnPortStatusChanged: "V_OnPortStatusChanged pl a w = Inr w' \<Longrightarrow> typed w w'"
  by (auto simp: V_OnPortStatusChanged_def intro!: typed_put split: option.splits Dispatcher.splits sum.splits prod.splits)

lemma typed_V_BeginTransit [typed_intros]: "V_BeginTransit a w = (ok, w') \<Longrightarrow> typed w w'"
  by (auto simp: V_BeginTransit_def intro!: typed_put split: option.splits Dispatcher.splits prod.splits)

lemma V_BeginTransit_handles: "V_BeginTransit a w = (ok, w') \<Longrightarrow> core_handles w' = core_handles w"
  by (auto simp: V_BeginTransit_def split: option.splits Dispatcher.splits prod.splits)

lemma typed_V_CompleteTransitAndClose [typed_intros]: "V_CompleteTransitAndClose fuel a w = Some (Inr w') \<Longrightarrow> typed w w'"
  by (auto simp: V_CompleteTransitAndClose_def and_then_OK intro!: typed_put split: option.splits Dispatcher.splits prod.splits)

lemma typed_V_CancelTransit [typed_intros]: "V_CancelTransit pl a w = Some (Inr w') \<Longrightarrow> typed w w'"
  by (auto simp: V_CancelTransit_def and_then_OK intro!: typed_put split: option.splits Dispatcher.splits prod.splits)

lemma GetType_EndSerialize: "V_EndSerialize pl dest d = Inr (r, d') \<Longrightarrow> GetType d' = GetType d"
  by (cases d) (auto split: sum.splits prod.splits)

section \<open>Messages\<close>

lemma typed_end_serialize [typed_intros]: "end_serialize pl off xs w = Inr (r, w') \<Longrightarrow> typed w w'"
proof (induction xs arbitrary: off w r)
  case (Cons x xs)
  obtain a dh where x: "x = (a, dh)" by fastforce
  from Cons.prems x obtain d ok bytes nms hs d' where d: "core_objects w a = Some d"
    "V_EndSerialize pl (map (pl_garbage pl) [off..<off + unat (dh_num_bytes dh)]) d = Inr ((ok, bytes, nms, hs), d')"
    by (auto split: option.splits sum.splits prod.splits)
  have p: "typed w (put_object a d' w)" using typed_put [OF d(1) GetType_EndSerialize [OF d(2)]] by simp
  show ?case
  proof (cases ok)
    case True
    then obtain r' where "end_serialize pl (off + unat (dh_num_bytes dh)) xs (put_object a d' w) = Inr (r', w')"
      using Cons.prems x d by (auto split: sum.splits prod.splits option.splits)
    then show ?thesis using Cons.IH p typed_trans by blast
  next
    case False
    then show ?thesis using Cons.prems x d p by simp
  qed
qed simp

lemma typed_MP_send_result:
  "core_objects w a = Some (D_MessagePipe d) \<Longrightarrow> typed w w1 \<Longrightarrow> MP_send_result rv a d w1 = Some (Inr (r, w')) \<Longrightarrow> typed w w'"
  by (auto simp: MP_send_result_def and_then_OK intro: typed_put split: if_splits)

lemma typed_V_WriteMessage [typed_intros]:
  assumes "V_WriteMessage fuel pl bytes ds a w = Some (Inr (rv, w'))"
  shows "typed w w'"
proof -
  consider "w' = w" | d where "core_objects w a = Some (D_MessagePipe d)" "MP_WriteMessage fuel pl bytes ds a d w = Some (Inr (rv, w'))"
    using assms by (auto simp: V_WriteMessage_def split: option.splits Dispatcher.splits)
  then show ?thesis
  proof cases
    case 2
    then show ?thesis
      by (auto simp: MP_WriteMessage_def and_then_OK intro: typed_end_serialize typed_MP_send_result [OF 2(1) typed_env(2) [OF typed_end_serialize]] split: if_splits option.splits)
  qed simp
qed

text \<open>A call that may make a dispatcher.\<close>

definition makes :: "Core \<Rightarrow> nat option \<Rightarrow> Core \<Rightarrow> bool" where
  "makes w r w' \<longleftrightarrow> typed w w' \<and> core_next w \<le> core_next w' \<and> (\<forall>a. r = Some a \<longrightarrow> a < core_next w')"

lemma makes_alloc: "alloc d w1 = (a, w') \<Longrightarrow> typed w w1 \<Longrightarrow> core_next w1 = core_next w \<Longrightarrow> makes w (Some a) w'"
  using typed_alloc [of d w1 a w'] typed_trans [of w w1 w'] by (simp add: makes_def)

lemma makes_None: "typed w w' \<Longrightarrow> core_next w' = core_next w \<Longrightarrow> makes w None w'"
  by (simp add: makes_def)

lemma makes_D_Deserialize: "D_Deserialize pl type bytes nb nms np phs nh w = Inr (r, w') \<Longrightarrow> makes w r w'"
  unfolding D_Deserialize_def
  by (auto intro!: makes_None makes_alloc split: if_split_asm sum.splits option.splits prod.splits list.splits)

lemma makes_deserialize_all:
  "deserialize_all pl m k i di pi hi w = Inr (r, w') \<Longrightarrow>
     typed w w' \<and> core_next w \<le> core_next w' \<and> (\<forall>as. r = Some as \<longrightarrow> set as \<subseteq> {..<core_next w'})"
proof (induction k arbitrary: i di pi hi w r)
  case (Suc k)
  let ?dh = "read_DispatcherHeader (drop (8 + i * 16) (msg_payload m))"
  obtain r1 w1 where d: "D_Deserialize pl (dh_type ?dh) (drop di (msg_payload m)) (unat (dh_num_bytes ?dh)) (drop pi (msg_ports m))
      (unat (dh_num_ports ?dh)) (if msg_handles m = [] then None else Some (drop hi (msg_handles m)))
      (unat (dh_num_platform_handles ?dh)) w = Inr (r1, w1)"
    using Suc.prems by (auto simp: Let_def split: if_splits sum.splits)
  note made = makes_D_Deserialize [OF d]
  show ?case
  proof (cases r1)
    case None
    then show ?thesis using Suc.prems d made by (auto simp: Let_def makes_def split: if_splits)
  next
    case (Some a)
    then obtain r2 where r: "deserialize_all pl m k (Suc i) (di + unat (dh_num_bytes ?dh)) (pi + unat (dh_num_ports ?dh))
        (hi + unat (dh_num_platform_handles ?dh)) w1 = Inr (r2, w')" "r = map_option ((#) a) r2"
      using Suc.prems d by (auto simp: Let_def split: if_splits sum.splits option.splits)
    then show ?thesis using Suc.IH [OF r(1)] made Some typed_trans by (auto simp: makes_def)
  qed
qed simp

lemma typed_close_all: "close_all fuel as w = Some (Inr w') \<Longrightarrow> typed w w'"
  by (induction as arbitrary: w) (auto simp: and_then_OK intro: typed_V_Close typed_trans)

lemma typed_AddDispatchersFromTransit:
  assumes "Core_AddDispatchersFromTransit fuel as w = Some (Inr (ok, hs, w'))" "core_ok w \<Longrightarrow> set as \<subseteq> {..<core_next w}"
  shows "typed w w'"
proof -
  let ?dits = "map (\<lambda>a. \<lparr>dit_dispatcher = a, local_handle = 0\<rparr>) as"
  obtain ok' hs' t where t: "AddDispatchersFromTransit ?dits (core_handles w) = (ok', hs', t)" using prod_cases3 by blast
  then have "table_objects t \<subseteq> set as \<union> table_objects (core_handles w)"
    using table_objects_add_all [of as "core_handles w"]
    by (auto simp: AddDispatchersFromTransit_def comp_def split: if_splits)
  then have "typed w (w\<lparr>core_handles := t\<rparr>)" using assms(2) by (intro typed_table) (auto simp: core_ok_def)
  then show ?thesis
    using assms(1) t typed_close_all typed_trans by (fastforce simp: Core_AddDispatchersFromTransit_def and_then_OK split: if_splits)
qed

lemma MP_receive_cases:
  assumes "MP_receive fuel pl b m w = Some (Inr (rv, bytes, hs, w'))"
  obtains "w' = w"
  | n di ds where "deserialize_all pl m n 0 di 0 0 w = Inr (ds, w')"
  | n di as w1 ok hs2 where "deserialize_all pl m n 0 di 0 0 w = Inr (Some as, w1)"
      "Core_AddDispatchersFromTransit fuel as w1 = Some (Inr (ok, hs2, w'))"
proof (cases "unat (handles_available m) > 0")
  case True
  let ?n = "unat (handles_available m)"
  have b using assms True by (cases b) (simp_all add: MP_receive_def Let_def)
  then obtain r where r: "deserialize_all pl m ?n 0 (8 + ?n * 16) 0 0 w = Inr r"
    using assms True by (cases "deserialize_all pl m ?n 0 (8 + ?n * 16) 0 0 w") (simp_all add: MP_receive_def Let_def)
  obtain ds w1 where ds: "r = (ds, w1)" by fastforce
  show ?thesis
  proof (cases ds)
    case None
    then have "w' = w1" using assms True \<open>b\<close> r ds by (simp add: MP_receive_def Let_def)
    then show ?thesis using that(2) r ds by blast
  next
    case (Some as)
    then obtain ok hs2 w2 where a: "Core_AddDispatchersFromTransit fuel as w1 = Some (Inr (ok, hs2, w2))"
      using assms True \<open>b\<close> r ds
      by (cases "Core_AddDispatchersFromTransit fuel as w1" rule: option.exhaust) (auto simp: MP_receive_def Let_def and_then_def split: sum.splits)
    then have "w' = w2" using assms True \<open>b\<close> r ds Some by (simp add: MP_receive_def Let_def split: if_splits)
    then show ?thesis using that(3) r ds Some a by blast
  qed
next
  case False
  then have "w' = w" using assms by (simp add: MP_receive_def Let_def split: if_splits)
  then show ?thesis by (rule that(1))
qed

lemma typed_MP_receive:
  assumes "MP_receive fuel pl b m w = Some (Inr (rv, bytes, hs, w'))"
  shows "typed w w'"
  using assms
proof (cases rule: MP_receive_cases)
  case (3 n di as w1 ok hs2)
  note m = makes_deserialize_all [OF 3(1)]
  have "typed w1 w'" by (rule typed_AddDispatchersFromTransit [OF 3(2)]) (use m in simp)
  then show ?thesis using m typed_trans by blast
next
  case (2 n di ds)
  then show ?thesis using makes_deserialize_all by blast
qed simp

lemma typed_V_ReadMessage [typed_intros]:
  assumes "V_ReadMessage fuel pl nb nh b disc a w = Some (Inr (r, w'))"
  shows "typed w w'"
proof -
  consider "w' = w" | d where "core_objects w a = Some (D_MessagePipe d)" "MP_ReadMessage fuel pl nb nh b disc a d w = Some (Inr (r, w'))"
    using assms by (auto simp: V_ReadMessage_def split: option.splits Dispatcher.splits)
  then show ?thesis
  proof cases
    case 2
    have "typed w w2" if "MP_receive fuel pl b m (set_controller c w) = Some (Inr (rv, bytes, hs, w2))" for m c rv bytes hs w2
      using typed_MP_receive [OF that] typed_trans typed_env(2) by blast
    then show ?thesis using 2
      by (auto simp: MP_ReadMessage_def and_then_OK Let_def intro!: typed_put split: if_splits option.splits)
  qed simp
qed

section \<open>Transfers\<close>

lemma typed_BeginTransit:
  assumes "BeginTransit V_BeginTransit hs t w = (rv, ds, t', w')"
  shows "typed w w' \<and> table_objects t' = table_objects t \<and> core_handles w' = core_handles w"
  using assms
proof (induction hs arbitrary: t w rv ds)
  case (Cons h hs)
  show ?case
  proof (cases "\<exists>e w1. map_of (handles t) h = Some e \<and> \<not> entry_busy e \<and> V_BeginTransit (entry_dispatcher e) w = (True, w1)")
    case True
    then obtain e w1 where e: "map_of (handles t) h = Some e" "\<not> entry_busy e" "V_BeginTransit (entry_dispatcher e) w = (True, w1)" by blast
    then obtain rv2 ds2 where "BeginTransit V_BeginTransit hs (set_busy True h t) w1 = (rv2, ds2, t', w')"
      using Cons.prems by (auto split: prod.splits)
    then show ?thesis using Cons.IH typed_V_BeginTransit [OF e(3)] typed_trans V_BeginTransit_handles [OF e(3)] by fastforce
  next
    case False
    then show ?thesis
      using Cons.prems typed_V_BeginTransit V_BeginTransit_handles by (fastforce split: option.splits if_splits prod.splits)
  qed
qed simp

lemma typed_Complete_loop:
  "CompleteTransitAndClose (\<lambda>a s. and_then s (V_CompleteTransitAndClose fuel a)) ds t s = (t', Some (Inr w')) \<Longrightarrow>
     table_objects t' \<subseteq> table_objects t \<and> (\<exists>w. s = Some (Inr w) \<and> typed w w')"
proof (induction ds arbitrary: t s)
  case (Cons d ds)
  let ?t = "t\<lparr>handles := um_erase (local_handle d) (handles t)\<rparr>"
  from Cons.IH [OF Cons.prems [unfolded CompleteTransitAndClose.simps]]
  obtain w1 where w1: "table_objects t' \<subseteq> table_objects ?t"
    "and_then s (V_CompleteTransitAndClose fuel (dit_dispatcher d)) = Some (Inr w1)" "typed w1 w'" by blast
  then obtain w where "s = Some (Inr w)" "V_CompleteTransitAndClose fuel (dit_dispatcher d) w = Some (Inr w1)" unfolding and_then_OK by blast
  then show ?case using w1(1,3) table_objects_erase typed_V_CompleteTransitAndClose typed_trans by blast
qed simp

lemma typed_Cancel_loop:
  "CancelTransit (\<lambda>a s. and_then s (V_CancelTransit pl a)) ds t s = (t', Some (Inr w')) \<Longrightarrow>
     table_objects t' = table_objects t \<and> (\<exists>w. s = Some (Inr w) \<and> typed w w')"
proof (induction ds arbitrary: t s)
  case (Cons d ds)
  from Cons.IH [OF Cons.prems [unfolded CancelTransit.simps]]
  obtain w1 where w1: "table_objects t' = table_objects t"
    "and_then s (V_CancelTransit pl (dit_dispatcher d)) = Some (Inr w1)" "typed w1 w'" by auto
  then obtain w where "s = Some (Inr w)" "V_CancelTransit pl (dit_dispatcher d) w = Some (Inr w1)" unfolding and_then_OK by blast
  then show ?case using w1(1,3) typed_V_CancelTransit typed_trans by blast
qed simp

lemma typed_new_table:
  assumes "typed w w'" "table_objects t \<subseteq> table_objects (core_handles w)"
  shows "typed w (w'\<lparr>core_handles := t\<rparr>)"
  using core_ok_table [OF _ assms(1)] assms(2) by (intro typed_table [OF assms(1)]) blast

lemma typed_transit [typed_intros]:
  "Core_BeginTransit hs w = (rv, ds, w') \<Longrightarrow> typed w w'"
  "Core_CompleteTransitAndClose fuel ds w = Some (Inr w') \<Longrightarrow> typed w w'"
  "Core_CancelTransit pl ds w = Some (Inr w') \<Longrightarrow> typed w w'"
proof -
  assume "Core_BeginTransit hs w = (rv, ds, w')"
  then show "typed w w'"
    using typed_BeginTransit by (fastforce simp: Core_BeginTransit_def intro!: typed_new_table split: prod.splits)
next
  assume "Core_CompleteTransitAndClose fuel ds w = Some (Inr w')"
  then obtain t w1 where "CompleteTransitAndClose (\<lambda>a s. and_then s (V_CompleteTransitAndClose fuel a)) ds (core_handles w) (Some (Inr w)) = (t, Some (Inr w1))"
    "w' = w1\<lparr>core_handles := t\<rparr>"
    by (auto simp: Core_CompleteTransitAndClose_def and_then_OK split: prod.splits)
  then show "typed w w'" using typed_Complete_loop typed_new_table by blast
next
  assume "Core_CancelTransit pl ds w = Some (Inr w')"
  then obtain t w1 where "CancelTransit (\<lambda>a s. and_then s (V_CancelTransit pl a)) ds (core_handles w) (Some (Inr w)) = (t, Some (Inr w1))"
    "w' = w1\<lparr>core_handles := t\<rparr>"
    by (auto simp: Core_CancelTransit_def and_then_OK split: prod.splits)
  then show "typed w w'" using typed_Cancel_loop typed_new_table by blast
qed

section \<open>System calls\<close>

lemma typed_WriteMessage:
  assumes "Core_WriteMessage fuel pl h bytes hs w = Some (Inr (rv, w'))"
  shows "typed w w'"
proof (cases "Core_GetDispatcher h w = None \<or> hs = [] \<or> length hs > kMaxHandlesPerMessage \<or> h \<in> set hs")
  case True
  then show ?thesis using assms typed_V_WriteMessage by (auto simp: Core_WriteMessage_def split: option.splits if_splits)
next
  case False
  obtain rv1 ds w1 where b: "Core_BeginTransit hs w = (rv1, ds, w1)" using prod_cases3 by blast
  have "typed w1 w'"
    using assms False b typed_transit(2,3) typed_V_WriteMessage typed_trans
    by (auto simp: Core_WriteMessage_def and_then_OK split: option.splits if_splits) (meson typed_trans)+
  then show ?thesis using typed_transit(1) [OF b] typed_trans by blast
qed

lemma typed_Close: "Core_Close fuel h w = Some (Inr (rv, w')) \<Longrightarrow> typed w w'"
  unfolding Core_Close_def
  by (auto simp: and_then_OK split: prod.splits option.splits dest!: typed_V_Close dest: typed_GetAndRemove intro: typed_trans)

lemma typed_ReadMessage: "Core_ReadMessage fuel pl h b nb bh nh disc w = Some (Inr (r, w')) \<Longrightarrow> typed w w'"
  by (auto simp: Core_ReadMessage_def intro: typed_intros split: if_splits option.splits)

lemma typed_data_calls:
  "Core_WriteData fuel pl h el nb wfl w = Some (Inr (rv, k, w')) \<Longrightarrow> typed w w'"
  "Core_BeginWriteData h w = Inr (rv, buf, w') \<Longrightarrow> typed w w'"
  "Core_EndWriteData fuel pl h nb w = Some (Inr (rv, w')) \<Longrightarrow> typed w w'"
  "Core_ReadData fuel h b nb rfl w = Some (Inr (rv, k, bytes, w')) \<Longrightarrow> typed w w'"
  "Core_BeginReadData h rfl w = Inr (rv, buf, w') \<Longrightarrow> typed w w'"
  "Core_EndReadData fuel pl h nb w = Some (Inr (rv, w')) \<Longrightarrow> typed w w'"
  by (auto simp: Core_WriteData_def Core_BeginWriteData_def Core_EndWriteData_def Core_ReadData_def Core_BeginReadData_def
      Core_EndReadData_def and_then_OK intro!: typed_put split: option.splits Dispatcher.splits sum.splits prod.splits)

lemma typed_new_dispatchers:
  "new_MessagePipe port i e w = (a, w') \<Longrightarrow> makes w (Some a) w'"
  "new_Producer pl port b co i w = (a, w') \<Longrightarrow> makes w (Some a) w'"
  "new_Consumer pl port b co i w = (a, w') \<Longrightarrow> makes w (Some a) w'"
  by (auto simp: new_MessagePipe_def new_Producer_def new_Consumer_def intro!: makes_alloc split: prod.splits)

lemma typed_add_new: "makes w (Some a) w1 \<Longrightarrow> Core_AddDispatcher a w1 = (h, w2) \<Longrightarrow> makes w (Some a) w2"
  using typed_AddDispatcher [of a w1 h w2] typed_trans [of w w1 w2] by (simp add: makes_def)

lemma typed_makes: "makes w r w' \<Longrightarrow> typed w w'"
  by (simp add: makes_def)

lemma typed_creators:
  "CreatePlatformHandleWrapper ph w = (rv, h, w') \<Longrightarrow> typed w w'"
  "OnPortConnected e port w = (handle, w') \<Longrightarrow> typed w w'"
  "CreateWaitSet fuel w = Some (Inr (rv, h, w')) \<Longrightarrow> typed w w'"
  "Core_CreateSharedBuffer fuel pl opt nb w = Some (Inr (rv, h, w')) \<Longrightarrow> typed w w'"
proof -
  show "CreatePlatformHandleWrapper ph w = (rv, h, w') \<Longrightarrow> typed w w'"
    by (auto simp: CreatePlatformHandleWrapper_def Let_def split: prod.splits if_splits intro: typed_makes [OF typed_add_new [OF makes_alloc]])
  show "OnPortConnected e port w = (handle, w') \<Longrightarrow> typed w w'"
    by (auto simp: OnPortConnected_def split: prod.splits intro: typed_makes [OF typed_add_new [OF typed_new_dispatchers(1)]])
  show "CreateWaitSet fuel w = Some (Inr (rv, h, w')) \<Longrightarrow> typed w w'"
    by (auto simp: CreateWaitSet_def Let_def and_then_OK split: prod.splits if_splits
        intro: typed_makes [OF typed_add_new [OF makes_alloc]] typed_trans [OF typed_makes [OF typed_add_new [OF makes_alloc]] typed_V_Close])
  show "Core_CreateSharedBuffer fuel pl opt nb w = Some (Inr (rv, h, w')) \<Longrightarrow> typed w w'"
    by (auto simp: Core_CreateSharedBuffer_def Let_def and_then_OK split: prod.splits if_splits option.splits
        intro: typed_makes [OF typed_add_new [OF makes_alloc]] typed_trans [OF typed_makes [OF typed_add_new [OF makes_alloc]] typed_V_Close])
qed

lemma typed_DuplicateBufferHandle: "DuplicateBufferHandle fuel h opt w = Some (Inr (rv, h', w')) \<Longrightarrow> typed w w'"
  by (auto simp: DuplicateBufferHandle_def Let_def and_then_OK split: prod.splits if_splits option.splits Dispatcher.splits
      intro: typed_makes [OF typed_add_new [OF makes_alloc]] typed_trans [OF typed_makes [OF typed_add_new [OF makes_alloc]] typed_V_Close])

lemma typed_PassWrapped: "PassWrappedPlatformHandle h w = Inr (rv, ph, w') \<Longrightarrow> typed w w'"
  by (auto simp: PassWrappedPlatformHandle_def split: prod.splits option.splits Dispatcher.splits
      intro!: typed_put intro: typed_GetAndRemove)

lemma typed_pipes:
  "CreateParentMessagePipe tok cb w = Inr w' \<Longrightarrow> typed w w'" "CreateChildMessagePipe tok cb w = Inr w' \<Longrightarrow> typed w w'"
  by (auto simp: CreateParentMessagePipe_def CreateChildMessagePipe_def split: sum.splits prod.splits)

lemma typed_CreateMessagePipe:
  assumes "CreateMessagePipe i w = Inr (rv, hs, w')"
  shows "typed w w'"
proof -
  obtain x port0 port1 n where p: "CreatePortPair (nc_node (controller w)) = Inr (x, port0, port1, n)"
    using assms by (auto simp: CreateMessagePipe_def split: sum.splits)
  let ?w0 = "set_controller (run_delegate n (controller w)) w"
  obtain a0 w1 where 1: "new_MessagePipe port0 i 0 ?w0 = (a0, w1)" by fastforce
  obtain h0 w2 where 2: "Core_AddDispatcher a0 w1 = (h0, w2)" by fastforce
  obtain a1 w3 where 3: "new_MessagePipe port1 i 1 w2 = (a1, w3)" by fastforce
  obtain h1 w4 where 4: "Core_AddDispatcher a1 w3 = (h1, w4)" by fastforce
  have "typed w w2" using typed_trans [OF typed_env(2) [OF typed_refl] typed_makes [OF typed_add_new [OF typed_new_dispatchers(1) [OF 1] 2]]] .
  moreover have "typed w2 w4" using typed_makes [OF typed_add_new [OF typed_new_dispatchers(1) [OF 3] 4]] .
  moreover have "w' = w2 \<or> w' = w4" using assms p 1 2 3 4 by (auto simp: CreateMessagePipe_def Let_def split: if_splits)
  ultimately show ?thesis using typed_trans by blast
qed

lemma typed_CreateDataPipe:
  assumes "CreateDataPipe fuel pl i opt w = Some (Inr (rv, hs, w'))"
  shows "typed w w'"
proof (cases "(case opt of None \<Rightarrow> False | Some u \<Rightarrow> \<not> up_struct_size_ok u) \<or>
    pl_CreateSharedBuffer pl (ucast (capacity_num_bytes (create_options opt))) (core_env w) = None")
  case True
  then show ?thesis using assms by (auto simp: CreateDataPipe_def Let_def split: if_splits)
next
  case False
  let ?co = "create_options opt"
  obtain b e where b: "pl_CreateSharedBuffer pl (ucast (capacity_num_bytes ?co)) (core_env w) = Some (b, e)" using False by auto
  let ?w0 = "w\<lparr>core_env := e\<rparr>"
  obtain x port0 port1 n where p: "CreatePortPair (nc_node (controller ?w0)) = Inr (x, port0, port1, n)"
    using assms False b by (auto simp: CreateDataPipe_def Let_def and_then_OK split: if_splits)
  let ?w1 = "set_controller (run_delegate n (controller ?w0)) ?w0"
  obtain a0 w2 where 2: "new_Producer pl port0 b ?co i ?w1 = (a0, w2)" by fastforce
  obtain a1 w3 where 3: "new_Consumer pl port1 b ?co i w2 = (a1, w3)" by fastforce
  obtain h0 w4 where 4: "Core_AddDispatcher a0 w3 = (h0, w4)" by fastforce
  obtain h1 w5 where 5: "Core_AddDispatcher a1 w4 = (h1, w5)" by fastforce
  note m2 = typed_new_dispatchers(2) [OF 2] and m3 = typed_new_dispatchers(3) [OF 3]
  have l: "a0 < core_next w3" "a1 < core_next w4" using m2 m3 typed_AddDispatcher(2) [OF 4] by (auto simp: makes_def)
  have "typed w ?w1" by simp
  also have "typed ?w1 w2" using m2 by (simp add: makes_def)
  also have "typed w2 w3" using m3 by (simp add: makes_def)
  also have "typed w3 w4" by (rule typed_AddDispatcher(1) [OF 4]) (rule l)
  also have "typed w4 w5" by (rule typed_AddDispatcher(1) [OF 5]) (rule l)
  finally have t5: "typed w w5" .
  have rem: "typed w5 (w5\<lparr>core_handles := snd (snd (GetAndRemoveDispatcher h0 (core_handles w5)))\<rparr>)"
    by (rule typed_GetAndRemove [of h0 w5 "fst (GetAndRemoveDispatcher h0 (core_handles w5))" "fst (snd (GetAndRemoveDispatcher h0 (core_handles w5)))"]) simp
  obtain w6 where w6: "typed w5 w6" "w' = w5 \<or> (\<exists>rv7 w7 rv8. V_Close fuel a0 w6 = Some (Inr (rv7, w7)) \<and> V_Close fuel a1 w7 = Some (Inr (rv8, w')))"
    using assms False b p 2 3 4 5 rem by (auto simp: CreateDataPipe_def Let_def and_then_OK split: if_splits)
  then have "typed w5 w'" using typed_V_Close typed_trans typed_refl by meson
  then show ?thesis using t5 typed_trans by blast
qed

lemma typed_set_calls:
  "AddHandle pl s h sg w = Inr (rv, w') \<Longrightarrow> typed w w'" "RemoveHandle s h w = Inr (rv, w') \<Longrightarrow> typed w w'"
  "GetReadyHandles pl s k b w = Inr (rv, out, sts, w') \<Longrightarrow> typed w w'" "AsyncWait pl x h sg w = Inr (rv, w') \<Longrightarrow> typed w w'"
  by (auto simp: AddHandle_def RemoveHandle_def GetReadyHandles_def AsyncWait_def Let_def intro!: typed_put intro: typed_intros
      split: option.splits sum.splits prod.splits Dispatcher.splits if_splits)

lemma typed_add_all_awakables: "add_all_awakables pl x xs i w = Inr (rv, k, w') \<Longrightarrow> typed w w'"
proof (induction xs arbitrary: i w)
  case (Cons y xs)
  obtain a sg where y: "y = (a, sg)" by fastforce
  from Cons.prems y obtain r st w1 where a: "V_AddAwakable pl x sg i a w = Inr (r, st, w1)" by (auto split: sum.splits prod.splits)
  then have "w' = w1 \<or> typed w1 w'" using Cons y by (auto split: if_splits)
  then show ?case using typed_V_AddAwakable [OF a] typed_trans by blast
qed simp

lemma typed_remove_all_awakables: "remove_all_awakables x b as w = Inr (sts, w') \<Longrightarrow> typed w w'"
proof (induction as arbitrary: w sts)
  case (Cons a as)
  from Cons.prems obtain st w1 where a: "V_RemoveAwakable x b a w = Inr (st, w1)" by (auto split: sum.splits prod.splits)
  then have "typed w1 w'" using Cons by (auto split: sum.splits prod.splits)
  then show ?case using typed_V_RemoveAwakable [OF a] typed_trans by blast
qed simp

lemma WaitManyInternal_cases:
  assumes "WaitManyInternal pl x Wait hs b w = Inr (rv, k, sts, w')"
  obtains "w' = w"
  | as rv1 n w1 rv2 i w2 sts3 where "add_all_awakables pl x (zip as (map snd hs)) 0 w = Inr (rv1, n, w1)"
      "w2 = w1 \<or> Wait w1 = (rv2, i, w2)" "remove_all_awakables x b (take n as) w2 = Inr (sts3, w')"
proof (cases "lookup_all (map fst hs) 0 w")
  case (Inr as)
  with assms obtain rv1 n w1 where 1: "add_all_awakables pl x (zip as (map snd hs)) 0 w = Inr (rv1, n, w1)"
    by (auto simp: WaitManyInternal_def split: sum.splits prod.splits)
  obtain rv2 i w2 where 2: "(if rv1 = MOJO_RESULT_OK then Wait w1
      else (if rv1 = MOJO_RESULT_ALREADY_EXISTS then MOJO_RESULT_OK else rv1, Some n, w1)) = (rv2, i, w2)" using prod_cases3 by blast
  obtain sts3 where 3: "remove_all_awakables x b (take n as) w2 = Inr (sts3, w')"
    using assms Inr 1 2 by (auto simp: WaitManyInternal_def split: sum.splits prod.splits)
  have "w2 = w1 \<or> Wait w1 = (rv2, i, w2)" using 2 by (auto split: if_splits)
  then show ?thesis using that(2) 1 3 by blast
qed (use assms that(1) in \<open>simp add: WaitManyInternal_def\<close>)

lemma typed_WaitManyInternal:
  assumes "WaitManyInternal pl x Wait hs b w = Inr (rv, k, sts, w')" "\<And>w1. typed w1 (snd (snd (Wait w1)))"
  shows "typed w w'"
  using assms(1)
proof (cases rule: WaitManyInternal_cases)
  case (2 as rv1 n w1 rv2 i w2 sts3)
  have "typed w1 w2" using 2(2) assms(2) [of w1] by auto
  then show ?thesis using typed_add_all_awakables [OF 2(1)] typed_remove_all_awakables [OF 2(3)] typed_trans by blast
qed simp

lemma typed_waits:
  assumes "\<And>w1. typed w1 (snd (snd (Wait w1)))"
  shows "WaitMany pl x Wait hs b w = Inr (rv, k, sts, w') \<Longrightarrow> typed w w'"
    "Core_Wait pl x Wait h sg b w = Inr (rv, st, w') \<Longrightarrow> typed w w'"
  using typed_WaitManyInternal [OF _ assms] by (auto simp: WaitMany_def Core_Wait_def split: if_splits sum.splits)

section \<open>Runs of a process\<close>

text \<open>
  What can happen to a process: any sequence of system calls, of status changes of its ports and of events of
  the node controller (which change the environment of the dispatchers and nothing else here).  A blocking wait
  lets other threads run: what happens before it returns is itself a run.
\<close>

inductive core_run :: "platform \<Rightarrow> Core \<Rightarrow> Core \<Rightarrow> bool" for pl where
  Run_refl: "core_run pl w w"
| Run_trans: "core_run pl w w1 \<Longrightarrow> core_run pl w1 w2 \<Longrightarrow> core_run pl w w2"
| Run_environment: "core_run pl w (w\<lparr>core_env := e\<rparr>)"
| Run_status: "V_OnPortStatusChanged pl a w = Inr w' \<Longrightarrow> core_run pl w w'"
| Run_Close: "Core_Close fuel h w = Some (Inr (rv, w')) \<Longrightarrow> core_run pl w w'"
| Run_wrap: "CreatePlatformHandleWrapper ph w = (rv, r, w') \<Longrightarrow> core_run pl w w'"
| Run_unwrap: "PassWrappedPlatformHandle h w = Inr (rv, r, w') \<Longrightarrow> core_run pl w w'"
| Run_parent_pipe: "CreateParentMessagePipe tok cb w = Inr w' \<Longrightarrow> core_run pl w w'"
| Run_child_pipe: "CreateChildMessagePipe tok cb w = Inr w' \<Longrightarrow> core_run pl w w'"
| Run_connected: "OnPortConnected e port w = (h, w') \<Longrightarrow> core_run pl w w'"
| Run_CreateMessagePipe: "CreateMessagePipe i w = Inr (rv, r, w') \<Longrightarrow> core_run pl w w'"
| Run_WriteMessage: "Core_WriteMessage fuel pl h bytes hs w = Some (Inr (rv, w')) \<Longrightarrow> core_run pl w w'"
| Run_ReadMessage: "Core_ReadMessage fuel pl h b nb bh nh disc w = Some (Inr (r, w')) \<Longrightarrow> core_run pl w w'"
| Run_CreateDataPipe: "CreateDataPipe fuel pl i opt w = Some (Inr (rv, r, w')) \<Longrightarrow> core_run pl w w'"
| Run_WriteData: "Core_WriteData fuel pl h el nb wfl w = Some (Inr (rv, k, w')) \<Longrightarrow> core_run pl w w'"
| Run_BeginWriteData: "Core_BeginWriteData h w = Inr (rv, buf, w') \<Longrightarrow> core_run pl w w'"
| Run_EndWriteData: "Core_EndWriteData fuel pl h nb w = Some (Inr (rv, w')) \<Longrightarrow> core_run pl w w'"
| Run_ReadData: "Core_ReadData fuel h el nb rfl w = Some (Inr (rv, k, bytes, w')) \<Longrightarrow> core_run pl w w'"
| Run_BeginReadData: "Core_BeginReadData h rfl w = Inr (rv, rbuf, w') \<Longrightarrow> core_run pl w w'"
| Run_EndReadData: "Core_EndReadData fuel pl h nb w = Some (Inr (rv, w')) \<Longrightarrow> core_run pl w w'"
| Run_CreateSharedBuffer: "Core_CreateSharedBuffer fuel pl so sz w = Some (Inr (rv, r, w')) \<Longrightarrow> core_run pl w w'"
| Run_Duplicate: "DuplicateBufferHandle fuel h dup w = Some (Inr (rv, r, w')) \<Longrightarrow> core_run pl w w'"
| Run_CreateWaitSet: "CreateWaitSet fuel w = Some (Inr (rv, r, w')) \<Longrightarrow> core_run pl w w'"
| Run_AddHandle: "AddHandle pl s h sg w = Inr (rv, w') \<Longrightarrow> core_run pl w w'"
| Run_RemoveHandle: "RemoveHandle s h w = Inr (rv, w') \<Longrightarrow> core_run pl w w'"
| Run_GetReadyHandles: "GetReadyHandles pl s n b w = Inr (rv, ready, sts, w') \<Longrightarrow> core_run pl w w'"
| Run_AsyncWait: "AsyncWait pl x h sg w = Inr (rv, w') \<Longrightarrow> core_run pl w w'"
| Run_WaitMany: "(\<And>w1. core_run pl w1 (snd (snd (Wait w1)))) \<Longrightarrow> WaitMany pl x Wait whs b w = Inr (rv, k, sts, w') \<Longrightarrow> core_run pl w w'"
| Run_Wait: "(\<And>w1. core_run pl w1 (snd (snd (Wait w1)))) \<Longrightarrow> Core_Wait pl x Wait h sg b w = Inr (rv, st, w') \<Longrightarrow> core_run pl w w'"

text \<open>Preservation: a run keeps the conformance of the table and the store and the class of every dispatcher.\<close>

lemma core_run_typed: "core_run pl w w' \<Longrightarrow> typed w w'"
proof (induction rule: core_run.induct)
  case (Run_trans w w1 w2)
  then show ?case using typed_trans by blast
next
  case (Run_WaitMany Wait x whs b w rv k sts w')
  then show ?case using typed_waits(1) by blast
next
  case (Run_Wait Wait x h sg b w rv st w')
  then show ?case using typed_waits(2) by blast
qed (simp_all, (blast intro: typed_V_OnPortStatusChanged typed_Close typed_creators typed_PassWrapped typed_pipes typed_CreateMessagePipe
  typed_WriteMessage typed_ReadMessage typed_CreateDataPipe typed_data_calls typed_DuplicateBufferHandle typed_set_calls)+)

lemma Core_init_ok: "core_ok (Core_init c mem)"
  by (auto simp: core_ok_def Core_init_def object_type_def table_objects_def HandleTable_init_def)


lemma two_wait_sets_run: "core_run example_platform example_core two_wait_sets"
proof -
  obtain w1 where 1: "CreateWaitSet 0 example_core = Some (Inr (MOJO_RESULT_OK, Some 1, w1))"
    by (simp add: CreateWaitSet_def example_core_def Core_init_def alloc_def put_object_def Core_AddDispatcher_def AddDispatcher_def
        HandleTable_init_def Let_def)
  then have "CreateWaitSet 0 w1 = Some (Inr (MOJO_RESULT_OK, Some 2, two_wait_sets))"
    by (auto simp: two_wait_sets_def CreateWaitSet_def example_core_def Core_init_def alloc_def put_object_def Core_AddDispatcher_def
        AddDispatcher_def HandleTable_init_def Let_def)
  then show ?thesis using 1 Run_CreateWaitSet Run_trans by blast
qed


end
