(* ===== verification/Schedule.thy ===== *)
theory Schedule
  imports Mojo_Types
begin

text \<open>
  Schedules of actions.  Several components are run by more than one thread; their models are functions \<open>act\<close> from an action and a
  state to an outcome, which is \<open>None\<close> when the action is not possible, and a schedule performs a list of actions.  The locale states
  this interface; what is proved in it once is how an invariant and a history of the schedule are carried through, and what a fault needs.
\<close>

locale schedule =
  fixes act :: "'a \<Rightarrow> 's \<Rightarrow> 's outcome"
    and acts :: "'a list \<Rightarrow> 's \<Rightarrow> 's outcome"
  assumes acts_Nil: "acts [] s = Some (Inr s)"
    and acts_Cons: "acts (a # as) s = and_then (act a s) (acts as)"
begin

text \<open>\<open>h\<close> is what an action adds to the history, \<open>P\<close> relates history and state, and \<open>F\<close> is what the history of a fault satisfies.\<close>

lemma history:
  assumes "acts as s = Some r" "P hs s"
    and step: "\<And>hs a s s'. P hs s \<Longrightarrow> act a s = Some (Inr s') \<Longrightarrow> P (hs @ h a) s'"
    and fail: "\<And>hs a s f. P hs s \<Longrightarrow> act a s = Some (Inl f) \<Longrightarrow> F (hs @ h a)"
    and rest: "\<And>hs a. F hs \<Longrightarrow> F (hs @ h a)"
  shows "case r of Inl f \<Rightarrow> F (hs @ concat (map h as)) | Inr s' \<Rightarrow> P (hs @ concat (map h as)) s'"
  using assms(1,2)
proof (induction as arbitrary: hs s)
  case Nil
  then show ?case by (auto simp: acts_Nil)
next
  case (Cons a as)
  have more: "F hs \<Longrightarrow> F (hs @ concat (map h bs))" for hs bs
  proof (induction bs arbitrary: hs)
    case (Cons b bs)
    then show ?case using rest [of hs b] Cons.IH [of "hs @ h b"] by simp
  qed simp
  from Cons.prems(1) obtain r1 where r1: "act a s = Some r1" by (cases "act a s") (auto simp: acts_Cons)
  show ?case
  proof (cases r1)
    case (Inl f)
    then have "r = Inl f" using Cons.prems(1) r1 by (simp add: acts_Cons)
    moreover have "F (hs @ h a)" using fail [OF Cons.prems(2)] r1 Inl by blast
    ultimately show ?thesis using more [of "hs @ h a" as] by simp
  next
    case (Inr s1)
    then have "acts as s1 = Some r" "P (hs @ h a) s1" using Cons.prems r1 step by (simp_all add: acts_Cons)
    then show ?thesis using Cons.IH [of s1 "hs @ h a"] by (cases r) simp_all
  qed
qed

lemma invariant:
  assumes "acts as s = Some r" "P s"
    and "\<And>a s s'. P s \<Longrightarrow> act a s = Some (Inr s') \<Longrightarrow> P s'"
    and "\<And>a s f. P s \<Longrightarrow> act a s = Some (Inl f) \<Longrightarrow> bad a"
  shows "case r of Inl f \<Rightarrow> \<exists>a \<in> set as. bad a | Inr s' \<Rightarrow> P s'"
  using history [OF assms(1), where P = "\<lambda>_. P" and h = "\<lambda>a. [a]" and hs = "[]" and F = "\<lambda>hs. \<exists>a \<in> set hs. bad a"] assms(2-4)
  by (cases r) auto

end

end
