(* ===== verification/Embedder_Entry.thy ===== *)
theory Embedder_Entry
  imports Bootstrap Schedule
begin

text \<open>
  The entry points of the embedder (\<open>embedder/embedder.cc\<close>, \<open>embedder/test_embedder.cc\<close>) over the global objects of a process, and
  the life time of the node controller, which \<open>Core\<close> makes when it is first needed and hands to the I/O thread when it is
  destroyed (\<open>core.cc\<close>, \<open>node_controller.cc\<close>).
\<close>

section \<open>The life time of the node controller\<close>

text \<open>
  Who deletes the controller: nobody yet, \<open>Core\<close>, a task that holds it, or the controller itself, when the I/O thread goes.
  \<open>lt_tasks\<close> are the tasks that wait on the I/O thread, \<open>lt_observers\<close> counts the observers of its end.
\<close>

datatype owner = Not_made | Core_owns | Task_owns | Owns_itself | Deleted

datatype io_task = Create_task | Pass_task

record Lifetime =
  lt_core :: bool
  lt_owner :: owner
  lt_io_runner :: bool
  destroy_on_io_thread_shutdown :: bool
  lt_tasks :: "io_task list"
  lt_observers :: nat
  lt_loop :: bool
  lt_deletions :: nat

definition Lifetime_init :: Lifetime where
  "Lifetime_init = \<lparr>lt_core = True, lt_owner = Not_made, lt_io_runner = False, destroy_on_io_thread_shutdown = False, lt_tasks = [],
     lt_observers = 0, lt_loop = True, lt_deletions = 0\<rparr>"

definition GetNodeController :: "Lifetime \<Rightarrow> Lifetime" where
  "GetNodeController l = (if lt_owner l = Not_made then l\<lparr>lt_owner := Core_owns\<rparr> else l)"

definition delete_controller :: "Lifetime \<Rightarrow> Lifetime" where
  "delete_controller l = l\<lparr>lt_owner := Deleted, lt_deletions := Suc (lt_deletions l)\<rparr>"

text \<open>A task that is dropped deletes what is passed to it; a loop that has ended drops what is posted to it.\<close>

fun drop_task :: "io_task \<Rightarrow> Lifetime \<Rightarrow> Lifetime" where
  "drop_task Create_task l = l"
| "drop_task Pass_task l = delete_controller l"

definition PostTask :: "io_task \<Rightarrow> Lifetime \<Rightarrow> Lifetime" where
  "PostTask t l = (if lt_loop l then l\<lparr>lt_tasks := lt_tasks l @ [t]\<rparr> else drop_task t l)"

definition Observer_Create :: "bool \<Rightarrow> Lifetime \<Rightarrow> Lifetime" where
  "Observer_Create on_io_thread l = (if on_io_thread then l\<lparr>lt_observers := Suc (lt_observers l)\<rparr> else PostTask Create_task l)"

definition Core_SetIOTaskRunner :: "bool \<Rightarrow> Lifetime \<Rightarrow> Lifetime" where
  "Core_SetIOTaskRunner on_io_thread l = Observer_Create on_io_thread ((GetNodeController l)\<lparr>lt_io_runner := True\<rparr>)"

definition Core_destroy :: "Lifetime \<Rightarrow> Lifetime" where
  "Core_destroy l =
     (let l' = l\<lparr>lt_core := False\<rparr>
      in if lt_owner l = Core_owns
         then if lt_io_runner l then PostTask Pass_task (l'\<lparr>lt_owner := Task_owns\<rparr>) else delete_controller l'
         else l')"

definition DestroyOnIOThreadShutdown :: "Lifetime \<Rightarrow> Lifetime" where
  "DestroyOnIOThreadShutdown l = l\<lparr>destroy_on_io_thread_shutdown := True\<rparr>"

definition PassNodeControllerToIOThread :: "Lifetime \<Rightarrow> Lifetime" where
  "PassNodeControllerToIOThread l = DestroyOnIOThreadShutdown (l\<lparr>lt_owner := Owns_itself\<rparr>)"

fun run_io_task :: "io_task \<Rightarrow> Lifetime \<Rightarrow> Lifetime" where
  "run_io_task Create_task l = Observer_Create True l"
| "run_io_task Pass_task l = PassNodeControllerToIOThread l"

text \<open>The end of \<open>DropAllPeers\<close>, as an observer runs it on a controller that may be gone.\<close>

definition Observer_WillDestroy :: "Lifetime \<Rightarrow> fault + Lifetime" where
  "Observer_WillDestroy l =
     (if lt_owner l = Deleted then Inl NullPointer
      else Inr (if destroy_on_io_thread_shutdown l then delete_controller l else l))"

fun notify_observers :: "nat \<Rightarrow> Lifetime \<Rightarrow> fault + Lifetime" where
  "notify_observers 0 l = Inr l"
| "notify_observers (Suc n) l = (case Observer_WillDestroy l of Inl f \<Rightarrow> Inl f | Inr l' \<Rightarrow> notify_observers n l')"

text \<open>
  The message loop of the I/O thread ends: it drops the tasks that wait and tells its observers, in an order that is the
  loop's.
\<close>

definition loop_ends :: "bool \<Rightarrow> Lifetime \<Rightarrow> fault + Lifetime" where
  "loop_ends tasks_first l =
     (let drop = (\<lambda>l. (fold drop_task (lt_tasks l) l)\<lparr>lt_tasks := []\<rparr>);
          finish = map_sum id (\<lambda>l. l\<lparr>lt_loop := False, lt_observers := 0\<rparr>)
      in if tasks_first then finish (notify_observers (lt_observers l) (drop l))
         else finish (map_sum id drop (notify_observers (lt_observers l) l)))"

datatype life_action = L_GetNodeController | L_SetIOTaskRunner bool | L_Core_destroy | L_io_task | L_loop_ends bool

text \<open>\<open>None\<close>: the action is not possible.  The I/O thread is set once, by \<open>InitIPCSupport\<close>.\<close>

fun life_act :: "life_action \<Rightarrow> Lifetime \<Rightarrow> Lifetime outcome" where
  "life_act L_GetNodeController l = (if lt_core l then Some (Inr (GetNodeController l)) else None)"
| "life_act (L_SetIOTaskRunner on_io_thread) l =
     (if lt_core l \<and> lt_loop l \<and> \<not> lt_io_runner l then Some (Inr (Core_SetIOTaskRunner on_io_thread l)) else None)"
| "life_act L_Core_destroy l = (if lt_core l then Some (Inr (Core_destroy l)) else None)"
| "life_act L_io_task l =
     (case lt_tasks l of [] \<Rightarrow> None | t # ts \<Rightarrow> Some (Inr (run_io_task t (l\<lparr>lt_tasks := ts\<rparr>))))"
| "life_act (L_loop_ends tasks_first) l = (if lt_loop l then Some (loop_ends tasks_first l) else None)"

fun life_acts :: "life_action list \<Rightarrow> Lifetime \<Rightarrow> Lifetime outcome" where
  "life_acts [] l = Some (Inr l)"
| "life_acts (a # as) l = and_then (life_act a l) (life_acts as)"

text \<open>Without an I/O thread, while it runs, and after it has ended.\<close>

definition life_inv :: "Lifetime \<Rightarrow> bool" where
  "life_inv l \<longleftrightarrow> lt_deletions l = (if lt_owner l = Deleted then 1 else 0) \<and>
     (if \<not> lt_io_runner l
      then lt_tasks l = [] \<and> lt_observers l = 0 \<and> \<not> destroy_on_io_thread_shutdown l \<and>
        lt_owner l \<in> (if lt_core l then {Not_made, Core_owns} else {Not_made, Deleted})
      else if lt_loop l
      then if lt_core l
        then lt_owner l = Core_owns \<and> \<not> destroy_on_io_thread_shutdown l \<and>
          (lt_tasks l = [] \<and> lt_observers l = 1 \<or> lt_tasks l = [Create_task] \<and> lt_observers l = 0)
        else lt_owner l = Task_owns \<and> \<not> destroy_on_io_thread_shutdown l \<and>
            (lt_tasks l = [Pass_task] \<and> lt_observers l = 1 \<or> lt_tasks l = [Create_task, Pass_task] \<and> lt_observers l = 0) \<or>
          lt_owner l = Owns_itself \<and> destroy_on_io_thread_shutdown l \<and> lt_tasks l = [] \<and> lt_observers l = 1
      else lt_tasks l = [] \<and> lt_observers l = 0 \<and> (if lt_core l then lt_owner l = Core_owns \<and> \<not> destroy_on_io_thread_shutdown l else lt_owner l = Deleted))"

lemmas life_defs = GetNodeController_def delete_controller_def PostTask_def Observer_Create_def Core_SetIOTaskRunner_def Core_destroy_def
  DestroyOnIOThreadShutdown_def PassNodeControllerToIOThread_def Observer_WillDestroy_def

lemma loop_ends_inv:
  assumes "life_inv l" "lt_loop l"
  shows "case loop_ends first l of Inl f \<Rightarrow> first \<and> lt_owner l = Task_owns \<and> lt_observers l = 1 | Inr l' \<Rightarrow> life_inv l'"
proof -
  have "lt_observers l = 0 \<or> lt_observers l = Suc 0" using assms by (auto simp: life_inv_def split: if_splits)
  then show ?thesis
    using assms by (cases first) (auto simp: life_inv_def loop_ends_def life_defs Let_def split: if_splits)
qed

lemma life_act_inv:
  assumes "life_act a l = Some r" "life_inv l"
  shows "case r of Inl f \<Rightarrow> a = L_loop_ends True | Inr l' \<Rightarrow> life_inv l'"
proof (cases a)
  case (L_loop_ends first)
  then show ?thesis using assms loop_ends_inv [of l first] by (auto split: if_splits sum.splits)
qed (use assms in \<open>auto simp: life_inv_def life_defs split: if_splits list.splits\<close>)

interpretation life: schedule life_act life_acts
  by unfold_locales simp_all

lemma life_acts_inv:
  assumes "life_acts as l = Some r" "life_inv l"
  shows "case r of Inl f \<Rightarrow> L_loop_ends True \<in> set as | Inr l' \<Rightarrow> life_inv l'"
proof -
  have "case r of Inl f \<Rightarrow> \<exists>a \<in> set as. a = L_loop_ends True | Inr l' \<Rightarrow> life_inv l'"
    by (rule life.invariant [OF assms(1), where P = life_inv]) (use assms(2) in \<open>auto dest: life_act_inv\<close>)
  then show ?thesis by (cases r) simp_all
qed

text \<open>
  The node controller is deleted once.  Whatever the order in which \<open>Core\<close> is destroyed, tasks run on the I/O thread and this
  thread ends: the controller is never deleted twice and, when the thread notifies its observers before it drops its
  tasks, never used after it was deleted; when both \<open>Core\<close> and the thread are gone, a controller that was made is deleted.
\<close>

theorem controller_deleted_once:
  assumes "life_acts as Lifetime_init = Some r"
  shows "case r of
      Inl f \<Rightarrow> L_loop_ends True \<in> set as
    | Inr l \<Rightarrow> lt_deletions l = (if lt_owner l = Deleted then 1 else 0) \<and> (\<not> lt_core l \<and> \<not> lt_loop l \<longrightarrow> lt_owner l \<in> {Not_made, Deleted})"
proof -
  have "life_inv Lifetime_init" by (simp add: life_inv_def Lifetime_init_def)
  from life_acts_inv [OF assms this] show ?thesis by (cases r) (auto simp: life_inv_def split: if_splits)
qed

text \<open>A loop that drops its tasks first deletes the controller and then notifies the observer that points to it.\<close>

theorem controller_used_after_delete:
  "life_acts [L_SetIOTaskRunner True, L_Core_destroy, L_loop_ends True] Lifetime_init = Some (Inl NullPointer)"
  by (simp add: Lifetime_init_def life_defs loop_ends_def Let_def)

theorem controller_deleted_once_witness:
  "\<exists>l. life_acts [L_SetIOTaskRunner False, L_io_task, L_Core_destroy, L_io_task, L_loop_ends False] Lifetime_init = Some (Inr l) \<and>
     lt_owner l = Deleted \<and> lt_deletions l = 1"
proof -
  obtain l where l: "life_acts [L_SetIOTaskRunner False, L_io_task, L_Core_destroy, L_io_task, L_loop_ends False] Lifetime_init = Some (Inr l)"
    "lt_owner l = Deleted" by (simp add: Lifetime_init_def life_defs loop_ends_def Let_def)
  then show ?thesis using controller_deleted_once [OF l(1)] by simp
qed


section \<open>The entry points\<close>

text \<open>
  The globals: the core, the task runner, the delegate by numbers.  An entry point either checks that there is a core or uses it
  without a check.
\<close>

record Embedder =
  g_core :: "Core option"
  g_io_thread_task_runner :: "nat option"
  g_platform_support :: bool
  g_process_delegate :: "callback option"
  g_is_parent_process :: bool

definition Embedder_init :: Embedder where
  "Embedder_init = \<lparr>g_core = None, g_io_thread_task_runner = None, g_platform_support = False, g_process_delegate = None,
     g_is_parent_process = True\<rparr>"

definition SetMaxMessageSize :: "nat \<Rightarrow> Embedder \<Rightarrow> Embedder" where
  "SetMaxMessageSize bytes g = g"

definition PreInitializeParentProcess :: "Embedder \<Rightarrow> Embedder" where
  "PreInitializeParentProcess g = g"

definition PreInitializeChildProcess :: "Embedder \<Rightarrow> Embedder" where
  "PreInitializeChildProcess g = g\<lparr>g_is_parent_process := False\<rparr>"

text \<open>\<open>absent\<close> is what happens without a core.\<close>

definition with_core :: "fault \<Rightarrow> (Core \<Rightarrow> fault + 'a \<times> Core) \<Rightarrow> Embedder \<Rightarrow> fault + 'a \<times> Embedder" where
  "with_core absent f g =
     (case g_core g of
        None \<Rightarrow> Inl absent
      | Some w \<Rightarrow> (case f w of Inl x \<Rightarrow> Inl x | Inr (a, w') \<Rightarrow> Inr (a, g\<lparr>g_core := Some w'\<rparr>)))"

definition ChildProcessLaunched :: "Embedder \<Rightarrow> fault + unit \<times> Embedder" where
  "ChildProcessLaunched = with_core CheckFailure (\<lambda>w. Inr ((), Core_AddChild w))"

text \<open>The other overload makes the pair of sockets itself and returns the child's end.\<close>

definition ChildProcessLaunched_pair :: "int option \<times> int option \<Rightarrow> Embedder \<Rightarrow> fault + int option \<times> Embedder" where
  "ChildProcessLaunched_pair pair g = map_sum id (\<lambda>(_, g'). (snd pair, g')) (ChildProcessLaunched g)"

definition SetParentPipeHandle :: "Embedder \<Rightarrow> fault + unit \<times> Embedder" where
  "SetParentPipeHandle g =
     (if g_core g = None then Inl CheckFailure
      else with_core NullPointer (\<lambda>w. Inr ((), Core_InitChild w)) (g\<lparr>g_is_parent_process := False\<rparr>))"

definition Embedder_Init :: "Core \<Rightarrow> Embedder \<Rightarrow> Embedder" where
  "Embedder_Init core g = g\<lparr>g_core := Some core, g_platform_support := True\<rparr>"

definition Embedder_AsyncWait :: "platform \<Rightarrow> nat \<Rightarrow> MojoHandle \<Rightarrow> signal set \<Rightarrow> Embedder \<Rightarrow> fault + MojoResult \<times> Embedder" where
  "Embedder_AsyncWait pl awakable handle signals = with_core CheckFailure (AsyncWait pl awakable handle signals)"

definition Embedder_CreatePlatformHandleWrapper ::
  "PlatformHandle option \<Rightarrow> Embedder \<Rightarrow> fault + (MojoResult \<times> MojoHandle option) \<times> Embedder" where
  "Embedder_CreatePlatformHandleWrapper ph =
     with_core NullPointer (\<lambda>w. case CreatePlatformHandleWrapper ph w of (rv, h, w') \<Rightarrow> Inr ((rv, h), w'))"

definition Embedder_PassWrappedPlatformHandle ::
  "MojoHandle \<Rightarrow> Embedder \<Rightarrow> fault + (MojoResult \<times> PlatformHandle option) \<times> Embedder" where
  "Embedder_PassWrappedPlatformHandle h =
     with_core NullPointer (\<lambda>w. case PassWrappedPlatformHandle h w of Inl f \<Rightarrow> Inl f | Inr (rv, ph, w') \<Rightarrow> Inr ((rv, ph), w'))"

text \<open>The task runner is handed to the controller by \<^const>\<open>Core_SetIOTaskRunner\<close>; here it is only kept.\<close>

definition InitIPCSupport :: "callback \<Rightarrow> nat \<Rightarrow> Embedder \<Rightarrow> fault + Embedder" where
  "InitIPCSupport process_delegate io_thread_task_runner g =
     (if g_core g = None \<or> g_io_thread_task_runner g \<noteq> None then Inl CheckFailure
      else Inr (g\<lparr>g_io_thread_task_runner := Some io_thread_task_runner, g_process_delegate := Some process_delegate\<rparr>))"

definition ShutdownIPCSupportOnIOThread :: "Embedder \<Rightarrow> Embedder" where
  "ShutdownIPCSupportOnIOThread g = g"

definition ShutdownIPCSupport :: "Embedder \<Rightarrow> fault + unit \<times> Embedder" where
  "ShutdownIPCSupport g =
     (case g_process_delegate g of
        None \<Rightarrow> Inl CheckFailure
      | Some delegate \<Rightarrow> with_core CheckFailure (\<lambda>w. Inr ((), Core_RequestShutdown delegate w)) g)"

text \<open>The pipe over a channel, with the token that the parent would send.\<close>

definition Embedder_CreateMessagePipe :: "token \<Rightarrow> callback \<Rightarrow> Embedder \<Rightarrow> fault + RemoteMessagePipeBootstrap \<times> Embedder" where
  "Embedder_CreateMessagePipe token cb g =
     with_core NullPointer
       (if g_is_parent_process g then CreateParentMessagePipe_channel token cb else CreateChildMessagePipe_channel cb) g"

definition Embedder_CreateParentMessagePipe :: "token \<Rightarrow> callback \<Rightarrow> Embedder \<Rightarrow> fault + unit \<times> Embedder" where
  "Embedder_CreateParentMessagePipe token cb =
     with_core NullPointer (\<lambda>w. map_sum id (Pair ()) (CreateParentMessagePipe token cb w))"

definition Embedder_CreateChildMessagePipe :: "token \<Rightarrow> callback \<Rightarrow> Embedder \<Rightarrow> fault + unit \<times> Embedder" where
  "Embedder_CreateChildMessagePipe token cb =
     with_core NullPointer (\<lambda>w. map_sum id (Pair ()) (CreateChildMessagePipe token cb w))"

text \<open>The token is 16 random bytes in hexadecimal; the bytes and their encoding are from outside the repository.\<close>

definition GenerateRandomToken :: "(uint8_t list \<Rightarrow> token) \<Rightarrow> (nat \<Rightarrow> uint8_t) \<Rightarrow> token" where
  "GenerateRandomToken HexEncode RandBytes = HexEncode (map RandBytes [0..<16])"

definition ShutdownCheckNoLeaks :: "Core \<Rightarrow> bool" where
  "ShutdownCheckNoLeaks w = (Core_GetActiveHandlesForTest w = [])"

definition test_Shutdown :: "Embedder \<Rightarrow> fault + bool \<times> Embedder" where
  "test_Shutdown g =
     (case g_core g of
        None \<Rightarrow> Inl CheckFailure
      | Some w \<Rightarrow>
          if \<not> g_platform_support g then Inl CheckFailure
          else Inr (ShutdownCheckNoLeaks w, g\<lparr>g_core := None, g_platform_support := False\<rparr>))"


section \<open>The role of a process\<close>

datatype embedder_action = E_PreInitializeParent | E_PreInitializeChild | E_SetParentPipe | E_Launched | E_Init Core
  | E_InitIPC callback nat | E_Shutdown | E_CreatePipe token callback | E_ParentPipe token callback | E_ChildPipe token callback

fun embedder_call :: "embedder_action \<Rightarrow> Embedder \<Rightarrow> fault + Embedder" where
  "embedder_call E_PreInitializeParent g = Inr (PreInitializeParentProcess g)"
| "embedder_call E_PreInitializeChild g = Inr (PreInitializeChildProcess g)"
| "embedder_call E_SetParentPipe g = map_sum id snd (SetParentPipeHandle g)"
| "embedder_call E_Launched g = map_sum id snd (ChildProcessLaunched g)"
| "embedder_call (E_Init core) g = Inr (Embedder_Init core g)"
| "embedder_call (E_InitIPC delegate runner) g = InitIPCSupport delegate runner g"
| "embedder_call E_Shutdown g = map_sum id snd (ShutdownIPCSupport g)"
| "embedder_call (E_CreatePipe token cb) g = map_sum id snd (Embedder_CreateMessagePipe token cb g)"
| "embedder_call (E_ParentPipe token cb) g = map_sum id snd (Embedder_CreateParentMessagePipe token cb g)"
| "embedder_call (E_ChildPipe token cb) g = map_sum id snd (Embedder_CreateChildMessagePipe token cb g)"

fun embedder_calls :: "embedder_action list \<Rightarrow> Embedder \<Rightarrow> fault + Embedder" where
  "embedder_calls [] g = Inr g"
| "embedder_calls (x # xs) g = (case embedder_call x g of Inl f \<Rightarrow> Inl f | Inr g' \<Rightarrow> embedder_calls xs g')"

lemma with_core_OK:
  "with_core fl f g = Inr (a, g') \<longleftrightarrow> (\<exists>w w'. g_core g = Some w \<and> f w = Inr (a, w') \<and> g' = g\<lparr>g_core := Some w'\<rparr>)"
  by (auto simp: with_core_def split: option.splits sum.splits)

lemma with_core_sum: "map_sum id snd (with_core fl f g) = Inr g' \<longleftrightarrow> (\<exists>a. with_core fl f g = Inr (a, g'))"
  by (cases "with_core fl f g") auto

lemmas embedder_defs = PreInitializeParentProcess_def PreInitializeChildProcess_def SetParentPipeHandle_def ChildProcessLaunched_def
  Embedder_Init_def InitIPCSupport_def ShutdownIPCSupport_def Embedder_CreateMessagePipe_def Embedder_CreateParentMessagePipe_def
  Embedder_CreateChildMessagePipe_def

definition makes_child :: "embedder_action \<Rightarrow> bool" where
  "makes_child x \<longleftrightarrow> x = E_PreInitializeChild \<or> x = E_SetParentPipe"

lemma call_role:
  assumes "embedder_call x g = Inr g'"
  shows "g_is_parent_process g' \<longleftrightarrow> g_is_parent_process g \<and> \<not> makes_child x"
    "g_core g' \<noteq> None \<longleftrightarrow> g_core g \<noteq> None \<or> (\<exists>core. x = E_Init core)"
  using assms by (cases x; auto simp: embedder_defs makes_child_def with_core_sum with_core_OK split: if_splits option.splits)+

lemma calls_role:
  "embedder_calls xs g = Inr g' \<Longrightarrow>
     (g_is_parent_process g' \<longleftrightarrow> g_is_parent_process g \<and> \<not> list_ex makes_child xs) \<and>
     (g_core g' \<noteq> None \<longleftrightarrow> g_core g \<noteq> None \<or> (\<exists>core. E_Init core \<in> set xs))"
proof (induction xs arbitrary: g)
  case (Cons x xs)
  then obtain g1 where 1: "embedder_call x g = Inr g1" "embedder_calls xs g1 = Inr g'" by (auto split: sum.splits)
  show ?case using Cons.IH [OF 1(2)] call_role [OF 1(1)] by auto
qed simp

text \<open>
  A pipe over a channel: whatever was called before, the process that has been made a child takes the end that waits for a token and any
  other process the end that sends it, so that the two ends of a channel between a parent and a child get different roles.
\<close>

theorem embedder_pipe_roles:
  assumes "embedder_calls xs Embedder_init = Inr g" "Embedder_CreateMessagePipe token cb g = Inr (b, g')"
  shows "if list_ex makes_child xs then \<exists>port. b = ChildBootstrap port cb else b = ParentBootstrap token"
proof -
  have "g_is_parent_process g \<longleftrightarrow> \<not> list_ex makes_child xs"
    using calls_role [OF assms(1)] by (simp add: Embedder_init_def)
  then show ?thesis
    using assms(2) by (auto simp: Embedder_CreateMessagePipe_def with_core_OK CreateParentMessagePipe_channel_def
        CreateChildMessagePipe_channel_def split: sum.splits prod.splits)
qed

end
