(* ===== verification/Process_Host.thy ===== *)
theory Process_Host
  imports Platform_Channel Mojo_Types
begin

text \<open>
  The host of a child process (\<open>shell/runner/host/child_process_host.h\<close>, \<open>child_process_host.cc\<close>, \<open>switches.cc\<close>) and the
  runner that owns it (\<open>out_of_process_native_runner.cc\<close>).  A host lives on the main thread, launches the process on another
  thread and gets a pipe to it from a third; each method is one step, the tasks posted to the main thread wait in a
  queue, and the callbacks that a method runs last are returned as events.
\<close>

type_synonym ProcessId = nat

type_synonym closure = nat

section \<open>The switches\<close>

definition kChildProcess :: string where "kChildProcess = ''child-process''"
definition kEnableSandbox :: string where "kEnableSandbox = ''enable-sandbox''"
definition kPrimordialPipeToken :: string where "kPrimordialPipeToken = ''primordial-pipe-token''"

section \<open>The holder of the pipe\<close>

text \<open>A scoped handle is \<open>None\<close> when it is invalid.  The methods also return the handles that they close.\<close>

fun scoped :: "'a option \<Rightarrow> 'a list" where
  "scoped None = []"
| "scoped (Some x) = [x]"

record PipeHolder =
  reject_pipe :: bool
  held_pipe :: "MojoHandle option"

definition PipeHolder_new :: PipeHolder where
  "PipeHolder_new = \<lparr>reject_pipe = False, held_pipe = None\<rparr>"

definition Reject :: "PipeHolder \<Rightarrow> MojoHandle list \<times> PipeHolder" where
  "Reject ph = (scoped (held_pipe ph), ph\<lparr>reject_pipe := True, held_pipe := None\<rparr>)"

definition SetPipe :: "MojoHandle option \<Rightarrow> PipeHolder \<Rightarrow> MojoHandle list \<times> PipeHolder" where
  "SetPipe pipe ph =
     (if \<not> reject_pipe ph then (scoped (held_pipe ph), ph\<lparr>held_pipe := pipe\<rparr>) else (scoped pipe, ph))"

definition PassPipe :: "PipeHolder \<Rightarrow> MojoHandle option \<times> PipeHolder" where
  "PassPipe ph = (held_pipe ph, ph\<lparr>held_pipe := None\<rparr>)"


section \<open>The host\<close>

datatype host_task = DidStart_task | OnMessagePipeCreated_task

datatype host_event = ProcessReady closure ProcessId | AppComplete closure MojoResult

datatype host_call = Call_StartApp nat | Call_ExitNow int

text \<open>
  \<open>controller\<close> is the pipe that the interface pointer is bound to, and \<open>controller_calls\<close> what was sent over it.  The last
  fields are the world around: the tasks on the launching thread, those of them whose reply is not posted, and the tasks of the main thread, the
  requests for a pipe that are not answered, the channels handed to the embedder, and the pipes that were closed.
\<close>

record ChildProcessHost =
  start_sandboxed :: bool
  host_app_path :: string
  child_process :: "ProcessId option"
  host_controller :: "MojoHandle option"
  on_app_complete :: "closure option"
  host_handle_passing_info :: FileHandleMappingVector
  node_channel :: "PlatformChannelPair option"
  start_child_process_event :: bool
  primordial_pipe_token :: string
  pipe_holder :: "PipeHolder option"
  process_ready_callback :: "closure option"
  launch_tasks :: nat
  launch_replies :: nat
  main_tasks :: "host_task list"
  pipe_requests :: "string list"
  launched_channels :: "(ProcessId \<times> int option) list"
  controller_calls :: "host_call list"
  closed_pipes :: "MojoHandle list"

text \<open>An interface pointer that is bound to another pipe, valid or not, closes the one it had.\<close>

definition controller_Bind :: "MojoHandle option \<Rightarrow> ChildProcessHost \<Rightarrow> ChildProcessHost" where
  "controller_Bind pipe h = h\<lparr>host_controller := pipe, closed_pipes := closed_pipes h @ scoped (host_controller h)\<rparr>"

definition with_holder ::
  "(PipeHolder \<Rightarrow> MojoHandle list \<times> PipeHolder) \<Rightarrow> ChildProcessHost \<Rightarrow> fault + ChildProcessHost" where
  "with_holder f h =
     (case pipe_holder h of
        None \<Rightarrow> Inl NullPointer
      | Some ph \<Rightarrow> (case f ph of (cs, ph') \<Rightarrow> Inr (h\<lparr>pipe_holder := Some ph', closed_pipes := closed_pipes h @ cs\<rparr>)))"

definition MaybeNotifyProcessReady :: "ChildProcessHost \<Rightarrow> fault + host_event list" where
  "MaybeNotifyProcessReady h =
     (if host_controller h \<noteq> None \<and> child_process h \<noteq> None
      then (case process_ready_callback h of None \<Rightarrow> Inl NullPointer | Some cb \<Rightarrow> Inr [ProcessReady cb (the (child_process h))])
      else Inr [])"

definition OnMessagePipeCreated :: "ChildProcessHost \<Rightarrow> fault + host_event list \<times> ChildProcessHost" where
  "OnMessagePipeCreated h =
     (case pipe_holder h of
        None \<Rightarrow> Inl NullPointer
      | Some ph \<Rightarrow>
          let (pipe, ph') = PassPipe ph;
              h' = controller_Bind pipe (h\<lparr>pipe_holder := Some ph'\<rparr>)
          in (case MaybeNotifyProcessReady h' of Inl f \<Rightarrow> Inl f | Inr evs \<Rightarrow> Inr (evs, h')))"

definition OnParentMessagePipeCreated :: "MojoHandle option \<Rightarrow> ChildProcessHost \<Rightarrow> fault + ChildProcessHost" where
  "OnParentMessagePipeCreated pipe h =
     (case with_holder (SetPipe pipe) h of
        Inl f \<Rightarrow> Inl f
      | Inr h' \<Rightarrow> Inr (h'\<lparr>main_tasks := main_tasks h' @ [OnMessagePipeCreated_task]\<rparr>))"

definition host_base :: "bool \<Rightarrow> string \<Rightarrow> ChildProcessHost" where
  "host_base sandboxed path =
     \<lparr>start_sandboxed = sandboxed, host_app_path = path, child_process = None, host_controller = None, on_app_complete = None,
      host_handle_passing_info = [], node_channel = None, start_child_process_event = False, primordial_pipe_token = [],
      pipe_holder = None, process_ready_callback = None, launch_tasks = 0, launch_replies = 0, main_tasks = [], pipe_requests = [],
      launched_channels = [], controller_calls = [], closed_pipes = []\<rparr>"

text \<open>
  The constructors.  \<open>new_edk\<close> is the switch of the command line; \<open>pair\<close> and \<open>token\<close> are what the new channel pair and the
  random token are, and \<open>pipe\<close> what \<open>CreateChannel\<close> returns.
\<close>

definition ChildProcessHost_new ::
  "bool \<Rightarrow> bool \<Rightarrow> string \<Rightarrow> PlatformChannelPair \<Rightarrow> string \<Rightarrow> MojoHandle option \<Rightarrow> fault + ChildProcessHost" where
  "ChildProcessHost_new new_edk sandboxed path pair token pipe =
     (let h = (host_base sandboxed path)\<lparr>pipe_holder := Some PipeHolder_new\<rparr>
      in if new_edk then Inr (h\<lparr>node_channel := Some pair, primordial_pipe_token := token\<rparr>)
         else (case with_holder (SetPipe pipe) h of
                 Inl f \<Rightarrow> Inl f
               | Inr h1 \<Rightarrow> (case OnMessagePipeCreated h1 of Inl f \<Rightarrow> Inl f | Inr (_, h2) \<Rightarrow> Inr h2)))"

definition ChildProcessHost_channel :: "MojoHandle option \<Rightarrow> fault + ChildProcessHost" where
  "ChildProcessHost_channel channel =
     (if channel = None then Inl CheckFailure else Inr (controller_Bind channel (host_base False [])))"

definition ChildProcessHost_destroy :: "ChildProcessHost \<Rightarrow> fault + unit" where
  "ChildProcessHost_destroy h = (if host_app_path h \<noteq> [] \<and> host_controller h \<noteq> None then Inl CheckFailure else Inr ())"

definition Host_Start :: "bool \<Rightarrow> closure \<Rightarrow> ChildProcessHost \<Rightarrow> ChildProcessHost" where
  "Host_Start new_edk callback h =
     (let h1 = h\<lparr>process_ready_callback := Some callback\<rparr>;
          h2 = (if new_edk then h1\<lparr>pipe_requests := pipe_requests h1 @ [primordial_pipe_token h1]\<rparr> else h1)
      in h2\<lparr>launch_tasks := Suc (launch_tasks h2)\<rparr>)"

text \<open>
  \<open>Join\<close>.  The result \<open>None\<close> is a wait that does not end; the event is reset by the wait.  \<open>exit\<close> is what the wait for the
  process gives: its exit code, or \<open>None\<close> when it fails.
\<close>

definition Host_Join :: "int option \<Rightarrow> ChildProcessHost \<Rightarrow> (int \<times> ChildProcessHost) outcome" where
  "Host_Join exit h =
     (if host_controller h \<noteq> None \<and> \<not> start_child_process_event h then None
      else let h1 = (if host_controller h \<noteq> None then h\<lparr>start_child_process_event := False\<rparr> else h);
               h2 = controller_Bind None h1
           in (case with_holder Reject h2 of
                 Inl f \<Rightarrow> Some (Inl f)
               | Inr h3 \<Rightarrow> Some (Inr (case exit of None \<Rightarrow> - 1 | Some rv \<Rightarrow> rv, h3\<lparr>child_process := None\<rparr>))))"

definition Host_StartApp :: "nat \<Rightarrow> closure \<Rightarrow> ChildProcessHost \<Rightarrow> fault + ChildProcessHost" where
  "Host_StartApp request callback h =
     (if host_controller h = None then Inl NullPointer
      else Inr (h\<lparr>on_app_complete := Some callback, controller_calls := controller_calls h @ [Call_StartApp request]\<rparr>))"

definition Host_ExitNow :: "int \<Rightarrow> ChildProcessHost \<Rightarrow> fault + ChildProcessHost" where
  "Host_ExitNow exit_code h =
     (if host_controller h = None then Inl NullPointer else Inr (h\<lparr>controller_calls := controller_calls h @ [Call_ExitNow exit_code]\<rparr>))"

definition Host_AppCompleted :: "MojoResult \<Rightarrow> ChildProcessHost \<Rightarrow> host_event list \<times> ChildProcessHost" where
  "Host_AppCompleted result h =
     (case on_app_complete h of
        None \<Rightarrow> ([], h)
      | Some cb \<Rightarrow> ([AppComplete cb result], h\<lparr>on_app_complete := None\<rparr>))"

definition DidStart :: "ChildProcessHost \<Rightarrow> fault + host_event list \<times> ChildProcessHost" where
  "DidStart h =
     (if child_process h \<noteq> None
      then (case MaybeNotifyProcessReady h of Inl f \<Rightarrow> Inl f | Inr evs \<Rightarrow> Inr (evs, h))
      else Inr (Host_AppCompleted MOJO_RESULT_UNKNOWN h))"

section \<open>Launching\<close>

text \<open>
  What is used of the base library, of the sandbox and of the channel pair, which are not part of the repository.
\<close>

record 'l launch_library = "'l base_library" +
  GetProgram :: "'l \<Rightarrow> string"
  CommandLine_new :: "string \<Rightarrow> 'l"
  AppendArguments :: "'l \<Rightarrow> bool \<Rightarrow> 'l \<Rightarrow> 'l"
  AppendSwitchPath :: "string \<Rightarrow> string \<Rightarrow> 'l \<Rightarrow> 'l"
  AppendSwitch :: "string \<Rightarrow> 'l \<Rightarrow> 'l"
  HasSwitch :: "string \<Rightarrow> 'l \<Rightarrow> bool"
  GetSwitchValuePath :: "string \<Rightarrow> 'l \<Rightarrow> string"
  MatchesExtension :: "string \<Rightarrow> string \<Rightarrow> bool"
  LaunchProcess :: "'l \<Rightarrow> FileHandleMappingVector \<Rightarrow> ProcessId option"
  Sandbox_LaunchProcess :: "'l \<Rightarrow> FileHandleMappingVector \<Rightarrow> ProcessId option"
  pair_ChildProcessLaunched :: "PlatformChannelPair \<Rightarrow> PlatformChannelPair"
  pair_PassServerHandle :: "PlatformChannelPair \<Rightarrow> int option \<times> PlatformChannelPair"

abbreviation base_of :: "'l launch_library \<Rightarrow> 'l base_library" where
  "base_of lib \<equiv> base_library.truncate lib"

definition target_path :: "'l launch_library \<Rightarrow> 'l \<Rightarrow> string \<Rightarrow> string" where
  "target_path lib parent app_path =
     (if \<not> MatchesExtension lib app_path ''.mojo'' \<and> app_path \<noteq> [] then app_path else GetProgram lib parent)"

definition child_command_line ::
  "'l launch_library \<Rightarrow> 'l \<Rightarrow> ChildProcessHost \<Rightarrow> fault + 'l \<times> FileHandleMappingVector" where
  "child_command_line lib parent h =
     (let target = target_path lib parent (host_app_path h);
          line1 = AppendArguments lib parent False (CommandLine_new lib target);
          line2 = (if target \<noteq> host_app_path h then AppendSwitchPath lib kChildProcess (host_app_path h) line1 else line1);
          line3 = (if start_sandboxed h then AppendSwitch lib kEnableSandbox line2 else line2)
      in case (case node_channel h of
                 None \<Rightarrow> Inr (line3, host_handle_passing_info h)
               | Some pair \<Rightarrow> PrepareToPassClientHandleToChildProcess (base_of lib) pair line3 (host_handle_passing_info h)) of
           Inl f \<Rightarrow> Inl f
         | Inr (line4, info) \<Rightarrow> Inr (AppendSwitchASCII lib kPrimordialPipeToken (primordial_pipe_token h) line4, info))"

text \<open>\<open>DoLaunch\<close> on POSIX; the command line and the descriptors of the child are returned too.\<close>

definition DoLaunch ::
  "'l launch_library \<Rightarrow> 'l \<Rightarrow> ChildProcessHost \<Rightarrow> fault + 'l \<times> FileHandleMappingVector \<times> ChildProcessHost" where
  "DoLaunch lib parent h =
     (case child_command_line lib parent h of
        Inl f \<Rightarrow> Inl f
      | Inr (line, info) \<Rightarrow>
          let fds = info @ [(0, 0), (1, 1), (2, 2)];
              process = (if start_sandboxed h then Sandbox_LaunchProcess lib line fds else LaunchProcess lib line fds);
              h1 = h\<lparr>host_handle_passing_info := fds, child_process := process\<rparr>;
              h2 = (case (process, node_channel h1) of
                      (Some pid, Some pair) \<Rightarrow>
                        (case pair_PassServerHandle lib (pair_ChildProcessLaunched lib pair) of
                           (server, pair') \<Rightarrow>
                             h1\<lparr>node_channel := Some pair', launched_channels := launched_channels h1 @ [(pid, server)]\<rparr>)
                    | _ \<Rightarrow> h1)
          in Inr (line, fds, h2\<lparr>start_child_process_event := True\<rparr>))"

text \<open>The handles that a child inherits on Windows; \<open>is_char\<close> is \<open>GetFileType\<close> compared to \<open>FILE_TYPE_CHAR\<close>.\<close>

definition win_inherited_handles :: "(nat \<Rightarrow> bool) \<Rightarrow> nat \<Rightarrow> nat \<Rightarrow> nat list \<Rightarrow> nat list" where
  "win_inherited_handles is_char stdout_handle stderr_handle info =
     (let info1 = (if \<not> is_char stdout_handle then info @ [stdout_handle] else info)
      in if \<not> is_char stderr_handle \<and> stdout_handle \<noteq> stdout_handle then info1 @ [stderr_handle] else info1)"

section \<open>Schedules\<close>

text \<open>
  What may happen to a host: calls of its owner, the launching task and its reply, the answer to its request for a pipe, a task of the
  main thread, a response from the child.  \<open>None\<close>: the action is not possible, or blocks.  \<open>Start\<close> is called once.
\<close>

datatype host_action =
  A_Start closure | A_Launch | A_Reply | A_Pipe "MojoHandle option" | A_Main | A_StartApp nat closure | A_ExitNow int
  | A_Response MojoResult | A_Join "int option"

fun run_task :: "host_task \<Rightarrow> ChildProcessHost \<Rightarrow> fault + host_event list \<times> ChildProcessHost" where
  "run_task DidStart_task h = DidStart h"
| "run_task OnMessagePipeCreated_task h = OnMessagePipeCreated h"

definition silent :: "(fault + ChildProcessHost) \<Rightarrow> (host_event list \<times> ChildProcessHost) outcome" where
  "silent r = Some (case r of Inl f \<Rightarrow> Inl f | Inr h \<Rightarrow> Inr ([], h))"

fun host_act ::
  "'l launch_library \<Rightarrow> 'l \<Rightarrow> bool \<Rightarrow> host_action \<Rightarrow> ChildProcessHost \<Rightarrow> (host_event list \<times> ChildProcessHost) outcome" where
  "host_act lib parent new_edk (A_Start cb) h =
     (if process_ready_callback h = None \<and> child_process h = None then silent (Inr (Host_Start new_edk cb h)) else None)"
| "host_act lib parent new_edk A_Launch h =
     (if launch_tasks h = 0 then None
      else silent (case DoLaunch lib parent (h\<lparr>launch_tasks := launch_tasks h - 1\<rparr>) of
                     Inl f \<Rightarrow> Inl f
                   | Inr (_, _, h') \<Rightarrow> Inr (h'\<lparr>launch_replies := Suc (launch_replies h')\<rparr>)))"
| "host_act lib parent new_edk A_Reply h =
     (if launch_replies h = 0 then None
      else silent (Inr (h\<lparr>launch_replies := launch_replies h - 1, main_tasks := main_tasks h @ [DidStart_task]\<rparr>)))"
| "host_act lib parent new_edk (A_Pipe pipe) h =
     (case pipe_requests h of
        [] \<Rightarrow> None
      | _ # rs \<Rightarrow> silent (OnParentMessagePipeCreated pipe (h\<lparr>pipe_requests := rs\<rparr>)))"
| "host_act lib parent new_edk A_Main h =
     (case main_tasks h of [] \<Rightarrow> None | t # ts \<Rightarrow> Some (run_task t (h\<lparr>main_tasks := ts\<rparr>)))"
| "host_act lib parent new_edk (A_StartApp request cb) h = silent (Host_StartApp request cb h)"
| "host_act lib parent new_edk (A_ExitNow exit_code) h = silent (Host_ExitNow exit_code h)"
| "host_act lib parent new_edk (A_Response result) h =
     (if host_controller h = None then None else Some (Inr (Host_AppCompleted result h)))"
| "host_act lib parent new_edk (A_Join exit) h = and_then (Host_Join exit h) (\<lambda>(_, h'). Some (Inr ([], h')))"

fun host_acts ::
  "'l launch_library \<Rightarrow> 'l \<Rightarrow> bool \<Rightarrow> host_action list \<Rightarrow> ChildProcessHost \<Rightarrow> (host_event list \<times> ChildProcessHost) outcome" where
  "host_acts lib parent new_edk [] h = Some (Inr ([], h))"
| "host_acts lib parent new_edk (a # as) h =
     and_then (host_act lib parent new_edk a h)
       (\<lambda>(evs, h'). and_then (host_acts lib parent new_edk as h') (\<lambda>(evs', h''). Some (Inr (evs @ evs', h''))))"


text \<open>What each action does when it succeeds.\<close>

lemma DoLaunch_frame:
  assumes "DoLaunch lib parent h = Inr (line, fds, h')"
  shows "host_controller h' = host_controller h" "pipe_holder h' = pipe_holder h" "closed_pipes h' = closed_pipes h"
    "main_tasks h' = main_tasks h" "launch_tasks h' = launch_tasks h" "launch_replies h' = launch_replies h" "pipe_requests h' = pipe_requests h"
    "process_ready_callback h' = process_ready_callback h" "start_child_process_event h'"
  using assms by (auto simp: DoLaunch_def Let_def split: sum.splits prod.splits option.splits)

lemma Main_OK:
  "host_act lib parent e A_Main h = Some (Inr (evs, h')) \<longleftrightarrow>
     (\<exists>t ts. main_tasks h = t # ts \<and> run_task t (h\<lparr>main_tasks := ts\<rparr>) = Inr (evs, h'))"
  by (auto split: list.splits)

lemma Launch_OK:
  "host_act lib parent e A_Launch h = Some (Inr (evs, h')) \<longleftrightarrow>
     (\<exists>line fds h1. launch_tasks h \<noteq> 0 \<and> DoLaunch lib parent (h\<lparr>launch_tasks := launch_tasks h - 1\<rparr>) = Inr (line, fds, h1) \<and>
        evs = [] \<and> h' = h1\<lparr>launch_replies := Suc (launch_replies h1)\<rparr>)"
  by (auto simp: silent_def split: sum.splits)

lemma Pipe_OK:
  "host_act lib parent e (A_Pipe p) h = Some (Inr (evs, h')) \<longleftrightarrow>
     (\<exists>r rs. pipe_requests h = r # rs \<and> OnParentMessagePipeCreated p (h\<lparr>pipe_requests := rs\<rparr>) = Inr h' \<and> evs = [])"
  by (auto simp: silent_def split: list.splits sum.splits)

lemma Join_OK:
  "host_act lib parent e (A_Join ex) h = Some (Inr (evs, h')) \<longleftrightarrow> (\<exists>rv. Host_Join ex h = Some (Inr (rv, h')) \<and> evs = [])"
  by (auto simp: and_then_OK)

lemma calls_OK:
  "host_act lib parent e A_Reply h = Some (Inr (evs, h')) \<longleftrightarrow> launch_replies h \<noteq> 0 \<and> evs = [] \<and>
     h' = h\<lparr>launch_replies := launch_replies h - 1, main_tasks := main_tasks h @ [DidStart_task]\<rparr>"
  "host_act lib parent e (A_Start cb) h = Some (Inr (evs, h')) \<longleftrightarrow>
     process_ready_callback h = None \<and> child_process h = None \<and> evs = [] \<and> h' = Host_Start e cb h"
  "host_act lib parent e (A_StartApp request cb) h = Some (Inr (evs, h')) \<longleftrightarrow> Host_StartApp request cb h = Inr h' \<and> evs = []"
  "host_act lib parent e (A_ExitNow c) h = Some (Inr (evs, h')) \<longleftrightarrow> Host_ExitNow c h = Inr h' \<and> evs = []"
  "host_act lib parent e (A_Response r) h = Some (Inr (evs, h')) \<longleftrightarrow> host_controller h \<noteq> None \<and> Host_AppCompleted r h = (evs, h')"
  by (auto simp: silent_def split: sum.splits)

lemmas act_OK = Main_OK Launch_OK Pipe_OK Join_OK calls_OK

declare host_act.simps [simp del]

lemma acts_Cons:
  assumes "host_acts lib parent e (a # as) h = Some (Inr (evs, h'))"
  obtains evs1 h1 evs2 where "host_act lib parent e a h = Some (Inr (evs1, h1))" "host_acts lib parent e as h1 = Some (Inr (evs2, h'))"
    "evs = evs1 @ evs2"
  using assms by (auto simp: and_then_OK)

lemma acts_invariant:
  assumes "host_acts lib parent e as h = Some (Inr (evs, h'))" "P h"
    and "\<And>a h evs h'. a \<in> set as \<Longrightarrow> host_act lib parent e a h = Some (Inr (evs, h')) \<Longrightarrow> P h \<Longrightarrow> P h' \<and> list_all Q evs"
  shows "P h' \<and> list_all Q evs"
  using assms
proof (induction as arbitrary: h evs)
  case (Cons a as)
  from Cons.prems(1) obtain evs1 h1 evs2 where 1: "host_act lib parent e a h = Some (Inr (evs1, h1))"
    and 2: "host_acts lib parent e as h1 = Some (Inr (evs2, h'))" "evs = evs1 @ evs2" by (rule acts_Cons)
  have p: "P h1 \<and> list_all Q evs1" using Cons.prems(3) [OF _ 1 Cons.prems(2)] by simp
  have "P h' \<and> list_all Q evs2" by (rule Cons.IH [OF 2(1)]) (use p Cons.prems(3) in auto)
  then show ?case using p 2(2) by simp
qed simp

lemma run_task_cases [consumes 1, case_names notify failed pipe]:
  assumes "run_task t h = Inr (evs, h')"
  obtains "t = DidStart_task" "child_process h \<noteq> None" "MaybeNotifyProcessReady h = Inr evs" "h' = h"
  | "t = DidStart_task" "child_process h = None" "Host_AppCompleted MOJO_RESULT_UNKNOWN h = (evs, h')"
  | ph where "t = OnMessagePipeCreated_task" "pipe_holder h = Some ph" "MaybeNotifyProcessReady h' = Inr evs"
      "h' = controller_Bind (held_pipe ph) (h\<lparr>pipe_holder := Some (ph\<lparr>held_pipe := None\<rparr>)\<rparr>)"
  using assms by (cases t) (auto simp: DidStart_def OnMessagePipeCreated_def PassPipe_def Let_def split: if_splits sum.splits option.splits)

lemmas call_defs = Host_Start_def OnParentMessagePipeCreated_def Host_StartApp_def Host_ExitNow_def Host_AppCompleted_def Host_Join_def


section \<open>Pipes\<close>

definition open_pipes :: "ChildProcessHost \<Rightarrow> MojoHandle list" where
  "open_pipes h = scoped (host_controller h) @ (case pipe_holder h of None \<Rightarrow> [] | Some ph \<Rightarrow> scoped (held_pipe ph))"

definition all_pipes :: "ChildProcessHost \<Rightarrow> MojoHandle multiset" where
  "all_pipes h = mset (open_pipes h) + mset (closed_pipes h)"

fun given :: "host_action \<Rightarrow> MojoHandle list" where
  "given (A_Pipe p) = scoped p"
| "given a = []"

lemmas pipe_defs = open_pipes_def all_pipes_def with_holder_def controller_Bind_def Reject_def SetPipe_def PassPipe_def

text \<open>No operation loses a pipe or closes it twice.\<close>

lemma act_pipes: "host_act lib parent e a h = Some (Inr (evs, h')) \<Longrightarrow> all_pipes h' = all_pipes h + mset (given a)"
  by (cases a) (auto simp: act_OK DoLaunch_frame call_defs pipe_defs Let_def elim!: run_task_cases split: if_splits sum.splits option.splits)

lemma acts_pipes:
  "host_acts lib parent e as h = Some (Inr (evs, h')) \<Longrightarrow> all_pipes h' = all_pipes h + mset (concat (map given as))"
proof (induction as arbitrary: h evs)
  case (Cons a as)
  from Cons.prems show ?case by (rule acts_Cons) (simp add: Cons.IH act_pipes)
qed simp

text \<open>A host that has been joined has no pipe and takes none.\<close>

definition joined :: "ChildProcessHost \<Rightarrow> bool" where
  "joined h \<longleftrightarrow> host_controller h = None \<and> (\<exists>ph. pipe_holder h = Some ph \<and> reject_pipe ph \<and> held_pipe ph = None)"

definition is_ready :: "host_event \<Rightarrow> bool" where
  "is_ready ev \<longleftrightarrow> (case ev of ProcessReady _ _ \<Rightarrow> True | _ \<Rightarrow> False)"

lemma is_ready_simps [simp]: "is_ready (ProcessReady cb pid)" "\<not> is_ready (AppComplete cb r)"
  by (simp_all add: is_ready_def)

lemma Join_joined: "Host_Join ex h = Some (Inr (rv, h')) \<Longrightarrow> joined h'"
  by (auto simp: Host_Join_def joined_def pipe_defs Let_def split: if_splits option.splits sum.splits)

lemma act_joined:
  "host_act lib parent e a h = Some (Inr (evs, h')) \<Longrightarrow> joined h \<Longrightarrow> joined h' \<and> list_all (\<lambda>ev. \<not> is_ready ev) evs"
  by (cases a) (auto simp: act_OK DoLaunch_frame call_defs joined_def MaybeNotifyProcessReady_def pipe_defs Let_def elim!: run_task_cases
      split: if_splits sum.splits option.splits)

lemma acts_joined:
  "host_acts lib parent e as h = Some (Inr (evs, h')) \<Longrightarrow> joined h \<Longrightarrow> joined h' \<and> list_all (\<lambda>ev. \<not> is_ready ev) evs"
  by (erule acts_invariant [where P = joined], assumption) (rule act_joined)

text \<open>
  C23: A host that has been joined leaves no pipe open.  Whatever schedule led to \<open>Join\<close> and whatever runs afterwards, a pipe
  that arrives late and a task that binds it included, every pipe that was ever handed to the host is closed,
  exactly once, and the owner is not told again that the process is ready.  This is what lets the child see that its host
  is gone, so that waiting for it ends.
\<close>

theorem joined_host_closes_pipes:
  assumes "host_acts lib parent e as h0 = Some (Inr (evs, h))" "Host_Join ex h = Some (Inr (rv, h1))"
    "host_acts lib parent e bs h1 = Some (Inr (evs2, h2))"
  shows "open_pipes h2 = [] \<and> mset (closed_pipes h2) = all_pipes h0 + mset (concat (map given as)) + mset (concat (map given bs)) \<and>
    list_all (\<lambda>ev. \<not> is_ready ev) evs2"
proof -
  have j: "joined h2" "list_all (\<lambda>ev. \<not> is_ready ev) evs2" using acts_joined [OF assms(3) Join_joined [OF assms(2)]] by simp_all
  have "host_act lib parent e (A_Join ex) h = Some (Inr ([], h1))" using assms(2) by (simp add: Join_OK)
  then have "all_pipes h1 = all_pipes h" using act_pipes by fastforce
  then have "all_pipes h2 = all_pipes h0 + mset (concat (map given as)) + mset (concat (map given bs))"
    using acts_pipes [OF assms(1)] acts_pipes [OF assms(3)] by simp
  moreover have "open_pipes h2 = []" using j(1) by (auto simp: joined_def open_pipes_def)
  ultimately show ?thesis using j(2) by (simp add: all_pipes_def)
qed

section \<open>The notice that the process is ready\<close>

definition ready_count :: "host_event list \<Rightarrow> nat" where
  "ready_count evs = length (filter is_ready evs)"

text \<open>
  How often the notice can still be given: once for each task that waits or will be posted.
\<close>

definition ready_budget :: "bool \<Rightarrow> ChildProcessHost \<Rightarrow> nat" where
  "ready_budget e h = length (main_tasks h) + launch_tasks h + launch_replies h + length (pipe_requests h) +
     (if process_ready_callback h = None then if e then 2 else 1 else 0)"

lemma task_ready:
  "run_task t h = Inr (evs, h') \<Longrightarrow> ready_count evs \<le> 1 \<and> main_tasks h' = main_tasks h \<and> launch_tasks h' = launch_tasks h \<and> launch_replies h' = launch_replies h \<and>
     pipe_requests h' = pipe_requests h \<and> process_ready_callback h' = process_ready_callback h"
  by (erule run_task_cases) (auto simp: MaybeNotifyProcessReady_def Host_AppCompleted_def controller_Bind_def ready_count_def
      split: if_splits option.splits)

lemma act_budget:
  "host_act lib parent e a h = Some (Inr (evs, h')) \<Longrightarrow> ready_count evs + ready_budget e h' \<le> ready_budget e h"
proof (cases a)
  case A_Main
  then show "host_act lib parent e a h = Some (Inr (evs, h')) \<Longrightarrow> ?thesis"
    using task_ready by (fastforce simp: Main_OK ready_budget_def)
next
  case A_Launch
  then show "host_act lib parent e a h = Some (Inr (evs, h')) \<Longrightarrow> ?thesis"
    by (auto simp: Launch_OK ready_budget_def DoLaunch_frame ready_count_def)
next
  case (A_Start cb)
  then show "host_act lib parent e a h = Some (Inr (evs, h')) \<Longrightarrow> ?thesis"
    by (simp add: calls_OK Host_Start_def ready_budget_def ready_count_def)
next
  case (A_Join ex)
  then show "host_act lib parent e a h = Some (Inr (evs, h')) \<Longrightarrow> ?thesis"
    by (auto simp: Join_OK Host_Join_def pipe_defs Let_def ready_budget_def ready_count_def split: if_split_asm option.split_asm)
qed (auto simp: act_OK OnParentMessagePipeCreated_def Host_StartApp_def Host_ExitNow_def Host_AppCompleted_def pipe_defs Let_def ready_budget_def
    ready_count_def split: if_split_asm sum.split_asm option.split_asm)

lemma ready_count_append [simp]: "ready_count (xs @ ys) = ready_count xs + ready_count ys" "ready_count [] = 0"
  by (simp_all add: ready_count_def)

text \<open>A notice that is due is given, or the task that gives it waits.\<close>

definition ready_due :: "nat \<Rightarrow> ChildProcessHost \<Rightarrow> bool" where
  "ready_due n h \<longleftrightarrow> (host_controller h \<noteq> None \<and> child_process h \<noteq> None \<longrightarrow> 1 \<le> n \<or> DidStart_task \<in> set (main_tasks h) \<or> launch_replies h \<noteq> 0)"

lemma task_due:
  "run_task t (h\<lparr>main_tasks := ts\<rparr>) = Inr (evs, h') \<Longrightarrow> main_tasks h = t # ts \<Longrightarrow> ready_due n h \<Longrightarrow> ready_due (n + ready_count evs) h'"
  by (erule run_task_cases) (auto simp: MaybeNotifyProcessReady_def Host_AppCompleted_def controller_Bind_def ready_due_def
      ready_count_def split: if_splits option.splits)

lemma act_due:
  "host_act lib parent e a h = Some (Inr (evs, h')) \<Longrightarrow> ready_due n h \<Longrightarrow> ready_due (n + ready_count evs) h'"
  by (cases a) (auto simp: act_OK call_defs pipe_defs Let_def ready_due_def [of _ "h'"] ready_count_def dest!: task_due
      split: if_splits sum.splits option.splits, auto simp: ready_due_def)

lemma acts_ready:
  "host_acts lib parent e as h = Some (Inr (evs, h')) \<Longrightarrow> ready_due n h \<Longrightarrow>
     ready_due (n + ready_count evs) h' \<and> ready_count evs + ready_budget e h' \<le> ready_budget e h"
proof (induction as arbitrary: h evs n)
  case (Cons a as)
  from Cons.prems(1) obtain evs1 h1 evs2 where 1: "host_act lib parent e a h = Some (Inr (evs1, h1))"
    and 2: "host_acts lib parent e as h1 = Some (Inr (evs2, h'))" "evs = evs1 @ evs2" by (rule acts_Cons)
  from Cons.IH [OF 2(1) act_due [OF 1 Cons.prems(2)]] act_budget [OF 1] 2(2) show ?case by (simp add: add.assoc)
qed simp

lemma new_host_ready:
  "ChildProcessHost_new e sandboxed path pair token pipe = Inr h \<Longrightarrow> ready_due 0 h \<and> ready_budget e h = (if e then 2 else 1)"
  by (auto simp: ChildProcessHost_new_def host_base_def PipeHolder_new_def OnMessagePipeCreated_def MaybeNotifyProcessReady_def pipe_defs ready_due_def ready_budget_def
      Let_def split: if_splits)

text \<open>
  The owner of a host learns that the process is ready: once the process has been launched, the pipe is bound and no task
  waits, the notice has been given, in whatever order the two happened.  It is given at most once with the old
  system layer; with the new one a second notice is possible.
\<close>

theorem process_ready_notice:
  assumes "ChildProcessHost_new e sandboxed path pair token pipe = Inr h0" "host_acts lib parent e as h0 = Some (Inr (evs, h))"
  shows "ready_count evs \<le> (if e then 2 else 1) \<and>
    (host_controller h \<noteq> None \<and> child_process h \<noteq> None \<and> main_tasks h = [] \<and> launch_replies h = 0 \<longrightarrow> 1 \<le> ready_count evs)"
  using acts_ready [OF assms(2), of 0] new_host_ready [OF assms(1)] by (auto simp: ready_due_def)

section \<open>Waiting in \<open>Join\<close>\<close>

lemma act_event:
  "host_act lib parent e a h = Some (Inr (evs, h')) \<Longrightarrow> a = A_Launch \<or> start_child_process_event h \<Longrightarrow> \<forall>ex. a \<noteq> A_Join ex \<Longrightarrow>
     start_child_process_event h'"
  by (cases a) (auto simp: act_OK DoLaunch_frame call_defs pipe_defs Let_def elim!: run_task_cases split: if_splits sum.splits option.splits)

lemma acts_event:
  "host_acts lib parent e as h = Some (Inr (evs, h')) \<Longrightarrow> A_Launch \<in> set as \<or> start_child_process_event h \<Longrightarrow> \<forall>ex. A_Join ex \<notin> set as \<Longrightarrow>
     start_child_process_event h'"
proof (induction as arbitrary: h evs)
  case (Cons a as)
  from Cons.prems(1) obtain evs1 h1 evs2 where 1: "host_act lib parent e a h = Some (Inr (evs1, h1))"
    and 2: "host_acts lib parent e as h1 = Some (Inr (evs2, h'))" by (rule acts_Cons)
  show ?case using Cons.IH [OF 2] Cons.prems(2,3) act_event [OF 1] by auto
qed simp

definition has_holder :: "ChildProcessHost \<Rightarrow> bool" where
  "has_holder h \<longleftrightarrow> pipe_holder h \<noteq> None"

lemma act_holder: "host_act lib parent e a h = Some (Inr (evs, h')) \<Longrightarrow> has_holder h \<Longrightarrow> has_holder h'"
  by (cases a) (auto simp: act_OK DoLaunch_frame call_defs pipe_defs has_holder_def Let_def elim!: run_task_cases split: if_splits sum.splits option.splits)

lemma acts_holder: "host_acts lib parent e as h = Some (Inr (evs, h')) \<Longrightarrow> has_holder h \<Longrightarrow> has_holder h'"
  by (drule acts_invariant [where P = has_holder and Q = "\<lambda>_. True"]) (auto simp: list_all_iff dest: act_holder)

text \<open>
  \<open>Join\<close> returns once the launch has been tried: after any schedule in which the launching task ran, successfully or not,
  and the host was not joined before, \<open>Join\<close> does not block and returns the exit code.
\<close>

theorem Join_returns:
  assumes "ChildProcessHost_new e sandboxed path pair token pipe = Inr h0" "host_acts lib parent e as h0 = Some (Inr (evs, h))"
    "A_Launch \<in> set as" "\<forall>ex. A_Join ex \<notin> set as"
  shows "\<exists>h'. Host_Join (Some code) h = Some (Inr (code, h'))"
proof -
  have "has_holder h0" using assms(1)
    by (auto simp: ChildProcessHost_new_def host_base_def OnMessagePipeCreated_def pipe_defs has_holder_def Let_def split: if_splits sum.splits)
  then have "has_holder h" using acts_holder [OF assms(2)] by blast
  moreover have "start_child_process_event h" using acts_event [OF assms(2)] assms(3,4) by blast
  ultimately show ?thesis by (auto simp: Host_Join_def has_holder_def pipe_defs Let_def)
qed

text \<open>A host that is made for an existing channel is never started, so nothing ever sets the event it waits for.\<close>

definition never_started :: "ChildProcessHost \<Rightarrow> bool" where
  "never_started h \<longleftrightarrow> host_controller h \<noteq> None \<and> \<not> start_child_process_event h \<and> launch_tasks h = 0 \<and> launch_replies h = 0 \<and> main_tasks h = [] \<and> pipe_requests h = []"

lemma never_started_blocks: "never_started h \<Longrightarrow> Host_Join ex h = None"
  by (simp add: never_started_def Host_Join_def)

lemma act_never_started:
  "host_act lib parent e a h = Some (Inr (evs, h')) \<Longrightarrow> never_started h \<Longrightarrow> \<forall>cb. a \<noteq> A_Start cb \<Longrightarrow> never_started h'"
  by (cases a) (auto simp: act_OK Host_StartApp_def Host_ExitNow_def Host_AppCompleted_def never_started_def Host_Join_def
      split: if_splits option.splits)

lemma acts_never_started:
  assumes "host_acts lib parent e as h = Some (Inr (evs, h'))" "never_started h" "\<forall>cb. A_Start cb \<notin> set as"
  shows "never_started h'"
proof -
  have "never_started h' \<and> list_all (\<lambda>_. True) evs"
    by (rule acts_invariant [OF assms(1), where P = never_started]) (use assms(2,3) in \<open>auto simp: list_all_iff dest: act_never_started\<close>)
  then show ?thesis ..
qed

section \<open>The runner\<close>

text \<open>
  \<open>bound_request\<close> is the request that \<open>Start\<close> binds into its callback with \<open>base::Passed\<close>: running the callback takes it, and running
  it again fails a \<open>CHECK\<close> of the base library.  \<open>runner_events\<close> are the callbacks of the owner that were run.
\<close>

datatype runner_event = PidAvailable closure ProcessId | AppCompleted_run closure

record OutOfProcessNativeRunner =
  runner_app_path :: string
  app_completed_callback :: "closure option"
  child_process_host :: "ChildProcessHost option"
  bound_request :: "nat option"
  pid_available_callback :: closure
  runner_events :: "runner_event list"

definition Runner_new :: OutOfProcessNativeRunner where
  "Runner_new = \<lparr>runner_app_path = [], app_completed_callback = None, child_process_host = None, bound_request = None,
     pid_available_callback = 0, runner_events = []\<rparr>"

text \<open>The callbacks that the runner binds: \<open>OnProcessLaunched\<close> and \<open>AppCompleted\<close>.\<close>

definition cb_OnProcessLaunched :: closure where "cb_OnProcessLaunched = 0"
definition cb_AppCompleted :: closure where "cb_AppCompleted = 1"

definition Runner_Start ::
  "bool \<Rightarrow> string \<Rightarrow> bool \<Rightarrow> nat \<Rightarrow> closure \<Rightarrow> closure \<Rightarrow> PlatformChannelPair \<Rightarrow> string \<Rightarrow> MojoHandle option \<Rightarrow> OutOfProcessNativeRunner \<Rightarrow>
     fault + OutOfProcessNativeRunner" where
  "Runner_Start new_edk path sandboxed request pid_cb completed_cb pair token pipe r =
     (case ChildProcessHost_new new_edk sandboxed path pair token pipe of
        Inl f \<Rightarrow> Inl f
      | Inr h \<Rightarrow> Inr (r\<lparr>runner_app_path := path, app_completed_callback := Some completed_cb,
                       child_process_host := Some (Host_Start new_edk cb_OnProcessLaunched h),
                       bound_request := Some request, pid_available_callback := pid_cb\<rparr>))"

definition Runner_InitHost :: "MojoHandle option \<Rightarrow> nat \<Rightarrow> OutOfProcessNativeRunner \<Rightarrow> fault + OutOfProcessNativeRunner" where
  "Runner_InitHost channel request r =
     (case ChildProcessHost_channel channel of
        Inl f \<Rightarrow> Inl f
      | Inr h \<Rightarrow> (case Host_StartApp request cb_AppCompleted h of Inl f \<Rightarrow> Inl f | Inr h' \<Rightarrow> Inr (r\<lparr>child_process_host := Some h'\<rparr>)))"

definition Runner_AppCompleted :: "int option \<Rightarrow> OutOfProcessNativeRunner \<Rightarrow> OutOfProcessNativeRunner outcome" where
  "Runner_AppCompleted exit r =
     and_then (case child_process_host r of
                 None \<Rightarrow> Some (Inr r)
               | Some h \<Rightarrow> and_then (Host_Join exit h) (\<lambda>(_, h').
                   case ChildProcessHost_destroy h' of Inl f \<Rightarrow> Some (Inl f) | Inr _ \<Rightarrow> Some (Inr (r\<lparr>child_process_host := None\<rparr>))))
       (\<lambda>r'. case app_completed_callback r' of
               None \<Rightarrow> Some (Inl NullPointer)
             | Some cb \<Rightarrow> Some (Inr (r'\<lparr>app_completed_callback := None, runner_events := runner_events r' @ [AppCompleted_run cb]\<rparr>)))"

definition Runner_OnProcessLaunched :: "ProcessId \<Rightarrow> OutOfProcessNativeRunner \<Rightarrow> fault + OutOfProcessNativeRunner" where
  "Runner_OnProcessLaunched pid r =
     (case bound_request r of
        None \<Rightarrow> Inl CheckFailure
      | Some request \<Rightarrow>
          (case child_process_host r of
             None \<Rightarrow> Inl NullPointer
           | Some h \<Rightarrow>
               (case Host_StartApp request cb_AppCompleted h of
                  Inl f \<Rightarrow> Inl f
                | Inr h' \<Rightarrow> Inr (r\<lparr>child_process_host := Some h', bound_request := None,
                                 runner_events := runner_events r @ [PidAvailable (pid_available_callback r) pid]\<rparr>))))"

definition Runner_destroy :: "int option \<Rightarrow> OutOfProcessNativeRunner \<Rightarrow> unit outcome" where
  "Runner_destroy exit r =
     (case child_process_host r of
        None \<Rightarrow> Some (Inr ())
      | Some h \<Rightarrow>
          and_then (if runner_app_path r \<noteq> [] then and_then (Host_Join exit h) (\<lambda>(_, h'). Some (Inr h')) else Some (Inr h))
            (\<lambda>h'. Some (ChildProcessHost_destroy h')))"

text \<open>An action on the host of a runner, and the callbacks that it runs.\<close>

fun run_events :: "int option \<Rightarrow> host_event list \<Rightarrow> OutOfProcessNativeRunner \<Rightarrow> OutOfProcessNativeRunner outcome" where
  "run_events exit [] r = Some (Inr r)"
| "run_events exit (ProcessReady cb pid # evs) r = and_then (Some (Runner_OnProcessLaunched pid r)) (run_events exit evs)"
| "run_events exit (AppComplete cb res # evs) r = and_then (Runner_AppCompleted exit r) (run_events exit evs)"

fun runner_acts ::
  "'l launch_library \<Rightarrow> 'l \<Rightarrow> bool \<Rightarrow> int option \<Rightarrow> host_action list \<Rightarrow> OutOfProcessNativeRunner \<Rightarrow> OutOfProcessNativeRunner outcome" where
  "runner_acts lib parent new_edk exit [] r = Some (Inr r)"
| "runner_acts lib parent new_edk exit (a # as) r =
     (case child_process_host r of
        None \<Rightarrow> None
      | Some h \<Rightarrow>
          and_then (host_act lib parent new_edk a h)
            (\<lambda>(evs, h'). and_then (run_events exit evs (r\<lparr>child_process_host := Some h'\<rparr>)) (runner_acts lib parent new_edk exit as)))"


lemma started_runner:
  assumes "Runner_Start True path sandboxed request pid_cb completed_cb pair token pipe Runner_new = Inr r"
  shows "r = Runner_new\<lparr>runner_app_path := path, app_completed_callback := Some completed_cb,
           child_process_host := Some (Host_Start True cb_OnProcessLaunched
             ((host_base sandboxed path)\<lparr>pipe_holder := Some PipeHolder_new, node_channel := Some pair, primordial_pipe_token := token\<rparr>)),
           bound_request := Some request, pid_available_callback := pid_cb\<rparr>"
  using assms by (simp add: Runner_Start_def ChildProcessHost_new_def Let_def)

lemma DoLaunch_succeeds:
  assumes "node_channel h = Some pair" "client_handle pair = Some fd" "host_handle_passing_info h = []"
    and "\<And>line fds. LaunchProcess lib line fds = Some pid" "\<And>line fds. Sandbox_LaunchProcess lib line fds = Some pid"
  shows "\<exists>line fds h'. DoLaunch lib parent h = Inr (line, fds, h') \<and> child_process h' = Some pid \<and> host_app_path h' = host_app_path h \<and>
    on_app_complete h' = on_app_complete h \<and> controller_calls h' = controller_calls h"
proof -
  obtain line info where "child_command_line lib parent h = Inr (line, info)"
    using assms(1-3)
    by (simp add: child_command_line_def PrepareToPassClientHandleToChildProcess_def PrepareToPassClientHandleToChildProcessAsString_def Let_def
        split: sum.splits prod.splits)
  then show ?thesis using assms(1,4,5) by (simp add: DoLaunch_def Let_def split: prod.splits)
qed


text \<open>A runner whose process has been launched, while neither the reply nor the pipe has arrived.\<close>

definition launched_host :: "ProcessId \<Rightarrow> string \<Rightarrow> string \<Rightarrow> ChildProcessHost \<Rightarrow> bool" where
  "launched_host pid path token h \<longleftrightarrow> child_process h = Some pid \<and> host_controller h = None \<and> pipe_holder h = Some PipeHolder_new \<and>
     main_tasks h = [] \<and> launch_replies h = 1 \<and> pipe_requests h = [token] \<and> process_ready_callback h = Some cb_OnProcessLaunched \<and>
     start_child_process_event h \<and> host_app_path h = path \<and> on_app_complete h = None \<and> controller_calls h = []"

lemma launch_started_host:
  assumes "client_handle pair = Some fd" "\<And>line fds. LaunchProcess lib line fds = Some pid" "\<And>line fds. Sandbox_LaunchProcess lib line fds = Some pid"
    and h_def: "h = Host_Start True cb_OnProcessLaunched
             ((host_base sandboxed path)\<lparr>pipe_holder := Some PipeHolder_new, node_channel := Some pair, primordial_pipe_token := token\<rparr>)"
  shows "\<exists>h1. host_act lib parent True A_Launch h = Some (Inr ([], h1)) \<and> launched_host pid path token h1"
proof -
  let ?h = "h\<lparr>launch_tasks := launch_tasks h - 1\<rparr>"
  have "node_channel ?h = Some pair" "host_handle_passing_info ?h = []" by (simp_all add: h_def Host_Start_def host_base_def)
  then obtain line fds h1 where h1: "DoLaunch lib parent ?h = Inr (line, fds, h1)" "child_process h1 = Some pid"
    "host_app_path h1 = host_app_path ?h" "on_app_complete h1 = on_app_complete ?h" "controller_calls h1 = controller_calls ?h"
    using DoLaunch_succeeds [OF _ assms(1), of ?h lib pid parent] assms(2,3) by blast
  have "host_act lib parent True A_Launch h = Some (Inr ([], h1\<lparr>launch_replies := Suc (launch_replies h1)\<rparr>))"
    unfolding Launch_OK using h1(1) by (auto simp: h_def Host_Start_def)
  moreover have "launched_host pid path token (h1\<lparr>launch_replies := Suc (launch_replies h1)\<rparr>)"
    using h1(2-) DoLaunch_frame [OF h1(1)] by (simp add: launched_host_def h_def Host_Start_def host_base_def)
  ultimately show ?thesis by blast
qed

lemmas host_eval = host_act.simps(3-) silent_def OnParentMessagePipeCreated_def OnMessagePipeCreated_def MaybeNotifyProcessReady_def
  DidStart_def pipe_defs Runner_OnProcessLaunched_def Host_StartApp_def Host_AppCompleted_def Runner_AppCompleted_def
  Host_Join_def ChildProcessHost_destroy_def Runner_new_def



text \<open>
  A runner that was given a channel to an existing process never completes: its host was not started, so the event that
  \<open>Join\<close> waits for is never set, whatever calls and responses come, and the response that the application has completed makes
  the runner wait for ever.
\<close>

theorem channel_host_never_joins:
  assumes "Runner_InitHost (Some channel) request Runner_new = Inr r" "child_process_host r = Some h"
    and "host_acts lib parent e as h = Some (Inr (evs, h'))" "\<forall>cb. A_Start cb \<notin> set as"
  shows "Host_Join exit h' = None \<and> runner_acts lib parent e exit [A_Response result] r = None"
proof -
  have h: "h = (host_base False [])\<lparr>host_controller := Some channel, on_app_complete := Some cb_AppCompleted, controller_calls := [Call_StartApp request]\<rparr>"
    using assms(1,2) by (auto simp: Runner_InitHost_def ChildProcessHost_channel_def controller_Bind_def Host_StartApp_def Runner_new_def host_base_def)
  then have n: "never_started h" by (simp add: never_started_def host_base_def)
  then have "Host_Join exit h' = None" using never_started_blocks acts_never_started [OF assms(3) n assms(4)] by blast
  moreover have "never_started (h\<lparr>on_app_complete := None\<rparr>)" using n by (simp add: never_started_def)
  then have "runner_acts lib parent e exit [A_Response result] r = None"
    using h assms(2) never_started_blocks by (simp add: host_act.simps Host_AppCompleted_def Runner_AppCompleted_def host_base_def)
  ultimately show ?thesis by simp
qed

text \<open>A host that is joined before its pipe has arrived does not wait for the launch, which is still to run on it.\<close>

lemma Join_before_launch:
  assumes "ChildProcessHost_new True sandboxed path pair token pipe = Inr h"
  shows "\<exists>h'. host_acts lib parent True [A_Start cb, A_Join ex] h = Some (Inr ([], h')) \<and> launch_tasks h' = 1"
  using assms by (auto simp: ChildProcessHost_new_def host_base_def host_act.simps silent_def Host_Start_def Host_Join_def pipe_defs PipeHolder_new_def Let_def)

text \<open>The error handle is never inherited on Windows: the output handle is compared with itself.\<close>

lemma stderr_not_inherited: "win_inherited_handles is_char out err info = (if is_char out then info else info @ [out])"
  by (simp add: win_inherited_handles_def)

section \<open>An example launch\<close>

definition example_launch :: "(string \<times> string) list launch_library" where
  "example_launch = base_library.extend example_library
     \<lparr>GetProgram = (\<lambda>_. ''shell''), CommandLine_new = (\<lambda>p. []), AppendArguments = (\<lambda>l _ l'. l' @ l),
      AppendSwitchPath = (\<lambda>s v l. l @ [(s, v)]), AppendSwitch = (\<lambda>s l. l @ [(s, [])]), HasSwitch = (\<lambda>s l. s \<in> fst ` set l),
      GetSwitchValuePath = (\<lambda>s l. case map_of (rev l) s of None \<Rightarrow> [] | Some v \<Rightarrow> v),
      MatchesExtension = (\<lambda>p ext. drop (length p - length ext) p = ext),
      LaunchProcess = (\<lambda>_ _. Some 42), Sandbox_LaunchProcess = (\<lambda>_ _. Some 42),
      pair_ChildProcessLaunched = (\<lambda>p. p\<lparr>client_handle := None\<rparr>),
      pair_PassServerHandle = (\<lambda>p. (server_handle p, p\<lparr>server_handle := None\<rparr>))\<rparr>"

definition example_socket :: PlatformChannelPair where
  "example_socket = \<lparr>server_handle = Some 8, client_handle = Some 9\<rparr>"

definition example_host :: ChildProcessHost where
  "example_host = (host_base False ''app.mojo'')\<lparr>pipe_holder := Some PipeHolder_new, node_channel := Some example_socket, primordial_pipe_token := ''T''\<rparr>"

lemma example_host_new: "ChildProcessHost_new True False ''app.mojo'' example_socket ''T'' None = Inr example_host"
  by (simp add: ChildProcessHost_new_def example_host_def Let_def)

lemma example_launches: "LaunchProcess example_launch l f = Some 42" "Sandbox_LaunchProcess example_launch l f = Some 42"
  by (simp_all add: example_launch_def base_library.defs)

lemma example_started:
  "host_act example_launch [] True (A_Start cb) example_host = Some (Inr ([], Host_Start True cb example_host))"
  unfolding calls_OK by (simp add: example_host_def host_base_def)

lemma example_launched:
  "\<exists>h1. host_act example_launch [] True A_Launch (Host_Start True cb_OnProcessLaunched example_host) = Some (Inr ([], h1)) \<and>
     launched_host 42 ''app.mojo'' ''T'' h1"
  by (rule launch_started_host) (simp_all add: example_launches example_host_def example_socket_def)

theorem joined_host_closes_pipes_witness:
  "\<exists>h h1 h2 evs2. host_acts example_launch [] True [A_Start cb_OnProcessLaunched, A_Launch] example_host = Some (Inr ([], h)) \<and>
     Host_Join (Some 0) h = Some (Inr (0, h1)) \<and>
     host_acts example_launch [] True [A_Pipe (Some 7), A_Main] h1 = Some (Inr (evs2, h2)) \<and>
     open_pipes h2 = [] \<and> mset (closed_pipes h2) = {#7#}"
proof -
  obtain h where h: "host_act example_launch [] True A_Launch (Host_Start True cb_OnProcessLaunched example_host) = Some (Inr ([], h))"
    "launched_host 42 ''app.mojo'' ''T'' h" using example_launched by blast
  with example_started have 1: "host_acts example_launch [] True [A_Start cb_OnProcessLaunched, A_Launch] example_host = Some (Inr ([], h))"
    using h(1) by simp
  obtain h1 where 2: "Host_Join (Some 0) h = Some (Inr (0, h1))" "main_tasks h1 = []" "pipe_requests h1 = [''T'']" "pipe_holder h1 = Some \<lparr>reject_pipe = True, held_pipe = None\<rparr>"
    "host_controller h1 = None"
    using h(2) by (simp add: launched_host_def Host_Join_def pipe_defs PipeHolder_new_def)
  obtain evs2 h2 where 3: "host_acts example_launch [] True [A_Pipe (Some 7), A_Main] h1 = Some (Inr (evs2, h2))"
    using 2 by (simp add: host_eval)
  have "all_pipes example_host = {#}" by (simp add: pipe_defs example_host_def host_base_def PipeHolder_new_def)
  then show ?thesis using joined_host_closes_pipes [OF 1 2(1) 3] 1 2(1) 3 by simp
qed


theorem process_ready_notice_witness:
  "\<exists>evs h. host_acts example_launch [] True [A_Start cb_OnProcessLaunched, A_Launch, A_Pipe (Some 7), A_Reply, A_Main, A_Main] example_host =
     Some (Inr (evs, h)) \<and> ready_count evs = 2"
proof -
  let ?as = "[A_Start cb_OnProcessLaunched, A_Launch, A_Pipe (Some 7), A_Reply, A_Main, A_Main]"
  obtain h where h: "host_act example_launch [] True A_Launch (Host_Start True cb_OnProcessLaunched example_host) = Some (Inr ([], h))"
    "launched_host 42 ''app.mojo'' ''T'' h" using example_launched by blast
  with example_started obtain evs h' where e: "host_acts example_launch [] True ?as example_host = Some (Inr (evs, h'))" "2 \<le> ready_count evs"
    using h(1) h(2) [unfolded launched_host_def PipeHolder_new_def] by (simp add: host_eval ready_count_def)
  then show ?thesis using process_ready_notice [OF example_host_new e(1)] by auto
qed

theorem Join_returns_witness:
  "\<exists>h h'. host_acts example_launch [] True [A_Start cb_OnProcessLaunched, A_Launch] example_host = Some (Inr ([], h)) \<and>
     Host_Join (Some 3) h = Some (Inr (3, h'))"
proof -
  obtain h where h: "host_acts example_launch [] True [A_Start cb_OnProcessLaunched, A_Launch] example_host = Some (Inr ([], h))"
    using example_launched example_started by fastforce
  then show ?thesis using Join_returns [OF example_host_new h] by simp
qed

theorem channel_host_never_joins_witness:
  "\<exists>r h. Runner_InitHost (Some 7) 5 Runner_new = Inr r \<and> child_process_host r = Some h \<and>
     Host_Join (Some 0) h = None \<and> runner_acts example_launch [] True (Some 0) [A_Response MOJO_RESULT_OK] r = None"
proof -
  obtain r h where r: "Runner_InitHost (Some 7) 5 Runner_new = Inr r" "child_process_host r = Some h"
    by (simp add: Runner_InitHost_def ChildProcessHost_channel_def Host_StartApp_def controller_Bind_def)
  have "host_acts example_launch [] True [] h = Some (Inr ([], h))" by simp
  then have "Host_Join (Some 0) h = None \<and> runner_acts example_launch [] True (Some 0) [A_Response MOJO_RESULT_OK] r = None"
    by (rule channel_host_never_joins [OF r]) simp
  then show ?thesis using r by blast
qed

end
