(* ===== verification/Child_Process.thy ===== *)
theory Child_Process
  imports Process_Host Schedule
begin

text \<open>
  The child's side (\<open>shell/runner/host/child_process.cc\<close>): the main thread of the child blocks until its controller tells it
  which application to run, runs it, and shuts the controller down.  The controller lives on a thread of its own;
  the model runs one task, message or step of the main thread at a time.
\<close>

section \<open>Blocking a thread\<close>

text \<open>
  A \<open>Blocker\<close> lives on the stack of the thread that it blocks, an \<open>Unblocker\<close> is a pointer to it that may be copied.  The event is
  not reset by a wait.  The closures that are run by the thread are of any type here.
\<close>

datatype blocker_ref = Main_blocker | Shutdown_blocker

record 'c Blocker =
  blocker_event :: bool
  run_after :: "'c option"

definition Blocker_new :: "'c Blocker" where
  "Blocker_new = \<lparr>blocker_event = False, run_after = None\<rparr>"

type_synonym 'c blockers = "blocker_ref \<Rightarrow> 'c Blocker option"

type_synonym Unblocker = "blocker_ref option"

definition Unblock :: "'c option \<Rightarrow> Unblocker \<Rightarrow> 'c blockers \<Rightarrow> fault + Unblocker \<times> 'c blockers" where
  "Unblock closure u bs =
     (case u of
        None \<Rightarrow> Inl NullPointer
      | Some b \<Rightarrow>
          (case bs b of
             None \<Rightarrow> Inl NullPointer
           | Some bl \<Rightarrow> Inr (None, bs(b \<mapsto> bl\<lparr>run_after := closure, blocker_event := True\<rparr>))))"

text \<open>\<open>Block\<close>: \<open>None\<close> while the thread waits, then the closure to run, if there is one.\<close>

definition Block :: "blocker_ref \<Rightarrow> 'c blockers \<Rightarrow> 'c option option" where
  "Block b bs = (case bs b of None \<Rightarrow> None | Some bl \<Rightarrow> if blocker_event bl then Some (run_after bl) else None)"

section \<open>The state of the child\<close>

datatype main_closure = StartAppOnMainThread "nat option" nat

record ChildControllerImpl =
  impl_app_library :: "nat option"
  impl_unblocker :: Unblocker
  impl_on_app_complete :: "closure option"
  impl_binding :: "MojoHandle option"

datatype controller_task =
    InitializeHostMessagePipe_task int
  | Init_task "MojoHandle option" Unblocker
  | ShutdownOnControllerThread_task

datatype main_state = Blocked | Running_app | Shutting_down | Returned int

text \<open>
  \<open>AppContext\<close> and the local variables of \<open>ChildProcessMain\<close>.  The last fields record the world: requests to the embedder for a
  pipe and for shutting down, the applications that were run, the responses sent to the host and the exit code.
\<close>

record ChildProcess =
  app_library :: "nat option"
  child_sandboxed :: bool
  child_blockers :: "main_closure blockers"
  main_state :: main_state
  controller_tasks :: "controller_task list"
  app_controller :: "ChildControllerImpl option"
  shutdown_unblocker :: Unblocker
  parent_pipe_handles :: "int list"
  child_pipe_requests :: "string list"
  shutdown_requests :: nat
  apps_run :: "(nat option \<times> nat) list"
  responses :: "(closure \<times> MojoResult) list"
  exit_code :: "int option"

section \<open>Operations\<close>

text \<open>
  \<open>ChildProcessMain\<close> up to the point where it blocks.  \<open>read_handle\<close> is the old embedder's \<open>PassClientHandleFromParentProcess\<close> and
  \<open>load\<close> is \<open>LoadNativeApplication\<close>, which runs before the sandbox is entered.
\<close>

definition ChildProcessMain ::
  "'l launch_library \<Rightarrow> ('l \<Rightarrow> int option) \<Rightarrow> (string \<Rightarrow> nat option) \<Rightarrow> 'l \<Rightarrow> fault + ChildProcess" where
  "ChildProcessMain lib read_handle load line =
     (let path = GetSwitchValuePath lib kChildProcess line;
          library = (if path \<noteq> [] then load path else None)
      in case read_handle line of
           None \<Rightarrow> Inl CheckFailure
         | Some platform_channel \<Rightarrow>
             Inr \<lparr>app_library = library, child_sandboxed = HasSwitch lib kEnableSandbox line, child_blockers = (\<lambda>_. None)(Main_blocker \<mapsto> Blocker_new), main_state = Blocked,
                  controller_tasks = [InitializeHostMessagePipe_task platform_channel], app_controller = None,
                  shutdown_unblocker = None, parent_pipe_handles = [], child_pipe_requests = [], shutdown_requests = 0,
                  apps_run = [], responses = [], exit_code = None\<rparr>)"

definition OnHostMessagePipeCreated :: "MojoHandle option \<Rightarrow> ChildProcess \<Rightarrow> ChildProcess" where
  "OnHostMessagePipeCreated pipe c = c\<lparr>controller_tasks := controller_tasks c @ [Init_task pipe (Some Main_blocker)]\<rparr>"

text \<open>\<open>CreateChannel\<close> of the old system layer returns the pipe \<open>channel platform_channel\<close>.\<close>

definition InitializeHostMessagePipe ::
  "'l launch_library \<Rightarrow> 'l \<Rightarrow> (int \<Rightarrow> MojoHandle option) \<Rightarrow> int \<Rightarrow> ChildProcess \<Rightarrow> ChildProcess" where
  "InitializeHostMessagePipe lib line channel platform_channel c =
     (if HasSwitch lib ''use-new-edk'' line
      then c\<lparr>parent_pipe_handles := parent_pipe_handles c @ [platform_channel],
             child_pipe_requests := child_pipe_requests c @ [GetSwitchValueASCII lib kPrimordialPipeToken line]\<rparr>
      else OnHostMessagePipeCreated (channel platform_channel) c)"

definition ChildController_Init :: "MojoHandle option \<Rightarrow> Unblocker \<Rightarrow> ChildProcess \<Rightarrow> ChildProcess" where
  "ChildController_Init host_message_pipe unblocker c =
     c\<lparr>app_controller := Some \<lparr>impl_app_library = app_library c, impl_unblocker = unblocker, impl_on_app_complete = None,
                               impl_binding = host_message_pipe\<rparr>\<rparr>"

definition OnConnectionError :: "ChildProcess \<Rightarrow> ChildProcess" where
  "OnConnectionError c = c\<lparr>exit_code := Some 1\<rparr>"

definition Child_StartApp :: "nat \<Rightarrow> closure \<Rightarrow> ChildControllerImpl \<Rightarrow> ChildProcess \<Rightarrow> fault + ChildProcess" where
  "Child_StartApp application_request callback impl c =
     (case Unblock (Some (StartAppOnMainThread (impl_app_library impl) application_request)) (impl_unblocker impl) (child_blockers c) of
        Inl f \<Rightarrow> Inl f
      | Inr (u, bs) \<Rightarrow>
          Inr (c\<lparr>app_controller := Some (impl\<lparr>impl_on_app_complete := Some callback, impl_unblocker := u\<rparr>), child_blockers := bs\<rparr>))"

definition Child_ExitNow :: "int \<Rightarrow> ChildProcess \<Rightarrow> ChildProcess" where
  "Child_ExitNow code c = c\<lparr>exit_code := Some code\<rparr>"

text \<open>The destructor of the controller answers the host.\<close>

definition ChildController_destroy :: "ChildProcess \<Rightarrow> fault + ChildProcess" where
  "ChildController_destroy c =
     (case app_controller c of
        None \<Rightarrow> Inr c
      | Some impl \<Rightarrow>
          (case impl_on_app_complete impl of
             None \<Rightarrow> Inl NullPointer
           | Some cb \<Rightarrow> Inr (c\<lparr>responses := responses c @ [(cb, MOJO_RESULT_UNIMPLEMENTED)], app_controller := None\<rparr>)))"

definition ShutdownOnControllerThread :: "ChildProcess \<Rightarrow> fault + ChildProcess" where
  "ShutdownOnControllerThread c =
     (case ChildController_destroy c of
        Inl f \<Rightarrow> Inl f
      | Inr c' \<Rightarrow> Inr (c'\<lparr>shutdown_requests := Suc (shutdown_requests c')\<rparr>))"

definition OnShutdownComplete :: "ChildProcess \<Rightarrow> fault + ChildProcess" where
  "OnShutdownComplete c =
     (case Unblock None (shutdown_unblocker c) (child_blockers c) of
        Inl f \<Rightarrow> Inl f
      | Inr (u, bs) \<Rightarrow> Inr (c\<lparr>shutdown_unblocker := u, child_blockers := bs\<rparr>))"

definition AppContext_Shutdown :: "ChildProcess \<Rightarrow> ChildProcess" where
  "AppContext_Shutdown c =
     c\<lparr>child_blockers := (child_blockers c)(Shutdown_blocker \<mapsto> Blocker_new), shutdown_unblocker := Some Shutdown_blocker,
       controller_tasks := controller_tasks c @ [ShutdownOnControllerThread_task], main_state := Shutting_down\<rparr>"

fun run_closure :: "main_closure option \<Rightarrow> ChildProcess \<Rightarrow> ChildProcess" where
  "run_closure None c = c"
| "run_closure (Some (StartAppOnMainThread library request)) c = c\<lparr>apps_run := apps_run c @ [(library, request)]\<rparr>"

text \<open>The main thread from \<open>blocker.Block()\<close> on: it starts the application, which then runs, shuts down and returns.\<close>

definition main_step :: "ChildProcess \<Rightarrow> ChildProcess option" where
  "main_step c =
     (case main_state c of
        Blocked \<Rightarrow> map_option (\<lambda>closure. run_closure closure (c\<lparr>main_state := Running_app\<rparr>)) (Block Main_blocker (child_blockers c))
      | Running_app \<Rightarrow> Some (AppContext_Shutdown c)
      | Shutting_down \<Rightarrow>
          map_option (\<lambda>closure. run_closure closure
              (c\<lparr>main_state := Returned 0, child_blockers := \<lambda>_. None, exit_code := Some 0\<rparr>))
            (Block Shutdown_blocker (child_blockers c))
      | Returned _ \<Rightarrow> None)"

section \<open>Schedules of the child\<close>

datatype child_action =
  C_Task | C_Main | C_Pipe "MojoHandle option" | C_StartApp nat closure | C_ExitNow int | C_ConnectionError | C_ShutdownComplete

text \<open>
  \<open>None\<close>: the action is not possible.  Messages of the host and errors of the connection arrive through a controller that is bound;
  nothing happens after the process has ended.
\<close>

fun child_act ::
  "'l launch_library \<Rightarrow> 'l \<Rightarrow> (int \<Rightarrow> MojoHandle option) \<Rightarrow> child_action \<Rightarrow> ChildProcess \<Rightarrow> ChildProcess outcome" where
  "child_act lib line channel a c =
     (if exit_code c \<noteq> None then None
      else (case a of
              C_Task \<Rightarrow>
                (case controller_tasks c of
                   [] \<Rightarrow> None
                 | t # ts \<Rightarrow>
                     let c' = c\<lparr>controller_tasks := ts\<rparr>
                     in Some (case t of
                          InitializeHostMessagePipe_task h \<Rightarrow> Inr (InitializeHostMessagePipe lib line channel h c')
                        | Init_task pipe u \<Rightarrow> Inr (ChildController_Init pipe u c')
                        | ShutdownOnControllerThread_task \<Rightarrow> ShutdownOnControllerThread c'))
            | C_Main \<Rightarrow> map_option Inr (main_step c)
            | C_Pipe pipe \<Rightarrow>
                (case child_pipe_requests c of
                   [] \<Rightarrow> None
                 | _ # rs \<Rightarrow> Some (Inr (OnHostMessagePipeCreated pipe (c\<lparr>child_pipe_requests := rs\<rparr>))))
            | C_StartApp request cb \<Rightarrow>
                (case app_controller c of
                   None \<Rightarrow> None
                 | Some impl \<Rightarrow> if impl_binding impl = None then None else Some (Child_StartApp request cb impl c))
            | C_ExitNow code \<Rightarrow> if app_controller c = None then None else Some (Inr (Child_ExitNow code c))
            | C_ConnectionError \<Rightarrow> if app_controller c = None then None else Some (Inr (OnConnectionError c))
            | C_ShutdownComplete \<Rightarrow>
                if shutdown_requests c = 0 then None
                else Some (OnShutdownComplete (c\<lparr>shutdown_requests := shutdown_requests c - 1\<rparr>))))"

fun child_acts ::
  "'l launch_library \<Rightarrow> 'l \<Rightarrow> (int \<Rightarrow> MojoHandle option) \<Rightarrow> child_action list \<Rightarrow> ChildProcess \<Rightarrow> ChildProcess outcome" where
  "child_acts lib line channel [] c = Some (Inr c)"
| "child_acts lib line channel (a # as) c = and_then (child_act lib line channel a c) (child_acts lib line channel as)"


section \<open>The phases of a child\<close>

text \<open>
  A child waits to be told what to run, is told, runs it, asks its controller to shut down, the controller has answered the host,
  the system layer is shut down, and the main thread has returned.
\<close>

datatype phase = P_wait | P_told nat closure | P_run nat closure | P_stop nat closure | P_answered nat closure
  | P_down nat closure | P_returned nat closure

fun phase_call :: "phase \<Rightarrow> (nat \<times> closure) option" where
  "phase_call P_wait = None"
| "phase_call (P_told q cb) = Some (q, cb)"
| "phase_call (P_run q cb) = Some (q, cb)"
| "phase_call (P_stop q cb) = Some (q, cb)"
| "phase_call (P_answered q cb) = Some (q, cb)"
| "phase_call (P_down q cb) = Some (q, cb)"
| "phase_call (P_returned q cb) = Some (q, cb)"

definition told_controller :: "closure \<Rightarrow> ChildProcess \<Rightarrow> bool" where
  "told_controller cb c \<longleftrightarrow> (\<exists>impl. app_controller c = Some impl \<and> impl_unblocker impl = None \<and> impl_on_app_complete impl = Some cb)"

text \<open>The controller of a child that waits is about to be made, in one of three stages, or has been made.\<close>

definition waiting :: "ChildProcess \<Rightarrow> bool" where
  "waiting c \<longleftrightarrow>
     (\<exists>h. controller_tasks c = [InitializeHostMessagePipe_task h] \<and> child_pipe_requests c = [] \<and> app_controller c = None) \<or>
     (\<exists>t. controller_tasks c = [] \<and> child_pipe_requests c = [t] \<and> app_controller c = None) \<or>
     (\<exists>p. controller_tasks c = [Init_task p (Some Main_blocker)] \<and> child_pipe_requests c = [] \<and> app_controller c = None) \<or>
     (\<exists>impl. controller_tasks c = [] \<and> child_pipe_requests c = [] \<and> app_controller c = Some impl \<and> impl_unblocker impl = Some Main_blocker \<and>
        impl_on_app_complete impl = None \<and> impl_app_library impl = app_library c)"

fun in_phase :: "phase \<Rightarrow> ChildProcess \<Rightarrow> bool" where
  "in_phase P_wait c \<longleftrightarrow> waiting c \<and> main_state c = Blocked \<and> child_blockers c Main_blocker = Some Blocker_new \<and> apps_run c = [] \<and>
     responses c = [] \<and> shutdown_requests c = 0"
| "in_phase (P_told q cb) c \<longleftrightarrow> told_controller cb c \<and> controller_tasks c = [] \<and> child_pipe_requests c = [] \<and> main_state c = Blocked \<and>
     child_blockers c Main_blocker = Some \<lparr>blocker_event = True, run_after = Some (StartAppOnMainThread (app_library c) q)\<rparr> \<and>
     apps_run c = [] \<and> responses c = [] \<and> shutdown_requests c = 0"
| "in_phase (P_run q cb) c \<longleftrightarrow> told_controller cb c \<and> controller_tasks c = [] \<and> child_pipe_requests c = [] \<and> main_state c = Running_app \<and>
     apps_run c = [(app_library c, q)] \<and> responses c = [] \<and> shutdown_requests c = 0"
| "in_phase (P_stop q cb) c \<longleftrightarrow> told_controller cb c \<and> controller_tasks c = [ShutdownOnControllerThread_task] \<and> child_pipe_requests c = [] \<and>
     main_state c = Shutting_down \<and> child_blockers c Shutdown_blocker = Some Blocker_new \<and> shutdown_unblocker c = Some Shutdown_blocker \<and>
     apps_run c = [(app_library c, q)] \<and> responses c = [] \<and> shutdown_requests c = 0"
| "in_phase (P_answered q cb) c \<longleftrightarrow> app_controller c = None \<and> controller_tasks c = [] \<and> child_pipe_requests c = [] \<and>
     main_state c = Shutting_down \<and> child_blockers c Shutdown_blocker = Some Blocker_new \<and> shutdown_unblocker c = Some Shutdown_blocker \<and>
     apps_run c = [(app_library c, q)] \<and> responses c = [(cb, MOJO_RESULT_UNIMPLEMENTED)] \<and> shutdown_requests c = 1 \<and> exit_code c = None"
| "in_phase (P_down q cb) c \<longleftrightarrow> app_controller c = None \<and> controller_tasks c = [] \<and> child_pipe_requests c = [] \<and>
     main_state c = Shutting_down \<and> child_blockers c Shutdown_blocker = Some \<lparr>blocker_event = True, run_after = None\<rparr> \<and>
     apps_run c = [(app_library c, q)] \<and> responses c = [(cb, MOJO_RESULT_UNIMPLEMENTED)] \<and> shutdown_requests c = 0 \<and> exit_code c = None"
| "in_phase (P_returned q cb) c \<longleftrightarrow> app_controller c = None \<and> main_state c = Returned 0 \<and> apps_run c = [(app_library c, q)] \<and>
     responses c = [(cb, MOJO_RESULT_UNIMPLEMENTED)] \<and> exit_code c = Some 0"

fun call_of :: "child_action \<Rightarrow> (nat \<times> closure) list" where
  "call_of (C_StartApp q cb) = [(q, cb)]"
| "call_of a = []"

definition progresses :: "phase \<Rightarrow> child_action \<Rightarrow> fault + ChildProcess \<Rightarrow> ChildProcess \<Rightarrow> bool" where
  "progresses ph a r c \<longleftrightarrow>
     (case r of
        Inl f \<Rightarrow> phase_call ph \<noteq> None \<and> call_of a \<noteq> []
      | Inr c' \<Rightarrow> app_library c' = app_library c \<and>
          (\<exists>ph'. in_phase ph' c' \<and> scoped (phase_call ph') = scoped (phase_call ph) @ call_of a))"

lemma progressesI:
  "in_phase ph' c' \<Longrightarrow> app_library c' = app_library c \<Longrightarrow> scoped (phase_call ph') = scoped (phase_call ph) @ call_of a \<Longrightarrow>
     progresses ph a (Inr c') c"
  by (auto simp: progresses_def)

lemmas child_defs = InitializeHostMessagePipe_def OnHostMessagePipeCreated_def ChildController_Init_def Child_StartApp_def Child_ExitNow_def
  OnConnectionError_def ChildController_destroy_def ShutdownOnControllerThread_def OnShutdownComplete_def AppContext_Shutdown_def main_step_def
  Unblock_def Block_def Blocker_new_def

lemma act_wait:
  assumes "child_act lib line channel a c = Some r" "in_phase P_wait c"
  shows "progresses P_wait a r c"
proof (cases a)
  case (C_StartApp q cb)
  then obtain impl where i: "app_controller c = Some impl" "r = Child_StartApp q cb impl c" using assms(1)
    by (auto split: if_splits option.splits)
  then have "\<exists>c'. r = Inr c' \<and> in_phase (P_told q cb) c' \<and> app_library c' = app_library c"
    using assms(2) by (auto simp: waiting_def child_defs told_controller_def)
  then show ?thesis using C_StartApp by (auto intro!: progressesI [where ph' = "P_told q cb"])
qed (use assms in \<open>auto simp: waiting_def child_defs Let_def intro!: progressesI [where ph' = P_wait] split: if_splits option.splits\<close>)


lemma act_told:
  assumes "child_act lib line channel a c = Some r" "in_phase (P_told q cb) c"
  shows "progresses (P_told q cb) a r c"
proof (cases a)
  case C_Main
  then show ?thesis using assms
    by (auto simp: child_defs told_controller_def intro!: progressesI [where ph' = "P_run q cb"] split: if_splits)
next
  case (C_StartApp q' cb')
  then show ?thesis using assms by (auto simp: child_defs told_controller_def progresses_def split: if_splits)
qed (use assms in \<open>auto simp: child_defs told_controller_def intro!: progressesI [where ph' = "P_told q cb"] split: if_splits\<close>)

lemma act_run:
  assumes "child_act lib line channel a c = Some r" "in_phase (P_run q cb) c"
  shows "progresses (P_run q cb) a r c"
proof (cases a)
  case C_Main
  then show ?thesis using assms
    by (auto simp: child_defs told_controller_def intro!: progressesI [where ph' = "P_stop q cb"] split: if_splits)
next
  case (C_StartApp q' cb')
  then show ?thesis using assms by (auto simp: child_defs told_controller_def progresses_def split: if_splits)
qed (use assms in \<open>auto simp: child_defs told_controller_def intro!: progressesI [where ph' = "P_run q cb"] split: if_splits\<close>)

lemma act_stop:
  assumes "child_act lib line channel a c = Some r" "in_phase (P_stop q cb) c"
  shows "progresses (P_stop q cb) a r c"
proof (cases a)
  case C_Task
  then show ?thesis using assms
    by (auto simp: child_defs told_controller_def Let_def intro!: progressesI [where ph' = "P_answered q cb"] split: if_splits)
next
  case (C_StartApp q' cb')
  then show ?thesis using assms by (auto simp: child_defs told_controller_def progresses_def split: if_splits)
qed (use assms in \<open>auto simp: child_defs told_controller_def intro!: progressesI [where ph' = "P_stop q cb"] split: if_splits\<close>)

lemma act_end:
  assumes "child_act lib line channel a c = Some r"
  shows "in_phase (P_answered q cb) c \<Longrightarrow> progresses (P_answered q cb) a r c"
    "in_phase (P_down q cb) c \<Longrightarrow> progresses (P_down q cb) a r c" "\<not> in_phase (P_returned q cb) c"
proof -
  show "in_phase (P_answered q cb) c \<Longrightarrow> progresses (P_answered q cb) a r c"
    using assms by (cases a) (auto simp: child_defs intro!: progressesI [where ph' = "P_down q cb"])
  show "in_phase (P_down q cb) c \<Longrightarrow> progresses (P_down q cb) a r c"
    using assms by (cases a) (auto simp: child_defs intro!: progressesI [where ph' = "P_returned q cb"])
  show "\<not> in_phase (P_returned q cb) c" using assms by auto
qed

lemma act_progresses: "child_act lib line channel a c = Some r \<Longrightarrow> in_phase ph c \<Longrightarrow> progresses ph a r c"
  by (cases ph) (blast dest: act_wait act_told act_run act_stop act_end)+

declare child_act.simps [simp del] in_phase.simps [simp del]

interpretation child: schedule "child_act lib line channel" "child_acts lib line channel" for lib line channel
  by unfold_locales simp_all

text \<open>The history of a schedule is the applications it asks to start.\<close>

definition child_history :: "nat option \<Rightarrow> (nat \<times> closure) list \<Rightarrow> ChildProcess \<Rightarrow> bool" where
  "child_history library hs c \<longleftrightarrow> app_library c = library \<and> (\<exists>ph. in_phase ph c \<and> scoped (phase_call ph) = hs)"

lemma history_act:
  assumes "child_history library hs c" "child_act lib line channel a c = Some r"
  shows "case r of Inl f \<Rightarrow> 2 \<le> length (hs @ call_of a) | Inr c' \<Rightarrow> child_history library (hs @ call_of a) c'"
proof -
  obtain ph where ph: "in_phase ph c" "scoped (phase_call ph) = hs" "app_library c = library" using assms(1) by (auto simp: child_history_def)
  show ?thesis
    using act_progresses [OF assms(2) ph(1)] ph(2,3) by (cases r; cases a) (auto simp: progresses_def child_history_def)
qed

lemma acts_progress:
  assumes "child_acts lib line channel as c = Some r" "in_phase P_wait c"
  shows "case r of Inl f \<Rightarrow> 2 \<le> length (concat (map call_of as)) | Inr c' \<Rightarrow> child_history (app_library c) (concat (map call_of as)) c'"
proof -
  have "child_history (app_library c) [] c" using assms(2) by (auto simp: child_history_def intro: exI [of _ P_wait])
  then have "case r of Inl f \<Rightarrow> 2 \<le> length ([] @ concat (map call_of as)) | Inr c' \<Rightarrow> child_history (app_library c) ([] @ concat (map call_of as)) c'"
    by (rule child.history [OF assms(1), where P = "child_history (app_library c)" and F = "\<lambda>hs. 2 \<le> length hs"]) (auto dest: history_act)
  then show ?thesis unfolding append_Nil .
qed

lemma ChildProcessMain_waits: "ChildProcessMain lib read_handle load line = Inr c \<Longrightarrow> in_phase P_wait c"
  by (auto simp: ChildProcessMain_def Let_def in_phase.simps waiting_def split: if_splits option.splits)

lemma phase_runs: "in_phase ph c \<Longrightarrow> apps_run c = [] \<or> (\<exists>q cb. phase_call ph = Some (q, cb) \<and> apps_run c = [(app_library c, q)])"
  by (cases ph) (auto simp: in_phase.simps)

lemma phase_responses: "in_phase ph c \<Longrightarrow>
    responses c = [] \<or> (\<exists>q cb. phase_call ph = Some (q, cb) \<and> apps_run c = [(app_library c, q)] \<and> responses c = [(cb, MOJO_RESULT_UNIMPLEMENTED)])"
  by (cases ph) (auto simp: in_phase.simps)

lemma phase_returned: "in_phase ph c \<Longrightarrow> main_state c = Returned v \<Longrightarrow> v = 0 \<and> (\<exists>q cb. phase_call ph = Some (q, cb) \<and> responses c = [(cb, MOJO_RESULT_UNIMPLEMENTED)])"
  by (cases ph) (auto simp: in_phase.simps)

text \<open>
  C24: A child runs the application it is told to run, once.  Whatever its threads, its host and the system layer do: it runs nothing
  before it is told, at most one application, which is the one of the request; it answers the host only after it
  has run it, once, on the callback of that request; and when its main thread returns, it returns zero and has done both.  The
  child fails only when it is told to start a second application.
\<close>

theorem child_runs_one_application:
  assumes "ChildProcessMain lib read_handle load line = Inr c0" "child_acts lib line channel as c0 = Some r"
  shows "case r of
      Inl f \<Rightarrow> 2 \<le> length (concat (map call_of as))
    | Inr c \<Rightarrow>
        (apps_run c = [] \<or> (\<exists>q cb. concat (map call_of as) = [(q, cb)] \<and> apps_run c = [(app_library c0, q)])) \<and>
        (responses c = [] \<or> (\<exists>q cb. concat (map call_of as) = [(q, cb)] \<and> apps_run c = [(app_library c0, q)] \<and>
           responses c = [(cb, MOJO_RESULT_UNIMPLEMENTED)])) \<and>
        (\<forall>v. main_state c = Returned v \<longrightarrow> v = 0 \<and> responses c \<noteq> [])"
proof (cases r)
  case (Inl f)
  then show ?thesis using acts_progress [OF assms(2) ChildProcessMain_waits [OF assms(1)]] by simp
next
  case (Inr c)
  then obtain ph where ph: "in_phase ph c" "scoped (phase_call ph) = concat (map call_of as)" "app_library c = app_library c0"
    using acts_progress [OF assms(2) ChildProcessMain_waits [OF assms(1)]] by (auto simp: child_history_def)
  have "concat (map call_of as) = [x]" if "phase_call ph = Some x" for x using ph(2) that by simp
  then show ?thesis using Inr phase_runs [OF ph(1)] phase_responses [OF ph(1)] phase_returned [OF ph(1)] ph(3) by auto
qed


text \<open>A child that has been told to start an application comes to an end.\<close>

lemma told_child_returns:
  assumes "in_phase (P_told q cb) c" "exit_code c = None"
  shows "\<exists>c'. child_acts lib line channel [C_Main, C_Main, C_Task, C_ShutdownComplete, C_Main] c = Some (Inr c') \<and>
    in_phase (P_returned q cb) c'"
  using assms by (auto simp: child_act.simps in_phase.simps told_controller_def child_defs Let_def)

section \<open>From the host to the child\<close>

text \<open>
  What is used of command lines: the value of a switch is the one that was appended last, other switches do not change it, and
  appended arguments bring their switches.  The numbers of the standard streams are below the base descriptor.
\<close>

definition launch_laws :: "'l launch_library \<Rightarrow> bool" where
  "launch_laws lib \<longleftrightarrow> library_laws (base_of lib) \<and> 3 \<le> kBaseDescriptor lib \<and>
     kMojoPlatformChannelHandleSwitch lib \<notin> {kChildProcess, kEnableSandbox, kPrimordialPipeToken} \<and>
     (\<forall>s s' v l. s \<noteq> s' \<longrightarrow> GetSwitchValueASCII lib s (AppendSwitchASCII lib s' v l) = GetSwitchValueASCII lib s l) \<and>
     (\<forall>s s' v l. s \<noteq> s' \<longrightarrow> GetSwitchValueASCII lib s (AppendSwitchPath lib s' v l) = GetSwitchValueASCII lib s l) \<and>
     (\<forall>s s' l. s \<noteq> s' \<longrightarrow> GetSwitchValueASCII lib s (AppendSwitch lib s' l) = GetSwitchValueASCII lib s l) \<and>
     (\<forall>s v l. GetSwitchValuePath lib s (AppendSwitchPath lib s v l) = v) \<and>
     (\<forall>s s' v l. s \<noteq> s' \<longrightarrow> GetSwitchValuePath lib s (AppendSwitchASCII lib s' v l) = GetSwitchValuePath lib s l) \<and>
     (\<forall>s s' l. s \<noteq> s' \<longrightarrow> GetSwitchValuePath lib s (AppendSwitch lib s' l) = GetSwitchValuePath lib s l) \<and>
     (\<forall>s s' v l. HasSwitch lib s (AppendSwitchASCII lib s' v l) \<longleftrightarrow> s = s' \<or> HasSwitch lib s l) \<and>
     (\<forall>s s' v l. HasSwitch lib s (AppendSwitchPath lib s' v l) \<longleftrightarrow> s = s' \<or> HasSwitch lib s l) \<and>
     (\<forall>s s' l. HasSwitch lib s (AppendSwitch lib s' l) \<longleftrightarrow> s = s' \<or> HasSwitch lib s l) \<and>
     (\<forall>s l' b l. HasSwitch lib s (AppendArguments lib l' b l) \<longleftrightarrow> HasSwitch lib s l' \<or> HasSwitch lib s l)"

lemma switches_distinct:
  "kChildProcess \<noteq> kPrimordialPipeToken" "kPrimordialPipeToken \<noteq> kChildProcess" "kChildProcess \<noteq> kEnableSandbox" "kEnableSandbox \<noteq> kPrimordialPipeToken"
  by (simp_all add: kChildProcess_def kPrimordialPipeToken_def kEnableSandbox_def)

lemma base_of_simps [simp]:
  "kBaseDescriptor (base_of lib) = kBaseDescriptor lib" "kMojoPlatformChannelHandleSwitch (base_of lib) = kMojoPlatformChannelHandleSwitch lib"
  "AppendSwitchASCII (base_of lib) = AppendSwitchASCII lib" "GetSwitchValueASCII (base_of lib) = GetSwitchValueASCII lib"
  "IntToString (base_of lib) = IntToString lib" "StringToInt (base_of lib) = StringToInt lib"
  by (simp_all add: base_library.truncate_def)

text \<open>The line up to the point where the channel is added, by \<open>DoLaunch\<close>.\<close>

definition plain_line :: "'l launch_library \<Rightarrow> 'l \<Rightarrow> ChildProcessHost \<Rightarrow> 'l" where
  "plain_line lib parent h =
     (let target = target_path lib parent (host_app_path h);
          line1 = AppendArguments lib parent False (CommandLine_new lib target);
          line2 = (if target \<noteq> host_app_path h then AppendSwitchPath lib kChildProcess (host_app_path h) line1 else line1)
      in if start_sandboxed h then AppendSwitch lib kEnableSandbox line2 else line2)"

lemma child_command_line_new:
  assumes "node_channel h = Some pair" "client_handle pair = Some fd" "host_handle_passing_info h = []"
    and "t = find_target [] (kBaseDescriptor lib)"
  shows "child_command_line lib parent h =
    Inr (AppendSwitchASCII lib kPrimordialPipeToken (primordial_pipe_token h)
          (AppendSwitchASCII lib (kMojoPlatformChannelHandleSwitch lib) (IntToString lib t) (plain_line lib parent h)), [(fd, t)])"
  using assms by (simp add: child_command_line_def plain_line_def PrepareToPassClientHandleToChildProcess_def
      PrepareToPassClientHandleToChildProcessAsString_def Let_def)

lemma DoLaunch_line:
  "child_command_line lib parent h = Inr (line, info) \<Longrightarrow> DoLaunch lib parent h = Inr (line', fds, h') \<Longrightarrow>
     line' = line \<and> fds = info @ [(0, 0), (1, 1), (2, 2)]"
  by (simp add: DoLaunch_def Let_def)

text \<open>
  C25: A launched child finds its host.  With the new system layer, the command line that the host makes gives the child the
  number of its end of the channel, which is one of the descriptors that the child is launched with (their
  numbers are distinct), so that its main thread comes up; its controller thread then hands that descriptor to the system layer and asks for the pipe
  with the token of the host, the application that it loads is the one of the host, and a child of a sandboxed host enters the sandbox.
\<close>

theorem launched_child_finds_host:
  assumes "launch_laws lib" "\<forall>l. read_handle l = PassClientHandleFromParentProcess (base_of lib) l" "HasSwitch lib ''use-new-edk'' parent"
    and "node_channel h = Some pair" "client_handle pair = Some fd" "host_handle_passing_info h = []"
    and "DoLaunch lib parent h = Inr (line, fds, h')"
  shows "\<exists>target c0 c. (fd, target) \<in> set fds \<and> distinct (map snd fds) \<and> ChildProcessMain lib read_handle load line = Inr c0 \<and>
    child_acts lib line channel [C_Task] c0 = Some (Inr c) \<and> parent_pipe_handles c = [target] \<and>
    child_pipe_requests c = [primordial_pipe_token h] \<and>
    child_sandboxed c = HasSwitch lib kEnableSandbox line \<and> (start_sandboxed h \<longrightarrow> child_sandboxed c) \<and>
    (host_app_path h \<noteq> [] \<and> target_path lib parent (host_app_path h) \<noteq> host_app_path h \<longrightarrow> app_library c = load (host_app_path h))"
proof -
  define t where "t = find_target [] (kBaseDescriptor lib)"
  have t: "t = kBaseDescriptor lib" by (simp add: t_def find_target.simps)
  have line: "line = AppendSwitchASCII lib kPrimordialPipeToken (primordial_pipe_token h)
      (AppendSwitchASCII lib (kMojoPlatformChannelHandleSwitch lib) (IntToString lib t) (plain_line lib parent h))"
    and fds: "fds = [(fd, t), (0, 0), (1, 1), (2, 2)]"
    using DoLaunch_line [OF child_command_line_new [OF assms(4-6) t_def] assms(7)] by simp_all
  have "read_handle line = Some t"
    using assms(1,2) t unfolding line
    by (simp add: launch_laws_def library_laws_def PassClientHandleFromParentProcess_def PassClientHandleFromParentProcessFromString_def)
  moreover have "HasSwitch lib ''use-new-edk'' line"
    using assms(1,3) unfolding line by (simp add: launch_laws_def plain_line_def Let_def)
  moreover have "GetSwitchValueASCII lib kPrimordialPipeToken line = primordial_pipe_token h"
    using assms(1) unfolding line by (simp add: launch_laws_def library_laws_def)
  moreover have "GetSwitchValuePath lib kChildProcess line = host_app_path h" if "target_path lib parent (host_app_path h) \<noteq> host_app_path h"
  proof -
    have "kChildProcess \<noteq> kMojoPlatformChannelHandleSwitch lib" using assms(1) by (auto simp: launch_laws_def)
    then show ?thesis using assms(1) that switches_distinct unfolding line by (simp add: launch_laws_def plain_line_def Let_def)
  qed
  moreover have "start_sandboxed h \<longrightarrow> HasSwitch lib kEnableSandbox line"
    using assms(1) unfolding line by (simp add: launch_laws_def plain_line_def Let_def)
  moreover have "distinct (map snd fds)" using assms(1) t by (simp add: fds launch_laws_def)
  ultimately show ?thesis
    by (intro exI [of _ t]) (auto simp: fds ChildProcessMain_def child_act.simps InitializeHostMessagePipe_def Let_def)
qed

text \<open>With the old system layer the host does not pass the child's end of its channel at all, and the child aborts.\<close>

theorem old_launch_aborts:
  assumes "launch_laws lib" "\<forall>l. read_handle l = PassClientHandleFromParentProcess (base_of lib) l"
    and "\<forall>p. GetSwitchValueASCII lib (kMojoPlatformChannelHandleSwitch lib) (AppendArguments lib parent False (CommandLine_new lib p)) = []"
    and "ChildProcessHost_new False sandboxed path pair token pipe = Inr h0" "DoLaunch lib parent (Host_Start False cb h0) = Inr (line, fds, h')"
  shows "ChildProcessMain lib read_handle load line = Inl CheckFailure"
proof -
  have h: "node_channel h0 = None" "primordial_pipe_token h0 = []"
    using assms(4) by (auto simp: ChildProcessHost_new_def host_base_def OnMessagePipeCreated_def pipe_defs Let_def split: if_splits sum.splits)
  let ?h = "Host_Start False cb h0"
  have "child_command_line lib parent ?h = Inr (AppendSwitchASCII lib kPrimordialPipeToken [] (plain_line lib parent ?h), host_handle_passing_info ?h)"
    using h by (simp add: child_command_line_def plain_line_def Host_Start_def Let_def)
  from DoLaunch_line [OF this assms(5)] have line: "line = AppendSwitchASCII lib kPrimordialPipeToken [] (plain_line lib parent ?h)" by simp
  have "GetSwitchValueASCII lib (kMojoPlatformChannelHandleSwitch lib) line = []"
    using assms(1,3) unfolding line by (simp add: launch_laws_def plain_line_def Let_def)
  then show ?thesis
    using assms(2) by (simp add: ChildProcessMain_def PassClientHandleFromParentProcess_def PassClientHandleFromParentProcessFromString_def Let_def)
qed


section \<open>An example child\<close>

lemma example_launch_laws: "launch_laws example_launch"
  unfolding launch_laws_def library_laws_def base_of_simps
  by (auto simp: example_launch_def example_library_def base_library.defs kChildProcess_def kEnableSandbox_def kPrimordialPipeToken_def)

definition example_line :: "(string \<times> string) list" where
  "example_line = [(''use-new-edk'', []), (kChildProcess, ''app.mojo''), (''mojo-platform-channel-handle'', ''+111''), (kPrimordialPipeToken, ''T'')]"

lemma example_line_launched:
  "\<exists>fds h'. DoLaunch example_launch [(''use-new-edk'', [])] example_host = Inr (example_line, fds, h')"
  by (simp add: DoLaunch_def child_command_line_def target_path_def example_launch_def example_library_def base_library.defs example_host_def
      example_socket_def host_base_def PrepareToPassClientHandleToChildProcess_def PrepareToPassClientHandleToChildProcessAsString_def
      find_target.simps [of "[]"] example_line_def numeral_3_eq_3 Let_def)

theorem launched_child_finds_host_witness:
  "\<exists>target c0 c. ChildProcessMain example_launch (PassClientHandleFromParentProcess (base_of example_launch)) (\<lambda>_. Some 1) example_line = Inr c0 \<and>
     child_acts example_launch example_line (\<lambda>_. None) [C_Task] c0 = Some (Inr c) \<and> parent_pipe_handles c = [target] \<and>
     child_pipe_requests c = [''T''] \<and> app_library c = Some 1"
proof -
  obtain fds h' where d: "DoLaunch example_launch [(''use-new-edk'', [])] example_host = Inr (example_line, fds, h')"
    using example_line_launched by blast
  have 1: "HasSwitch example_launch ''use-new-edk'' [(''use-new-edk'', [])]" "node_channel example_host = Some example_socket"
    "client_handle example_socket = Some 9" "host_handle_passing_info example_host = []" "host_app_path example_host = ''app.mojo''"
    "target_path example_launch [(''use-new-edk'', [])] ''app.mojo'' = ''shell''" "primordial_pipe_token example_host = ''T''"
    by (simp_all add: example_launch_def base_library.defs example_host_def example_socket_def host_base_def target_path_def)
  show ?thesis
    using launched_child_finds_host [OF example_launch_laws _ 1(1-4) d, of "PassClientHandleFromParentProcess (base_of example_launch)"
        "\<lambda>_. Some 1" "\<lambda>_. None"] unfolding 1(5-7) by fastforce
qed

theorem child_runs_one_application_witness:
  "\<exists>c0 c. ChildProcessMain example_launch (\<lambda>_. Some 3) (\<lambda>_. Some 1) example_line = Inr c0 \<and>
     child_acts example_launch example_line (\<lambda>_. None)
       [C_Task, C_Pipe (Some 7), C_Task, C_StartApp 5 2, C_Main, C_Main, C_Task, C_ShutdownComplete, C_Main] c0 = Some (Inr c) \<and>
     main_state c = Returned 0 \<and> apps_run c = [(Some 1, 5)] \<and> responses c = [(2, MOJO_RESULT_UNIMPLEMENTED)]"
proof -
  let ?as = "[C_Task, C_Pipe (Some 7), C_Task, C_StartApp 5 2, C_Main, C_Main, C_Task, C_ShutdownComplete, C_Main]"
  obtain c0 where c0: "ChildProcessMain example_launch (\<lambda>_. Some 3) (\<lambda>_. Some 1) example_line = Inr c0" "app_library c0 = Some 1"
    "child_blockers c0 = (\<lambda>_. None)(Main_blocker \<mapsto> Blocker_new)" "main_state c0 = Blocked" "controller_tasks c0 = [InitializeHostMessagePipe_task 3]"
    "app_controller c0 = None" "exit_code c0 = None" "responses c0 = []" "child_pipe_requests c0 = []" "shutdown_requests c0 = 0"
    by (simp add: ChildProcessMain_def example_launch_def base_library.defs example_line_def kChildProcess_def kPrimordialPipeToken_def Let_def)
  have "HasSwitch example_launch ''use-new-edk'' example_line"
    by (simp add: example_launch_def base_library.defs example_line_def)
  then obtain c where c: "child_acts example_launch example_line (\<lambda>_. None) ?as c0 = Some (Inr c)" "main_state c = Returned 0"
    using c0(2-) by (simp add: child_act.simps child_defs Let_def)
  then show ?thesis using child_runs_one_application [OF c0(1) c(1)] c0(1,2) by auto
qed

end
