(* ===== verification/Runner_Connection.thy ===== *)
theory Runner_Connection
  imports Child_Process
begin

text \<open>
  The connection of an application that is not launched by the shell's loader to its runner (\<open>shell/runner/child/runner_connection.cc\<close>):
  the thread that connects blocks until the runner has sent the request for an application.
\<close>

section \<open>The state of a connection\<close>

text \<open>The closure that the blocked thread runs stores the request it is given.\<close>

record RunnerController =
  rc_unblocker :: Unblocker
  rc_on_app_complete :: "closure option"
  rc_binding :: "MojoHandle option"

datatype connection_task = Create_controller_task "MojoHandle option" Unblocker | Shutdown_controller_task

datatype connect_state = Not_connecting | Waiting_for_request | Connected | Not_connected

record RunnerConnection =
  conn_controller :: "RunnerController option"
  conn_tasks :: "connection_task list"
  conn_blockers :: "nat blockers"
  conn_state :: connect_state
  conn_request :: "nat option"
  conn_parent_pipe :: "int option"
  conn_responses :: "(closure \<times> MojoResult) list"
  conn_exit :: "int option"

definition RunnerConnection_new :: RunnerConnection where
  "RunnerConnection_new = \<lparr>conn_controller = None, conn_tasks = [], conn_blockers = (\<lambda>_. None), conn_state = Not_connecting, conn_request = None,
     conn_parent_pipe = None, conn_responses = [], conn_exit = None\<rparr>"

section \<open>Operations\<close>

text \<open>
  What a connection uses of the system: the command line's handle, the pipe over it, and, with the new system layer, the wait for
  and the reading of a first message of at most ten bytes, which names the channel to the parent.
\<close>

record 'l connection_library =
  cl_base :: "'l base_library"
  cl_line :: 'l
  cl_new_edk :: bool
  cl_PassClientHandle :: "'l \<Rightarrow> int option"
  cl_CreateChannel :: "int \<Rightarrow> MojoHandle option"
  cl_MojoWait :: "MojoHandle option \<Rightarrow> MojoResult"
  cl_MojoReadMessage :: "MojoHandle option \<Rightarrow> nat \<Rightarrow> MojoResult \<times> string"

text \<open>The pipe to the runner from the command line, and the channel to the parent; \<open>None\<close> when the line has no handle.\<close>

definition runner_pipe :: "'l connection_library \<Rightarrow> fault + (MojoHandle option \<times> int option) option" where
  "runner_pipe lib =
     (case cl_PassClientHandle lib (cl_line lib) of
        None \<Rightarrow> Inr None
      | Some platform_channel \<Rightarrow>
          let handle = cl_CreateChannel lib platform_channel
          in if \<not> cl_new_edk lib then Inr (Some (handle, None))
             else if cl_MojoWait lib handle \<noteq> MOJO_RESULT_OK then Inl CheckFailure
             else (case cl_MojoReadMessage lib handle 10 of
                     (rv, broker_handle) \<Rightarrow>
                       if rv \<noteq> MOJO_RESULT_OK then Inl CheckFailure
                       else (case PassClientHandleFromParentProcessFromString (cl_base lib) broker_handle of
                               None \<Rightarrow> Inl CheckFailure
                             | Some broker_channel \<Rightarrow> Inr (Some (handle, Some broker_channel)))))"

definition start_waiting :: "MojoHandle option \<Rightarrow> RunnerConnection \<Rightarrow> RunnerConnection" where
  "start_waiting handle c =
     c\<lparr>conn_blockers := (conn_blockers c)(Main_blocker \<mapsto> Blocker_new), conn_state := Waiting_for_request,
       conn_tasks := conn_tasks c @ [Create_controller_task handle (Some Main_blocker)]\<rparr>"

definition WaitForApplicationRequest :: "'l connection_library \<Rightarrow> MojoHandle option \<Rightarrow> RunnerConnection \<Rightarrow> fault + RunnerConnection" where
  "WaitForApplicationRequest lib handle c =
     (if handle \<noteq> None then Inr (start_waiting handle c)
      else (case runner_pipe lib of
              Inl f \<Rightarrow> Inl f
            | Inr None \<Rightarrow> Inr (c\<lparr>conn_state := Not_connected\<rparr>)
            | Inr (Some (handle', broker)) \<Rightarrow>
                Inr (start_waiting handle' (case broker of None \<Rightarrow> c | Some b \<Rightarrow> c\<lparr>conn_parent_pipe := Some b\<rparr>))))"

text \<open>After \<open>blocker.Block()\<close>: the request is stored and the connection is returned.\<close>

definition finish_waiting :: "RunnerConnection \<Rightarrow> RunnerConnection option" where
  "finish_waiting c =
     (if conn_state c \<noteq> Waiting_for_request then None
      else map_option (\<lambda>closure. (case closure of None \<Rightarrow> c | Some request \<Rightarrow> c\<lparr>conn_request := Some request\<rparr>)
               \<lparr>conn_state := Connected, conn_blockers := \<lambda>_. None\<rparr>)
             (Block Main_blocker (conn_blockers c)))"

definition Create_controller :: "MojoHandle option \<Rightarrow> Unblocker \<Rightarrow> RunnerConnection \<Rightarrow> RunnerConnection" where
  "Create_controller runner_handle unblocker c =
     c\<lparr>conn_controller := Some \<lparr>rc_unblocker = unblocker, rc_on_app_complete = None, rc_binding = runner_handle\<rparr>\<rparr>"

definition Runner_StartApp :: "nat \<Rightarrow> closure \<Rightarrow> RunnerController \<Rightarrow> RunnerConnection \<Rightarrow> fault + RunnerConnection" where
  "Runner_StartApp application_request callback impl c =
     (case Unblock (Some application_request) (rc_unblocker impl) (conn_blockers c) of
        Inl f \<Rightarrow> Inl f
      | Inr (u, bs) \<Rightarrow>
          Inr (c\<lparr>conn_controller := Some (impl\<lparr>rc_on_app_complete := Some callback, rc_unblocker := u\<rparr>), conn_blockers := bs\<rparr>))"

definition Runner_ExitNow :: "int \<Rightarrow> RunnerConnection \<Rightarrow> RunnerConnection" where
  "Runner_ExitNow code c = c\<lparr>conn_exit := Some code\<rparr>"

definition Runner_OnConnectionError :: "RunnerConnection \<Rightarrow> RunnerConnection" where
  "Runner_OnConnectionError c = c\<lparr>conn_exit := Some 1\<rparr>"

text \<open>The destructor of the connection posts a task that destroys the controller, whose destructor answers the runner.\<close>

definition RunnerConnection_destroy :: "RunnerConnection \<Rightarrow> RunnerConnection" where
  "RunnerConnection_destroy c = c\<lparr>conn_tasks := conn_tasks c @ [Shutdown_controller_task]\<rparr>"

definition Shutdown_controller :: "RunnerConnection \<Rightarrow> fault + RunnerConnection" where
  "Shutdown_controller c =
     (case conn_controller c of
        None \<Rightarrow> Inr c
      | Some impl \<Rightarrow>
          (case rc_on_app_complete impl of
             None \<Rightarrow> Inl NullPointer
           | Some cb \<Rightarrow> Inr (c\<lparr>conn_responses := conn_responses c @ [(cb, MOJO_RESULT_UNIMPLEMENTED)], conn_controller := None\<rparr>)))"

section \<open>Schedules\<close>

datatype connection_action = K_Task | K_Return | K_StartApp nat closure | K_ExitNow int | K_ConnectionError | K_Destroy

text \<open>The connection is destroyed after \<open>ConnectToRunner\<close> has returned it.\<close>

fun connection_act :: "connection_action \<Rightarrow> RunnerConnection \<Rightarrow> RunnerConnection outcome" where
  "connection_act K_Task c =
     (case conn_tasks c of
        [] \<Rightarrow> None
      | Create_controller_task h u # ts \<Rightarrow> Some (Inr (Create_controller h u (c\<lparr>conn_tasks := ts\<rparr>)))
      | Shutdown_controller_task # ts \<Rightarrow> Some (Shutdown_controller (c\<lparr>conn_tasks := ts\<rparr>)))"
| "connection_act K_Return c = map_option Inr (finish_waiting c)"
| "connection_act (K_StartApp request cb) c =
     (case conn_controller c of None \<Rightarrow> None | Some impl \<Rightarrow> Some (Runner_StartApp request cb impl c))"
| "connection_act (K_ExitNow code) c = (if conn_controller c = None then None else Some (Inr (Runner_ExitNow code c)))"
| "connection_act K_ConnectionError c = (if conn_controller c = None then None else Some (Inr (Runner_OnConnectionError c)))"
| "connection_act K_Destroy c = (if conn_state c = Connected \<and> conn_tasks c = [] then Some (Inr (RunnerConnection_destroy c)) else None)"

fun connection_acts :: "connection_action list \<Rightarrow> RunnerConnection \<Rightarrow> RunnerConnection outcome" where
  "connection_acts [] c = Some (Inr c)"
| "connection_acts (a # as) c = (if conn_exit c \<noteq> None then None else and_then (connection_act a c) (connection_acts as))"

section \<open>The request arrives\<close>

fun request_of :: "connection_action \<Rightarrow> (nat \<times> closure) list" where
  "request_of (K_StartApp q cb) = [(q, cb)]"
| "request_of a = []"

text \<open>Before the request, and after it; the last two cases are a connection that was destroyed.\<close>

definition connecting :: "RunnerConnection \<Rightarrow> bool" where
  "connecting c \<longleftrightarrow> conn_state c = Waiting_for_request \<and> conn_blockers c Main_blocker = Some Blocker_new \<and> conn_request c = None \<and>
     conn_responses c = [] \<and>
     ((\<exists>h. conn_tasks c = [Create_controller_task h (Some Main_blocker)]) \<and> conn_controller c = None \<or>
      conn_tasks c = [] \<and> (\<exists>impl. conn_controller c = Some impl \<and> rc_unblocker impl = Some Main_blocker \<and> rc_on_app_complete impl = None))"

definition requested :: "nat \<Rightarrow> closure \<Rightarrow> RunnerConnection \<Rightarrow> bool" where
  "requested q cb c \<longleftrightarrow>
     (conn_state c = Waiting_for_request \<and> conn_blockers c Main_blocker = Some \<lparr>blocker_event = True, run_after = Some q\<rparr> \<and>
        conn_request c = None \<and> conn_tasks c = [] \<or>
      conn_state c = Connected \<and> conn_request c = Some q) \<and>
     (conn_responses c = [] \<and> (\<exists>impl. conn_controller c = Some impl \<and> rc_unblocker impl = None \<and> rc_on_app_complete impl = Some cb) \<or>
      conn_state c = Connected \<and> conn_responses c = [(cb, MOJO_RESULT_UNIMPLEMENTED)] \<and> conn_controller c = None) \<and>
     set (conn_tasks c) \<subseteq> {Shutdown_controller_task}"

lemmas connection_defs = start_waiting_def finish_waiting_def Create_controller_def Runner_StartApp_def Runner_ExitNow_def
  Runner_OnConnectionError_def RunnerConnection_destroy_def Shutdown_controller_def Unblock_def Block_def Blocker_new_def

lemma connecting_act:
  assumes "connection_act a c = Some r" "connecting c"
  shows "case request_of a of [] \<Rightarrow> (\<exists>c'. r = Inr c' \<and> connecting c') | (q, cb) # _ \<Rightarrow> (\<exists>c'. r = Inr c' \<and> requested q cb c')"
  using assms by (cases a) (auto simp: connecting_def requested_def connection_defs split: list.splits connection_task.splits option.splits)

lemma requested_act:
  assumes "connection_act a c = Some r" "requested q cb c"
  shows "case r of Inl f \<Rightarrow> request_of a \<noteq> [] | Inr c' \<Rightarrow> requested q cb c' \<and> request_of a = []"
proof (cases a)
  case K_Task
  then show ?thesis using assms by (auto simp: requested_def connection_defs split: list.splits connection_task.splits option.splits)
qed (use assms in \<open>auto simp: requested_def connection_defs split: if_splits option.splits\<close>)


interpretation connection: schedule "\<lambda>a c. if conn_exit c \<noteq> None then None else connection_act a c" connection_acts
  by unfold_locales simp_all

definition connection_history :: "(nat \<times> closure) list \<Rightarrow> RunnerConnection \<Rightarrow> bool" where
  "connection_history hs c \<longleftrightarrow> hs = [] \<and> connecting c \<or> (\<exists>q cb. hs = [(q, cb)] \<and> requested q cb c)"

lemma connection_history_act:
  assumes "connection_history hs c" "connection_act a c = Some r"
  shows "case r of Inl f \<Rightarrow> 2 \<le> length (hs @ request_of a) | Inr c' \<Rightarrow> connection_history (hs @ request_of a) c'"
proof (cases hs)
  case Nil
  then show ?thesis using assms connecting_act [OF assms(2)] by (cases a) (auto simp: connection_history_def)
next
  case (Cons x xs)
  then obtain q cb where "hs = [(q, cb)]" "requested q cb c" using assms(1) by (auto simp: connection_history_def)
  then show ?thesis using requested_act [OF assms(2)] by (cases r; cases a) (auto simp: connection_history_def)
qed

lemma connecting_acts:
  assumes "connection_acts as c = Some r" "connecting c"
  shows "case r of Inl f \<Rightarrow> 2 \<le> length (concat (map request_of as)) | Inr c' \<Rightarrow> connection_history (concat (map request_of as)) c'"
proof -
  have "connection_history [] c" using assms(2) by (simp add: connection_history_def)
  then have "case r of Inl f \<Rightarrow> 2 \<le> length ([] @ concat (map request_of as)) | Inr c' \<Rightarrow> connection_history ([] @ concat (map request_of as)) c'"
    by (rule connection.history [OF assms(1), where P = connection_history and F = "\<lambda>hs. 2 \<le> length hs"])
      (auto dest: connection_history_act split: if_split_asm)
  then show ?thesis unfolding append_Nil .
qed

text \<open>
  A connection to a runner delivers the request.  It is refused only when neither a pipe was given nor the command line has a
  handle; otherwise the thread that connects returns only after the runner has sent a request, with this request; the runner is
  answered at most once, on the callback of that request, after the request was returned; and only a second request can make the process fail.
\<close>

theorem connection_delivers_request:
  assumes "WaitForApplicationRequest lib handle RunnerConnection_new = Inr c0" "connection_acts as c0 = Some r"
  shows "if conn_state c0 = Not_connected then handle = None \<and> cl_PassClientHandle lib (cl_line lib) = None
    else (case r of
        Inl f \<Rightarrow> 2 \<le> length (concat (map request_of as))
      | Inr c \<Rightarrow>
          (conn_state c = Connected \<longrightarrow> (\<exists>q cb. concat (map request_of as) = [(q, cb)] \<and> conn_request c = Some q)) \<and>
          (conn_responses c = [] \<or> (\<exists>q cb. concat (map request_of as) = [(q, cb)] \<and> conn_request c = Some q \<and>
             conn_responses c = [(cb, MOJO_RESULT_UNIMPLEMENTED)])))"
proof (cases "conn_state c0 = Not_connected")
  case True
  then show ?thesis using assms(1)
    by (auto simp: WaitForApplicationRequest_def runner_pipe_def start_waiting_def RunnerConnection_new_def Let_def
        split: if_splits option.splits prod.splits)
next
  case False
  then have "connecting c0" using assms(1)
    by (auto simp: WaitForApplicationRequest_def connecting_def start_waiting_def RunnerConnection_new_def split: if_splits sum.splits option.splits)
  from connecting_acts [OF assms(2) this] False show ?thesis
    by (cases r) (auto simp: connection_history_def connecting_def requested_def)
qed

theorem connection_delivers_request_witness:
  "\<exists>lib c0 c. WaitForApplicationRequest (lib :: (string \<times> string) list connection_library) (Some 7) RunnerConnection_new = Inr c0 \<and>
     connection_acts [K_Task, K_StartApp 5 2, K_Return, K_Destroy, K_Task] c0 = Some (Inr c) \<and> conn_state c = Connected \<and> conn_request c = Some 5"
proof -
  let ?as = "[K_Task, K_StartApp 5 2, K_Return, K_Destroy, K_Task]"
  define lib :: "(string \<times> string) list connection_library" where
    "lib = \<lparr>cl_base = example_library, cl_line = [], cl_new_edk = True, cl_PassClientHandle = (\<lambda>_. None), cl_CreateChannel = (\<lambda>_. None),
      cl_MojoWait = (\<lambda>_. MOJO_RESULT_OK), cl_MojoReadMessage = (\<lambda>_ _. (MOJO_RESULT_OK, [])) \<rparr>"
  obtain c0 where c0: "WaitForApplicationRequest lib (Some 7) RunnerConnection_new = Inr c0" "conn_state c0 = Waiting_for_request"
    "c0 = start_waiting (Some 7) RunnerConnection_new" by (simp add: WaitForApplicationRequest_def start_waiting_def)
  obtain c where c: "connection_acts ?as c0 = Some (Inr c)" "conn_state c = Connected"
    by (simp add: c0(3) RunnerConnection_new_def connection_defs)
  then have "conn_request c = Some 5" using connection_delivers_request [OF c0(1) c(1)] c0(2) c(2) by simp
  then show ?thesis using c0(1) c by blast
qed

end
