(* ===== verification/Application_Setup.thy ===== *)
theory Application_Setup
  imports Process_Host
begin

text \<open>
  The glue to the browser (\<open>content/common/mojo/channel_init.cc\<close>, \<open>content/browser/mojo/mojo_application_host.cc\<close>,
  \<open>content/child/mojo/mojo_application.cc\<close>): a pipe between the browser and a child over a pair of sockets, one of which is sent to the child in a message
  of the browser's own.
\<close>

section \<open>The initialisation of a channel\<close>

text \<open>
  Channels of the old system layer and pipes are numbers.  The weak pointers of the callbacks see whether the object still exists
  (\<open>ci_alive\<close>).  The last fields are the world: callbacks that are not run yet, channels that were made, destroyed or warned, the
  pipes that the owner's callback got and those that were closed because nobody was left.
\<close>

datatype ci_callback = Created_channel nat | Created_pipe MojoHandle

record ChannelInit =
  ci_alive :: bool
  ci_channel_info :: "nat option"
  ci_ipc_support :: bool
  ci_files :: "int list"
  ci_pipe_requests :: nat
  ci_callbacks :: "ci_callback list"
  ci_channels :: "nat list"
  ci_destroyed :: "nat list"
  ci_warned :: "nat list"
  ci_pipes :: "MojoHandle list"
  ci_closed_pipes :: "MojoHandle list"

definition ChannelInit_new :: ChannelInit where
  "ChannelInit_new = \<lparr>ci_alive = True, ci_channel_info = None, ci_ipc_support = False, ci_files = [], ci_pipe_requests = 0, ci_callbacks = [],
     ci_channels = [], ci_destroyed = [], ci_warned = [], ci_pipes = [], ci_closed_pipes = []\<rparr>"

definition ChannelInit_destroy :: "ChannelInit \<Rightarrow> ChannelInit" where
  "ChannelInit_destroy ci =
     ci\<lparr>ci_alive := False, ci_destroyed := ci_destroyed ci @ scoped (ci_channel_info ci), ci_channel_info := None\<rparr>"

text \<open>\<open>channel\<close> and \<open>pipe\<close> are what \<open>CreateChannel\<close> of the old system layer makes and returns; its callback comes later.\<close>

definition ChannelInit_Init :: "bool \<Rightarrow> nat \<Rightarrow> MojoHandle \<Rightarrow> int \<Rightarrow> ChannelInit \<Rightarrow> ChannelInit" where
  "ChannelInit_Init new_edk channel pipe file ci =
     (if new_edk then ci\<lparr>ci_files := ci_files ci @ [file], ci_pipe_requests := Suc (ci_pipe_requests ci)\<rparr>
      else ci\<lparr>ci_files := ci_files ci @ [file], ci_channels := ci_channels ci @ [channel],
              ci_callbacks := ci_callbacks ci @ [Created_channel channel], ci_pipes := ci_pipes ci @ [pipe]\<rparr>)"

definition ChannelInit_WillDestroySoon :: "ChannelInit \<Rightarrow> ChannelInit" where
  "ChannelInit_WillDestroySoon ci = ci\<lparr>ci_warned := ci_warned ci @ scoped (ci_channel_info ci)\<rparr>"

definition CallMessagePipeCallbackOnThread :: "MojoHandle \<Rightarrow> ChannelInit \<Rightarrow> ChannelInit" where
  "CallMessagePipeCallbackOnThread pipe ci = ci\<lparr>ci_callbacks := ci_callbacks ci @ [Created_pipe pipe]\<rparr>"

definition OnCreatedChannel :: "nat \<Rightarrow> ChannelInit \<Rightarrow> ChannelInit" where
  "OnCreatedChannel channel ci =
     (if \<not> ci_alive ci then ci\<lparr>ci_destroyed := ci_destroyed ci @ [channel]\<rparr>
      else ci\<lparr>ci_channel_info := Some channel, ci_ipc_support := True\<rparr>)"

text \<open>A callback on an object that is gone is not run, and the pipe that is passed to it is closed.\<close>

definition OnCreateMessagePipe :: "MojoHandle \<Rightarrow> ChannelInit \<Rightarrow> ChannelInit" where
  "OnCreateMessagePipe pipe ci =
     (if \<not> ci_alive ci then ci\<lparr>ci_closed_pipes := ci_closed_pipes ci @ [pipe]\<rparr>
      else ci\<lparr>ci_ipc_support := True, ci_pipes := ci_pipes ci @ [pipe]\<rparr>)"

fun run_ci_callback :: "ci_callback \<Rightarrow> ChannelInit \<Rightarrow> ChannelInit" where
  "run_ci_callback (Created_channel channel) ci = OnCreatedChannel channel ci"
| "run_ci_callback (Created_pipe pipe) ci = OnCreateMessagePipe pipe ci"

text \<open>\<open>Init\<close> is called once.\<close>

datatype ci_action = I_Init nat MojoHandle int | I_Pipe MojoHandle | I_Callback | I_WillDestroySoon | I_Destroy

fun ci_act :: "bool \<Rightarrow> ci_action \<Rightarrow> ChannelInit \<Rightarrow> ChannelInit option" where
  "ci_act new_edk (I_Init channel pipe file) ci =
     (if ci_alive ci \<and> ci_files ci = [] then Some (ChannelInit_Init new_edk channel pipe file ci) else None)"
| "ci_act new_edk (I_Pipe pipe) ci =
     (if ci_pipe_requests ci = 0 then None
      else Some (CallMessagePipeCallbackOnThread pipe (ci\<lparr>ci_pipe_requests := ci_pipe_requests ci - 1\<rparr>)))"
| "ci_act new_edk I_Callback ci =
     (case ci_callbacks ci of [] \<Rightarrow> None | x # xs \<Rightarrow> Some (run_ci_callback x (ci\<lparr>ci_callbacks := xs\<rparr>)))"
| "ci_act new_edk I_WillDestroySoon ci = (if ci_alive ci then Some (ChannelInit_WillDestroySoon ci) else None)"
| "ci_act new_edk I_Destroy ci = (if ci_alive ci then Some (ChannelInit_destroy ci) else None)"

fun ci_acts :: "bool \<Rightarrow> ci_action list \<Rightarrow> ChannelInit \<Rightarrow> ChannelInit option" where
  "ci_acts new_edk [] ci = Some ci"
| "ci_acts new_edk (a # as) ci = Option.bind (ci_act new_edk a ci) (ci_acts new_edk as)"

fun pending_channel :: "ci_callback \<Rightarrow> nat list" where
  "pending_channel (Created_channel c) = [c]"
| "pending_channel (Created_pipe p) = []"

text \<open>
  Every channel waits for its callback, is held, or was destroyed, exactly one of them; and an object that is gone holds none.
\<close>

definition channels_kept :: "ChannelInit \<Rightarrow> bool" where
  "channels_kept ci \<longleftrightarrow> mset (ci_channels ci) = mset (concat (map pending_channel (ci_callbacks ci))) + mset (scoped (ci_channel_info ci)) + mset (ci_destroyed ci) \<and>
     (\<not> ci_alive ci \<longrightarrow> ci_channel_info ci = None) \<and> (ci_files ci = [] \<longrightarrow> ci_channels ci = []) \<and> length (ci_channels ci) \<le> 1"

lemmas ci_defs = ChannelInit_Init_def ChannelInit_WillDestroySoon_def ChannelInit_destroy_def CallMessagePipeCallbackOnThread_def OnCreatedChannel_def
  OnCreateMessagePipe_def

lemma run_ci_callback_keeps: "channels_kept ci \<Longrightarrow> ci_callbacks ci = x # xs \<Longrightarrow> channels_kept (run_ci_callback x (ci\<lparr>ci_callbacks := xs\<rparr>))"
proof (cases x)
  case (Created_channel c)
  assume k: "channels_kept ci" "ci_callbacks ci = x # xs"
  then have "size (mset (ci_channels ci)) = size (mset (concat (map pending_channel (x # xs))) + mset (scoped (ci_channel_info ci)) + mset (ci_destroyed ci))"
    "length (ci_channels ci) \<le> 1" by (simp_all add: channels_kept_def)
  then have "length (scoped (ci_channel_info ci)) = 0" unfolding size_union size_mset using Created_channel by simp
  then have "ci_channel_info ci = None" by (cases "ci_channel_info ci") simp_all
  then show ?thesis using k Created_channel by (auto simp: channels_kept_def ci_defs)
qed (auto simp: channels_kept_def ci_defs)

lemma ci_act_keeps: "ci_act e a ci = Some ci' \<Longrightarrow> channels_kept ci \<Longrightarrow> channels_kept ci'"
proof (cases a)
  case I_Callback
  assume "ci_act e a ci = Some ci'" "channels_kept ci"
  moreover from this I_Callback obtain x xs where "ci_callbacks ci = x # xs" "ci' = run_ci_callback x (ci\<lparr>ci_callbacks := xs\<rparr>)"
    by (auto split: list.splits)
  ultimately show ?thesis using run_ci_callback_keeps by blast
qed (auto simp: channels_kept_def ci_defs split: if_splits)

lemma ci_acts_keep: "ci_acts e as ci = Some ci' \<Longrightarrow> channels_kept ci \<Longrightarrow> channels_kept ci'"
proof (induction as arbitrary: ci)
  case (Cons a as)
  then obtain ci1 where "ci_act e a ci = Some ci1" "ci_acts e as ci1 = Some ci'" by (auto simp: bind_eq_Some_conv)
  then show ?case using Cons ci_act_keeps by blast
qed simp

text \<open>
  A channel is destroyed once.  Whether the object that initialises it is destroyed before or after the channel has been
  established, no channel is destroyed twice, and when the object is gone and no callback waits, every channel that was
  made has been destroyed.
\<close>

theorem channel_destroyed_once:
  assumes "ci_acts e as ChannelInit_new = Some ci"
  shows "mset (ci_destroyed ci) \<subseteq># mset (ci_channels ci) \<and>
    (\<not> ci_alive ci \<and> ci_callbacks ci = [] \<longrightarrow> mset (ci_destroyed ci) = mset (ci_channels ci))"
proof -
  have "channels_kept ChannelInit_new" by (simp add: channels_kept_def ChannelInit_new_def)
  from ci_acts_keep [OF assms this] show ?thesis by (auto simp: channels_kept_def)
qed

theorem channel_destroyed_once_witness:
  "\<exists>ci. ci_acts False [I_Init 4 7 9, I_Destroy, I_Callback] ChannelInit_new = Some ci \<and> mset (ci_destroyed ci) = {#4#}"
proof -
  obtain ci where ci: "ci_acts False [I_Init 4 7 9, I_Destroy, I_Callback] ChannelInit_new = Some ci" "ci_channels ci = [4]"
    "\<not> ci_alive ci" "ci_callbacks ci = []" by (simp add: ChannelInit_new_def ci_defs)
  then show ?thesis using channel_destroyed_once [OF ci(1)] by simp
qed


section \<open>The two processes\<close>

text \<open>
  \<open>MojoApplicationHost\<close>, in the browser.  \<open>app_services\<close> are what its \<open>ApplicationSetup\<close> has bound the service registry to: the provider
  it offers and the remote one.
\<close>

record MojoApplicationHost =
  mah_channel_init :: ChannelInit
  mah_client_handle :: "int option"
  did_activate :: bool
  application_setup :: "MojoHandle option"
  mah_io_task_runner_override :: "nat option"
  mah_io_task_runner :: "nat option"
  mah_services :: "(nat \<times> nat) list"

definition MojoApplicationHost_new :: MojoApplicationHost where
  "MojoApplicationHost_new = \<lparr>mah_channel_init = ChannelInit_new, mah_client_handle = None, did_activate = False, application_setup = None,
     mah_io_task_runner_override = None, mah_io_task_runner = None, mah_services = []\<rparr>"

text \<open>\<open>io_runner\<close> is the task runner of the browser's I/O thread, and \<open>pair\<close> the new pair of sockets.\<close>

definition MAH_Init ::
  "bool \<Rightarrow> nat \<Rightarrow> nat \<Rightarrow> MojoHandle \<Rightarrow> PlatformChannelPair \<Rightarrow> MojoApplicationHost \<Rightarrow> bool \<times> MojoApplicationHost" where
  "MAH_Init new_edk io_runner channel pipe pair h =
     (let io_task_runner = (case mah_io_task_runner_override h of Some r \<Rightarrow> r | None \<Rightarrow> io_runner);
          file = (case server_handle pair of Some fd \<Rightarrow> fd | None \<Rightarrow> - 1)
      in (True, h\<lparr>mah_client_handle := client_handle pair, mah_io_task_runner := Some io_task_runner,
                  mah_channel_init := ChannelInit_Init new_edk channel pipe file (mah_channel_init h)\<rparr>))"

text \<open>The file that is sent to the child, \<open>- 1\<close> without one; \<open>send\<close> is whether the message could be sent.\<close>

definition MAH_Activate :: "bool \<Rightarrow> MojoApplicationHost \<Rightarrow> int \<times> MojoApplicationHost" where
  "MAH_Activate send h =
     (case mah_client_handle h of Some fd \<Rightarrow> fd | None \<Rightarrow> - 1, h\<lparr>mah_client_handle := None, did_activate := send\<rparr>)"

definition MAH_WillDestroySoon :: "MojoApplicationHost \<Rightarrow> MojoApplicationHost" where
  "MAH_WillDestroySoon h = h\<lparr>mah_channel_init := ChannelInit_WillDestroySoon (mah_channel_init h)\<rparr>"

definition OverrideIOTaskRunnerForTest :: "nat \<Rightarrow> MojoApplicationHost \<Rightarrow> MojoApplicationHost" where
  "OverrideIOTaskRunnerForTest r h = h\<lparr>mah_io_task_runner_override := Some r\<rparr>"

definition MAH_OnMessagePipeCreated :: "MojoHandle \<Rightarrow> MojoApplicationHost \<Rightarrow> MojoApplicationHost" where
  "MAH_OnMessagePipeCreated pipe h = h\<lparr>application_setup := Some pipe\<rparr>"

definition ExchangeServiceProviders :: "nat \<Rightarrow> nat \<Rightarrow> MojoApplicationHost \<Rightarrow> MojoApplicationHost" where
  "ExchangeServiceProviders services exposed_services h = h\<lparr>mah_services := mah_services h @ [(services, exposed_services)]\<rparr>"

text \<open>\<open>MojoApplication\<close>, in the child.  \<open>ma_sent\<close> are the providers sent to the host: the request for its services and the child's own.\<close>

record MojoApplication =
  ma_channel_init :: ChannelInit
  ma_sent :: "(MojoHandle \<times> nat \<times> nat) list"
  ma_services :: "(nat \<times> nat) list"

definition MojoApplication_new :: MojoApplication where
  "MojoApplication_new = \<lparr>ma_channel_init = ChannelInit_new, ma_sent = [], ma_services = []\<rparr>"

definition OnActivate :: "bool \<Rightarrow> nat \<Rightarrow> MojoHandle \<Rightarrow> int \<Rightarrow> MojoApplication \<Rightarrow> MojoApplication" where
  "OnActivate new_edk channel pipe file a =
     a\<lparr>ma_channel_init := ChannelInit_Init new_edk channel pipe file (ma_channel_init a)\<rparr>"

datatype browser_message = MojoMsg_Activate int | Other_message

definition MA_OnMessageReceived :: "bool \<Rightarrow> nat \<Rightarrow> MojoHandle \<Rightarrow> browser_message \<Rightarrow> MojoApplication \<Rightarrow> bool \<times> MojoApplication" where
  "MA_OnMessageReceived new_edk channel pipe msg a =
     (case msg of MojoMsg_Activate file \<Rightarrow> (True, OnActivate new_edk channel pipe file a) | Other_message \<Rightarrow> (False, a))"

text \<open>The child makes two connections to service providers, \<open>services\<close> and \<open>exposed\<close>, keeps one end of each and sends the others.\<close>

definition MA_OnMessagePipeCreated :: "nat \<Rightarrow> nat \<Rightarrow> MojoHandle \<Rightarrow> MojoApplication \<Rightarrow> MojoApplication" where
  "MA_OnMessagePipeCreated services exposed pipe a =
     a\<lparr>ma_sent := ma_sent a @ [(pipe, services, exposed)], ma_services := ma_services a @ [(exposed, services)]\<rparr>"

text \<open>
  The set-up of an application: the browser and the child initialise their channels on the two ends of one pair of sockets, and the
  end that is sent is not kept.
\<close>

theorem application_setup_connects:
  assumes "MAH_Init e io ch p pair MojoApplicationHost_new = (ok, h)" "MAH_Activate True h = (file, h')"
    and "MA_OnMessageReceived e ch' p' (MojoMsg_Activate file) MojoApplication_new = (handled, a)"
    and "server_handle pair = Some fd0" "client_handle pair = Some fd1"
  shows "ok \<and> handled \<and> did_activate h' \<and> mah_client_handle h' = None \<and>
    ci_files (mah_channel_init h') = [fd0] \<and> ci_files (ma_channel_init a) = [fd1]"
  using assms
  by (auto simp: MAH_Init_def MAH_Activate_def MA_OnMessageReceived_def OnActivate_def ChannelInit_Init_def ChannelInit_new_def
      MojoApplicationHost_new_def MojoApplication_new_def Let_def)

end
