(* ===== verification/Spec2Isabelle.thy ===== *)
theory Spec2Isabelle
  imports Platform_Channel Channel_Win Win_Relay Bootstrap Core_Transfer Core_Types Embedder_Entry Runner_Connection Application_Setup
begin

text \<open>
  A verification development of the ports library (\<open>src/mojo/edk/system/ports\<close>) and of the system layer of
  the Mojo EDK on top of it (\<open>src/mojo/edk/system\<close>), with the embedder and the code that launches processes (\<open>src/mojo/edk/embedder\<close>,
  \<open>src/mojo/shell/runner\<close>, \<open>src/content\<close>).

  \<^bold>\<open>The program.\<close>  A \<^emph>\<open>node\<close> holds \<^emph>\<open>ports\<close>, which come in pairs; a message sent on a port arrives, in order, at
  its peer, wherever that is.  A port may itself be sent in a message: it then becomes a proxy that forwards what
  still arrives until a protocol of notices takes it out of the ring.  A \<^emph>\<open>node controller\<close> is the delegate of a
  node and connects it to other nodes by \<^emph>\<open>node channels\<close>, typed requests over a byte stream with attached
  platform handles (\<^emph>\<open>channels\<close>).  \<^emph>\<open>Core\<close> implements the system calls: a \<^emph>\<open>table of handles\<close> names
  \<^emph>\<open>dispatchers\<close>, which are ends of message pipes (a port each), ends of data pipes (a port for control
  messages and a ring in shared memory), shared buffers, wrapped platform handles and wait sets.  Handles are
  sent in the messages of message pipes: their dispatchers are serialised into ports, bytes and platform handles.

  \<^bold>\<open>How it is modelled.\<close>  A class is a record (or a datatype for a class hierarchy), a method a function that
  returns the new state; integers are words of their width; a failed \<open>CHECK\<close>, a null pointer or an access outside
  an array is a value of the type \<open>fault\<close>, on the left of a sum.  Objects that are shared live in stores: ports in
  \<open>port_at\<close> of a node, channels in \<open>channels\<close> of a controller, dispatchers in \<open>core_objects\<close> of a process.  Each
  call runs as one step: locks are not modelled, and posted tasks only where a theory says so.  A node records its calls on the delegate and
  the controller carries them out when the operation has returned.  Code outside the repository (shared memory
  and its mappings, awakable lists, predicates on signals, public structures, random names) is a parameter: the
  record \<open>platform\<close>, recorded calls, or an argument.

  \<^bold>\<open>Theories, from the bottom.\<close>

  \<^item> \<open>Ports_Prelude\<close>, \<open>Byte_Layout\<close>: collections of facts, tables, sequences of words; fixed-size layouts of data
  in memory, with the locale \<open>codec\<close> and its interpretations.
  \<^item> \<open>Ports_Name\<close>, \<open>Ports_Message\<close>, \<open>Ports_Wire\<close> (\<open>name\<close>, \<open>event.h\<close>, \<open>message\<close>): names and messages; every
  message survives encoding and \<open>Message::Parse\<close>.
  \<^item> \<open>Std_Heap\<close>, \<open>Message_Queue\<close>, \<open>Queue_Order\<close> (\<open>message_queue\<close>): the heap functions of the standard library
  (locale \<open>std_heap\<close>), the queue of a port, and the order in which messages leave it whatever the order in
  which they arrived (locale \<open>sequenced_queue\<close>).
  \<^item> \<open>Ports_Node\<close>, \<open>Node_Events\<close> (\<open>node\<close>, \<open>port\<close>, \<open>port_ref\<close>): every operation and event handler of a node.
  \<open>Node_Inv\<close>: the invariant of a node under every operation and any incoming message.  \<open>Node_Props\<close>,
  \<open>Node_Protocol\<close>: the effects of the operations, transfers of ports, proxies and their removal.
  \<open>Local_Pair\<close>: two ports of one node refine a queue.
  \<^item> \<open>Channel\<close>, \<open>Channel_Posix\<close>, \<open>Channel_Win\<close>, \<open>Node_Channel\<close> (\<open>channel\<close>, \<open>channel_posix\<close>, \<open>channel_win\<close>, \<open>node_channel\<close>):
  framing of messages, reading and writing on a socket that takes or gives any number of bytes, or by overlapped
  operations, in order; requests between nodes.
  \<^item> \<open>Platform_Channel\<close> (\<open>embedder/platform_channel_utils_posix\<close>, \<open>embedder/platform_channel_pair_posix\<close>): descriptors in
  control messages, and the socket that a parent hands to a child.
  \<^item> \<open>Node_Controller\<close>, \<open>Controller_Props\<close> (\<open>node_controller\<close>, \<open>ports_message\<close>): routing to peers, the pump for
  messages to itself, the connection of nodes; consistency of the routing tables, delivery from one controller to
  another through the encodings, notices of closed ports.
  \<open>Win_Relay\<close>: on Windows handles are duplicated between processes by the parent, which relays the messages.
  \<^item> \<open>Mojo_Types\<close>, \<open>Handle_Table\<close> (\<open>handle_table\<close>): results, signals and outcomes; handles and their transit.
  \<^item> \<open>Data_Pipe\<close>, \<open>Data_Pipe_Ring\<close>, \<open>Data_Pipe_Queue\<close>, \<open>Data_Pipe_Props\<close> (\<open>data_pipe_producer_dispatcher\<close>,
  \<open>data_pipe_consumer_dispatcher\<close>, \<open>data_pipe_control_message\<close>): a data pipe refines a bounded queue of bytes, an
  end stays inside its ring whatever its peer sends, two-phase accesses, transfers of an end.
  \<^item> \<open>Buffer_Dispatchers\<close>, \<open>Message_Pipe\<close>, \<open>Wait_Set\<close>, \<open>Dispatchers\<close> (\<open>shared_buffer_dispatcher\<close>,
  \<open>platform_handle_dispatcher\<close>, \<open>message_pipe_dispatcher\<close>, \<open>wait_set_dispatcher\<close>, \<open>dispatcher\<close>): the dispatchers
  one by one, then the virtual calls on the store of all of them.  A wait set relies on the dispatchers it
  waits on only through the locale \<open>waitable\<close>.
  \<^item> \<open>Core_Messages\<close>, \<open>Core_System\<close> (\<open>MessagePipeDispatcher::WriteMessage\<close> and \<open>ReadMessage\<close>, \<open>core\<close>): messages that
  carry dispatchers, and the system calls.  \<open>Wait_Props\<close>: waiting leaves no waiter behind; every member of a wait set
  is waited on, woken or returned, ready members are returned in order and again while they stay ready.
  \<open>Pipe_Refinement\<close>: the system calls on the two handles of a message pipe refine two queues of messages.
  \<open>Core_Props\<close>: sending handles is all or nothing, and where the code loses them.  \<open>Core_Transfer\<close>: handles that
  are sent arrive, in order, as handles to equal dispatchers.  \<open>Core_Types\<close>: every handle names a dispatcher that
  exists and keeps its class along every run of system calls.
  \<^item> \<open>Bootstrap\<close> (\<open>remote_message_pipe_bootstrap\<close>): the exchange of a token that connects two processes.

  \<^item> \<open>Schedule\<close>: schedules of the actions of several threads, with the locale \<open>schedule\<close> that carries invariants and histories through them
  for the three theories below that interpret it.
  \<^item> \<open>Embedder_Entry\<close> (\<open>embedder\<close>, \<open>test_embedder\<close>, and the ends of \<open>core\<close> and \<open>node_controller\<close>): the entry points of the embedder and the role of a
  process; the node controller is deleted once, by whoever owns it last.
  \<^item> \<open>Process_Host\<close>, \<open>Child_Process\<close> (\<open>shell/runner/host\<close>): launching a child process and its two ends, as schedules of the threads
  that take part: the host closes every pipe when it is joined, the child finds the channel, the token and the application on its command line and runs
  one application; the orders in which launching goes wrong.  \<open>Runner_Connection\<close> (\<open>shell/runner/child\<close>): the same for an
  application that connects to its runner itself.
  \<^item> \<open>Application_Setup\<close> (\<open>content\<close>): the initialisation of channels between a browser and its children.

  \<^bold>\<open>Bounds and fuel.\<close>  Operations that send or close may fill the controller's queue of messages to itself, and
  \<open>AcceptIncomingMessages\<close> empties it in rounds; \<open>fuel\<close> bounds the rounds, and \<open>None\<close> is the result when it is
  used up, because nothing in the code bounds them for arbitrary peers.  The refinement theorems hold for every
  amount of fuel, since a pair of ports of one node causes no such message, and closing a port takes two rounds.
  All other loops are recursions that are proved to end; the reader of a POSIX channel is the exception, where
  the code itself need not end (\<open>reader_spins\<close>).  The refinements assume that fewer than \<open>2 ^ 64\<close> messages are
  sent on a port, because the code has no answer to a wrap-around of its sequence numbers, and that lengths fit
  the 32-bit fields in which the code keeps them.

  \<^bold>\<open>Not modelled.\<close>  The reader of \<open>channel.cc\<close> with handles inside the payload, as on Windows (it is modelled with the
  handles of POSIX); the start of threads and their message loops, except for the tasks of the process host, the child and the life time of the controller;
  the sandbox itself; the main thread of the browser's children (\<open>src/content/child/child_thread_impl.cc\<close>), which forwards messages to code that is not in the
  repository; tests.
\<close>

end
